(* ===== verification/Prelude.thy ===== *)
theory Prelude
  imports Main "HOL-Library.List_Lexorder" "HOL-Library.Char_ord" "HOL-Library.State_Monad"
begin

text \<open>
  Shared vocabulary of the development: exceptions as values, ordered associative containers
  (\<open>std::map\<close>, \<open>std::set\<close> as the sources iterate over them), the C++ string operations the
  sources call (\<open>find\<close>, \<open>substr\<close>, \<open>find_first_not_of\<close>, \<open>std::isspace\<close>), decimal parsing as
  \<open>std::stoi\<close> and \<open>std::from_chars\<close> do it, and the rule collections used by the component
  theories. Nothing in this theory models a file of the repository; it models the part of the
  language and its standard library that the sources use.
\<close>

named_theorems fic_simps \<open>unfolding rules of the component definitions\<close>
named_theorems fic_intros \<open>introduction rules of the component invariants\<close>

section \<open>Exceptions and results\<close>

text \<open>A C++ exception that leaves a call: its class and its message, or an object of another type.\<close>

datatype exn = InvalidArgument string | OutOfRange string | RuntimeError string
  | LogicError string | UnknownException

text \<open>The text \<open>what()\<close> returns, for the classes derived from \<open>std::exception\<close>.\<close>

fun exn_what :: "exn \<Rightarrow> string option" where
  "exn_what (InvalidArgument m) = Some m"
| "exn_what (OutOfRange m) = Some m"
| "exn_what (RuntimeError m) = Some m"
| "exn_what (LogicError m) = Some m"
| "exn_what UnknownException = None"

text \<open>Sequencing of calls that may throw.\<close>

definition and_then :: "'e + 'a \<Rightarrow> ('a \<Rightarrow> 'e + 'b) \<Rightarrow> 'e + 'b" where
  "and_then x f = (case x of Inl e \<Rightarrow> Inl e | Inr v \<Rightarrow> f v)"

lemma and_then_simps [simp]: "and_then (Inl e) f = Inl e" "and_then (Inr v) f = f v"
  by (simp_all add: and_then_def)

lemma and_then_Inr: "and_then x f = Inr y \<longleftrightarrow> (\<exists>v. x = Inr v \<and> f v = Inr y)"
  by (cases x) simp_all

section \<open>Ordered maps\<close>

text \<open>
  A \<open>std::map\<close> is iterated in key order, so it is kept as an association list whose keys
  increase strictly. \<open>emplace\<close> keeps an entry that is already there, \<open>operator[]\<close> with an
  assignment replaces it.
\<close>

type_synonym ('k, 'v) omap = "('k \<times> 'v) list"

definition omap_wf :: "('k::linorder, 'v) omap \<Rightarrow> bool" where
  "omap_wf m \<longleftrightarrow> sorted_wrt (<) (map fst m)"

definition omap_find :: "('k, 'v) omap \<Rightarrow> 'k \<Rightarrow> 'v option" where
  "omap_find m k = map_of m k"

fun omap_assign :: "'k::linorder \<Rightarrow> 'v \<Rightarrow> ('k, 'v) omap \<Rightarrow> ('k, 'v) omap" where
  "omap_assign k v [] = [(k, v)]"
| "omap_assign k v ((k', v') # m) =
     (if k < k' then (k, v) # (k', v') # m
      else if k = k' then (k, v) # m
      else (k', v') # omap_assign k v m)"

definition omap_emplace :: "'k::linorder \<Rightarrow> 'v \<Rightarrow> ('k, 'v) omap \<Rightarrow> ('k, 'v) omap" where
  "omap_emplace k v m = (case omap_find m k of Some _ \<Rightarrow> m | None \<Rightarrow> omap_assign k v m)"

lemma omap_wf_Nil [simp]: "omap_wf []"
  by (simp add: omap_wf_def)

lemma omap_wf_Cons [simp]:
  "omap_wf ((k, v) # m) \<longleftrightarrow> (\<forall>k' \<in> fst ` set m. k < k') \<and> omap_wf m"
  by (auto simp: omap_wf_def)

lemma omap_find_Nil [simp]: "omap_find [] k = None"
  by (simp add: omap_find_def)

lemma fst_set_omap_assign: "fst ` set (omap_assign k v m) = insert k (fst ` set m)"
  by (induction k v m rule: omap_assign.induct) auto

lemma omap_find_assign: "omap_find (omap_assign k v m) = (omap_find m)(k \<mapsto> v)"
  unfolding omap_find_def fun_eq_iff
  by (induction k v m rule: omap_assign.induct) auto

lemma omap_wf_assign: "omap_wf m \<Longrightarrow> omap_wf (omap_assign k v m)"
proof (induction k v m rule: omap_assign.induct)
  case (2 k v k' v' m)
  then show ?case
    by (auto simp: fst_set_omap_assign intro: order_less_trans)
qed simp

lemma omap_wf_emplace: "omap_wf m \<Longrightarrow> omap_wf (omap_emplace k v m)"
  by (simp add: omap_emplace_def omap_wf_assign split: option.splits)

lemma omap_find_emplace:
  "omap_find (omap_emplace k v m) k' =
     (if k' = k \<and> omap_find m k = None then Some v else omap_find m k')"
  by (auto simp: omap_emplace_def omap_find_assign split: option.splits)

lemma omap_find_Some_iff: "omap_wf m \<Longrightarrow> omap_find m k = Some v \<longleftrightarrow> (k, v) \<in> set m"
proof -
  assume "omap_wf m"
  then have "distinct (map fst m)"
    by (auto simp: omap_wf_def strict_sorted_iff)
  then show ?thesis
    by (simp add: omap_find_def)
qed

lemma omap_find_SomeD: "omap_find m k = Some v \<Longrightarrow> (k, v) \<in> set m"
  by (simp add: omap_find_def map_of_SomeD)

lemma omap_find_SomeD': "Some v = omap_find m k \<Longrightarrow> (k, v) \<in> set m"
  by (rule omap_find_SomeD) simp

text \<open>
  The contract a client of a \<open>std::map\<close> relies on: what a lookup returns after an insertion,
  and that the entries are the graph of the lookup in strictly increasing key order.
\<close>

locale std_map =
  fixes find :: "'m \<Rightarrow> 'k::linorder \<Rightarrow> 'v option"
    and assign :: "'k \<Rightarrow> 'v \<Rightarrow> 'm \<Rightarrow> 'm"
    and emplace :: "'k \<Rightarrow> 'v \<Rightarrow> 'm \<Rightarrow> 'm"
    and entries :: "'m \<Rightarrow> ('k \<times> 'v) list"
    and invar :: "'m \<Rightarrow> bool"
  assumes find_assign: "find (assign k v m) = (find m)(k \<mapsto> v)"
    and emplace_old: "find m k = Some w \<Longrightarrow> emplace k v m = m"
    and emplace_new: "find m k = None \<Longrightarrow> emplace k v m = assign k v m"
    and invar_assign: "invar m \<Longrightarrow> invar (assign k v m)"
    and entries_sorted: "invar m \<Longrightarrow> sorted_wrt (<) (map fst (entries m))"
    and entries_find: "invar m \<Longrightarrow> (k, v) \<in> set (entries m) \<longleftrightarrow> find m k = Some v"
begin

lemma find_emplace:
  "find (emplace k v m) = (case find m k of None \<Rightarrow> (find m)(k \<mapsto> v) | Some _ \<Rightarrow> find m)"
  by (cases "find m k") (simp_all add: emplace_old emplace_new find_assign)

lemma invar_emplace: "invar m \<Longrightarrow> invar (emplace k v m)"
  by (cases "find m k") (simp_all add: emplace_old emplace_new invar_assign)

lemma emplace_idem: "emplace k v (emplace k w m) = emplace k w m"
proof -
  have "\<exists>u. find (emplace k w m) k = Some u"
    by (cases "find m k") (simp_all add: find_emplace)
  then show ?thesis using emplace_old by blast
qed

lemma distinct_keys: "invar m \<Longrightarrow> distinct (map fst (entries m))"
  using entries_sorted strict_sorted_iff by blast

lemma keys_dom:
  assumes "invar m"
  shows "set (map fst (entries m)) = dom (find m)"
proof -
  have "k \<in> fst ` set (entries m) \<longleftrightarrow> (\<exists>v. (k, v) \<in> set (entries m))" for k
    by force
  with entries_find [OF assms] show ?thesis by (auto simp: dom_def)
qed

end

interpretation om: std_map omap_find omap_assign omap_emplace "\<lambda>m. m" omap_wf
  by unfold_locales
     (auto simp: omap_find_assign omap_emplace_def omap_wf_assign omap_find_Some_iff,
      simp add: omap_wf_def)

section \<open>Strings\<close>

text \<open>\<open>std::isspace\<close> in the C locale.\<close>

definition is_space :: "char \<Rightarrow> bool" where
  "is_space c \<longleftrightarrow> c \<in> {CHR '' '', CHR 0x09, CHR 0x0A, CHR 0x0B, CHR 0x0C, CHR 0x0D}"

text \<open>The character set \<open>" \t\r\n"\<close> the trimming helpers of the sources use.\<close>

definition is_blank :: "char \<Rightarrow> bool" where
  "is_blank c \<longleftrightarrow> c \<in> {CHR '' '', CHR 0x09, CHR 0x0D, CHR 0x0A}"

lemma is_blank_space: "is_blank c \<Longrightarrow> is_space c"
  by (auto simp: is_blank_def is_space_def)

text \<open>Removing the leading and trailing characters of a class.\<close>

definition strip :: "(char \<Rightarrow> bool) \<Rightarrow> string \<Rightarrow> string" where
  "strip P s = rev (dropWhile P (rev (dropWhile P s)))"

lemma strip_Nil [simp]: "strip P [] = []"
  by (simp add: strip_def)

lemma strip_id:
  assumes "s \<noteq> [] \<Longrightarrow> \<not> P (hd s) \<and> \<not> P (last s)"
  shows "strip P s = s"
proof (cases "s = []")
  case False
  with assms have "dropWhile P s = s" by (cases s) auto
  moreover from False assms have "dropWhile P (rev s) = rev s"
    by (cases s rule: rev_cases) auto
  ultimately show ?thesis by (simp add: strip_def)
qed simp

text \<open>
  \<open>find_char c s\<close> splits \<open>s\<close> at the first occurrence of \<open>c\<close>: the text before it and the text
  after it; \<open>None\<close> is \<open>std::string::npos\<close>.
\<close>

fun find_char :: "char \<Rightarrow> string \<Rightarrow> (string \<times> string) option" where
  "find_char c [] = None"
| "find_char c (x # xs) =
     (if x = c then Some ([], xs)
      else map_option (\<lambda>(a, b). (x # a, b)) (find_char c xs))"

lemma find_char_None [simp]: "find_char c s = None \<longleftrightarrow> c \<notin> set s"
  by (induction s) auto

lemma find_char_Some: "find_char c s = Some (a, b) \<longleftrightarrow> s = a @ c # b \<and> c \<notin> set a"
proof (induction s arbitrary: a)
  case (Cons x s)
  then show ?case by (cases a) auto
qed simp

lemma find_char_append [simp]: "c \<notin> set a \<Longrightarrow> find_char c (a @ c # b) = Some (a, b)"
  by (simp add: find_char_Some)

text \<open>\<open>s.find(d)\<close> for a string \<open>d\<close>: the text before the first occurrence and the text after it.\<close>

fun find_sub :: "string \<Rightarrow> string \<Rightarrow> (string \<times> string) option" where
  "find_sub d [] = (if d = [] then Some ([], []) else None)"
| "find_sub d (c # cs) =
     (if take (length d) (c # cs) = d then Some ([], drop (length d) (c # cs))
      else map_option (\<lambda>(a, b). (c # a, b)) (find_sub d cs))"

lemma find_sub_Some: "find_sub d s = Some (a, b) \<Longrightarrow> s = a @ d @ b"
proof (induction s arbitrary: a)
  case (Cons c cs)
  then show ?case
  proof (cases "take (length d) (c # cs) = d")
    case True
    with Cons.prems have "a = []" "b = drop (length d) (c # cs)" by auto
    with True show ?thesis by (metis append_Nil append_take_drop_id)
  next
    case False
    with Cons show ?thesis by auto
  qed
qed (simp split: if_splits)

text \<open>The lines \<open>std::getline\<close> yields: the text between newlines, a final newline ends a line.\<close>

fun getlines_aux :: "string \<Rightarrow> string \<Rightarrow> string list" where
  "getlines_aux acc [] = (if acc = [] then [] else [rev acc])"
| "getlines_aux acc (c # cs) =
     (if c = CHR 0x0A then rev acc # getlines_aux [] cs else getlines_aux (c # acc) cs)"

definition getlines :: "string \<Rightarrow> string list" where
  "getlines s = getlines_aux [] s"

definition unlines :: "string list \<Rightarrow> string" where
  "unlines ls = concat (map (\<lambda>l. l @ [CHR 0x0A]) ls)"

lemma getlines_aux_line:
  "CHR 0x0A \<notin> set l \<Longrightarrow> getlines_aux acc (l @ CHR 0x0A # s) = (rev acc @ l) # getlines_aux [] s"
  by (induction l arbitrary: acc) auto

lemma getlines_unlines:
  "\<forall>l \<in> set ls. CHR 0x0A \<notin> set l \<Longrightarrow> getlines (unlines ls) = ls"
proof (induction ls)
  case (Cons l ls)
  then show ?case
    using getlines_aux_line [of l "[]" "unlines ls"]
    by (simp add: getlines_def unlines_def)
qed (simp add: getlines_def unlines_def)

section \<open>Decimal numbers\<close>

definition is_digit :: "char \<Rightarrow> bool" where
  "is_digit c \<longleftrightarrow> 48 \<le> (of_char c :: nat) \<and> (of_char c :: nat) \<le> 57"

definition digit_value :: "char \<Rightarrow> nat" where
  "digit_value c = of_char c - 48"

definition nat_of_digits :: "string \<Rightarrow> nat" where
  "nat_of_digits ds = foldl (\<lambda>n c. 10 * n + digit_value c) 0 ds"

fun digits_of_nat :: "nat \<Rightarrow> string" where
  "digits_of_nat n =
     (if n < 10 then [char_of (48 + n)]
      else digits_of_nat (n div 10) @ [char_of (48 + n mod 10)])"

declare digits_of_nat.simps [simp del]

definition digits_of_int :: "int \<Rightarrow> string" where
  "digits_of_int i = (if i < 0 then CHR ''-'' # digits_of_nat (nat (- i)) else digits_of_nat (nat i))"

lemma digit_char: "n < 10 \<Longrightarrow> is_digit (char_of (48 + n)) \<and> digit_value (char_of (48 + n)) = n"
  by (simp add: is_digit_def digit_value_def)

lemma digits_of_nat_digits: "\<forall>c \<in> set (digits_of_nat n). is_digit c"
proof (induction n rule: digits_of_nat.induct)
  case (1 n)
  show ?case
  proof (cases "n < 10")
    case True
    then show ?thesis by (subst digits_of_nat.simps) (simp add: digit_char)
  next
    case False
    with 1 have "\<forall>c \<in> set (digits_of_nat (n div 10)). is_digit c" by simp
    with False show ?thesis by (subst digits_of_nat.simps) (auto simp: digit_char)
  qed
qed

lemma digits_of_nat_nonempty [simp]: "digits_of_nat n \<noteq> []"
  by (subst digits_of_nat.simps) simp

lemma nat_of_digits_of_nat [simp]: "nat_of_digits (digits_of_nat n) = n"
proof (induction n rule: digits_of_nat.induct)
  case (1 n)
  show ?case
  proof (cases "n < 10")
    case True
    then show ?thesis
      by (subst digits_of_nat.simps) (simp add: nat_of_digits_def digit_char)
  next
    case False
    with 1 have "nat_of_digits (digits_of_nat (n div 10)) = n div 10" by simp
    with False show ?thesis
      by (subst digits_of_nat.simps) (simp add: nat_of_digits_def digit_char)
  qed
qed

end
