(* ===== verification/Json.thy ===== *)
theory Json
  imports Prelude
begin

text \<open>
  The value type of the third-party JSON library (\<open>nlohmann::json\<close>) as the sources observe it:
  the kinds they test with \<open>is_object\<close>, \<open>is_array\<close>, \<open>is_string\<close> and \<open>is_number_unsigned\<close>.
  The library's text functions are parameters of the definitions that call them: \<open>dump\<close>
  (serialization, which throws on a string that is not valid UTF-8) and \<open>parse\<close> (which throws
  on malformed text). Laws about them are hypotheses of the theorems that need them.
\<close>

datatype json = JNull | JBool bool | JUnsigned nat | JInteger int | JFloat
  | JString string | JArray "json list" | JObject "(string \<times> json) list"

type_synonym json_dump = "json \<Rightarrow> exn + string"
type_synonym json_parse = "string \<Rightarrow> exn + json"

definition json_get_string :: "json \<Rightarrow> string option" where
  "json_get_string j = (case j of JString s \<Rightarrow> Some s | _ \<Rightarrow> None)"

definition json_get_unsigned :: "json \<Rightarrow> nat option" where
  "json_get_unsigned j = (case j of JUnsigned n \<Rightarrow> Some n | _ \<Rightarrow> None)"

lemma json_get_simps [simp]:
  "json_get_string (JString s) = Some s"
  "json_get_unsigned (JUnsigned n) = Some n"
  by (simp_all add: json_get_string_def json_get_unsigned_def)

text \<open>
  The values the library reads back unchanged: a number that is not negative is read as an
  unsigned one, the members of an object are kept in key order, and floating-point numbers are
  left out.
\<close>

fun json_canonical :: "json \<Rightarrow> bool" where
  "json_canonical (JInteger i) \<longleftrightarrow> - (2 ^ 63) \<le> i \<and> i < 0"
| "json_canonical (JUnsigned n) \<longleftrightarrow> n < 2 ^ 64"
| "json_canonical JFloat \<longleftrightarrow> False"
| "json_canonical (JArray js) \<longleftrightarrow> (\<forall>j \<in> set js. json_canonical j)"
| "json_canonical (JObject ms) \<longleftrightarrow> omap_wf ms \<and> (\<forall>m \<in> set ms. json_canonical (snd m))"
| "json_canonical _ \<longleftrightarrow> True"

text \<open>The numbers of a value that was parsed are 64-bit integers.\<close>

fun json_words :: "json \<Rightarrow> bool" where
  "json_words (JInteger i) \<longleftrightarrow> - (2 ^ 63) \<le> i \<and> i < 2 ^ 63"
| "json_words (JUnsigned n) \<longleftrightarrow> n < 2 ^ 64"
| "json_words (JArray js) \<longleftrightarrow> (\<forall>j \<in> set js. json_words j)"
| "json_words (JObject ms) \<longleftrightarrow> (\<forall>m \<in> set ms. json_words (snd m))"
| "json_words _ \<longleftrightarrow> True"

definition words_only :: "json_parse \<Rightarrow> bool" where
  "words_only parse \<longleftrightarrow> (\<forall>s j. parse s = Inr j \<longrightarrow> json_words j)"

text \<open>
  The documented behaviour the round-trip theorems rely on: text produced by \<open>dump\<close> from such a
  value parses back to it.
\<close>

definition json_roundtrip :: "json_dump \<Rightarrow> json_parse \<Rightarrow> bool" where
  "json_roundtrip dump parse \<longleftrightarrow> (\<forall>j s. json_canonical j \<longrightarrow> dump j = Inr s \<longrightarrow> parse s = Inr j)"

text \<open>An object built from an initializer list or by \<open>operator[]\<close>: members in key order.\<close>

definition json_object :: "(string \<times> json) list \<Rightarrow> json" where
  "json_object ms = JObject (fold (\<lambda>(k, v). omap_assign k v) ms [])"

definition json_member :: "string \<Rightarrow> json \<Rightarrow> json option" where
  "json_member k j = (case j of JObject ms \<Rightarrow> omap_find ms k | _ \<Rightarrow> None)"

lemma omap_find_fold_assign:
  "omap_find (fold (\<lambda>(k, v). omap_assign k v) ms m) k =
     (case map_of (rev ms) k of Some v \<Rightarrow> Some v | None \<Rightarrow> omap_find m k)"
  by (induction ms arbitrary: m)
     (auto simp: omap_find_assign map_add_def split: option.splits)

lemma json_member_object: "json_member k (json_object ms) = map_of (rev ms) k"
  by (simp add: json_member_def json_object_def omap_find_fold_assign split: option.splits)

end
