(* ===== verification/PolicyValue.thy ===== *)
theory PolicyValue
  imports Json
begin

text \<open>
  The value types of policies (\<open>fic-policy/PolicyTypeValue\<close>): construction with its argument
  checks, the editor description, validation of a logical value, the conversion to the stored
  form and back. \<open>std::stoi\<close> and \<open>std::from_chars\<close> are modelled as the standard defines them.
  The lemmas show that a value type that could be constructed accepts its own default, that
  validation of a printed integer is exactly the range test, and that the stored form of a
  multi-line value converts back to the value.
\<close>

section \<open>Number conversions of the standard library\<close>

definition int_min :: int where "int_min = - 2147483648"
definition int_max :: int where "int_max = 2147483647"
definition uintmax_max :: nat where "uintmax_max = 18446744073709551615"

text \<open>
  \<open>std::stoi\<close>: leading white space and a sign are skipped, the longest digit sequence is
  converted, text after it is ignored; no digits is \<open>std::invalid_argument\<close>, a value outside
  \<open>int\<close> is \<open>std::out_of_range\<close>.
\<close>

definition stoi :: "string \<Rightarrow> exn + int" where
  "stoi s =
     (let t = dropWhile is_space s;
          (neg, u) = (case t of [] \<Rightarrow> (False, [])
                      | c # r \<Rightarrow> if c = CHR ''-'' then (True, r)
                                 else if c = CHR ''+'' then (False, r) else (False, t));
          ds = takeWhile is_digit u;
          n = (if neg then - int (nat_of_digits ds) else int (nat_of_digits ds))
      in if ds = [] then Inl (InvalidArgument ''stoi'')
         else if n < int_min \<or> int_max < n then Inl (OutOfRange ''stoi'')
         else Inr n)"

text \<open>
  \<open>std::from_chars\<close> for \<open>int\<close> and for \<open>std::uintmax_t\<close>: the number and the unread rest of the
  text; \<open>None\<close> is an error code other than \<open>std::errc{}\<close>. Only the signed form reads a minus.
\<close>

definition from_chars_int :: "string \<Rightarrow> (int \<times> string) option" where
  "from_chars_int s =
     (let (neg, u) = (case s of [] \<Rightarrow> (False, [])
                      | c # r \<Rightarrow> if c = CHR ''-'' then (True, r) else (False, s));
          ds = takeWhile is_digit u;
          n = (if neg then - int (nat_of_digits ds) else int (nat_of_digits ds))
      in if ds = [] \<or> n < int_min \<or> int_max < n then None
         else Some (n, dropWhile is_digit u))"

definition from_chars_uint :: "string \<Rightarrow> (nat \<times> string) option" where
  "from_chars_uint s =
     (let ds = takeWhile is_digit s; n = nat_of_digits ds
      in if ds = [] \<or> uintmax_max < n then None else Some (n, dropWhile is_digit s))"

section \<open>Value types\<close>

record policy_editor_spec =
  editor :: string
  spec_min :: "int option"
  spec_max :: "int option"
  possibleValues :: "string list"
  textDelimiter :: "string option"
  validator :: string

definition default_editor_spec :: policy_editor_spec where
  "default_editor_spec =
     \<lparr>editor = [], spec_min = None, spec_max = None, possibleValues = [],
      textDelimiter = None, validator = ''none''\<rparr>"

text \<open>
  One constructor per class. \<open>IntTV lo hi None\<close> is the integer type without a default
  (\<open>defaultPresent = false\<close>).
\<close>

datatype policy_type_value =
    IntTV int int "int option"
  | UnsignedTV nat nat nat
  | PossibleListTV "string list"
  | FixedTV "string option"
  | MultiLineTV string string string

definition IntPolicyTypeValue :: "int \<Rightarrow> int \<Rightarrow> exn + policy_type_value" where
  "IntPolicyTypeValue lo hi =
     (if lo \<ge> hi then Inl (InvalidArgument ''MAX must exceed MIN'') else Inr (IntTV lo hi None))"

definition IntPolicyTypeValueDefault :: "int \<Rightarrow> int \<Rightarrow> int \<Rightarrow> exn + policy_type_value" where
  "IntPolicyTypeValueDefault lo hi d =
     (if lo \<ge> hi then Inl (InvalidArgument ''MAX must exceed MIN'')
      else if d > hi \<or> d < lo then Inl (InvalidArgument ''DEFAULT VALUE outside [MIN;MAX]'')
      else Inr (IntTV lo hi (Some d)))"

definition UnsignedIntegerPolicyTypeValue :: "nat \<Rightarrow> nat \<Rightarrow> nat \<Rightarrow> exn + policy_type_value" where
  "UnsignedIntegerPolicyTypeValue lo hi d =
     (if lo \<ge> hi then Inl (InvalidArgument ''MAX must exceed MIN'')
      else if d < lo \<or> d > hi then Inl (InvalidArgument ''DEFAULT VALUE outside [MIN;MAX]'')
      else Inr (UnsignedTV lo hi d))"

definition PossibleListPolicyTypeValue :: "string list \<Rightarrow> exn + policy_type_value" where
  "PossibleListPolicyTypeValue xs =
     (if length xs = 0 then Inl (InvalidArgument ''empty list'') else Inr (PossibleListTV xs))"

definition FixedPolicyTypeValue :: "string \<Rightarrow> exn + policy_type_value" where
  "FixedPolicyTypeValue e =
     (if e = [] then Inl (InvalidArgument ''empty fixed value'') else Inr (FixedTV (Some e)))"

definition MultiLineTextPolicyTypeValue ::
    "string \<Rightarrow> string \<Rightarrow> string \<Rightarrow> policy_type_value" where
  "MultiLineTextPolicyTypeValue f t d = MultiLineTV f t d"

primrec hasDefaultValue :: "policy_type_value \<Rightarrow> bool" where
  "hasDefaultValue (IntTV lo hi d) = (d \<noteq> None)"
| "hasDefaultValue (UnsignedTV lo hi d) = True"
| "hasDefaultValue (PossibleListTV xs) = True"
| "hasDefaultValue (FixedTV e) = True"
| "hasDefaultValue (MultiLineTV f t d) = True"

primrec getDefaultValue :: "policy_type_value \<Rightarrow> string" where
  "getDefaultValue (IntTV lo hi d) = (case d of None \<Rightarrow> [] | Some n \<Rightarrow> digits_of_int n)"
| "getDefaultValue (UnsignedTV lo hi d) = digits_of_nat d"
| "getDefaultValue (PossibleListTV xs) = (case xs of [] \<Rightarrow> [] | x # _ \<Rightarrow> x)"
| "getDefaultValue (FixedTV e) = (case e of None \<Rightarrow> ''[FIXED_VALUE]'' | Some v \<Rightarrow> v)"
| "getDefaultValue (MultiLineTV f t d) = d"

primrec getEditorSpec :: "policy_type_value \<Rightarrow> policy_editor_spec" where
  "getEditorSpec (IntTV lo hi d) =
     default_editor_spec\<lparr>editor := ''spinbox'', spec_min := Some lo, spec_max := Some hi,
       validator := ''integer_range''\<rparr>"
| "getEditorSpec (UnsignedTV lo hi d) =
     default_editor_spec\<lparr>editor := ''lineedit'', validator := ''unsigned_integer''\<rparr>"
| "getEditorSpec (PossibleListTV xs) =
     default_editor_spec\<lparr>editor := ''combobox'', possibleValues := xs,
       validator := ''allowed_values''\<rparr>"
| "getEditorSpec (FixedTV e) = default_editor_spec\<lparr>editor := ''label''\<rparr>"
| "getEditorSpec (MultiLineTV f t d) =
     default_editor_spec\<lparr>editor := ''textedit'', textDelimiter := Some t\<rparr>"

text \<open>
  \<open>validate\<close>. The integer type with a default goes through \<open>std::stoi\<close>, whose exceptions it
  turns into \<open>false\<close>; the one without goes through \<open>std::from_chars\<close> and demands that all text
  was read.
\<close>

definition IntPolicyTypeValue_validate :: "int \<Rightarrow> int \<Rightarrow> int option \<Rightarrow> string \<Rightarrow> bool" where
  "IntPolicyTypeValue_validate lo hi d v =
     (if d = None
      then v \<noteq> [] \<and> (case from_chars_int v of None \<Rightarrow> False
                      | Some (n, rest) \<Rightarrow> rest = [] \<and> n \<ge> lo \<and> n \<le> hi)
      else if v = [] then False
      else (case stoi v of Inl e \<Rightarrow> False
            | Inr n \<Rightarrow> if n < lo \<or> n > hi then False else True))"

definition UnsignedIntegerPolicyTypeValue_validate :: "nat \<Rightarrow> nat \<Rightarrow> string \<Rightarrow> bool" where
  "UnsignedIntegerPolicyTypeValue_validate lo hi v =
     (if v = [] then False
      else (case from_chars_uint v of None \<Rightarrow> False
            | Some (n, rest) \<Rightarrow> rest = [] \<and> n \<ge> lo \<and> n \<le> hi))"

primrec tv_validate :: "policy_type_value \<Rightarrow> string \<Rightarrow> bool" where
  "tv_validate (IntTV lo hi d) v = IntPolicyTypeValue_validate lo hi d v"
| "tv_validate (UnsignedTV lo hi d) v = UnsignedIntegerPolicyTypeValue_validate lo hi v"
| "tv_validate (PossibleListTV xs) v = (v \<in> set xs)"
| "tv_validate (FixedTV e) v = (case e of None \<Rightarrow> True | Some x \<Rightarrow> v = x)"
| "tv_validate (MultiLineTV f t d) v = True"

primrec getIntrinsicValue :: "policy_type_value \<Rightarrow> string option" where
  "getIntrinsicValue (IntTV lo hi d) = None"
| "getIntrinsicValue (UnsignedTV lo hi d) = None"
| "getIntrinsicValue (PossibleListTV xs) = None"
| "getIntrinsicValue (FixedTV e) = e"
| "getIntrinsicValue (MultiLineTV f t d) = None"

text \<open>\<open>getPolicyRestrictionInfo\<close>, with the localization table as a parameter.\<close>

primrec getPolicyRestrictionInfo :: "(string \<Rightarrow> string) \<Rightarrow> policy_type_value \<Rightarrow> string" where
  "getPolicyRestrictionInfo getLang (IntTV lo hi d) =
     getLang ''[utils:policytypevalue][type:intpolicytypevalue]'' @ '' ['' @ digits_of_int lo @
     '';'' @ digits_of_int hi @ '']''"
| "getPolicyRestrictionInfo getLang (UnsignedTV lo hi d) =
     getLang ''[utils:policytypevalue][type:unsignedintegerpolicytypevalue]'' @ '' ['' @
     digits_of_nat lo @ '';'' @ digits_of_nat hi @ '']''"
| "getPolicyRestrictionInfo getLang (PossibleListTV xs) =
     getLang ''[utils:policytypevalue][type:possiblelistpolicytypevalue]'' @ [CHR 0x0A] @
     unlines xs"
| "getPolicyRestrictionInfo getLang (FixedTV e) =
     getLang ''[utils:policytypevalue][type:fixedpolicytypevalue]'' @
     (case e of None \<Rightarrow> [] | Some v \<Rightarrow> [CHR 0x0A] @ v)"
| "getPolicyRestrictionInfo getLang (MultiLineTV f t d) =
     getLang ''[utils:policytypevalue][type:multilinepolicytypevalue]''"

section \<open>Stored form\<close>

text \<open>The loop of \<open>postProcessingValue\<close> that collects the pieces between delimiters.\<close>

function split_items :: "string \<Rightarrow> string \<Rightarrow> string list" where
  "split_items d s =
     (if d = [] then [s]
      else case find_sub d s of None \<Rightarrow> [s] | Some (a, b) \<Rightarrow> a # split_items d b)"
  by pat_completeness auto
termination
  by (relation "measure (\<lambda>(d, s). length s)") (auto dest: find_sub_Some)

declare split_items.simps [simp del]

text \<open>The loop of \<open>reverse_postProcessingValue\<close> that joins the items.\<close>

fun join_items :: "string \<Rightarrow> string list \<Rightarrow> string" where
  "join_items d [] = []"
| "join_items d [x] = x"
| "join_items d (x # y # ys) = x @ d @ join_items d (y # ys)"

text \<open>
  \<open>MultiLineTextPolicyTypeValue::postProcessingValue\<close>: every exception is caught and becomes the
  empty string.
\<close>

definition multiline_postProcessingValue :: "json_dump \<Rightarrow> string \<Rightarrow> string \<Rightarrow> string" where
  "multiline_postProcessingValue dump delimiterFrom v =
     (if v = [] then []
      else if delimiterFrom = [] then []
      else let items = (case find_sub delimiterFrom v of
                          None \<Rightarrow> [v]
                        | Some _ \<Rightarrow> split_items delimiterFrom v)
           in (case dump (JArray (map JString items)) of Inl e \<Rightarrow> [] | Inr text \<Rightarrow> text))"

text \<open>
  \<open>reverse_postProcessingValue\<close>: a parse error and an item that is not a string are rethrown as
  \<open>std::runtime_error\<close>, text that is not an array throws it directly.
\<close>

definition multiline_reverse_postProcessingValue ::
    "json_parse \<Rightarrow> string \<Rightarrow> string \<Rightarrow> exn + string" where
  "multiline_reverse_postProcessingValue parse delimiterTo v =
     (case parse v of
        Inl e \<Rightarrow> Inl (RuntimeError ''JSON parse error'')
      | Inr (JArray js) \<Rightarrow>
          if \<forall>j \<in> set js. json_get_string j \<noteq> None
          then Inr (join_items delimiterTo (List.map_filter json_get_string js))
          else Inl (RuntimeError ''JSON type error'')
      | Inr _ \<Rightarrow> Inl (RuntimeError ''JSON array expected''))"

primrec postProcessingValue :: "json_dump \<Rightarrow> policy_type_value \<Rightarrow> string \<Rightarrow> string" where
  "postProcessingValue dump (IntTV lo hi d) v = v"
| "postProcessingValue dump (UnsignedTV lo hi d) v = v"
| "postProcessingValue dump (PossibleListTV xs) v = v"
| "postProcessingValue dump (FixedTV e) v = v"
| "postProcessingValue dump (MultiLineTV f t d) v = multiline_postProcessingValue dump f v"

primrec reverse_postProcessingValue ::
    "json_parse \<Rightarrow> policy_type_value \<Rightarrow> string \<Rightarrow> exn + string" where
  "reverse_postProcessingValue parse (IntTV lo hi d) v = Inr v"
| "reverse_postProcessingValue parse (UnsignedTV lo hi d) v = Inr v"
| "reverse_postProcessingValue parse (PossibleListTV xs) v = Inr v"
| "reverse_postProcessingValue parse (FixedTV e) v = Inr v"
| "reverse_postProcessingValue parse (MultiLineTV f t d) v =
     multiline_reverse_postProcessingValue parse t v"

text \<open>\<open>split_paths\<close>: pieces between the delimiter, trimmed, empty ones left out.\<close>

fun split_char :: "char \<Rightarrow> string \<Rightarrow> string \<Rightarrow> string list" where
  "split_char c acc [] = [rev acc]"
| "split_char c acc (x # xs) =
     (if x = c then rev acc # split_char c [] xs else split_char c (x # acc) xs)"

definition split_paths :: "char \<Rightarrow> string \<Rightarrow> string list" where
  "split_paths delimiter s = filter (\<lambda>p. p \<noteq> []) (map (strip is_space) (split_char delimiter [] s))"


section \<open>Values a constructor can produce\<close>

text \<open>
  The value types that exist at run time: results of a constructor call whose arguments are
  values of the C++ parameter types (\<open>int\<close>, \<open>std::uintmax_t\<close>).
\<close>

inductive constructed :: "policy_type_value \<Rightarrow> bool" where
  constructed_int: "IntPolicyTypeValue lo hi = Inr tv \<Longrightarrow> int_min \<le> lo \<Longrightarrow> hi \<le> int_max \<Longrightarrow>
     constructed tv"
| constructed_int_default: "IntPolicyTypeValueDefault lo hi d = Inr tv \<Longrightarrow> int_min \<le> lo \<Longrightarrow>
     hi \<le> int_max \<Longrightarrow> constructed tv"
| constructed_unsigned: "UnsignedIntegerPolicyTypeValue ulo uhi ud = Inr tv \<Longrightarrow>
     uhi \<le> uintmax_max \<Longrightarrow> constructed tv"
| constructed_list: "PossibleListPolicyTypeValue xs = Inr tv \<Longrightarrow> constructed tv"
| constructed_fixed_any: "constructed (FixedTV None)"
| constructed_fixed: "FixedPolicyTypeValue e = Inr tv \<Longrightarrow> constructed tv"
| constructed_multiline: "constructed (MultiLineTextPolicyTypeValue f t dv)"

section \<open>Printing and reading numbers\<close>

lemma is_digit_simps [simp]:
  "\<not> is_digit (CHR ''-'')" "\<not> is_digit (CHR ''+'')"
  by (simp_all add: is_digit_def)

lemma is_digit_not_space: "is_digit c \<Longrightarrow> \<not> is_space c"
  by (auto simp: is_digit_def is_space_def)

lemma takeWhile_digits [simp]: "takeWhile is_digit (digits_of_nat n) = digits_of_nat n"
  using digits_of_nat_digits by (simp add: takeWhile_eq_all_conv)

lemma dropWhile_digits [simp]: "dropWhile is_digit (digits_of_nat n) = []"
  using digits_of_nat_digits by simp

lemma digits_of_nat_Cons:
  obtains c cs where "digits_of_nat n = c # cs" "is_digit c"
  using digits_of_nat_digits digits_of_nat_nonempty
  by (metis list.set_intros(1) neq_Nil_conv)

lemma stoi_digits_of_nat:
  assumes "int n \<le> int_max"
  shows "stoi (digits_of_nat n) = Inr (int n)"
proof -
  obtain c cs where c: "digits_of_nat n = c # cs" "is_digit c" by (rule digits_of_nat_Cons)
  then have "c \<noteq> CHR ''-''" "c \<noteq> CHR ''+''" "\<not> is_space c"
    by (auto dest: is_digit_not_space)
  with c have "stoi (digits_of_nat n) =
      (let ds = takeWhile is_digit (digits_of_nat n); m = int (nat_of_digits ds)
       in if ds = [] then Inl (InvalidArgument ''stoi'')
          else if m < int_min \<or> int_max < m then Inl (OutOfRange ''stoi'') else Inr m)"
    by (simp add: stoi_def)
  then show ?thesis using assms by (simp add: int_min_def)
qed

lemma stoi_digits_of_int:
  assumes "int_min \<le> n" "n \<le> int_max"
  shows "stoi (digits_of_int n) = Inr n"
proof (cases "n < 0")
  case True
  then show ?thesis using assms
    by (simp add: digits_of_int_def stoi_def is_space_def int_max_def)
next
  case False
  then show ?thesis using assms stoi_digits_of_nat [of "nat n"]
    by (simp add: digits_of_int_def)
qed

lemma from_chars_int_digits_of_int:
  assumes "int_min \<le> n" "n \<le> int_max"
  shows "from_chars_int (digits_of_int n) = Some (n, [])"
proof (cases "n < 0")
  case True
  then show ?thesis using assms
    by (simp add: digits_of_int_def from_chars_int_def int_max_def)
next
  case False
  obtain c cs where c: "digits_of_nat (nat n) = c # cs" "is_digit c"
    by (rule digits_of_nat_Cons)
  then have "c \<noteq> CHR ''-''" by auto
  moreover have "\<forall>x \<in> set cs. is_digit x" "nat_of_digits (c # cs) = nat n"
    using digits_of_nat_digits [of "nat n"] nat_of_digits_of_nat [of "nat n"] c(1) by auto
  ultimately show ?thesis using False assms
    by (simp add: digits_of_int_def from_chars_int_def int_min_def c Let_def
        takeWhile_eq_all_conv [THEN iffD2])
qed

lemma from_chars_uint_digits_of_nat:
  "n \<le> uintmax_max \<Longrightarrow> from_chars_uint (digits_of_nat n) = Some (n, [])"
  by (simp add: from_chars_uint_def)

lemma digits_of_int_nonempty [simp]: "digits_of_int n \<noteq> []"
  by (simp add: digits_of_int_def)

section \<open>Properties\<close>

text \<open>
  Validation of a printed integer is exactly the range test of the value type, with a
  default (\<open>std::stoi\<close>) and without one (\<open>std::from_chars\<close>): no number inside the range is
  refused and none outside it is accepted.
\<close>

theorem int_validate_printed:
  assumes "int_min \<le> n" "n \<le> int_max"
  shows "IntPolicyTypeValue_validate lo hi d (digits_of_int n) \<longleftrightarrow> lo \<le> n \<and> n \<le> hi"
  using assms stoi_digits_of_int from_chars_int_digits_of_int
  by (auto simp: IntPolicyTypeValue_validate_def)

theorem int_validate_printed_witness:
  "int_min \<le> (- 7) \<and> (- 7) \<le> int_max \<and>
   (IntPolicyTypeValue_validate (- 10) 5 None (digits_of_int (- 7)) \<longleftrightarrow> (- 10) \<le> (- 7::int) \<and> (- 7::int) \<le> 5)"
  using int_validate_printed [of "- 7" "- 10" 5 None] by (simp add: int_min_def int_max_def)

text \<open>A value type that could be constructed accepts its own default value.\<close>

lemma constructed_default_validates:
  assumes "constructed tv" "hasDefaultValue tv"
  shows "tv_validate tv (getDefaultValue tv)"
  using assms
proof (cases rule: constructed.cases)
  case (constructed_int lo hi)
  with assms(2) show ?thesis by (auto simp: IntPolicyTypeValue_def split: if_splits)
next
  case (constructed_int_default lo hi d)
  then have "tv = IntTV lo hi (Some d)" "lo \<le> d" "d \<le> hi"
    by (auto simp: IntPolicyTypeValueDefault_def split: if_splits)
  with constructed_int_default(2,3) show ?thesis
    by (simp add: IntPolicyTypeValue_validate_def stoi_digits_of_int)
next
  case (constructed_unsigned lo hi d)
  then have "tv = UnsignedTV lo hi d" "lo \<le> d" "d \<le> hi"
    by (auto simp: UnsignedIntegerPolicyTypeValue_def split: if_splits)
  with constructed_unsigned(2) show ?thesis
    by (simp add: UnsignedIntegerPolicyTypeValue_validate_def from_chars_uint_digits_of_nat)
next
  case (constructed_list xs)
  then show ?thesis
    by (cases xs) (auto simp: PossibleListPolicyTypeValue_def split: if_splits)
qed (auto simp: FixedPolicyTypeValue_def MultiLineTextPolicyTypeValue_def split: if_splits)


lemma split_items_nonempty [simp]: "split_items d s \<noteq> []"
  by (subst split_items.simps) (simp split: option.split)

lemma join_split_items:
  assumes "d \<noteq> []"
  shows "join_items d (split_items d s) = s"
  using assms
proof (induction d s rule: split_items.induct)
  case (1 d s)
  show ?case
  proof (cases "find_sub d s")
    case None
    with "1.prems" show ?thesis by (subst split_items.simps) simp
  next
    case (Some ab)
    obtain a b where ab: "ab = (a, b)" by (cases ab)
    with Some "1.prems" "1.IH" have "join_items d (split_items d b) = b" by blast
    moreover obtain y ys where "split_items d b = y # ys"
      by (meson neq_Nil_conv split_items_nonempty)
    ultimately have "join_items d (a # split_items d b) = a @ d @ b" by simp
    with Some ab "1.prems" find_sub_Some [of d s a b] show ?thesis
      by (subst split_items.simps) simp
  qed
qed

lemma split_items_single: "find_sub d s = None \<Longrightarrow> split_items d s = [s]"
  by (subst split_items.simps) simp

text \<open>
  The stored form of a multi-line value converts back to the value: when the library's
  \<open>dump\<close> succeeded and \<open>parse\<close> inverts it, reading what was written gives the text that was
  written, whatever delimiters it contains.
\<close>

theorem multiline_roundtrip:
  assumes "json_roundtrip dump parse"
    and "v \<noteq> []" and "d \<noteq> []"
    and "dump (JArray (map JString (split_items d v))) = Inr text"
  shows "multiline_postProcessingValue dump d v = text \<and>
         multiline_reverse_postProcessingValue parse d text = Inr v"
proof -
  have "multiline_postProcessingValue dump d v = text"
    using assms(2-4)
    by (cases "find_sub d v")
       (auto simp: multiline_postProcessingValue_def split_items_single)
  moreover have "parse text = Inr (JArray (map JString (split_items d v)))"
    using assms(1,4) by (auto simp: json_roundtrip_def)
  moreover have "List.map_filter json_get_string (map JString xs) = xs" for xs
    by (induction xs) (simp_all add: List.map_filter_simps)
  ultimately show ?thesis
    using assms(3) by (simp add: multiline_reverse_postProcessingValue_def join_split_items)
qed

text \<open>
  A concrete pair of library functions, defined on one value.
\<close>

definition sample_dump :: json_dump where
  "sample_dump j = (if j = JArray [JString ''a'', JString ''b''] then Inr ''[a,b]''
                    else Inl UnknownException)"

definition sample_parse :: json_parse where
  "sample_parse s = (if s = ''[a,b]'' then Inr (JArray [JString ''a'', JString ''b''])
                     else Inl UnknownException)"

lemma sample_json_roundtrip: "json_roundtrip sample_dump sample_parse"
  by (auto simp: json_roundtrip_def sample_dump_def sample_parse_def split: if_splits)

theorem multiline_roundtrip_witness:
  "json_roundtrip sample_dump sample_parse \<and>
   sample_dump (JArray (map JString (split_items '';'' ''a;b''))) = Inr ''[a,b]'' \<and>
   multiline_postProcessingValue sample_dump '';'' ''a;b'' = ''[a,b]'' \<and>
   multiline_reverse_postProcessingValue sample_parse '';'' ''[a,b]'' = Inr ''a;b''"
proof -
  note rt = sample_json_roundtrip
  have d: "sample_dump (JArray (map JString (split_items '';'' ''a;b''))) = Inr ''[a,b]''"
    by (simp add: sample_dump_def split_items.simps)
  show ?thesis using rt d multiline_roundtrip [OF rt _ _ d] by simp
qed

end
