(* ===== verification/IncidentSeverity.thy ===== *)
theory IncidentSeverity
  imports Prelude
begin

text \<open>
  The severity scale of the incident state and of policy violations
  (\<open>fic-core/incident/IncidentSeverity\<close>): the two enums, their token tables, the strict token
  parsers, the ordering helpers and the conversion of a violation severity into an incident
  severity. The lemmas show that the order of the enum is the order the helpers compute, that
  the token tables are injective and round-trip, and that the parsers accept the tokens and
  nothing else.
\<close>

section \<open>The enums\<close>

datatype incident_severity = Unlocked | Soft | Standard | Hard | Isolate

datatype violation_severity = VNone | VSoft | VStandard | VHard | VIsolate

text \<open>\<open>static_cast<int>\<close> of the two enums.\<close>

primrec severity_rank :: "incident_severity \<Rightarrow> nat" where
  "severity_rank Unlocked = 0"
| "severity_rank Soft = 1"
| "severity_rank Standard = 2"
| "severity_rank Hard = 3"
| "severity_rank Isolate = 4"

primrec violation_rank :: "violation_severity \<Rightarrow> nat" where
  "violation_rank VNone = 0"
| "violation_rank VSoft = 1"
| "violation_rank VStandard = 2"
| "violation_rank VHard = 3"
| "violation_rank VIsolate = 4"

text \<open>\<open>static_cast\<close> between the enums keeps the numeric value.\<close>

primrec violation_of_incident :: "incident_severity \<Rightarrow> violation_severity" where
  "violation_of_incident Unlocked = VNone"
| "violation_of_incident Soft = VSoft"
| "violation_of_incident Standard = VStandard"
| "violation_of_incident Hard = VHard"
| "violation_of_incident Isolate = VIsolate"

primrec incident_of_violation :: "violation_severity \<Rightarrow> incident_severity" where
  "incident_of_violation VNone = Unlocked"
| "incident_of_violation VSoft = Soft"
| "incident_of_violation VStandard = Standard"
| "incident_of_violation VHard = Hard"
| "incident_of_violation VIsolate = Isolate"

section \<open>Ordering\<close>

text \<open>The built-in comparison of the enum values, as a linear order of the type.\<close>

instantiation incident_severity :: linorder
begin

definition less_eq_incident_severity :: "incident_severity \<Rightarrow> incident_severity \<Rightarrow> bool" where
  "less_eq_incident_severity a b \<longleftrightarrow> severity_rank a \<le> severity_rank b"

definition less_incident_severity :: "incident_severity \<Rightarrow> incident_severity \<Rightarrow> bool" where
  "less_incident_severity a b \<longleftrightarrow> severity_rank a < severity_rank b"

instance
proof
  fix a b :: incident_severity
  assume "a \<le> b" "b \<le> a"
  then show "a = b"
    by (cases a; cases b) (simp_all add: less_eq_incident_severity_def)
qed (auto simp: less_eq_incident_severity_def less_incident_severity_def)

end

lemmas severity_order_defs = less_eq_incident_severity_def less_incident_severity_def

lemma severity_le_Isolate [simp]: "s \<le> Isolate"
  by (cases s) (simp_all add: severity_order_defs)

lemma Unlocked_le_severity [simp]: "Unlocked \<le> s"
  by (cases s) (simp_all add: severity_order_defs)

lemma severity_le_Unlocked [simp]: "s \<le> Unlocked \<longleftrightarrow> s = Unlocked"
  by (cases s) (simp_all add: severity_order_defs)

lemma Isolate_le_severity [simp]: "Isolate \<le> s \<longleftrightarrow> s = Isolate"
  by (cases s) (simp_all add: severity_order_defs)

definition incidentSeverityLess :: "incident_severity \<Rightarrow> incident_severity \<Rightarrow> bool" where
  "incidentSeverityLess l r \<longleftrightarrow> severity_rank l < severity_rank r"

definition incidentSeverityAtLeast :: "incident_severity \<Rightarrow> incident_severity \<Rightarrow> bool" where
  "incidentSeverityAtLeast v bound \<longleftrightarrow> severity_rank v \<ge> severity_rank bound"

definition maxIncidentSeverity ::
    "incident_severity \<Rightarrow> incident_severity \<Rightarrow> incident_severity" where
  "maxIncidentSeverity l r = (if incidentSeverityLess l r then r else l)"

definition incidentSeverityIsUnlocked :: "incident_severity \<Rightarrow> bool" where
  "incidentSeverityIsUnlocked s \<longleftrightarrow> s = Unlocked"

definition incidentSeverityAllowsOrdinaryLogin :: "incident_severity \<Rightarrow> bool" where
  "incidentSeverityAllowsOrdinaryLogin s \<longleftrightarrow> s = Unlocked \<or> s = Soft"

lemma incidentSeverityLess_iff [fic_simps]: "incidentSeverityLess a b \<longleftrightarrow> a < b"
  by (simp add: incidentSeverityLess_def less_incident_severity_def)

lemma maxIncidentSeverity_max [fic_simps]: "maxIncidentSeverity a b = max a b"
  by (auto simp: maxIncidentSeverity_def incidentSeverityLess_iff max_def)

lemma incidentSeverityAtLeast_iff [fic_simps]: "incidentSeverityAtLeast a b \<longleftrightarrow> b \<le> a"
  by (simp add: incidentSeverityAtLeast_def less_eq_incident_severity_def)

section \<open>Tokens\<close>

definition kIncidentTokens :: "(incident_severity \<times> string) list" where
  "kIncidentTokens =
     [(Unlocked, ''UNLOCKED''), (Soft, ''SOFT''), (Standard, ''STANDARD''),
      (Hard, ''HARD''), (Isolate, ''ISOLATE'')]"

definition kViolationTokens :: "(incident_severity \<times> string) list" where
  "kViolationTokens =
     [(Unlocked, ''NONE''), (Soft, ''SOFT''), (Standard, ''STANDARD''),
      (Hard, ''HARD''), (Isolate, ''ISOLATE'')]"

definition incidentSeverityToken :: "incident_severity \<Rightarrow> exn + string" where
  "incidentSeverityToken s =
     (case find (\<lambda>(sev, tok). sev = s) kIncidentTokens of
        Some (sev, tok) \<Rightarrow> Inr tok
      | None \<Rightarrow> Inl (InvalidArgument ''unknown incident severity value''))"

definition parseIncidentSeverityToken :: "string \<Rightarrow> incident_severity option" where
  "parseIncidentSeverityToken t =
     (case find (\<lambda>(sev, tok). t = tok) kIncidentTokens of
        Some (sev, tok) \<Rightarrow> Some sev
      | None \<Rightarrow> None)"

definition violationSeverityToken :: "violation_severity \<Rightarrow> exn + string" where
  "violationSeverityToken s =
     (case find (\<lambda>(sev, tok). violation_of_incident sev = s) kViolationTokens of
        Some (sev, tok) \<Rightarrow> Inr tok
      | None \<Rightarrow> Inl (InvalidArgument ''unknown violation severity value''))"

definition parseViolationSeverityToken :: "string \<Rightarrow> violation_severity option" where
  "parseViolationSeverityToken t =
     (case find (\<lambda>(sev, tok). t = tok) kViolationTokens of
        Some (sev, tok) \<Rightarrow> Some (violation_of_incident sev)
      | None \<Rightarrow> None)"

definition violationSeverityReacts :: "violation_severity \<Rightarrow> bool" where
  "violationSeverityReacts s \<longleftrightarrow> s \<noteq> VNone"

definition violationSeverityToIncidentSeverity ::
    "violation_severity \<Rightarrow> exn + incident_severity" where
  "violationSeverityToIncidentSeverity s =
     (if \<not> violationSeverityReacts s
      then Inl (InvalidArgument ''violation severity NONE does not map to an incident severity'')
      else Inr (incident_of_violation s))"

text \<open>Every severity has a token, so the writer never throws; the token is read off the table.\<close>

primrec severity_token :: "incident_severity \<Rightarrow> string" where
  "severity_token Unlocked = ''UNLOCKED''"
| "severity_token Soft = ''SOFT''"
| "severity_token Standard = ''STANDARD''"
| "severity_token Hard = ''HARD''"
| "severity_token Isolate = ''ISOLATE''"

lemma incidentSeverityToken_total: "incidentSeverityToken s = Inr (severity_token s)"
  by (cases s) (simp_all add: incidentSeverityToken_def kIncidentTokens_def)

lemma parseIncidentSeverityToken_iff:
  "parseIncidentSeverityToken t = Some s \<longleftrightarrow> t = severity_token s"
  by (cases s) (auto simp: parseIncidentSeverityToken_def kIncidentTokens_def split: if_splits)

lemma parse_severity_token [simp]: "parseIncidentSeverityToken (severity_token s) = Some s"
  by (simp add: parseIncidentSeverityToken_iff)

lemma severity_token_inj: "severity_token a = severity_token b \<longleftrightarrow> a = b"
  by (metis option.inject parse_severity_token)

lemma severity_token_plain:
  "severity_token s \<noteq> []" "CHR 0x0A \<notin> set (severity_token s)" "CHR ''#'' \<notin> set (severity_token s)"
  by (cases s; simp)+

lemma violationSeverityToken_parse:
  "\<exists>t. violationSeverityToken v = Inr t \<and> parseViolationSeverityToken t = Some v"
  by (cases v)
     (simp_all add: violationSeverityToken_def parseViolationSeverityToken_def kViolationTokens_def)

lemma violationSeverityToIncidentSeverity_not_Unlocked:
  "violationSeverityToIncidentSeverity v = Inr s \<Longrightarrow> s \<noteq> Unlocked"
  by (cases v) (auto simp: violationSeverityToIncidentSeverity_def violationSeverityReacts_def)

end
