(* ===== verification/ModuleConfig.thy ===== *)
theory ModuleConfig
  imports IncidentSeverity
begin

text \<open>
  The module configuration files (\<open>fic-core/config/ConfigFileHandler\<close>,
  \<open>ModuleConfigFileHandler\<close> and the text part of \<open>fic-core/fs/FileHandler\<close>): the lines of the
  file and the parsed entries, loading, lookup, update and removal of a parameter, the
  per-policy keys, and the text that is saved. The lemmas show that a stored policy value is
  what a later load of the saved text returns, and that it does not disturb any other entry.
\<close>

section \<open>Trimming\<close>

text \<open>
  \<open>FileHandler::trim\<close>. With \<open>needMid\<close> a white-space character that follows another one is
  removed; the first one of a run stays as it is.
\<close>

fun squeeze :: "bool \<Rightarrow> string \<Rightarrow> string" where
  "squeeze space [] = []"
| "squeeze space (c # cs) =
     (if is_space c then (if space then squeeze True cs else c # squeeze True cs)
      else c # squeeze False cs)"

definition trim :: "bool \<Rightarrow> string \<Rightarrow> string" where
  "trim needMid s =
     (let t = strip is_blank s in if needMid then squeeze False t else t)"

section \<open>The configuration file\<close>

datatype key_whitespace_policy = Normalize | Preserve

record config_file =
  delimiter :: string
  keyWhitespacePolicy :: key_whitespace_policy
  original_lines :: "string list"
  entries :: "string \<rightharpoonup> string"

definition ConfigFileHandler :: "string \<Rightarrow> key_whitespace_policy \<Rightarrow> config_file" where
  "ConfigFileHandler d p =
     \<lparr>delimiter = d, keyWhitespacePolicy = p, original_lines = [], entries = Map.empty\<rparr>"

text \<open>
  One turn of the loop of \<open>loadConfig\<close>: the line as it is kept and the entries. The value starts
  one character behind the position of the delimiter.
\<close>

definition load_line ::
    "string \<Rightarrow> key_whitespace_policy \<Rightarrow> (string \<rightharpoonup> string) \<Rightarrow> string \<Rightarrow>
     string \<times> (string \<rightharpoonup> string)" where
  "load_line d p conf raw =
     (let line = trim False raw in
      if CHR ''#'' \<in> set line then (line, conf)
      else if line = [] then (line, conf)
      else case find_sub d line of
        None \<Rightarrow> (line, conf)
      | Some (before, _) \<Rightarrow>
          let parameter = (if p = Normalize then trim True before else before);
              v = trim False (drop (length before + 1) line);
              line' = parameter @ d @ v
          in if parameter \<noteq> []
             then (if conf parameter \<noteq> None then (CHR ''#'' # line', conf)
                   else (line', conf(parameter \<mapsto> v)))
             else (line', conf))"

fun load_lines ::
    "string \<Rightarrow> key_whitespace_policy \<Rightarrow> (string \<rightharpoonup> string) \<Rightarrow> string list \<Rightarrow>
     string list \<times> (string \<rightharpoonup> string)" where
  "load_lines d p conf [] = ([], conf)"
| "load_lines d p conf (raw # rest) =
     (let (line, conf') = load_line d p conf raw;
          (ls, conf'') = load_lines d p conf' rest
      in (line # ls, conf''))"

text \<open>
  \<open>loadConfig\<close> on a file with the given text: \<open>loadFile\<close> stores the lines, the loop rewrites them
  and fills the entries.
\<close>

definition loadConfig :: "string \<Rightarrow> config_file \<Rightarrow> config_file" where
  "loadConfig content c =
     (let (ls, conf) = load_lines (delimiter c) (keyWhitespacePolicy c) Map.empty (getlines content)
      in c\<lparr>original_lines := ls, entries := conf\<rparr>)"

definition pendingContent :: "config_file \<Rightarrow> string" where
  "pendingContent c = unlines (original_lines c)"

definition config_getValue :: "config_file \<Rightarrow> string \<Rightarrow> string" where
  "config_getValue c k = (case entries c k of Some v \<Rightarrow> v | None \<Rightarrow> [])"

definition isParameterExists :: "config_file \<Rightarrow> string \<Rightarrow> bool" where
  "isParameterExists c k \<longleftrightarrow> entries c k \<noteq> None"

text \<open>The line test of \<open>setValue\<close> and \<open>removeValue\<close>: the text before the delimiter is the key.\<close>

definition line_matches :: "config_file \<Rightarrow> string \<Rightarrow> string \<Rightarrow> bool" where
  "line_matches c k line =
     (case find_sub (delimiter c) line of
        None \<Rightarrow> False
      | Some (before, _) \<Rightarrow>
          (if keyWhitespacePolicy c = Normalize then trim False before else before) = k)"

fun replace_first :: "('a \<Rightarrow> bool) \<Rightarrow> 'a \<Rightarrow> 'a list \<Rightarrow> 'a list option" where
  "replace_first P y [] = None"
| "replace_first P y (x # xs) =
     (if P x then Some (y # xs) else map_option (\<lambda>zs. x # zs) (replace_first P y xs))"

definition config_setValue :: "string \<Rightarrow> string \<Rightarrow> config_file \<Rightarrow> bool \<times> config_file" where
  "config_setValue k v c =
     (if k = [] then (False, c)
      else let new_line = k @ delimiter c @ v;
               ls = (case replace_first (line_matches c k) new_line (original_lines c) of
                       Some ls \<Rightarrow> ls
                     | None \<Rightarrow> original_lines c @ [new_line])
           in (True, c\<lparr>entries := (entries c)(k \<mapsto> v), original_lines := ls\<rparr>))"

definition config_removeValue :: "string \<Rightarrow> config_file \<Rightarrow> bool \<times> config_file" where
  "config_removeValue k c =
     (if k = [] then (False, c)
      else (True, c\<lparr>entries := (entries c)(k := None),
                    original_lines := filter (\<lambda>l. \<not> line_matches c k l) (original_lines c)\<rparr>))"

section \<open>Policy entries\<close>

definition ModuleConfigFileHandler :: config_file where
  "ModuleConfigFileHandler = ConfigFileHandler ''='' Normalize"

definition ENABLED_STATUS :: string where "ENABLED_STATUS = ''ENABLE''"
definition DISABLED_STATUS :: string where "DISABLED_STATUS = ''DISABLE''"

definition statusKey :: "string \<Rightarrow> string" where
  "statusKey policy = policy @ ''.status''"

definition valueKey :: "string \<Rightarrow> string" where
  "valueKey policy = policy @ ''.value''"

definition violationSeverityKey :: "string \<Rightarrow> string" where
  "violationSeverityKey policy = policy @ ''.violation_severity''"

definition hasPolicyStatus :: "config_file \<Rightarrow> string \<Rightarrow> bool" where
  "hasPolicyStatus c policy = isParameterExists c (statusKey policy)"

definition conf_hasConfiguredValue :: "config_file \<Rightarrow> string \<Rightarrow> bool" where
  "conf_hasConfiguredValue c policy = isParameterExists c (valueKey policy)"

definition hasPolicyViolationSeverity :: "config_file \<Rightarrow> string \<Rightarrow> bool" where
  "hasPolicyViolationSeverity c policy = isParameterExists c (violationSeverityKey policy)"

definition getPolicyStatus :: "config_file \<Rightarrow> string \<Rightarrow> string" where
  "getPolicyStatus c policy =
     (if \<not> isParameterExists c (statusKey policy) then DISABLED_STATUS
      else if config_getValue c (statusKey policy) = ENABLED_STATUS then ENABLED_STATUS
      else DISABLED_STATUS)"

definition getPolicyValue :: "config_file \<Rightarrow> string \<Rightarrow> string" where
  "getPolicyValue c policy = config_getValue c (valueKey policy)"

definition getPolicyViolationSeverity :: "config_file \<Rightarrow> string \<Rightarrow> violation_severity" where
  "getPolicyViolationSeverity c policy =
     (if \<not> isParameterExists c (violationSeverityKey policy) then VNone
      else case parseViolationSeverityToken (config_getValue c (violationSeverityKey policy)) of
        None \<Rightarrow> VIsolate
      | Some s \<Rightarrow> s)"

definition setPolicyViolationSeverity ::
    "string \<Rightarrow> violation_severity \<Rightarrow> config_file \<Rightarrow> exn + bool \<times> config_file" where
  "setPolicyViolationSeverity policy severity c =
     (if policy = [] then Inr (False, c)
      else case violationSeverityToken severity of
        Inl e \<Rightarrow> Inl e
      | Inr tok \<Rightarrow> Inr (config_setValue (violationSeverityKey policy) tok c))"

definition setPolicyStatus :: "string \<Rightarrow> string \<Rightarrow> config_file \<Rightarrow> bool \<times> config_file" where
  "setPolicyStatus policy status c =
     (if policy = [] then (False, c)
      else if status \<noteq> ENABLED_STATUS \<and> status \<noteq> DISABLED_STATUS then (False, c)
      else config_setValue (statusKey policy) status c)"

definition setPolicyValue :: "string \<Rightarrow> string \<Rightarrow> config_file \<Rightarrow> bool \<times> config_file" where
  "setPolicyValue policy v c =
     (if policy = [] then (False, c)
      else let c' = (if \<not> isParameterExists c (statusKey policy)
                     then snd (config_setValue (statusKey policy) DISABLED_STATUS c) else c)
           in config_setValue (valueKey policy) v c')"

definition enablePolicy :: "string \<Rightarrow> config_file \<Rightarrow> bool \<times> config_file" where
  "enablePolicy policy c = setPolicyStatus policy ENABLED_STATUS c"

definition disablePolicy :: "string \<Rightarrow> config_file \<Rightarrow> bool \<times> config_file" where
  "disablePolicy policy c = setPolicyStatus policy DISABLED_STATUS c"

text \<open>\<open>PolicyConfig::getEnabledValue\<close> on the loaded configuration of the module.\<close>

definition getEnabledValue :: "config_file \<Rightarrow> string \<Rightarrow> string option" where
  "getEnabledValue c policy =
     (if \<not> conf_hasConfiguredValue c policy then None
      else if getPolicyStatus c policy \<noteq> ENABLED_STATUS then None
      else Some (getPolicyValue c policy))"

section \<open>The entry of a line\<close>

text \<open>
  What a line of a module configuration contributes when it is read; the first line with a
  parameter wins. The loader is this specification read off line by line.
\<close>

definition line_entry :: "string \<Rightarrow> (string \<times> string) option" where
  "line_entry raw =
     (let line = trim False raw in
      if CHR ''#'' \<in> set line then None
      else case find_char (CHR ''='') line of
        None \<Rightarrow> None
      | Some (a, b) \<Rightarrow>
          let parameter = trim True a in
          if parameter = [] then None else Some (parameter, trim False b))"

definition text_entries :: "string list \<Rightarrow> string \<rightharpoonup> string" where
  "text_entries ls = map_of (List.map_filter line_entry ls)"

lemma text_entries_simps [simp]:
  "text_entries [] = Map.empty"
  "text_entries (l # ls) =
     (case line_entry l of None \<Rightarrow> text_entries ls | Some (p, v) \<Rightarrow> (text_entries ls)(p \<mapsto> v))"
  by (auto simp: text_entries_def List.map_filter_simps split: option.splits)

lemma find_sub_single [simp]: "find_sub [d] s = find_char d s"
  by (induction s) auto

lemma trim_Nil [simp]: "trim b [] = []"
  by (simp add: trim_def)

lemma find_char_notin [simp]: "c \<notin> set s \<Longrightarrow> find_char c s = None"
  by simp

lemma find_char_drop: "find_char c s = Some (a, b) \<Longrightarrow> drop (Suc (length a)) s = b"
  by (simp add: find_char_Some)

lemma load_line_entry:
  "snd (load_line ''='' Normalize conf raw) =
     (case line_entry raw of None \<Rightarrow> conf
      | Some (p, v) \<Rightarrow> if conf p = None then conf(p \<mapsto> v) else conf)"
  by (cases "find_char (CHR ''='') (trim False raw)")
     (auto simp: load_line_def line_entry_def Let_def find_char_drop)

lemma load_lines_entries:
  "snd (load_lines ''='' Normalize conf ls) = text_entries ls ++ conf"
proof (induction ls arbitrary: conf)
  case (Cons l ls)
  obtain l' conf' where ll: "load_line ''='' Normalize conf l = (l', conf')" by force
  with load_line_entry [of conf l]
  have "conf' = (case line_entry l of None \<Rightarrow> conf
      | Some (p, v) \<Rightarrow> if conf p = None then conf(p \<mapsto> v) else conf)" by simp
  moreover have "snd (load_lines ''='' Normalize conf (l # ls)) = text_entries ls ++ conf'"
    using Cons ll by (simp add: Let_def case_prod_beta)
  ultimately show ?case
    by (auto simp: fun_eq_iff map_add_def split: option.splits)
qed simp

section \<open>Trimming is idempotent on text without other white space\<close>

definition plain_text :: "string \<Rightarrow> bool" where
  "plain_text s \<longleftrightarrow> CHR 0x0B \<notin> set s \<and> CHR 0x0C \<notin> set s"

lemma set_strip: "set (strip P s) \<subseteq> set s"
  unfolding strip_def
  by (metis set_dropWhileD set_rev subsetI)

lemma set_squeeze: "set (squeeze b s) \<subseteq> set s"
  by (induction b s rule: squeeze.induct) auto

lemma set_trim: "set (trim b s) \<subseteq> set s"
  using set_strip [of is_blank s] set_squeeze [of False "strip is_blank s"]
  by (auto simp: trim_def Let_def)

lemma set_trimD: "c \<in> set (trim b s) \<Longrightarrow> c \<in> set s"
  using set_trim by blast

lemma strip_ends:
  assumes "strip P s \<noteq> []"
  shows "\<not> P (hd (strip P s)) \<and> \<not> P (last (strip P s))"
proof -
  let ?d = "dropWhile P s" and ?r = "dropWhile P (rev (dropWhile P s))"
  from assms have r: "?r \<noteq> []" by (simp add: strip_def)
  then have "?d \<noteq> []" by (metis dropWhile.simps(1) rev.simps(1))
  then have hd_d: "\<not> P (hd ?d)" by (rule hd_dropWhile)
  from r have "\<not> P (hd ?r)" by (rule hd_dropWhile)
  then have 1: "\<not> P (last (strip P s))" using r by (simp add: strip_def last_rev)
  have "\<exists>zs. ?d = strip P s @ zs"
    unfolding strip_def by (metis rev_append rev_rev_ident takeWhile_dropWhile_id)
  then have "hd ?d = hd (strip P s)" using assms by (auto simp: hd_append)
  with hd_d 1 show ?thesis by simp
qed

lemma strip_idem [simp]: "strip P (strip P s) = strip P s"
  by (rule strip_id) (rule strip_ends)

lemma trim_False_idem [simp]: "trim False (trim False s) = trim False s"
  by (simp add: trim_def)

lemma squeeze_hd: "s \<noteq> [] \<Longrightarrow> squeeze False s \<noteq> [] \<and> hd (squeeze False s) = hd s"
  by (cases s) auto

lemma squeeze_last:
  "s \<noteq> [] \<Longrightarrow> \<not> is_space (last s) \<Longrightarrow> squeeze b s \<noteq> [] \<and> last (squeeze b s) = last s"
  by (induction b s rule: squeeze.induct) (auto split: if_splits)

lemma squeeze_idem: "squeeze b (squeeze b s) = squeeze b s"
  by (induction b s rule: squeeze.induct) auto

lemma plain_space: "plain_text s \<Longrightarrow> c \<in> set s \<Longrightarrow> is_space c \<longleftrightarrow> is_blank c"
  by (auto simp: plain_text_def is_space_def is_blank_def)

lemma trim_True_ends:
  assumes "plain_text s" "trim True s \<noteq> []"
  shows "\<not> is_blank (hd (trim True s)) \<and> \<not> is_blank (last (trim True s))"
proof -
  let ?t = "strip is_blank s"
  from assms have t: "?t \<noteq> []" by (auto simp: trim_def)
  note e = strip_ends [OF t]
  have "last ?t \<in> set s" using t set_strip [of is_blank s] last_in_set [of ?t] by blast
  with e plain_space [OF assms(1)] have "\<not> is_space (last ?t)" by blast
  with t e squeeze_hd [of ?t] squeeze_last [of ?t False] show ?thesis
    by (simp add: trim_def)
qed

lemma trim_True_idem:
  assumes "plain_text s"
  shows "trim True (trim True s) = trim True s"
    and "trim False (trim True s) = trim True s"
proof -
  have "strip is_blank (trim True s) = trim True s"
    by (rule strip_id) (rule trim_True_ends [OF assms])
  then show "trim True (trim True s) = trim True s" "trim False (trim True s) = trim True s"
    by (simp_all add: trim_def squeeze_idem)
qed

section \<open>Coherence of the lines and the entries\<close>

text \<open>
  A line in normal form is found by \<open>setValue\<close> under the key it is loaded with. The file is
  coherent when every line is in normal form and the entries are those of its lines.
\<close>

definition normal_line :: "string \<Rightarrow> bool" where
  "normal_line l \<longleftrightarrow>
     CHR 0x0A \<notin> set l \<and>
     (case line_entry l of None \<Rightarrow> True
      | Some (p, v) \<Rightarrow> l = p @ CHR ''='' # v \<and> CHR ''='' \<notin> set p \<and> trim False p = p)"

definition coherent :: "config_file \<Rightarrow> bool" where
  "coherent c \<longleftrightarrow>
     delimiter c = ''='' \<and> keyWhitespacePolicy c = Normalize \<and>
     (\<forall>l \<in> set (original_lines c). normal_line l) \<and>
     entries c = text_entries (original_lines c)"

lemma trim_entry_line:
  assumes "p \<noteq> [] \<Longrightarrow> \<not> is_blank (hd p)" "trim False v = v"
  shows "trim False (p @ CHR ''='' # v) = p @ CHR ''='' # v"
proof -
  have "v \<noteq> [] \<Longrightarrow> \<not> is_blank (last v)"
    using strip_ends [of is_blank v] assms(2) by (simp add: trim_def)
  moreover have "\<not> is_blank (CHR ''='')" by (simp add: is_blank_def)
  ultimately have "strip is_blank (p @ CHR ''='' # v) = p @ CHR ''='' # v"
    using assms(1) by (intro strip_id) (simp add: hd_append)
  then show ?thesis by (simp add: trim_def)
qed

lemma line_entry_of_entry:
  assumes "CHR ''#'' \<notin> set p" "CHR ''#'' \<notin> set v" "CHR ''='' \<notin> set p"
    and "trim True p = p" "p \<noteq> [] \<Longrightarrow> \<not> is_blank (hd p)" "trim False v = v"
  shows "line_entry (p @ CHR ''='' # v) = (if p = [] then None else Some (p, v))"
  using assms trim_entry_line [of p v] by (auto simp: line_entry_def Let_def)

lemma commented_line_entry: "line_entry (CHR ''#'' # l) = None"
proof -
  have "dropWhile is_blank (CHR ''#'' # l) = CHR ''#'' # l" by (simp add: is_blank_def)
  then have "CHR ''#'' \<in> set (trim False (CHR ''#'' # l))"
    by (simp add: trim_def strip_def Let_def dropWhile_append is_blank_def)
  then show ?thesis by (simp add: line_entry_def)
qed

text \<open>A loaded line keeps its entry, or is commented out when the key is already taken.\<close>

lemma loaded_line:
  assumes "plain_text raw" "CHR 0x0A \<notin> set raw"
  shows "normal_line (fst (load_line ''='' Normalize conf raw))"
    and "line_entry (fst (load_line ''='' Normalize conf raw)) =
           (case line_entry raw of None \<Rightarrow> None
            | Some (p, v) \<Rightarrow> if conf p = None then Some (p, v) else None)"
proof -
  let ?line = "trim False raw"
  have sub: "set ?line \<subseteq> set raw" by (rule set_trim)
  have *: "normal_line (fst (load_line ''='' Normalize conf raw)) \<and>
     line_entry (fst (load_line ''='' Normalize conf raw)) =
       (case line_entry raw of None \<Rightarrow> None
        | Some (p, v) \<Rightarrow> if conf p = None then Some (p, v) else None)"
  proof (cases "CHR ''#'' \<in> set ?line \<or> find_char (CHR ''='') ?line = None")
    case True
    then have "fst (load_line ''='' Normalize conf raw) = ?line"
      and "line_entry raw = None" and "line_entry ?line = None"
      by (auto simp: load_line_def line_entry_def Let_def)
    with sub assms show ?thesis by (auto simp: normal_line_def)
  next
    case False
    then obtain a b where ab: "find_char (CHR ''='') ?line = Some (a, b)"
      by (metis option.exhaust surj_pair)
    let ?p = "trim True a" and ?v = "trim False b"
    have line: "?line = a @ CHR ''='' # b" "CHR ''='' \<notin> set a"
      using ab by (simp_all add: find_char_Some)
    have sa: "set a \<subseteq> set raw" and sb: "set b \<subseteq> set raw" using line sub by auto
    have pa: "plain_text a" using assms(1) sa by (auto simp: plain_text_def)
    have nl: "CHR 0x0A \<notin> set ?p" "CHR 0x0A \<notin> set ?v"
      using sa sb assms(2) by (auto dest: set_trimD)
    have neq: "CHR ''='' \<notin> set ?p" using line(2) by (auto dest: set_trimD)
    have nc: "CHR ''#'' \<notin> set ?p" "CHR ''#'' \<notin> set ?v"
      using False line(1) by (auto dest: set_trimD)
    have ent: "line_entry (?p @ CHR ''='' # ?v) = (if ?p = [] then None else Some (?p, ?v))"
      using trim_True_idem(1) [OF pa] trim_True_ends [OF pa] nc neq
      by (intro line_entry_of_entry) auto
    have raw: "line_entry raw = (if ?p = [] then None else Some (?p, ?v))"
      using False ab by (simp add: line_entry_def Let_def)
    have "fst (load_line ''='' Normalize conf raw) =
        (if ?p \<noteq> [] \<and> conf ?p \<noteq> None then CHR ''#'' # ?p @ CHR ''='' # ?v
         else ?p @ CHR ''='' # ?v)"
      using False ab line(1) by (auto simp: load_line_def Let_def)
    with ent raw commented_line_entry nl neq trim_True_idem(2) [OF pa] show ?thesis
      by (auto simp: normal_line_def)
  qed
  then show "normal_line (fst (load_line ''='' Normalize conf raw))"
    "line_entry (fst (load_line ''='' Normalize conf raw)) =
       (case line_entry raw of None \<Rightarrow> None
        | Some (p, v) \<Rightarrow> if conf p = None then Some (p, v) else None)"
    by blast+
qed

lemma load_lines_coherent:
  assumes "\<forall>l \<in> set ls. plain_text l \<and> CHR 0x0A \<notin> set l"
  shows "(\<forall>l \<in> set (fst (load_lines ''='' Normalize conf ls)). normal_line l) \<and>
     text_entries (fst (load_lines ''='' Normalize conf ls)) ++ conf =
       snd (load_lines ''='' Normalize conf ls)"
  using assms
proof (induction ls arbitrary: conf)
  case (Cons l ls)
  obtain l' conf' where ll: "load_line ''='' Normalize conf l = (l', conf')" by force
  obtain ls' conf'' where rest: "load_lines ''='' Normalize conf' ls = (ls', conf'')" by force
  have IH: "\<forall>l \<in> set ls'. normal_line l" "text_entries ls' ++ conf' = conf''"
    using Cons.IH [of conf'] Cons.prems rest by auto
  have l': "normal_line l'" "line_entry l' = (case line_entry l of None \<Rightarrow> None
        | Some (p, v) \<Rightarrow> if conf p = None then Some (p, v) else None)"
    using loaded_line [of l conf] Cons.prems ll by auto
  have conf': "conf' = (case line_entry l of None \<Rightarrow> conf
      | Some (p, v) \<Rightarrow> if conf p = None then conf(p \<mapsto> v) else conf)"
    using load_line_entry [of conf l] ll by simp
  have "text_entries (l' # ls') ++ conf = conf''"
    unfolding IH(2) [symmetric] using l'(2) conf'
    by (auto simp: fun_eq_iff map_add_def split: option.splits if_splits)
  with ll rest IH(1) l'(1) show ?case by simp
qed simp

lemma getlines_aux_parts:
  "l \<in> set (getlines_aux acc s) \<Longrightarrow> CHR 0x0A \<notin> set acc \<Longrightarrow>
     CHR 0x0A \<notin> set l \<and> set l \<subseteq> set acc \<union> set s"
  by (induction acc s rule: getlines_aux.induct) (fastforce split: if_splits)+

lemma getlines_parts: "l \<in> set (getlines s) \<Longrightarrow> CHR 0x0A \<notin> set l \<and> set l \<subseteq> set s"
  using getlines_aux_parts [of l "[]" s] by (simp add: getlines_def)

lemma loadConfig_fields:
  "delimiter (loadConfig t c) = delimiter c"
  "keyWhitespacePolicy (loadConfig t c) = keyWhitespacePolicy c"
  by (simp_all add: loadConfig_def case_prod_beta Let_def)

lemma ModuleConfig_fields [simp]:
  "delimiter ModuleConfigFileHandler = ''=''"
  "keyWhitespacePolicy ModuleConfigFileHandler = Normalize"
  by (simp_all add: ModuleConfigFileHandler_def ConfigFileHandler_def)

lemma loadConfig_entries:
  "delimiter c = ''='' \<Longrightarrow> keyWhitespacePolicy c = Normalize \<Longrightarrow>
     entries (loadConfig t c) = text_entries (getlines t)"
  by (simp add: loadConfig_def case_prod_beta Let_def load_lines_entries)

lemma loadConfig_coherent:
  assumes "plain_text t" "delimiter c = ''=''" "keyWhitespacePolicy c = Normalize"
  shows "coherent (loadConfig t c)"
proof -
  have "\<forall>l \<in> set (getlines t). plain_text l \<and> CHR 0x0A \<notin> set l"
    using getlines_parts assms(1) by (fastforce simp: plain_text_def)
  from load_lines_coherent [OF this, of Map.empty] assms show ?thesis
    by (simp add: coherent_def loadConfig_def case_prod_beta Let_def)
qed

lemma coherent_reload:
  assumes "coherent c"
  shows "entries (loadConfig (pendingContent c) ModuleConfigFileHandler) = entries c"
proof -
  have "getlines (pendingContent c) = original_lines c"
    using assms by (auto simp: coherent_def pendingContent_def normal_line_def intro!: getlines_unlines)
  with assms show ?thesis by (simp add: loadConfig_entries coherent_def)
qed

section \<open>Updates keep the file coherent\<close>

definition storable_key :: "string \<Rightarrow> bool" where
  "storable_key k \<longleftrightarrow>
     k \<noteq> [] \<and> CHR ''#'' \<notin> set k \<and> CHR ''='' \<notin> set k \<and> CHR 0x0A \<notin> set k \<and>
     \<not> is_blank (hd k) \<and> \<not> is_blank (last k) \<and> trim True k = k"

definition storable :: "string \<Rightarrow> bool" where
  "storable v \<longleftrightarrow> trim False v = v \<and> CHR ''#'' \<notin> set v \<and> CHR 0x0A \<notin> set v"

lemma storable_key_trim: "storable_key k \<Longrightarrow> trim False k = k"
  by (simp add: storable_key_def trim_def strip_id)

lemma storable_line:
  assumes "storable_key k" "storable v"
  shows "line_entry (k @ CHR ''='' # v) = Some (k, v)" "normal_line (k @ CHR ''='' # v)"
proof -
  show *: "line_entry (k @ CHR ''='' # v) = Some (k, v)"
    using assms by (subst line_entry_of_entry) (auto simp: storable_key_def storable_def)
  show "normal_line (k @ CHR ''='' # v)"
    unfolding normal_line_def * using assms storable_key_trim [OF assms(1)]
    by (auto simp: storable_key_def storable_def)
qed

lemma normal_line_matches:
  assumes "normal_line l" "line_entry l = Some (p, v)" "delimiter c = ''=''"
    "keyWhitespacePolicy c = Normalize"
  shows "line_matches c k l \<longleftrightarrow> k = p"
  using assms by (auto simp: normal_line_def line_matches_def)

lemma replace_first_entries:
  assumes "\<forall>l \<in> set ls. normal_line l" "delimiter c = ''=''" "keyWhitespacePolicy c = Normalize"
    and "storable_key k" "storable v"
  shows "case replace_first (line_matches c k) (k @ CHR ''='' # v) ls of
       Some ls' \<Rightarrow> text_entries ls' = (text_entries ls)(k \<mapsto> v) \<and> (\<forall>l \<in> set ls'. normal_line l)
     | None \<Rightarrow> text_entries (ls @ [k @ CHR ''='' # v]) = (text_entries ls)(k \<mapsto> v)"
  using assms(1)
proof (induction ls)
  case Nil
  then show ?case using storable_line [OF assms(4,5)] by simp
next
  case (Cons l ls)
  show ?case
  proof (cases "line_matches c k l")
    case True
    have "\<And>p w. line_entry l = Some (p, w) \<Longrightarrow> p = k"
      using normal_line_matches [of l _ _ c k] True Cons.prems assms(2,3) by auto
    with True Cons.prems storable_line [OF assms(4,5)] show ?thesis
      by (auto split: option.splits)
  next
    case False
    have ne: "\<And>p w. line_entry l = Some (p, w) \<Longrightarrow> p \<noteq> k"
      using normal_line_matches [of l _ _ c k] False Cons.prems assms(2,3) by auto
    from Cons have IH: "case replace_first (line_matches c k) (k @ CHR ''='' # v) ls of
       Some ls' \<Rightarrow> text_entries ls' = (text_entries ls)(k \<mapsto> v) \<and> (\<forall>l \<in> set ls'. normal_line l)
     | None \<Rightarrow> text_entries (ls @ [k @ CHR ''='' # v]) = (text_entries ls)(k \<mapsto> v)" by simp
    with False Cons.prems ne show ?thesis
      by (cases "line_entry l")
         (auto split: option.splits simp: fun_upd_twist)
  qed
qed

lemma setValue_coherent:
  assumes "coherent c" "storable_key k" "storable v"
  shows "coherent (snd (config_setValue k v c))"
    and "entries (snd (config_setValue k v c)) = (entries c)(k \<mapsto> v)"
proof -
  have k: "k \<noteq> []" using assms(2) by (simp add: storable_key_def)
  have "\<forall>l \<in> set (original_lines c). normal_line l" "delimiter c = ''=''"
    "keyWhitespacePolicy c = Normalize" using assms(1) by (auto simp: coherent_def)
  note r = replace_first_entries [OF this assms(2,3)]
  show "coherent (snd (config_setValue k v c))"
    using r k assms(1) storable_line(2) [OF assms(2,3)]
    by (auto simp: config_setValue_def coherent_def Let_def split: option.splits)
  show "entries (snd (config_setValue k v c)) = (entries c)(k \<mapsto> v)"
    using k by (simp add: config_setValue_def Let_def)
qed

lemma text_entries_filter:
  assumes "\<forall>l \<in> set ls. normal_line l" "delimiter c = ''=''" "keyWhitespacePolicy c = Normalize"
  shows "text_entries (filter (\<lambda>l. \<not> line_matches c k l) ls) = (text_entries ls)(k := None)"
  using assms(1)
proof (induction ls)
  case (Cons l ls)
  then show ?case
    using normal_line_matches [of l _ _ c k] assms(2,3)
    by (cases "line_entry l") (auto simp: fun_upd_twist)
qed simp

lemma removeValue_coherent:
  assumes "coherent c" "k \<noteq> []"
  shows "coherent (snd (config_removeValue k c))"
    and "entries (snd (config_removeValue k c)) = (entries c)(k := None)"
  using assms text_entries_filter [of "original_lines c" c k]
  by (auto simp: config_removeValue_def coherent_def)

section \<open>Policy entries survive a save and a reload\<close>

definition policy_name_ok :: "string \<Rightarrow> bool" where
  "policy_name_ok p \<longleftrightarrow>
     p \<noteq> [] \<and> (\<forall>ch \<in> set p. \<not> is_space ch \<and> ch \<noteq> CHR ''#'' \<and> ch \<noteq> CHR ''='')"

lemma squeeze_no_space: "\<forall>c \<in> set s. \<not> is_space c \<Longrightarrow> squeeze b s = s"
  by (induction b s rule: squeeze.induct) auto

lemma storable_key_no_space:
  assumes "k \<noteq> []" "\<forall>ch \<in> set k. \<not> is_space ch \<and> ch \<noteq> CHR ''#'' \<and> ch \<noteq> CHR ''=''"
  shows "storable_key k"
proof -
  have b: "\<forall>ch \<in> set k. \<not> is_blank ch" using assms(2) is_blank_space by blast
  then have "strip is_blank k = k" using assms(1) by (intro strip_id) simp
  then have "trim True k = k" using assms(2) by (simp add: trim_def squeeze_no_space)
  moreover have "CHR 0x0A \<notin> set k" using b by (auto simp: is_blank_def)
  ultimately show ?thesis using assms b by (auto simp: storable_key_def)
qed

lemma policy_keys_storable:
  assumes "policy_name_ok p"
  shows "storable_key (statusKey p)" "storable_key (valueKey p)"
    "storable_key (violationSeverityKey p)"
proof -
  have "storable_key (p @ s)"
    if "\<forall>ch \<in> set s. \<not> is_space ch \<and> ch \<noteq> CHR ''#'' \<and> ch \<noteq> CHR ''=''" for s
    using assms that by (intro storable_key_no_space) (auto simp: policy_name_ok_def)
  then show "storable_key (statusKey p)" "storable_key (valueKey p)"
    "storable_key (violationSeverityKey p)"
    by (simp_all add: statusKey_def valueKey_def violationSeverityKey_def is_space_def)
qed

lemma policy_keys_distinct [simp]:
  "statusKey p \<noteq> valueKey q" "valueKey q \<noteq> statusKey p"
  "violationSeverityKey p \<noteq> valueKey q" "valueKey q \<noteq> violationSeverityKey p"
  "violationSeverityKey p \<noteq> statusKey q" "statusKey q \<noteq> violationSeverityKey p"
  "statusKey p = statusKey q \<longleftrightarrow> p = q" "valueKey p = valueKey q \<longleftrightarrow> p = q"
  "violationSeverityKey p = violationSeverityKey q \<longleftrightarrow> p = q"
proof -
  have ne: "x \<noteq> y" if "last x \<noteq> last y" for x y :: string using that by auto
  have l: "last (statusKey p) = CHR ''s''" "last (valueKey p) = CHR ''e''"
    "last (violationSeverityKey p) = CHR ''y''" for p
    by (simp_all add: statusKey_def valueKey_def violationSeverityKey_def)
  show "statusKey p \<noteq> valueKey q" "valueKey q \<noteq> statusKey p"
    "violationSeverityKey p \<noteq> valueKey q" "valueKey q \<noteq> violationSeverityKey p"
    "violationSeverityKey p \<noteq> statusKey q" "statusKey q \<noteq> violationSeverityKey p"
    by (rule ne, simp add: l)+
qed (simp_all add: statusKey_def valueKey_def violationSeverityKey_def)

lemma storable_status: "storable ENABLED_STATUS" "storable DISABLED_STATUS"
  by (simp_all add: storable_def ENABLED_STATUS_def DISABLED_STATUS_def trim_def strip_def is_blank_def)

lemma setPolicyValue_coherent:
  assumes "coherent c" "policy_name_ok p" "storable v"
  shows "coherent (snd (setPolicyValue p v c))"
    and "fst (setPolicyValue p v c)"
    and "entries (snd (setPolicyValue p v c)) =
           (if entries c (statusKey p) = None then (entries c)(statusKey p \<mapsto> DISABLED_STATUS)
            else entries c)(valueKey p \<mapsto> v)"
proof -
  let ?c' = "if \<not> isParameterExists c (statusKey p)
             then snd (config_setValue (statusKey p) DISABLED_STATUS c) else c"
  have p: "p \<noteq> []" "valueKey p \<noteq> []"
    using assms(2) by (auto simp: policy_name_ok_def valueKey_def)
  note k = policy_keys_storable [OF assms(2)]
  have c': "coherent ?c'" "entries ?c' =
      (if entries c (statusKey p) = None then (entries c)(statusKey p \<mapsto> DISABLED_STATUS)
       else entries c)"
    using assms(1) setValue_coherent [OF assms(1) k(1) storable_status(2)]
    by (auto simp: isParameterExists_def)
  have eq: "setPolicyValue p v c = config_setValue (valueKey p) v ?c'"
    using p by (simp add: setPolicyValue_def Let_def)
  show "coherent (snd (setPolicyValue p v c))"
    unfolding eq by (rule setValue_coherent [OF c'(1) k(2) assms(3)])
  show "fst (setPolicyValue p v c)"
    unfolding eq using p by (simp add: config_setValue_def Let_def)
  show "entries (snd (setPolicyValue p v c)) =
      (if entries c (statusKey p) = None then (entries c)(statusKey p \<mapsto> DISABLED_STATUS)
       else entries c)(valueKey p \<mapsto> v)"
    unfolding eq setValue_coherent(2) [OF c'(1) k(2) assms(3)] c'(2) ..
qed

lemmas policy_entry_defs =
  getPolicyValue_def getPolicyStatus_def getPolicyViolationSeverity_def config_getValue_def
  isParameterExists_def conf_hasConfiguredValue_def hasPolicyStatus_def



lemma setPolicyStatus_eq:
  assumes "policy_name_ok p"
  shows "setPolicyStatus p ENABLED_STATUS c = config_setValue (statusKey p) ENABLED_STATUS c"
    "setPolicyStatus p DISABLED_STATUS c = config_setValue (statusKey p) DISABLED_STATUS c"
  using assms by (auto simp: setPolicyStatus_def policy_name_ok_def)

text \<open>
  Enabling a policy and later disabling it, each followed by a save and a reload, acts on that
  policy alone: after the first the policy is enabled with the value it had, after the second it is
  disabled, and no other status and no value changes.
\<close>

theorem policy_switch_survives_reload:
  assumes "plain_text t" "policy_name_ok p"
    and "c = loadConfig t ModuleConfigFileHandler"
    and "d = loadConfig (pendingContent (snd (enablePolicy p c))) ModuleConfigFileHandler"
    and "e = loadConfig (pendingContent (snd (disablePolicy p (snd (enablePolicy p c)))))
               ModuleConfigFileHandler"
  shows "getPolicyStatus d p = ENABLED_STATUS \<and> getPolicyStatus e p = DISABLED_STATUS \<and>
     getPolicyValue d q = getPolicyValue c q \<and> getPolicyValue e q = getPolicyValue c q \<and>
     (q \<noteq> p \<longrightarrow> getPolicyStatus d q = getPolicyStatus c q \<and> getPolicyStatus e q = getPolicyStatus c q)"
proof -
  have c: "coherent c" unfolding assms(3) using assms(1) by (intro loadConfig_coherent) simp_all
  note k = policy_keys_storable(1) [OF assms(2)]
  note s1 = setValue_coherent [OF c k storable_status(1)]
  note s2 = setValue_coherent [OF s1(1) k storable_status(2)]
  have d: "entries d = (entries c)(statusKey p \<mapsto> ENABLED_STATUS)"
    unfolding assms(4) enablePolicy_def setPolicyStatus_eq [OF assms(2)]
      coherent_reload [OF s1(1)] s1(2) ..
  have e: "entries e = (entries c)(statusKey p \<mapsto> DISABLED_STATUS)"
    unfolding assms(5) enablePolicy_def disablePolicy_def setPolicyStatus_eq [OF assms(2)]
      coherent_reload [OF s2(1)] s2(2) s1(2) by simp
  show ?thesis
    using d e by (simp add: policy_entry_defs ENABLED_STATUS_def DISABLED_STATUS_def)
qed

lemma policy_switch_survives_reload_witness:
  "getPolicyStatus (loadConfig (pendingContent (snd (enablePolicy ''pol''
      (loadConfig ''pol.value=7'' ModuleConfigFileHandler)))) ModuleConfigFileHandler) ''pol'' =
   ENABLED_STATUS"
  by (rule policy_switch_survives_reload [THEN conjunct1, OF _ _ refl refl refl])
     (simp_all add: plain_text_def policy_name_ok_def is_space_def)


end
