(* ===== verification/PolicyDomain.thy ===== *)
theory PolicyDomain
  imports PolicyValue ModuleConfig
begin

text \<open>
  Policies and their dependencies (\<open>fic-policy\<close>: \<open>PolicyDependency\<close>, \<open>Policy\<close>,
  \<open>PolicyDependencyConditionEvaluator\<close>, \<open>PolicyApplyResult\<close>). A policy is a record of what the
  daemon reads of it: its names, its value type (a null pointer is \<open>None\<close>), the loaded
  configuration of its module, its dependencies, and the answers of its virtual members. The
  constructors of the policy classes create the configuration handler, so \<open>moduleConf\<close> is not
  null. \<open>Policy::apply\<close> acts on the machine and is a parameter of the planner.
\<close>

section \<open>References and dependencies\<close>

datatype policy_ref =
  PolicyRef (ref_moduleName: string) (ref_submoduleName: string) (ref_policyName: string)

text \<open>\<open>operator<\<close>: the lexicographic order of the three names.\<close>

definition policy_ref_less :: "policy_ref \<Rightarrow> policy_ref \<Rightarrow> bool" where
  "policy_ref_less a b \<longleftrightarrow>
     ref_moduleName a < ref_moduleName b \<or>
     ref_moduleName a = ref_moduleName b \<and>
       (ref_submoduleName a < ref_submoduleName b \<or>
        ref_submoduleName a = ref_submoduleName b \<and> ref_policyName a < ref_policyName b)"

instantiation policy_ref :: linorder
begin

definition less_policy_ref :: "policy_ref \<Rightarrow> policy_ref \<Rightarrow> bool" where
  "less_policy_ref a b \<longleftrightarrow> policy_ref_less a b"

definition less_eq_policy_ref :: "policy_ref \<Rightarrow> policy_ref \<Rightarrow> bool" where
  "less_eq_policy_ref a b \<longleftrightarrow> a < b \<or> a = b"

instance
  by standard
     (auto simp: less_policy_ref_def policy_ref_less_def less_eq_policy_ref_def intro: policy_ref.expand
       dest: order_less_trans)

end

datatype dependency_strength = Required | Recommended

datatype condition_type = Always | OwnerValueEquals | BackendRequiresCapability

record dependency_condition =
  cond_type :: condition_type
  cond_value :: string

record policy_dependency =
  dep_policy :: policy_ref
  strength :: dependency_strength
  condition :: dependency_condition

definition always :: dependency_condition where
  "always = \<lparr>cond_type = Always, cond_value = []\<rparr>"

definition whenOwnerValueEquals :: "string \<Rightarrow> dependency_condition" where
  "whenOwnerValueEquals v = \<lparr>cond_type = OwnerValueEquals, cond_value = v\<rparr>"

definition whenBackendRequiresCapability :: "string \<Rightarrow> dependency_condition" where
  "whenBackendRequiresCapability c = \<lparr>cond_type = BackendRequiresCapability, cond_value = c\<rparr>"

definition formatPolicyRef :: "policy_ref \<Rightarrow> string" where
  "formatPolicyRef r = ref_moduleName r @ '':'' @ ref_submoduleName r @ '':'' @ ref_policyName r"

section \<open>Policies\<close>

datatype policy_capability = SessionAware | SessionInventoryCompliance | GlobalDesktopConfiguration

record policy =
  moduleName :: string
  submoduleName :: string
  policyName :: string
  policyTypeValue :: "policy_type_value option"
  moduleConf :: config_file
  dependencies :: "policy_dependency list"
  dependenciesFrozen :: bool
  capabilities :: "policy_capability list"
  supportsDependencyCapability :: "string \<Rightarrow> bool"
  requiresDependencyCapability :: "string \<Rightarrow> bool"
  defaultViolationSeverity :: violation_severity

definition addDependency ::
    "policy_ref \<Rightarrow> dependency_strength \<Rightarrow> dependency_condition \<Rightarrow> policy \<Rightarrow> exn + policy" where
  "addDependency r s c p =
     (if dependenciesFrozen p
      then Inl (LogicError (''policy dependency metadata is already frozen: '' @ policyName p))
      else Inr (p\<lparr>dependencies :=
             dependencies p @ [\<lparr>dep_policy = r, strength = s, condition = c\<rparr>]\<rparr>))"

definition addRequiredDependency ::
    "policy_ref \<Rightarrow> dependency_condition \<Rightarrow> policy \<Rightarrow> exn + policy" where
  "addRequiredDependency r c p = addDependency r Required c p"

definition addRecommendedDependency ::
    "policy_ref \<Rightarrow> dependency_condition \<Rightarrow> policy \<Rightarrow> exn + policy" where
  "addRecommendedDependency r c p = addDependency r Recommended c p"

definition freezeDependencies :: "policy \<Rightarrow> policy" where
  "freezeDependencies p = p\<lparr>dependenciesFrozen := True\<rparr>"

definition policyRef :: "policy \<Rightarrow> policy_ref" where
  "policyRef p = PolicyRef (moduleName p) (submoduleName p) (policyName p)"

definition type_value_missing :: exn where
  "type_value_missing = RuntimeError ''policyTypeValue was not set''"

definition pol_hasConfiguredValue :: "policy \<Rightarrow> bool" where
  "pol_hasConfiguredValue p = conf_hasConfiguredValue (moduleConf p) (policyName p)"

definition isEnabled :: "policy \<Rightarrow> bool" where
  "isEnabled p \<longleftrightarrow> getPolicyStatus (moduleConf p) (policyName p) = ''ENABLE''"

definition pol_validate :: "policy \<Rightarrow> string \<Rightarrow> exn + bool" where
  "pol_validate p v =
     (case policyTypeValue p of Some tv \<Rightarrow> Inr (tv_validate tv v) | None \<Rightarrow> Inl type_value_missing)"

definition pol_getDefaultValue :: "policy \<Rightarrow> exn + string" where
  "pol_getDefaultValue p =
     (case policyTypeValue p of Some tv \<Rightarrow> Inr (getDefaultValue tv) | None \<Rightarrow> Inl type_value_missing)"

definition pol_postprocessingValue :: "json_dump \<Rightarrow> policy \<Rightarrow> string \<Rightarrow> exn + string" where
  "pol_postprocessingValue dump p v =
     (case policyTypeValue p of Some tv \<Rightarrow> Inr (postProcessingValue dump tv v)
      | None \<Rightarrow> Inl type_value_missing)"

definition pol_reverse_postprocessingValue :: "json_parse \<Rightarrow> policy \<Rightarrow> string \<Rightarrow> exn + string" where
  "pol_reverse_postprocessingValue parse p v =
     (case policyTypeValue p of Some tv \<Rightarrow> reverse_postProcessingValue parse tv v
      | None \<Rightarrow> Inl type_value_missing)"

text \<open>
  \<open>getValue\<close>: an unset value of a fixed type is the fixed value; a stored value is converted and
  validated, and an invalid one counts as unset. The conversion may throw.
\<close>

definition pol_getValue :: "json_parse \<Rightarrow> policy \<Rightarrow> exn + string option" where
  "pol_getValue parse p =
     (if \<not> pol_hasConfiguredValue p
      then Inr (case policyTypeValue p of None \<Rightarrow> None | Some tv \<Rightarrow> getIntrinsicValue tv)
      else case pol_reverse_postprocessingValue parse p (getPolicyValue (moduleConf p) (policyName p)) of
        Inl e \<Rightarrow> Inl e
      | Inr v \<Rightarrow> (case pol_validate p v of
          Inl e \<Rightarrow> Inl e
        | Inr ok \<Rightarrow> Inr (if ok then Some v else None)))"

text \<open>
  \<open>validateValueBeforeEnable\<close> on the given configuration; the value type is dereferenced without
  a test, so the model asks for it.
\<close>

definition validateValueBeforeEnable ::
    "json_parse \<Rightarrow> policy_type_value \<Rightarrow> policy \<Rightarrow> config_file \<Rightarrow> exn + bool" where
  "validateValueBeforeEnable parse tv p config =
     (if hasDefaultValue tv then Inr True
      else if \<not> conf_hasConfiguredValue config (policyName p) then Inr False
      else case reverse_postProcessingValue parse tv (getPolicyValue config (policyName p)) of
        Inl e \<Rightarrow> Inl e
      | Inr v \<Rightarrow> Inr (tv_validate tv v))"

definition getViolationSeverity :: "policy \<Rightarrow> violation_severity" where
  "getViolationSeverity p =
     (if hasPolicyViolationSeverity (moduleConf p) (policyName p)
      then getPolicyViolationSeverity (moduleConf p) (policyName p)
      else defaultViolationSeverity p)"

section \<open>Dependency conditions\<close>

definition dependencyConditionMatches ::
    "json_parse \<Rightarrow> policy \<Rightarrow> dependency_condition \<Rightarrow> exn + bool" where
  "dependencyConditionMatches parse owner c =
     (case cond_type c of
        Always \<Rightarrow> Inr True
      | BackendRequiresCapability \<Rightarrow> Inr (requiresDependencyCapability owner (cond_value c))
      | OwnerValueEquals \<Rightarrow> (case pol_getValue parse owner of
          Inl e \<Rightarrow> Inl e
        | Inr v \<Rightarrow> Inr (v = Some (cond_value c))))"

text \<open>\<open>Inr None\<close> is a valid condition, \<open>Inr (Some error)\<close> an invalid one.\<close>

definition validateDependencyCondition ::
    "policy \<Rightarrow> dependency_condition \<Rightarrow> exn + string option" where
  "validateDependencyCondition owner c =
     (case cond_type c of
        Always \<Rightarrow> Inr (if cond_value c \<noteq> []
          then Some ''Always dependency condition must not contain a value'' else None)
      | OwnerValueEquals \<Rightarrow> (case pol_validate owner (cond_value c) of
          Inl e \<Rightarrow> Inl e
        | Inr ok \<Rightarrow> Inr (if \<not> ok
            then Some (''OwnerValueEquals dependency condition contains an invalid '' @
                       ''owner policy value: '' @ cond_value c)
            else None))
      | BackendRequiresCapability \<Rightarrow>
          Inr (if cond_value c = [] \<or> \<not> supportsDependencyCapability owner (cond_value c)
            then Some ''BackendRequiresCapability dependency condition is not supported by its owner''
            else None))"

section \<open>Results and summaries\<close>

datatype policy_apply_status = Applied | Failed | Disabled | NotFound

datatype policy_failure_origin =
  NoFailure | OwnApplyFailure | RequiredDependencyBlocked | DependencyCycle
  | ExecutionInfrastructureFailure

primrec policyFailureOriginToString :: "policy_failure_origin \<Rightarrow> string" where
  "policyFailureOriginToString NoFailure = ''none''"
| "policyFailureOriginToString OwnApplyFailure = ''own_apply_failure''"
| "policyFailureOriginToString RequiredDependencyBlocked = ''required_dependency_blocked''"
| "policyFailureOriginToString DependencyCycle = ''dependency_cycle''"
| "policyFailureOriginToString ExecutionInfrastructureFailure = ''execution_infrastructure_failure''"

primrec policyApplyStatusToString :: "policy_apply_status \<Rightarrow> string" where
  "policyApplyStatusToString Applied = ''applied''"
| "policyApplyStatusToString Failed = ''failed''"
| "policyApplyStatusToString Disabled = ''disabled''"
| "policyApplyStatusToString NotFound = ''not_found''"

record policy_diagnostic =
  timestamp :: string
  level :: string
  category :: string
  diag_message :: string

record policy_apply_result =
  result_ref :: policy_ref
  status :: policy_apply_status
  result_message :: string
  diagnostics :: "policy_diagnostic list"
  diagnosticsTruncated :: bool
  failureOrigin :: policy_failure_origin
  ownApplyAttempted :: bool

definition make_result :: "policy_ref \<Rightarrow> policy_apply_status \<Rightarrow> string \<Rightarrow> policy_apply_result" where
  "make_result r s m =
     \<lparr>result_ref = r, status = s, result_message = m, diagnostics = [],
      diagnosticsTruncated = False, failureOrigin = NoFailure, ownApplyAttempted = False\<rparr>"

definition isApplied :: "policy_apply_result \<Rightarrow> bool" where
  "isApplied r \<longleftrightarrow> status r = Applied"

definition isFailure :: "policy_apply_result \<Rightarrow> bool" where
  "isFailure r \<longleftrightarrow> status r = Failed \<or> status r = NotFound"

definition isDisabled :: "policy_apply_result \<Rightarrow> bool" where
  "isDisabled r \<longleftrightarrow> status r = Disabled"

definition activatesIncident :: "policy_apply_result \<Rightarrow> bool" where
  "activatesIncident r \<longleftrightarrow> status r = Failed"

record policy_apply_summary =
  results :: "policy_apply_result list"
  requestedRoots :: "policy_ref list"

definition empty_summary :: policy_apply_summary where
  "empty_summary = \<lparr>results = [], requestedRoots = []\<rparr>"

definition summary_add :: "policy_apply_result \<Rightarrow> policy_apply_summary \<Rightarrow> policy_apply_summary" where
  "summary_add r s = s\<lparr>results := results s @ [r]\<rparr>"

text \<open>\<open>std::set::insert\<close>; the set is kept as its elements in increasing order.\<close>

definition markRequestedRoot :: "policy_ref \<Rightarrow> policy_apply_summary \<Rightarrow> policy_apply_summary" where
  "markRequestedRoot r s =
     s\<lparr>requestedRoots := (if r \<in> set (requestedRoots s) then requestedRoots s
                          else insort r (requestedRoots s))\<rparr>"

definition isRequestedRoot :: "policy_apply_summary \<Rightarrow> policy_ref \<Rightarrow> bool" where
  "isRequestedRoot s r \<longleftrightarrow> r \<in> set (requestedRoots s)"

definition summary_find :: "policy_apply_summary \<Rightarrow> policy_ref \<Rightarrow> policy_apply_result option" where
  "summary_find s r = find (\<lambda>x. result_ref x = r) (results s)"

definition requestedRootsApplied :: "policy_apply_summary \<Rightarrow> bool" where
  "requestedRootsApplied s \<longleftrightarrow>
     requestedRoots s \<noteq> [] \<and>
     list_all (\<lambda>r. case summary_find s r of None \<Rightarrow> False | Some x \<Rightarrow> isApplied x) (requestedRoots s)"

definition requestedRootsWithoutFailures :: "policy_apply_summary \<Rightarrow> bool" where
  "requestedRootsWithoutFailures s \<longleftrightarrow>
     list_all (\<lambda>r. case summary_find s r of None \<Rightarrow> False | Some x \<Rightarrow> \<not> isFailure x) (requestedRoots s)"

definition hasFailures :: "policy_apply_summary \<Rightarrow> bool" where
  "hasFailures s \<longleftrightarrow> list_ex isFailure (results s)"

definition hasDisabled :: "policy_apply_summary \<Rightarrow> bool" where
  "hasDisabled s \<longleftrightarrow> list_ex isDisabled (results s)"

definition hasApplied :: "policy_apply_summary \<Rightarrow> bool" where
  "hasApplied s \<longleftrightarrow> list_ex isApplied (results s)"

definition status_count :: "policy_apply_status \<Rightarrow> policy_apply_summary \<Rightarrow> nat" where
  "status_count st s = length (filter (\<lambda>r. status r = st) (results s))"

definition totalCount :: "policy_apply_summary \<Rightarrow> nat" where
  "totalCount s = length (results s)"

lemma status_counts:
  "totalCount s = status_count Applied s + status_count Failed s + status_count Disabled s +
     status_count NotFound s"
proof -
  have "length rs = length (filter (\<lambda>r. status r = Applied) rs) +
      length (filter (\<lambda>r. status r = Failed) rs) + length (filter (\<lambda>r. status r = Disabled) rs) +
      length (filter (\<lambda>r. status r = NotFound) rs)" for rs
  proof (induction rs)
    case (Cons r rs)
    then show ?case by (cases "status r") simp_all
  qed simp
  then show ?thesis by (simp add: totalCount_def status_count_def)
qed

end
