(* ===== verification/PolicyRegistry.thy ===== *)
theory PolicyRegistry
  imports PolicyDomain
begin

text \<open>
  The registry of policies (\<open>fic/src/policy/registry/PolicyRegistry.h\<close>): modules, submodules and
  policies in ordered maps, registration, lookup and enumeration. A raw pointer to a policy is
  the reference it is registered under. The lemmas show that registration keeps the registry
  well formed, that lookup and enumeration agree, and the locale \<open>policy_directory\<close> states what
  the graph and the planner rely on.
\<close>

section \<open>The registry\<close>

datatype module_view = StandardView | DeviceView | AuditView

primrec moduleViewName :: "module_view \<Rightarrow> string" where
  "moduleViewName StandardView = ''standard''"
| "moduleViewName DeviceView = ''device''"
| "moduleViewName AuditView = ''audit''"

type_synonym policy_entry_map = "(string, policy) omap"
type_synonym submodule_map = "(string, policy_entry_map) omap"

record policy_module =
  view :: module_view
  displayOrder :: int
  submodules :: submodule_map

record policy_registry =
  modules :: "(string, policy_module) omap"
  capability_index :: "policy_capability \<Rightarrow> policy_ref list"

definition empty_registry :: policy_registry where
  "empty_registry = \<lparr>modules = [], capability_index = (\<lambda>_. [])\<rparr>"

text \<open>A failed registration (\<open>Inl error\<close>) leaves the registry as it was.\<close>

definition addModule ::
    "string \<Rightarrow> module_view \<Rightarrow> int \<Rightarrow> policy_registry \<Rightarrow> string + policy_registry" where
  "addModule name v order reg =
     (if name = [] then Inl ''module name must not be empty''
      else if order < 0 then Inl (''module display order must not be negative: '' @ name)
      else case omap_find (modules reg) name of
        Some m \<Rightarrow>
          if view m \<noteq> v then Inl (''conflicting view for module: '' @ name)
          else if displayOrder m \<noteq> order then Inl (''conflicting display order for module: '' @ name)
          else Inr reg
      | None \<Rightarrow> Inr (reg\<lparr>modules :=
          omap_emplace name \<lparr>view = v, displayOrder = order, submodules = []\<rparr> (modules reg)\<rparr>))"

definition submodule_policies :: "policy_module \<Rightarrow> string \<Rightarrow> policy_entry_map" where
  "submodule_policies m sub = (case omap_find (submodules m) sub of Some ps \<Rightarrow> ps | None \<Rightarrow> [])"

definition index_capabilities ::
    "policy \<Rightarrow> (policy_capability \<Rightarrow> policy_ref list) \<Rightarrow> policy_capability \<Rightarrow> policy_ref list" where
  "index_capabilities p idx =
     fold (\<lambda>c f. f(c := f c @ [policyRef p])) (capabilities p) idx"

definition addPolicy :: "policy option \<Rightarrow> policy_registry \<Rightarrow> string + policy_registry" where
  "addPolicy po reg =
     (case po of
        None \<Rightarrow> Inl ''policy must not be null''
      | Some p \<Rightarrow>
          if moduleName p = [] \<or> submoduleName p = [] \<or> policyName p = []
          then Inl ''policy module, submodule and name must not be empty''
          else case omap_find (modules reg) (moduleName p) of
            None \<Rightarrow> Inl (''policy references unknown module: '' @ moduleName p)
          | Some m \<Rightarrow>
              let policies = submodule_policies m (submoduleName p) in
              if omap_find policies (policyName p) \<noteq> None
              then Inl (''duplicate policy registration: '' @ moduleName p @ ''/'' @
                        submoduleName p @ ''/'' @ policyName p)
              else Inr (reg\<lparr>
                capability_index := index_capabilities p (capability_index reg),
                modules := omap_assign (moduleName p)
                  (m\<lparr>submodules := omap_assign (submoduleName p)
                     (omap_emplace (policyName p) (freezeDependencies p) policies)
                     (submodules m)\<rparr>)
                  (modules reg)\<rparr>))"

definition findPolicy :: "policy_registry \<Rightarrow> policy_ref \<Rightarrow> policy option" where
  "findPolicy reg r =
     (case omap_find (modules reg) (ref_moduleName r) of
        None \<Rightarrow> None
      | Some m \<Rightarrow> (case omap_find (submodules m) (ref_submoduleName r) of
          None \<Rightarrow> None
        | Some ps \<Rightarrow> omap_find ps (ref_policyName r)))"

definition policyRefs :: "policy_registry \<Rightarrow> policy_ref list" where
  "policyRefs reg =
     concat (map (\<lambda>(mn, m). concat (map (\<lambda>(sn, ps). map (\<lambda>(pn, _). PolicyRef mn sn pn) ps)
       (submodules m))) (modules reg))"

definition capabilityPolicies :: "policy_registry \<Rightarrow> policy_capability \<Rightarrow> policy_ref list" where
  "capabilityPolicies reg c = capability_index reg c"

section \<open>Well-formedness\<close>

text \<open>
  The maps are ordered, and every policy is stored under its own names, with its dependencies
  frozen.
\<close>

definition module_wf :: "string \<Rightarrow> policy_module \<Rightarrow> bool" where
  "module_wf mn m \<longleftrightarrow>
     omap_wf (submodules m) \<and>
     (\<forall>sn ps. (sn, ps) \<in> set (submodules m) \<longrightarrow> omap_wf ps \<and>
        (\<forall>pn p. (pn, p) \<in> set ps \<longrightarrow>
           policyRef p = PolicyRef mn sn pn \<and> dependenciesFrozen p \<and>
           mn \<noteq> [] \<and> sn \<noteq> [] \<and> pn \<noteq> []))"

definition registry_wf :: "policy_registry \<Rightarrow> bool" where
  "registry_wf reg \<longleftrightarrow>
     omap_wf (modules reg) \<and> (\<forall>mn m. (mn, m) \<in> set (modules reg) \<longrightarrow> module_wf mn m)"

lemma registry_wf_empty [fic_intros]: "registry_wf empty_registry"
  by (simp add: registry_wf_def empty_registry_def)

lemma set_omap_assign:
  "omap_wf m \<Longrightarrow> set (omap_assign k v m) = insert (k, v) {x \<in> set m. fst x \<noteq> k}"
  by (induction k v m rule: omap_assign.induct) force+

lemma module_wf_find:
  "registry_wf reg \<Longrightarrow> omap_find (modules reg) mn = Some m \<Longrightarrow> module_wf mn m"
  by (auto simp: registry_wf_def omap_find_Some_iff)

lemma submodule_policies_wf:
  "module_wf mn m \<Longrightarrow> omap_wf (submodule_policies m sn)"
  by (auto simp: submodule_policies_def module_wf_def dest: omap_find_SomeD omap_find_SomeD'
      split: option.splits)

lemma submodule_policies_entry:
  "module_wf mn m \<Longrightarrow> (pn, p) \<in> set (submodule_policies m sn) \<Longrightarrow>
     policyRef p = PolicyRef mn sn pn \<and> dependenciesFrozen p \<and> mn \<noteq> [] \<and> sn \<noteq> [] \<and> pn \<noteq> []"
  unfolding submodule_policies_def module_wf_def
  by (cases "omap_find (submodules m) sn") (use omap_find_SomeD in fastforce)+

lemma module_wf_empty [simp]: "module_wf mn \<lparr>view = v, displayOrder = n, submodules = []\<rparr>"
  by (simp add: module_wf_def)

lemma addModule_wf [fic_intros]:
  "registry_wf reg \<Longrightarrow> addModule name v order reg = Inr reg' \<Longrightarrow> registry_wf reg'"
  by (auto simp: addModule_def registry_wf_def omap_emplace_def omap_wf_assign
      set_omap_assign split: if_splits option.splits)

lemma policyRef_freeze [simp]: "policyRef (freezeDependencies p) = policyRef p"
  by (simp add: policyRef_def freezeDependencies_def)

lemma addPolicy_SomeE:
  assumes "addPolicy po reg = Inr reg'"
  obtains p m where "po = Some p" "moduleName p \<noteq> []" "submoduleName p \<noteq> []" "policyName p \<noteq> []"
    and "omap_find (modules reg) (moduleName p) = Some m"
    and "omap_find (submodule_policies m (submoduleName p)) (policyName p) = None"
    and "modules reg' = omap_assign (moduleName p)
           (m\<lparr>submodules := omap_assign (submoduleName p)
              (omap_assign (policyName p) (freezeDependencies p)
                (submodule_policies m (submoduleName p))) (submodules m)\<rparr>) (modules reg)"
    and "capability_index reg' = index_capabilities p (capability_index reg)"
  using assms
  by (auto simp: addPolicy_def Let_def omap_emplace_def split: option.splits if_splits)

lemma module_wf_add:
  assumes "module_wf (moduleName p) m" "moduleName p \<noteq> []" "submoduleName p \<noteq> []" "policyName p \<noteq> []"
  shows "module_wf (moduleName p)
    (m\<lparr>submodules := omap_assign (submoduleName p)
       (omap_assign (policyName p) (freezeDependencies p)
         (submodule_policies m (submoduleName p))) (submodules m)\<rparr>)"
proof -
  let ?ps = "submodule_policies m (submoduleName p)"
  have w: "omap_wf ?ps" "omap_wf (submodules m)"
    using assms(1) submodule_policies_wf by (auto simp: module_wf_def)
  have "policyRef q = PolicyRef (moduleName p) (submoduleName p) pn \<and> dependenciesFrozen q \<and> pn \<noteq> []"
    if "(pn, q) \<in> set (omap_assign (policyName p) (freezeDependencies p) ?ps)" for pn q
    using that assms submodule_policies_entry [OF assms(1)]
    by (auto simp: set_omap_assign [OF w(1)] policyRef_def freezeDependencies_def)
  with w assms show ?thesis
    by (auto simp: module_wf_def omap_wf_assign set_omap_assign)
qed

lemma addPolicy_wf [fic_intros]:
  assumes "registry_wf reg" "addPolicy po reg = Inr reg'"
  shows "registry_wf reg'"
  using assms(2)
proof (cases rule: addPolicy_SomeE)
  case (1 p m)
  have "module_wf (moduleName p) m" using assms(1) 1(5) by (rule module_wf_find)
  from module_wf_add [OF this 1(2-4)] assms(1) 1(7) show ?thesis
    by (auto simp: registry_wf_def omap_wf_assign set_omap_assign)
qed

section \<open>Lookup and enumeration\<close>

lemma findPolicy_policyRef:
  "registry_wf reg \<Longrightarrow> findPolicy reg r = Some p \<Longrightarrow>
     policyRef p = r \<and> dependenciesFrozen p \<and>
     ref_moduleName r \<noteq> [] \<and> ref_submoduleName r \<noteq> [] \<and> ref_policyName r \<noteq> []"
  unfolding findPolicy_def
  by (cases r) (fastforce simp: registry_wf_def module_wf_def dest!: omap_find_SomeD
       split: option.splits)

lemma findPolicy_Some_iff:
  assumes "registry_wf reg"
  shows "findPolicy reg (PolicyRef mn sn pn) = Some p \<longleftrightarrow>
    (\<exists>m ps. (mn, m) \<in> set (modules reg) \<and> (sn, ps) \<in> set (submodules m) \<and> (pn, p) \<in> set ps)"
    (is "?l \<longleftrightarrow> ?r")
proof
  assume ?l
  then show ?r unfolding findPolicy_def by (auto dest!: omap_find_SomeD split: option.splits)
next
  assume ?r
  then obtain m ps where m: "(mn, m) \<in> set (modules reg)" "(sn, ps) \<in> set (submodules m)"
    "(pn, p) \<in> set ps" by blast
  with assms have "omap_find (modules reg) mn = Some m" "omap_find (submodules m) sn = Some ps"
    "omap_find ps pn = Some p"
    by (auto simp: registry_wf_def module_wf_def omap_find_Some_iff)
  then show ?l by (simp add: findPolicy_def)
qed

lemma set_policyRefs:
  assumes "registry_wf reg"
  shows "r \<in> set (policyRefs reg) \<longleftrightarrow> findPolicy reg r \<noteq> None"
proof (cases r)
  case (PolicyRef mn sn pn)
  have "r \<in> set (policyRefs reg) \<longleftrightarrow>
      (\<exists>x \<in> set (modules reg). \<exists>y \<in> set (submodules (snd x)). \<exists>z \<in> set (snd y).
         r = PolicyRef (fst x) (fst y) (fst z))"
    by (auto simp: policyRefs_def split_beta)
  also have "\<dots> \<longleftrightarrow> (\<exists>p m ps. (mn, m) \<in> set (modules reg) \<and> (sn, ps) \<in> set (submodules m) \<and>
      (pn, p) \<in> set ps)"
    unfolding PolicyRef by (simp add: Bex_def) blast
  finally show ?thesis
    using findPolicy_Some_iff [OF assms, of mn sn pn] PolicyRef by auto
qed

lemma sorted_wrt_concat:
  "\<forall>xs \<in> set xss. sorted_wrt R xs \<Longrightarrow>
   sorted_wrt (\<lambda>xs ys. \<forall>x \<in> set xs. \<forall>y \<in> set ys. R x y) xss \<Longrightarrow> sorted_wrt R (concat xss)"
  by (induction xss) (auto simp: sorted_wrt_append)

lemma sorted_wrt_omap:
  assumes "omap_wf m" "\<And>k v k' v'. (k, v) \<in> set m \<Longrightarrow> (k', v') \<in> set m \<Longrightarrow> k < k' \<Longrightarrow> Q (k, v) (k', v')"
  shows "sorted_wrt Q m"
proof -
  have "sorted_wrt (\<lambda>x y. fst x < fst y) m"
    using assms(1) by (simp add: omap_wf_def sorted_wrt_map)
  then show ?thesis
    by (rule sorted_wrt_mono_rel [rotated]) (auto intro: assms(2))
qed

lemma sorted_policyRefs:
  assumes "registry_wf reg"
  shows "sorted_wrt (<) (policyRefs reg)"
  unfolding policyRefs_def
proof (rule sorted_wrt_concat)
  have "sorted_wrt (<) (concat (map (\<lambda>(sn, ps). map (\<lambda>(pn, _). PolicyRef mn sn pn) ps) (submodules m)))"
    if "module_wf mn m" for mn m
  proof (rule sorted_wrt_concat)
    show "\<forall>xs \<in> set (map (\<lambda>(sn, ps). map (\<lambda>(pn, _). PolicyRef mn sn pn) ps) (submodules m)).
        sorted_wrt (<) xs"
      using that
      by (auto simp: module_wf_def sorted_wrt_map less_policy_ref_def policy_ref_less_def intro!: sorted_wrt_omap)
    show "sorted_wrt (\<lambda>xs ys. \<forall>x \<in> set xs. \<forall>y \<in> set ys. x < y)
        (map (\<lambda>(sn, ps). map (\<lambda>(pn, _). PolicyRef mn sn pn) ps) (submodules m))"
      using that unfolding sorted_wrt_map
      by (intro sorted_wrt_omap) (auto simp: module_wf_def less_policy_ref_def policy_ref_less_def)
  qed
  with assms show "\<forall>xs \<in> set (map (\<lambda>(mn, m). concat (map (\<lambda>(sn, ps).
      map (\<lambda>(pn, _). PolicyRef mn sn pn) ps) (submodules m))) (modules reg)). sorted_wrt (<) xs"
    by (auto simp: registry_wf_def)
  show "sorted_wrt (\<lambda>xs ys. \<forall>x \<in> set xs. \<forall>y \<in> set ys. x < y) (map (\<lambda>(mn, m). concat (map
      (\<lambda>(sn, ps). map (\<lambda>(pn, _). PolicyRef mn sn pn) ps) (submodules m))) (modules reg))"
    using assms unfolding sorted_wrt_map
    by (intro sorted_wrt_omap) (auto simp: registry_wf_def less_policy_ref_def policy_ref_less_def)
qed

lemma distinct_policyRefs: "registry_wf reg \<Longrightarrow> distinct (policyRefs reg)"
  using sorted_policyRefs strict_sorted_iff by blast

lemma findPolicy_addModule:
  "addModule name v order reg = Inr reg' \<Longrightarrow> findPolicy reg' r = findPolicy reg r"
  by (auto simp: addModule_def findPolicy_def omap_find_emplace split: if_splits option.splits)

lemma findPolicy_addPolicy:
  assumes "addPolicy (Some p) reg = Inr reg'"
  shows "findPolicy reg' = (findPolicy reg)(policyRef p \<mapsto> freezeDependencies p)"
    and "findPolicy reg (policyRef p) = None"
proof -
  obtain m where m: "omap_find (modules reg) (moduleName p) = Some m"
    "omap_find (submodule_policies m (submoduleName p)) (policyName p) = None"
    "modules reg' = omap_assign (moduleName p)
           (m\<lparr>submodules := omap_assign (submoduleName p)
              (omap_assign (policyName p) (freezeDependencies p)
                (submodule_policies m (submoduleName p))) (submodules m)\<rparr>) (modules reg)"
    using assms by (rule addPolicy_SomeE) auto
  show "findPolicy reg (policyRef p) = None"
    using m by (auto simp: findPolicy_def policyRef_def submodule_policies_def split: option.splits)
  show "findPolicy reg' = (findPolicy reg)(policyRef p \<mapsto> freezeDependencies p)"
  proof
    fix r
    show "findPolicy reg' r = ((findPolicy reg)(policyRef p \<mapsto> freezeDependencies p)) r"
      using m by (cases r)
        (auto simp: findPolicy_def policyRef_def submodule_policies_def omap_find_assign
          split: option.splits)
  qed
qed

section \<open>The interface of the registry\<close>

text \<open>
  What the dependency graph, the planner and the incident reporter rely on: the references are
  the registered policies in increasing order, and a policy is found under its own names.
\<close>

locale policy_directory =
  fixes lookup :: "'r \<Rightarrow> policy_ref \<Rightarrow> policy option"
    and refs :: "'r \<Rightarrow> policy_ref list"
    and invar :: "'r \<Rightarrow> bool"
  assumes refs_lookup: "invar r \<Longrightarrow> x \<in> set (refs r) \<longleftrightarrow> lookup r x \<noteq> None"
    and refs_sorted: "invar r \<Longrightarrow> sorted_wrt (<) (refs r)"
    and lookup_ref: "invar r \<Longrightarrow> lookup r x = Some p \<Longrightarrow> policyRef p = x"
begin

lemma dom_lookup: "invar r \<Longrightarrow> dom (lookup r) = set (refs r)"
  using refs_lookup by blast

lemma refs_distinct: "invar r \<Longrightarrow> distinct (refs r)"
  using refs_sorted strict_sorted_iff by blast

lemma finite_registered: "invar r \<Longrightarrow> finite (dom (lookup r))"
  by (simp add: dom_lookup)

lemma card_registered: "invar r \<Longrightarrow> card (dom (lookup r)) = length (refs r)"
  by (simp add: dom_lookup refs_distinct distinct_card)

lemma unvisited_less:
  "invar r \<Longrightarrow> lookup r x \<noteq> None \<Longrightarrow> x \<notin> V \<Longrightarrow>
     card (dom (lookup r) - insert x V) < card (dom (lookup r) - V)"
  by (rule psubset_card_mono) (auto simp: finite_registered)

lemma unvisited_le: "invar r \<Longrightarrow> card (dom (lookup r) - V) \<le> length (refs r)"
  unfolding card_registered [symmetric] by (rule card_mono) (auto simp: finite_registered)

end

interpretation reg: policy_directory findPolicy policyRefs registry_wf
  by unfold_locales (auto simp: set_policyRefs sorted_policyRefs dest: findPolicy_policyRef)

end
