(* ===== verification/DependencyGraph.thy ===== *)
theory DependencyGraph
  imports PolicyRegistry
begin

text \<open>
  Validation of the policy dependencies (\<open>fic/src/policy/execution/PolicyDependencyGraph.cpp\<close>):
  the checks of the declared dependencies, the depth-first search for cycles, and the enabled
  policies that require a given one. The error texts of the source are the values of
  \<open>graph_error\<close> and their rendering. The theorems show that validation accepts exactly the
  registries whose declarations are well formed and whose graph has no cycle, that it always
  returns, and that a reported cycle is one.
\<close>

section \<open>Errors\<close>

datatype graph_error =
    IncompleteReference policy_ref
  | SelfDependency policy_ref
  | UnknownDependency policy_ref policy_ref
  | InvalidCondition policy_ref policy_ref string
  | DuplicateDependency policy_ref policy_ref
  | ContradictoryStrength policy_ref policy_ref
  | MissingPolicy policy_ref
  | CycleDetected "policy_ref list"

fun format_path :: "policy_ref list \<Rightarrow> string" where
  "format_path [] = []"
| "format_path [r] = formatPolicyRef r"
| "format_path (r # s # rs) = formatPolicyRef r @ '' -> '' @ format_path (s # rs)"

text \<open>The text of an error; the path of a cycle ends with its first element.\<close>

primrec graph_error_text :: "graph_error \<Rightarrow> string" where
  "graph_error_text (IncompleteReference o') =
     ''policy '' @ formatPolicyRef o' @ '' contains an incomplete dependency reference''"
| "graph_error_text (SelfDependency o') = ''policy '' @ formatPolicyRef o' @ '' depends on itself''"
| "graph_error_text (UnknownDependency o' d) =
     ''policy '' @ formatPolicyRef o' @ '' references unknown dependency '' @ formatPolicyRef d"
| "graph_error_text (InvalidCondition o' d e) =
     ''policy '' @ formatPolicyRef o' @ '' contains invalid dependency condition for '' @
     formatPolicyRef d @ '': '' @ e"
| "graph_error_text (DuplicateDependency o' d) =
     ''policy '' @ formatPolicyRef o' @ '' declares duplicate dependency '' @ formatPolicyRef d"
| "graph_error_text (ContradictoryStrength o' d) =
     ''policy '' @ formatPolicyRef o' @ '' declares dependency as both Required and Recommended '' @
     formatPolicyRef d"
| "graph_error_text (MissingPolicy r) =
     ''dependency graph references missing policy '' @ formatPolicyRef r"
| "graph_error_text (CycleDetected path) =
     ''policy dependency cycle detected: '' @ format_path path"

section \<open>Checking the declarations\<close>

definition validPolicyRef :: "policy_ref \<Rightarrow> bool" where
  "validPolicyRef r \<longleftrightarrow> ref_moduleName r \<noteq> [] \<and> ref_submoduleName r \<noteq> [] \<and> ref_policyName r \<noteq> []"

text \<open>The inner loop of \<open>validatePolicyDependencyGraph\<close> over the dependencies of one policy.\<close>

fun check_dependencies ::
    "policy_registry \<Rightarrow> policy_ref \<Rightarrow> policy \<Rightarrow> (policy_ref \<rightharpoonup> dependency_strength) \<Rightarrow>
     policy_dependency list \<Rightarrow> exn + graph_error option" where
  "check_dependencies reg owner p targets [] = Inr None"
| "check_dependencies reg owner p targets (d # ds) =
     (if \<not> validPolicyRef (dep_policy d) then Inr (Some (IncompleteReference owner))
      else if dep_policy d = owner then Inr (Some (SelfDependency owner))
      else if findPolicy reg (dep_policy d) = None
        then Inr (Some (UnknownDependency owner (dep_policy d)))
      else case validateDependencyCondition p (condition d) of
        Inl e \<Rightarrow> Inl e
      | Inr (Some e) \<Rightarrow> Inr (Some (InvalidCondition owner (dep_policy d) e))
      | Inr None \<Rightarrow> (case targets (dep_policy d) of
          Some s \<Rightarrow> Inr (Some (if s = strength d then DuplicateDependency owner (dep_policy d)
                              else ContradictoryStrength owner (dep_policy d)))
        | None \<Rightarrow> check_dependencies reg owner p (targets(dep_policy d \<mapsto> strength d)) ds))"

text \<open>The outer loop; the references come from the registry, so the lookup finds a policy.\<close>

fun check_owners :: "policy_registry \<Rightarrow> policy_ref list \<Rightarrow> exn + graph_error option" where
  "check_owners reg [] = Inr None"
| "check_owners reg (owner # rest) =
     (case findPolicy reg owner of
        None \<Rightarrow> check_owners reg rest
      | Some p \<Rightarrow> (case check_dependencies reg owner p Map.empty (dependencies p) of
          Inl e \<Rightarrow> Inl e
        | Inr (Some err) \<Rightarrow> Inr (Some err)
        | Inr None \<Rightarrow> check_owners reg rest))"

section \<open>The search for cycles\<close>

datatype visit_state = Visiting | Visited

type_synonym visit_states = "policy_ref \<rightharpoonup> visit_state"

text \<open>
  The loop over the sorted targets of a policy; \<open>visit\<close> is the recursive call. \<open>None\<close> stands for
  a search that ran out of fuel.
\<close>

fun visit_targets ::
    "(policy_ref \<Rightarrow> visit_states \<Rightarrow> (graph_error + visit_states) option) \<Rightarrow>
     policy_ref list \<Rightarrow> policy_ref list \<Rightarrow> visit_states \<Rightarrow> (graph_error + visit_states) option" where
  "visit_targets visit path [] states = Some (Inr states)"
| "visit_targets visit path (t # ts) states =
     (if states t = Some Visiting
      then Some (Inl (CycleDetected (dropWhile (\<lambda>r. r \<noteq> t) path @ [t])))
      else if states t = None
      then (case visit t states of
              None \<Rightarrow> None
            | Some (Inl e) \<Rightarrow> Some (Inl e)
            | Some (Inr states') \<Rightarrow> visit_targets visit path ts states')
      else visit_targets visit path ts states)"

text \<open>
  \<open>visitPolicy\<close>. The source appends the current policy to the path and removes it on success; a
  failed search is abandoned, so the path is an argument here.
\<close>

fun visitPolicy ::
    "nat \<Rightarrow> policy_registry \<Rightarrow> policy_ref list \<Rightarrow> policy_ref \<Rightarrow> visit_states \<Rightarrow>
     (graph_error + visit_states) option" where
  "visitPolicy 0 reg path current states = None"
| "visitPolicy (Suc n) reg path current states =
     (let states1 = states(current \<mapsto> Visiting);
          path1 = path @ [current]
      in case findPolicy reg current of
           None \<Rightarrow> Some (Inl (MissingPolicy current))
         | Some p \<Rightarrow>
             (case visit_targets (visitPolicy n reg path1) path1
                     (sort (map dep_policy (dependencies p))) states1 of
                None \<Rightarrow> None
              | Some (Inl e) \<Rightarrow> Some (Inl e)
              | Some (Inr states2) \<Rightarrow> Some (Inr (states2(current \<mapsto> Visited)))))"

fun visit_all ::
    "nat \<Rightarrow> policy_registry \<Rightarrow> policy_ref list \<Rightarrow> visit_states \<Rightarrow> (graph_error + visit_states) option" where
  "visit_all n reg [] states = Some (Inr states)"
| "visit_all n reg (r # rs) states =
     (if states r = None
      then (case visitPolicy n reg [] r states of
              None \<Rightarrow> None
            | Some (Inl e) \<Rightarrow> Some (Inl e)
            | Some (Inr states') \<Rightarrow> visit_all n reg rs states')
      else visit_all n reg rs states)"

text \<open>
  \<open>validatePolicyDependencyGraph\<close>: \<open>Some (Inr None)\<close> is success, \<open>Some (Inr (Some e))\<close> a
  rejection, \<open>Some (Inl e)\<close> an exception of the condition check. The fuel is one more than the
  number of policies, and a search nests at most once per policy.
\<close>

definition validatePolicyDependencyGraph ::
    "policy_registry \<Rightarrow> (exn + graph_error option) option" where
  "validatePolicyDependencyGraph reg =
     (case check_owners reg (policyRefs reg) of
        Inl e \<Rightarrow> Some (Inl e)
      | Inr (Some err) \<Rightarrow> Some (Inr (Some err))
      | Inr None \<Rightarrow>
          (case visit_all (Suc (length (policyRefs reg))) reg (policyRefs reg) Map.empty of
             None \<Rightarrow> None
           | Some (Inl e) \<Rightarrow> Some (Inr (Some e))
           | Some (Inr _) \<Rightarrow> Some (Inr None)))"

section \<open>Enabled policies that require a policy\<close>

fun requires_dependency ::
    "json_parse \<Rightarrow> policy \<Rightarrow> policy_ref \<Rightarrow> policy_dependency list \<Rightarrow> exn + bool" where
  "requires_dependency parse p target [] = Inr False"
| "requires_dependency parse p target (d # ds) =
     (if dep_policy d = target \<and> strength d = Required
      then (case dependencyConditionMatches parse p (condition d) of
              Inl e \<Rightarrow> Inl e
            | Inr True \<Rightarrow> Inr True
            | Inr False \<Rightarrow> requires_dependency parse p target ds)
      else requires_dependency parse p target ds)"

fun collect_dependents ::
    "json_parse \<Rightarrow> policy_registry \<Rightarrow> policy_ref \<Rightarrow> policy_ref list \<Rightarrow> exn + policy_ref list" where
  "collect_dependents parse reg target [] = Inr []"
| "collect_dependents parse reg target (c # cs) =
     (if c = target then collect_dependents parse reg target cs
      else case findPolicy reg c of
        None \<Rightarrow> collect_dependents parse reg target cs
      | Some p \<Rightarrow>
          if \<not> isEnabled p then collect_dependents parse reg target cs
          else (case requires_dependency parse p target (dependencies p) of
                  Inl e \<Rightarrow> Inl e
                | Inr r \<Rightarrow> (case collect_dependents parse reg target cs of
                    Inl e \<Rightarrow> Inl e
                  | Inr rest \<Rightarrow> Inr (if r then c # rest else rest))))"

definition enabledRequiredDependents ::
    "json_parse \<Rightarrow> policy_registry \<Rightarrow> policy_ref \<Rightarrow> exn + policy_ref list" where
  "enabledRequiredDependents parse reg target =
     map_sum id sort (collect_dependents parse reg target (policyRefs reg))"

section \<open>Specification\<close>

definition dep_edges :: "policy_registry \<Rightarrow> (policy_ref \<times> policy_ref) set" where
  "dep_edges reg =
     {(a, b). \<exists>p. findPolicy reg a = Some p \<and> b \<in> dep_policy ` set (dependencies p)}"

definition declarations_ok :: "policy_registry \<Rightarrow> policy_ref \<Rightarrow> policy \<Rightarrow> bool" where
  "declarations_ok reg owner p \<longleftrightarrow>
     (\<forall>d \<in> set (dependencies p).
        validPolicyRef (dep_policy d) \<and> dep_policy d \<noteq> owner \<and>
        findPolicy reg (dep_policy d) \<noteq> None \<and>
        validateDependencyCondition p (condition d) = Inr None) \<and>
     distinct (map dep_policy (dependencies p))"

definition graph_ok :: "policy_registry \<Rightarrow> bool" where
  "graph_ok reg \<longleftrightarrow>
     (\<forall>owner p. findPolicy reg owner = Some p \<longrightarrow> declarations_ok reg owner p) \<and>
     acyclic (dep_edges reg)"

definition is_cycle :: "(policy_ref \<times> policy_ref) set \<Rightarrow> policy_ref list \<Rightarrow> bool" where
  "is_cycle E c \<longleftrightarrow> 2 \<le> length c \<and> hd c = last c \<and> successively (\<lambda>a b. (a, b) \<in> E) c"

section \<open>The declarations are checked exactly\<close>

lemma check_dependencies_iff:
  "check_dependencies reg owner p targets ds = Inr None \<longleftrightarrow>
     (\<forall>d \<in> set ds. validPolicyRef (dep_policy d) \<and> dep_policy d \<noteq> owner \<and>
        findPolicy reg (dep_policy d) \<noteq> None \<and>
        validateDependencyCondition p (condition d) = Inr None) \<and>
     distinct (map dep_policy ds) \<and> dom targets \<inter> dep_policy ` set ds = {}"
proof (induction ds arbitrary: targets)
  case (Cons d ds)
  then show ?case
    by (cases "validateDependencyCondition p (condition d)"; cases "targets (dep_policy d)")
       (auto simp: domI split: option.splits)
qed simp

lemma check_owners_iff:
  "check_owners reg rs = Inr None \<longleftrightarrow>
     (\<forall>r \<in> set rs. \<forall>p. findPolicy reg r = Some p \<longrightarrow> declarations_ok reg r p)"
proof (induction rs)
  case (Cons r rs)
  have "declarations_ok reg r p \<longleftrightarrow>
      check_dependencies reg r p Map.empty (dependencies p) = Inr None" for p
    by (simp add: declarations_ok_def check_dependencies_iff)
  with Cons show ?case by (auto split: option.splits sum.splits)
qed simp

lemma check_owners_registry:
  "registry_wf reg \<Longrightarrow> check_owners reg (policyRefs reg) = Inr None \<longleftrightarrow>
     (\<forall>owner p. findPolicy reg owner = Some p \<longrightarrow> declarations_ok reg owner p)"
  by (auto simp: check_owners_iff set_policyRefs)

section \<open>The search\<close>

definition visited :: "visit_states \<Rightarrow> policy_ref set" where
  "visited st = {r. st r = Some Visited}"

definition search_inv :: "policy_registry \<Rightarrow> policy_ref list \<Rightarrow> visit_states \<Rightarrow> bool" where
  "search_inv reg path st \<longleftrightarrow>
     dom st \<subseteq> dom (findPolicy reg) \<and>
     {r. st r = Some Visiting} = set path \<and>
     successively (\<lambda>a b. (a, b) \<in> dep_edges reg) path \<and>
     dep_edges reg `` visited st \<subseteq> visited st \<and>
     (\<forall>r \<in> visited st. (r, r) \<notin> (dep_edges reg)\<^sup>+)"

text \<open>What a call of the search at a policy gives, on every outcome.\<close>

definition search_post ::
    "policy_registry \<Rightarrow> policy_ref list \<Rightarrow> policy_ref set \<Rightarrow> visit_states \<Rightarrow>
     (graph_error + visit_states) option \<Rightarrow> bool" where
  "search_post reg path rs st res \<longleftrightarrow>
     (case res of None \<Rightarrow> False
      | Some (Inl e) \<Rightarrow> (\<exists>c. e = CycleDetected c \<and> is_cycle (dep_edges reg) c)
      | Some (Inr st') \<Rightarrow> search_inv reg path st' \<and> rs \<subseteq> visited st' \<and>
          visited st \<subseteq> visited st' \<and> dom st \<subseteq> dom st')"

definition search_spec ::
    "policy_registry \<Rightarrow> nat \<Rightarrow> policy_ref list \<Rightarrow>
     (policy_ref \<Rightarrow> visit_states \<Rightarrow> (graph_error + visit_states) option) \<Rightarrow> bool" where
  "search_spec reg n path visit \<longleftrightarrow>
     (\<forall>r st. search_inv reg path st \<longrightarrow> st r = None \<longrightarrow> findPolicy reg r \<noteq> None \<longrightarrow>
        (path \<noteq> [] \<longrightarrow> (last path, r) \<in> dep_edges reg) \<longrightarrow>
        card (dom (findPolicy reg) - dom st) \<le> n \<longrightarrow>
        search_post reg path {r} st (visit r st))"

lemma cycle_on_path:
  assumes "successively (\<lambda>a b. (a, b) \<in> E) path" "t \<in> set path" "(last path, t) \<in> E"
  shows "is_cycle E (dropWhile (\<lambda>r. r \<noteq> t) path @ [t])"
proof -
  let ?d = "dropWhile (\<lambda>r. r \<noteq> t) path"
  have ne: "?d \<noteq> []" using assms(2) by (simp add: dropWhile_eq_Nil_conv)
  then have "hd ?d = t" using hd_dropWhile by blast
  moreover obtain xs where xs: "path = xs @ ?d"
    by (metis takeWhile_dropWhile_id)
  have "successively (\<lambda>a b. (a, b) \<in> E) ?d"
    using assms(1) xs successively_append_iff by metis
  moreover have "last ?d = last path"
    using ne xs last_appendR by metis
  ultimately show ?thesis
    using ne assms(3) by (auto simp: is_cycle_def successively_append_iff Suc_le_eq)
qed

lemma visit_targets_post:
  assumes spec: "search_spec reg n path visit" and "path \<noteq> []"
    and "\<forall>t \<in> set ts. (last path, t) \<in> dep_edges reg \<and> findPolicy reg t \<noteq> None"
    and "search_inv reg path st" "card (dom (findPolicy reg) - dom st) \<le> n"
    and fin: "finite (dom (findPolicy reg))"
  shows "search_post reg path (set ts) st (visit_targets visit path ts st)"
  using assms(3-5)
proof (induction ts arbitrary: st)
  case Nil
  then show ?case by (simp add: search_post_def)
next
  case (Cons t ts)
  consider (cycle) "st t = Some Visiting" | (new) "st t = None" | (old) "st t = Some Visited"
    by (metis option.exhaust visit_state.exhaust)
  then show ?case
  proof cases
    case cycle
    then have "t \<in> set path" using Cons.prems(2) by (auto simp: search_inv_def)
    then have "is_cycle (dep_edges reg) (dropWhile (\<lambda>r. r \<noteq> t) path @ [t])"
      using Cons.prems(1,2) by (intro cycle_on_path) (auto simp: search_inv_def)
    with cycle show ?thesis by (simp add: search_post_def)
  next
    case new
    from spec new Cons.prems have post: "search_post reg path {t} st (visit t st)"
      by (simp add: search_spec_def)
    show ?thesis
    proof (cases "visit t st")
      case None
      with post show ?thesis by (simp add: search_post_def)
    next
      case (Some res)
      show ?thesis
      proof (cases res)
        case (Inl e)
        with Some new post show ?thesis by (simp add: search_post_def)
      next
        case (Inr st')
        have st': "search_inv reg path st'" "t \<in> visited st'" "visited st \<subseteq> visited st'"
          "dom st \<subseteq> dom st'"
          using post Some Inr by (auto simp: search_post_def)
        have "card (dom (findPolicy reg) - dom st') \<le> card (dom (findPolicy reg) - dom st)"
          using st'(4) fin by (intro card_mono) auto
        with Cons.IH [of st'] Cons.prems st'
        have "search_post reg path (set ts) st' (visit_targets visit path ts st')" by simp
        with new Some Inr st'(2-4) show ?thesis
          unfolding search_post_def
          by (simp split: option.splits sum.splits) blast
      qed
    qed
  next
    case old
    then have "t \<in> visited st" by (simp add: visited_def)
    with Cons old show ?thesis
      by (fastforce simp: search_post_def split: option.splits sum.splits)
  qed
qed

lemma search_inv_enter:
  assumes "search_inv reg path st" "st r = None" "findPolicy reg r \<noteq> None"
    and "path \<noteq> [] \<Longrightarrow> (last path, r) \<in> dep_edges reg"
  shows "search_inv reg (path @ [r]) (st(r \<mapsto> Visiting))"
    and "visited (st(r \<mapsto> Visiting)) = visited st"
proof -
  show v: "visited (st(r \<mapsto> Visiting)) = visited st" using assms(2) by (auto simp: visited_def)
  have "{x. (st(r \<mapsto> Visiting)) x = Some Visiting} = insert r {x. st x = Some Visiting}" by auto
  with assms show "search_inv reg (path @ [r]) (st(r \<mapsto> Visiting))"
    unfolding search_inv_def v by (auto simp: successively_append_iff)
qed

lemma trancl_closed: "(x, y) \<in> E\<^sup>+ \<Longrightarrow> x \<in> V \<Longrightarrow> E `` V \<subseteq> V \<Longrightarrow> y \<in> V"
  by (induction rule: trancl_induct) auto

lemma search_inv_leave:
  assumes "search_inv reg (path @ [r]) st" "r \<notin> set path"
    and "dep_edges reg `` {r} \<subseteq> visited st"
  shows "search_inv reg path (st(r \<mapsto> Visited))"
    and "visited (st(r \<mapsto> Visited)) = insert r (visited st)"
proof -
  show v: "visited (st(r \<mapsto> Visited)) = insert r (visited st)" by (auto simp: visited_def)
  have r: "st r = Some Visiting" and closed: "dep_edges reg `` visited st \<subseteq> visited st"
    and acyc: "\<forall>x \<in> visited st. (x, x) \<notin> (dep_edges reg)\<^sup>+"
    using assms(1) by (auto simp: search_inv_def)
  have "(r, r) \<notin> (dep_edges reg)\<^sup>+"
  proof
    assume "(r, r) \<in> (dep_edges reg)\<^sup>+"
    then obtain t where t: "(r, t) \<in> dep_edges reg" "t = r \<or> (t, r) \<in> (dep_edges reg)\<^sup>+"
      by (meson tranclD rtranclD)
    then have "t \<in> visited st" using assms(3) by auto
    with t(2) closed have "r \<in> visited st" by (auto dest: trancl_closed)
    with r show False by (simp add: visited_def)
  qed
  moreover have "{x. (st(r \<mapsto> Visited)) x = Some Visiting} = set path"
    using assms(1,2) by (auto simp: search_inv_def)
  ultimately show "search_inv reg path (st(r \<mapsto> Visited))"
    using assms(1,3) closed acyc r unfolding search_inv_def v
    by (auto simp: successively_append_iff)
qed

lemma visitPolicy_spec:
  assumes wf: "registry_wf reg" and closed: "\<And>a b. (a, b) \<in> dep_edges reg \<Longrightarrow> findPolicy reg b \<noteq> None"
  shows "search_spec reg n path (visitPolicy n reg path)"
proof (induction n arbitrary: path)
  case 0
  have "card (dom (findPolicy reg) - dom st) \<noteq> 0" if "st r = None" "findPolicy reg r \<noteq> None" for r st
    using that reg.finite_registered [OF wf] by auto
  then show ?case unfolding search_spec_def by (metis le_zero_eq)
next
  case (Suc n)
  show ?case unfolding search_spec_def
  proof (intro allI impI)
    fix r st
    assume inv: "search_inv reg path st" and new: "st r = None" and reg: "findPolicy reg r \<noteq> None"
      and edge: "path \<noteq> [] \<longrightarrow> (last path, r) \<in> dep_edges reg"
      and fuel: "card (dom (findPolicy reg) - dom st) \<le> Suc n"
    obtain p where p: "findPolicy reg r = Some p" using reg by blast
    let ?st1 = "st(r \<mapsto> Visiting)" and ?path1 = "path @ [r]"
      and ?ts = "sort (map dep_policy (dependencies p))"
    note enter = search_inv_enter [OF inv new reg, OF edge [rule_format]]
    have targets: "set ?ts = dep_edges reg `` {r}" using p by (auto simp: dep_edges_def)
    have "card (dom (findPolicy reg) - dom ?st1) \<le> n"
      using reg.unvisited_less [OF wf reg, of "dom st"] new fuel by (simp add: domIff)
    then have post: "search_post reg ?path1 (set ?ts) ?st1
        (visit_targets (visitPolicy n reg ?path1) ?path1 ?ts ?st1)"
      using Suc.IH enter(1) targets closed reg.finite_registered [OF wf]
      by (intro visit_targets_post) auto
    have "{x. st x = Some Visiting} = set path" using inv by (simp add: search_inv_def)
    then have rp: "r \<notin> set path" using new by force
    show "search_post reg path {r} st (visitPolicy (Suc n) reg path r st)"
    proof (cases "visit_targets (visitPolicy n reg ?path1) ?path1 ?ts ?st1")
      case None
      with post show ?thesis by (simp add: search_post_def)
    next
      case (Some res)
      show ?thesis
      proof (cases res)
        case (Inl e)
        with Some post p show ?thesis by (simp add: search_post_def)
      next
        case (Inr st2)
        with Some post have st2: "search_inv reg ?path1 st2" "dep_edges reg `` {r} \<subseteq> visited st2"
          "visited ?st1 \<subseteq> visited st2" "dom ?st1 \<subseteq> dom st2"
          using targets by (simp_all add: search_post_def)
        from search_inv_leave [OF st2(1) rp st2(2)] st2(3,4) enter(2) Some Inr p show ?thesis
          by (auto simp: search_post_def)
      qed
    qed
  qed
qed

lemma visit_all_post:
  assumes wf: "registry_wf reg" and closed: "\<And>a b. (a, b) \<in> dep_edges reg \<Longrightarrow> findPolicy reg b \<noteq> None"
    and "\<forall>r \<in> set rs. findPolicy reg r \<noteq> None" "search_inv reg [] st"
    and "length (policyRefs reg) \<le> n"
  shows "search_post reg [] (set rs) st (visit_all n reg rs st)"
  using assms(3,4)
proof (induction rs arbitrary: st)
  case Nil
  then show ?case by (simp add: search_post_def)
next
  case (Cons r rs)
  show ?case
  proof (cases "st r = None")
    case True
    have "card (dom (findPolicy reg) - dom st) \<le> n"
      using reg.unvisited_le [OF wf, of "dom st"] assms(5) by simp
    then have post: "search_post reg [] {r} st (visitPolicy n reg [] r st)"
      using visitPolicy_spec [where n = n and path = "[]", OF wf closed] True Cons.prems
      unfolding search_spec_def by simp
    show ?thesis
    proof (cases "\<exists>st'. visitPolicy n reg [] r st = Some (Inr st')")
      case True
      then obtain st' where st': "visitPolicy n reg [] r st = Some (Inr st')" by blast
      with post have inv: "search_inv reg [] st'" "r \<in> visited st'" "visited st \<subseteq> visited st'"
        "dom st \<subseteq> dom st'" by (auto simp: search_post_def)
      have "search_post reg [] (set rs) st' (visit_all n reg rs st')"
        using Cons inv(1) by simp
      with st' inv(2-4) \<open>st r = None\<close> show ?thesis
        unfolding search_post_def by (simp split: option.splits sum.splits) blast
    next
      case False
      with post \<open>st r = None\<close> show ?thesis
        by (auto simp: search_post_def split: option.splits sum.splits)
    qed
  next
    case False
    then obtain a where a: "st r = Some a" by blast
    moreover have "st r \<noteq> Some Visiting" using Cons.prems(2) by (auto simp: search_inv_def)
    ultimately have "r \<in> visited st"
      unfolding visited_def by (cases a) simp_all
    with False Cons show ?thesis
      by (fastforce simp: search_post_def split: option.splits sum.splits)
  qed
qed

lemma declarations_closed:
  assumes "\<forall>owner p. findPolicy reg owner = Some p \<longrightarrow> declarations_ok reg owner p"
    and "(a, b) \<in> dep_edges reg"
  shows "findPolicy reg b \<noteq> None"
  using assms by (auto simp: dep_edges_def declarations_ok_def)

lemma search_from_start:
  assumes wf: "registry_wf reg"
    and decl: "\<forall>owner p. findPolicy reg owner = Some p \<longrightarrow> declarations_ok reg owner p"
  shows "search_post reg [] (set (policyRefs reg)) Map.empty
     (visit_all (Suc (length (policyRefs reg))) reg (policyRefs reg) Map.empty)"
proof (rule visit_all_post [OF wf])
  show "(a, b) \<in> dep_edges reg \<Longrightarrow> findPolicy reg b \<noteq> None" for a b
    by (rule declarations_closed [OF decl])
  show "\<forall>r \<in> set (policyRefs reg). findPolicy reg r \<noteq> None"
    using set_policyRefs [OF wf] by blast
  show "search_inv reg [] Map.empty" by (simp add: search_inv_def visited_def)
qed simp

lemma cycle_trancl: "is_cycle E c \<Longrightarrow> \<exists>x. (x, x) \<in> E\<^sup>+"
proof -
  have "successively (\<lambda>a b. (a, b) \<in> E) xs \<Longrightarrow> 2 \<le> length xs \<Longrightarrow> (hd xs, last xs) \<in> E\<^sup>+" for xs
  proof (induction xs rule: induct_list012)
    case (3 x y zs)
    then show ?case
      by (cases zs) (auto simp: Suc_le_eq intro: trancl_into_trancl2)
  qed auto
  then show "is_cycle E c \<Longrightarrow> \<exists>x. (x, x) \<in> E\<^sup>+"
    by (auto simp: is_cycle_def) metis
qed

lemma acyclic_registered:
  assumes "registry_wf reg" "search_inv reg [] st" "set (policyRefs reg) \<subseteq> visited st"
  shows "acyclic (dep_edges reg)"
proof (rule acyclicI, intro allI notI)
  fix x assume c: "(x, x) \<in> (dep_edges reg)\<^sup>+"
  then obtain y where "(x, y) \<in> dep_edges reg" by (meson tranclD)
  then have "x \<in> set (policyRefs reg)"
    using set_policyRefs [OF assms(1)] by (auto simp: dep_edges_def)
  with assms(2,3) c show False by (auto simp: search_inv_def)
qed

lemma validate_iff:
  assumes "registry_wf reg"
  shows "validatePolicyDependencyGraph reg = Some (Inr None) \<longleftrightarrow> graph_ok reg"
proof (cases "check_owners reg (policyRefs reg) = Inr None")
  case True
  then have decl: "\<forall>owner p. findPolicy reg owner = Some p \<longrightarrow> declarations_ok reg owner p"
    using check_owners_registry [OF assms] by blast
  note post = search_from_start [OF assms decl]
  let ?v = "visit_all (Suc (length (policyRefs reg))) reg (policyRefs reg) Map.empty"
  consider (err) c where "?v = Some (Inl (CycleDetected c))" "is_cycle (dep_edges reg) c"
    | (ok) st where "?v = Some (Inr st)" "search_inv reg [] st" "set (policyRefs reg) \<subseteq> visited st"
    using post unfolding search_post_def by (fastforce split: option.splits sum.splits)
  then show ?thesis
  proof cases
    case err
    then have "\<not> acyclic (dep_edges reg)" using cycle_trancl unfolding acyclic_def by blast
    with err True show ?thesis by (simp add: validatePolicyDependencyGraph_def graph_ok_def)
  next
    case ok
    then have "acyclic (dep_edges reg)" by (intro acyclic_registered [OF assms])
    with ok True decl show ?thesis by (simp add: validatePolicyDependencyGraph_def graph_ok_def)
  qed
next
  case False
  then have "\<not> graph_ok reg" using check_owners_registry [OF assms] by (auto simp: graph_ok_def)
  with False show ?thesis
    by (auto simp: validatePolicyDependencyGraph_def split: sum.splits option.splits)
qed

lemma validate_cycle:
  assumes "registry_wf reg"
  shows "validatePolicyDependencyGraph reg \<noteq> None"
    and "validatePolicyDependencyGraph reg = Some (Inr (Some (CycleDetected c))) \<Longrightarrow>
      is_cycle (dep_edges reg) c"
    and "validatePolicyDependencyGraph reg \<noteq> Some (Inr (Some (MissingPolicy r)))"
proof -
  have no_search_error: "check_dependencies reg owner p T ds \<noteq> Inr (Some (CycleDetected c))"
    "check_dependencies reg owner p T ds \<noteq> Inr (Some (MissingPolicy r))" for owner p T ds c r
    by (induction ds arbitrary: T) (auto split: sum.splits option.splits)
  have own: "check_owners reg rs \<noteq> Inr (Some (CycleDetected c))"
    "check_owners reg rs \<noteq> Inr (Some (MissingPolicy r))" for rs c r
    using no_search_error by (induction rs) (auto split: option.splits sum.splits)
  let ?v = "visit_all (Suc (length (policyRefs reg))) reg (policyRefs reg) Map.empty"
  have post: "search_post reg [] (set (policyRefs reg)) Map.empty ?v"
    if "check_owners reg (policyRefs reg) = Inr None"
    using that check_owners_registry [OF assms] by (intro search_from_start [OF assms]) blast
  show "validatePolicyDependencyGraph reg \<noteq> None"
    using post
    by (auto simp: validatePolicyDependencyGraph_def search_post_def split: sum.splits option.splits)
  show "validatePolicyDependencyGraph reg = Some (Inr (Some (CycleDetected c))) \<Longrightarrow>
      is_cycle (dep_edges reg) c"
    using post own
    by (auto simp: validatePolicyDependencyGraph_def search_post_def split: sum.splits option.splits)
  show "validatePolicyDependencyGraph reg \<noteq> Some (Inr (Some (MissingPolicy r)))"
    using post own
    by (auto simp: validatePolicyDependencyGraph_def search_post_def split: sum.splits option.splits)
qed

section \<open>Validation is exact\<close>

text \<open>A registry of two policies of one module; the first one requires the second.\<close>

definition sample_conf :: config_file where
  "sample_conf = loadConfig (''a.status=ENABLE'' @ [CHR 0x0A] @ ''b.status=ENABLE'') ModuleConfigFileHandler"

definition sample_policy :: "string \<Rightarrow> policy_ref list \<Rightarrow> policy" where
  "sample_policy n ds =
     \<lparr>moduleName = ''DAC'', submoduleName = ''s'', policyName = n,
      policyTypeValue = Some (FixedTV None), moduleConf = sample_conf,
      dependencies = map (\<lambda>r. \<lparr>dep_policy = r, strength = Required, condition = always\<rparr>) ds,
      dependenciesFrozen = True, capabilities = [],
      supportsDependencyCapability = (\<lambda>_. False), requiresDependencyCapability = (\<lambda>_. True),
      defaultViolationSeverity = VStandard\<rparr>"

definition sample_ref :: "string \<Rightarrow> policy_ref" where
  "sample_ref n = PolicyRef ''DAC'' ''s'' n"

definition sample_registry :: "policy_ref list \<Rightarrow> policy_ref list \<Rightarrow> policy_registry" where
  "sample_registry da db =
     \<lparr>modules = [(''DAC'', \<lparr>view = StandardView, displayOrder = 10,
        submodules = [(''s'', [(''a'', sample_policy ''a'' da), (''b'', sample_policy ''b'' db)])]\<rparr>)],
      capability_index = (\<lambda>_. [])\<rparr>"

lemma sample_registry_wf: "registry_wf (sample_registry da db)"
  by (simp add: registry_wf_def sample_registry_def module_wf_def sample_policy_def policyRef_def
      less_char_def)

text \<open>
  C24. Validation accepts exactly the registries in which every declared dependency is complete,
  refers to another registered policy, has a valid condition and occurs once, and in which no
  policy depends on itself through other policies.
\<close>

theorem validate_accepts_exactly:
  assumes "registry_wf reg"
  shows "validatePolicyDependencyGraph reg = Some (Inr None) \<longleftrightarrow>
    (\<forall>owner p. findPolicy reg owner = Some p \<longrightarrow> declarations_ok reg owner p) \<and>
    acyclic (dep_edges reg)"
  using validate_iff [OF assms] by (simp add: graph_ok_def)

lemma validate_accepts_exactly_witness:
  "registry_wf (sample_registry [sample_ref ''b''] []) \<and>
   validatePolicyDependencyGraph (sample_registry [sample_ref ''b''] []) = Some (Inr None) \<and>
   acyclic (dep_edges (sample_registry [sample_ref ''b''] []))"
proof -
  have "validatePolicyDependencyGraph (sample_registry [sample_ref ''b''] []) = Some (Inr None)"
    by code_simp
  with validate_accepts_exactly [OF sample_registry_wf] sample_registry_wf show ?thesis by blast
qed

text \<open>
  C29. Validation always returns; when it reports a dependency cycle, the reported path is one: it
  has at least two entries, starts and ends with the same policy, and each entry declares a
  dependency on the next. The search itself never meets an unregistered policy.
\<close>

theorem validate_reports_real_cycle:
  assumes "registry_wf reg"
  shows "validatePolicyDependencyGraph reg \<noteq> None \<and>
    (validatePolicyDependencyGraph reg = Some (Inr (Some (CycleDetected c))) \<longrightarrow>
       2 \<le> length c \<and> hd c = last c \<and> successively (\<lambda>a b. (a, b) \<in> dep_edges reg) c) \<and>
    validatePolicyDependencyGraph reg \<noteq> Some (Inr (Some (MissingPolicy r)))"
  using validate_cycle [OF assms] unfolding is_cycle_def by blast

lemma validate_reports_real_cycle_witness:
  "validatePolicyDependencyGraph (sample_registry [sample_ref ''b''] [sample_ref ''a'']) =
     Some (Inr (Some (CycleDetected [sample_ref ''a'', sample_ref ''b'', sample_ref ''a'']))) \<and>
   (sample_ref ''a'', sample_ref ''b'') \<in> dep_edges (sample_registry [sample_ref ''b''] [sample_ref ''a''])"
proof -
  have v: "validatePolicyDependencyGraph (sample_registry [sample_ref ''b''] [sample_ref ''a'']) =
     Some (Inr (Some (CycleDetected [sample_ref ''a'', sample_ref ''b'', sample_ref ''a''])))"
    by code_simp
  with validate_reports_real_cycle [OF sample_registry_wf,
      of "[sample_ref ''b'']" "[sample_ref ''a'']" "[sample_ref ''a'', sample_ref ''b'', sample_ref ''a'']"]
  show ?thesis by simp
qed

section \<open>Dependents\<close>

lemma requires_dependency_iff:
  "requires_dependency parse p t ds = Inr b \<Longrightarrow>
     b \<longleftrightarrow> (\<exists>d \<in> set ds. dep_policy d = t \<and> strength d = Required \<and>
            dependencyConditionMatches parse p (condition d) = Inr True)"
  by (induction parse p t ds rule: requires_dependency.induct)
     (auto split: sum.splits bool.splits if_splits)

definition is_dependent :: "json_parse \<Rightarrow> policy_registry \<Rightarrow> policy_ref \<Rightarrow> policy_ref \<Rightarrow> bool" where
  "is_dependent parse reg t c \<longleftrightarrow>
     c \<noteq> t \<and> (\<exists>p. findPolicy reg c = Some p \<and> isEnabled p \<and>
       (\<exists>d \<in> set (dependencies p). dep_policy d = t \<and> strength d = Required \<and>
          dependencyConditionMatches parse p (condition d) = Inr True))"

lemma collect_dependents_filter:
  "collect_dependents parse reg t cs = Inr xs \<Longrightarrow> xs = filter (is_dependent parse reg t) cs"
proof (induction cs arbitrary: xs)
  case (Cons c cs)
  consider (skip) "c = t \<or> findPolicy reg c = None \<or> (\<exists>p. findPolicy reg c = Some p \<and> \<not> isEnabled p)"
    | (check) p where "c \<noteq> t" "findPolicy reg c = Some p" "isEnabled p"
    by (cases "findPolicy reg c") auto
  then show ?case
  proof cases
    case skip
    then have "collect_dependents parse reg t (c # cs) = collect_dependents parse reg t cs"
      and "\<not> is_dependent parse reg t c" by (auto simp: is_dependent_def)
    with Cons show ?thesis by simp
  next
    case (check p)
    with Cons.prems obtain r rest where r: "requires_dependency parse p t (dependencies p) = Inr r"
      "collect_dependents parse reg t cs = Inr rest" "xs = (if r then c # rest else rest)"
      by (auto split: sum.splits)
    have "is_dependent parse reg t c \<longleftrightarrow> r"
      using requires_dependency_iff [OF r(1)] check by (auto simp: is_dependent_def)
    with Cons.IH [OF r(2)] r(3) show ?thesis by simp
  qed
qed simp

text \<open>
  C32. The dependents reported before a policy is disabled are exactly the other enabled policies
  with a required dependency on it whose condition holds, in increasing order.
\<close>

theorem dependents_exact:
  assumes "registry_wf reg" "enabledRequiredDependents parse reg t = Inr ds"
  shows "sorted ds \<and> (c \<in> set ds \<longleftrightarrow>
    c \<noteq> t \<and> (\<exists>p. findPolicy reg c = Some p \<and> isEnabled p \<and>
      (\<exists>d \<in> set (dependencies p). dep_policy d = t \<and> strength d = Required \<and>
         dependencyConditionMatches parse p (condition d) = Inr True)))"
proof -
  obtain xs where "collect_dependents parse reg t (policyRefs reg) = Inr xs" "ds = sort xs"
    using assms(2) unfolding enabledRequiredDependents_def
    by (cases "collect_dependents parse reg t (policyRefs reg)") auto
  with collect_dependents_filter [of parse reg t "policyRefs reg" xs]
  have "sorted ds" "c \<in> set ds \<longleftrightarrow> c \<in> set (policyRefs reg) \<and> is_dependent parse reg t c" by auto
  moreover have "is_dependent parse reg t c \<Longrightarrow> c \<in> set (policyRefs reg)"
    using set_policyRefs [OF assms(1)] by (auto simp: is_dependent_def)
  ultimately show ?thesis unfolding is_dependent_def by blast
qed

lemma dependents_exact_witness:
  "enabledRequiredDependents (\<lambda>_. Inl UnknownException) (sample_registry [sample_ref ''b''] [])
     (sample_ref ''b'') = Inr [sample_ref ''a''] \<and> sorted [sample_ref ''a'']"
proof -
  have v: "enabledRequiredDependents (\<lambda>_. Inl UnknownException)
      (sample_registry [sample_ref ''b''] []) (sample_ref ''b'') = Inr [sample_ref ''a'']"
    by code_simp
  with dependents_exact [OF sample_registry_wf v] show ?thesis by blast
qed

end
