(* ===== verification/RegistryOps.thy ===== *)
theory RegistryOps
  imports DependencyGraph
begin

text \<open>
  Building the registry, changing a value through it and describing it to clients
  (\<open>fic/src/policy/registry\<close>: \<open>PolicyRegistryInitialization\<close>, \<open>PolicyRegistryMutation\<close>,
  \<open>PolicyRegistryJson\<close>). Reading and writing the configuration file are observed through their
  outcome: the text that was read, if any, and whether the save succeeded.
\<close>

section \<open>Building\<close>

definition kModules :: "(string \<times> module_view \<times> int) list" where
  "kModules =
     [(''DAC'', StandardView, 10), (''IDENTITY_ACCESS'', StandardView, 20),
      (''SYSCTL'', StandardView, 30), (''OSS'', StandardView, 40), (''NET'', StandardView, 50),
      (''FIREWALL'', StandardView, 60), (''DC'', DeviceView, 70), (''AUDIT'', AuditView, 80),
      (''GLOBAL'', StandardView, 90)]"

fun add_modules ::
    "(string \<times> module_view \<times> int) list \<Rightarrow> policy_registry \<Rightarrow> string + policy_registry" where
  "add_modules [] reg = Inr reg"
| "add_modules ((n, v, k) # ms) reg = and_then (addModule n v k reg) (add_modules ms)"

fun add_policies :: "policy option list \<Rightarrow> policy_registry \<Rightarrow> string + policy_registry" where
  "add_policies [] reg = Inr reg"
| "add_policies (p # ps) reg = and_then (addPolicy p reg) (add_policies ps)"

definition registration_failed :: "string \<Rightarrow> exn \<Rightarrow> string" where
  "registration_failed prefix e =
     (case exn_what e of Some m \<Rightarrow> prefix @ '': '' @ m | None \<Rightarrow> prefix @ '': unknown exception'')"

text \<open>
  \<open>buildPolicyRegistry\<close>: the return value, the registry (swapped in only on success) and the
  error text. \<open>None\<close> would be a validation that does not return.
\<close>

definition buildPolicyRegistry ::
    "policy option list \<Rightarrow> policy_registry \<Rightarrow> (bool \<times> policy_registry \<times> string) option" where
  "buildPolicyRegistry policies reg =
     (case and_then (add_modules kModules empty_registry) (add_policies policies) of
        Inl err \<Rightarrow> Some (False, reg, err)
      | Inr candidate \<Rightarrow>
          (case validatePolicyDependencyGraph candidate of
             None \<Rightarrow> None
           | Some (Inl e) \<Rightarrow> Some (False, reg, registration_failed ''PolicyRegistry registration failed'' e)
           | Some (Inr (Some err)) \<Rightarrow> Some (False, reg, graph_error_text err)
           | Some (Inr None) \<Rightarrow> Some (True, candidate, [])))"

definition rebuildPolicyRegistry ::
    "exn + policy option list \<Rightarrow> policy_registry \<Rightarrow> (bool \<times> policy_registry \<times> string) option" where
  "rebuildPolicyRegistry made reg =
     (case made of
        Inl e \<Rightarrow> Some (False, reg, registration_failed ''PolicyRegistry policy creation failed'' e)
      | Inr policies \<Rightarrow> buildPolicyRegistry policies reg)"

lemma add_modules_wf:
  "registry_wf reg \<Longrightarrow> add_modules ms reg = Inr reg' \<Longrightarrow>
     registry_wf reg' \<and> findPolicy reg' = findPolicy reg"
proof (induction ms reg rule: add_modules.induct)
  case (2 n v k ms reg)
  then obtain r where r: "addModule n v k reg = Inr r" "add_modules ms r = Inr reg'"
    by (auto simp: and_then_Inr)
  have "findPolicy r = findPolicy reg" using findPolicy_addModule [OF r(1)] by blast
  with 2(1) [OF addModule_wf [OF 2(2) r(1)] r(2)] show ?case by simp
qed simp

lemma add_policies_wf:
  "registry_wf reg \<Longrightarrow> add_policies ps reg = Inr reg' \<Longrightarrow>
     registry_wf reg' \<and>
     findPolicy reg' = findPolicy reg ++
       map_of (map (\<lambda>p. (policyRef (the p), freezeDependencies (the p))) ps) \<and>
     None \<notin> set ps \<and> distinct (map (\<lambda>p. policyRef (the p)) ps) \<and>
     (\<forall>p \<in> set ps. findPolicy reg (policyRef (the p)) = None)"
proof (induction ps reg rule: add_policies.induct)
  case (2 po ps reg)
  then obtain r where r: "addPolicy po reg = Inr r" "add_policies ps r = Inr reg'"
    by (auto simp: and_then_Inr)
  then obtain p where p: "po = Some p" by (auto elim: addPolicy_SomeE)
  note f = findPolicy_addPolicy [OF r(1) [unfolded p]]
  note IH = 2(1) [OF addPolicy_wf [OF 2(2) r(1)] r(2)]
  have disj: "policyRef p \<notin> (\<lambda>p. policyRef (the p)) ` set ps"
    using IH f(1) by (auto simp: fun_upd_def split: if_splits)
  have "findPolicy reg' = findPolicy reg ++
      map_of (map (\<lambda>p. (policyRef (the p), freezeDependencies (the p))) (po # ps))"
  proof
    fix x
    have "map_of (map (\<lambda>p. (policyRef (the p), freezeDependencies (the p))) ps) (policyRef p) = None"
      using disj by (auto simp: map_of_eq_None_iff)
    with IH f(1) p show "findPolicy reg' x = (findPolicy reg ++
        map_of (map (\<lambda>p. (policyRef (the p), freezeDependencies (the p))) (po # ps))) x"
      by (auto simp: map_add_def split: option.splits)
  qed
  moreover have "\<forall>p \<in> set ps. findPolicy reg (policyRef (the p)) = None"
    using IH f(1) by (auto split: if_splits)
  moreover have "registry_wf reg'" "None \<notin> set ps" "distinct (map (\<lambda>p. policyRef (the p)) ps)"
    using IH by blast+
  moreover have "None \<notin> set (po # ps)" "distinct (map (\<lambda>p. policyRef (the p)) (po # ps))"
    "findPolicy reg (policyRef (the po)) = None"
    using calculation f(2) p disj by auto
  ultimately show ?case by (metis (no_types, lifting) set_ConsD)
qed simp

lemma buildPolicyRegistry_ok:
  assumes "buildPolicyRegistry policies reg = Some (True, reg', err)"
  shows "registry_wf reg'" "graph_ok reg'" "None \<notin> set policies"
    and "findPolicy reg' =
      map_of (map (\<lambda>p. (policyRef (the p), freezeDependencies (the p))) policies)"
    and "distinct (map (\<lambda>p. policyRef (the p)) policies)"
proof -
  obtain r1 where r1: "add_modules kModules empty_registry = Inr r1" "add_policies policies r1 = Inr reg'"
    and v: "validatePolicyDependencyGraph reg' = Some (Inr None)"
    using assms by (auto simp: buildPolicyRegistry_def and_then_Inr split: sum.splits option.splits)
  have w: "registry_wf r1" "findPolicy r1 = findPolicy empty_registry"
    using add_modules_wf [OF registry_wf_empty r1(1)] by auto
  have e: "findPolicy empty_registry = Map.empty"
    by (rule ext) (simp add: findPolicy_def empty_registry_def)
  note a = add_policies_wf [OF w(1) r1(2)]
  show wf: "registry_wf reg'" and "None \<notin> set policies"
    and "distinct (map (\<lambda>p. policyRef (the p)) policies)" using a by blast+
  show "findPolicy reg' = map_of (map (\<lambda>p. (policyRef (the p), freezeDependencies (the p))) policies)"
    using a w(2) e by simp
  show "graph_ok reg'" using v validate_iff [OF wf] by blast
qed

text \<open>
  C28. Building the registry is all or nothing. It always returns; when it fails the old registry
  is kept; when it succeeds the new registry holds exactly the given policies, each under its own
  names and with its dependencies frozen, and their dependency graph is valid and has no cycle.
\<close>

theorem build_registry_all_or_nothing:
  "(\<exists>ok reg' err. buildPolicyRegistry policies reg = Some (ok, reg', err) \<and>
      (if ok
       then registry_wf reg' \<and> validatePolicyDependencyGraph reg' = Some (Inr None) \<and>
            acyclic (dep_edges reg') \<and>
            (\<forall>r. findPolicy reg' r =
               map_option freezeDependencies
                 (find (\<lambda>p. policyRef p = r) (List.map_filter (\<lambda>p. p) policies))) \<and>
            None \<notin> set policies \<and> distinct (map (\<lambda>p. policyRef (the p)) policies)
       else reg' = reg))"
proof -
  have ret: "buildPolicyRegistry policies reg \<noteq> None"
  proof -
    have "validatePolicyDependencyGraph c \<noteq> None" if "and_then (add_modules kModules empty_registry) (add_policies policies) = Inr c" for c
      using that add_modules_wf [OF registry_wf_empty] add_policies_wf [of _ policies c]
        validate_cycle(1) [of c]
      unfolding and_then_Inr by blast
    then show ?thesis
      by (auto simp: buildPolicyRegistry_def split: sum.splits option.splits)
  qed
  then obtain ok reg' err where b: "buildPolicyRegistry policies reg = Some (ok, reg', err)" by auto
  have fail: "\<not> ok \<Longrightarrow> reg' = reg"
    using b by (auto simp: buildPolicyRegistry_def split: sum.splits option.splits)
  have lookup: "map_of (map (\<lambda>p. (policyRef (the p), freezeDependencies (the p))) ps) r =
      map_option freezeDependencies (find (\<lambda>p. policyRef p = r) (List.map_filter (\<lambda>p. p) ps))"
    if "None \<notin> set ps" for ps r
    using that by (induction ps) (auto simp: List.map_filter_simps split: option.splits)
  show ?thesis
  proof (cases ok)
    case True
    note k = buildPolicyRegistry_ok [OF b [unfolded True [THEN eqTrueI]]]
    have "validatePolicyDependencyGraph reg' = Some (Inr None)" "acyclic (dep_edges reg')"
      using k(1,2) validate_iff by (auto simp: graph_ok_def)
    with b True k lookup [OF k(3)] show ?thesis by auto
  next
    case False
    with b fail show ?thesis by auto
  qed
qed

lemma build_registry_example:
  "map_option fst (buildPolicyRegistry
     [Some (sample_policy ''a'' [sample_ref ''b'']), Some (sample_policy ''b'' [])] empty_registry) =
     Some True"
  by code_simp

section \<open>Changing a value\<close>

text \<open>The lookup by module and policy name of \<open>PolicyRegistryMutation.cpp\<close>.\<close>

fun find_in_submodules :: "string \<Rightarrow> submodule_map \<Rightarrow> policy option" where
  "find_in_submodules pn [] = None"
| "find_in_submodules pn ((sn, ps) # rest) =
     (case omap_find ps pn of Some p \<Rightarrow> Some p | None \<Rightarrow> find_in_submodules pn rest)"

definition findPolicyByName :: "policy_registry \<Rightarrow> string \<Rightarrow> string \<Rightarrow> policy option" where
  "findPolicyByName reg mn pn =
     (case omap_find (modules reg) mn of None \<Rightarrow> None
      | Some m \<Rightarrow> find_in_submodules pn (submodules m))"

text \<open>
  \<open>setPolicyValue\<close>. \<open>loaded\<close> is the text of the module configuration, or \<open>None\<close> when it cannot
  be loaded; \<open>save\<close> tells whether a text is saved. The outcome is an error text or the text that
  was saved.
\<close>

definition registry_setPolicyValue ::
    "json_dump \<Rightarrow> policy_registry \<Rightarrow> string \<Rightarrow> string \<Rightarrow> string \<Rightarrow> string option \<Rightarrow>
     (string \<Rightarrow> bool) \<Rightarrow> exn + string + string" where
  "registry_setPolicyValue dump reg mn pn logical loaded save =
     (case findPolicyByName reg mn pn of
        None \<Rightarrow> Inr (Inl ''policy does not exist'')
      | Some p \<Rightarrow> and_then (pol_validate p logical) (\<lambda>ok.
          if \<not> ok then Inr (Inl ''policy value is invalid'')
          else and_then (pol_postprocessingValue dump p logical) (\<lambda>stored.
            if stored = [] then Inr (Inl ''policy value serialization failed'')
            else case loaded of
              None \<Rightarrow> Inr (Inl ''could not load module configuration'')
            | Some t \<Rightarrow>
                let (set_ok, config) =
                  setPolicyValue pn stored (loadConfig t ModuleConfigFileHandler)
                in if \<not> set_ok then Inr (Inl ''could not set policy value'')
                   else if \<not> save (pendingContent config)
                   then Inr (Inl ''could not save module configuration'')
                   else Inr (Inr (pendingContent config)))))"

text \<open>Reading back what was stored, for the value types whose two delimiters agree.\<close>

definition same_delimiters :: "policy_type_value \<Rightarrow> bool" where
  "same_delimiters tv = (case tv of MultiLineTV f t d \<Rightarrow> f = t | _ \<Rightarrow> True)"

lemma stored_form_roundtrip:
  assumes "json_roundtrip dump parse" "same_delimiters tv" "postProcessingValue dump tv v \<noteq> []"
  shows "reverse_postProcessingValue parse tv (postProcessingValue dump tv v) = Inr v"
proof (cases tv)
  case (MultiLineTV f t d)
  let ?items = "split_items f v"
  have ne: "v \<noteq> []" "f \<noteq> []" and ft: "f = t"
    using assms(2,3) MultiLineTV
    by (auto simp: multiline_postProcessingValue_def same_delimiters_def split: if_splits)
  have items: "(case find_sub f v of None \<Rightarrow> [v] | Some _ \<Rightarrow> split_items f v) = ?items"
    by (cases "find_sub f v") (simp_all add: split_items_single)
  then obtain s where s: "dump (JArray (map JString ?items)) = Inr s"
    "multiline_postProcessingValue dump f v = s"
    using assms(3) MultiLineTV ne
    by (auto simp: multiline_postProcessingValue_def Let_def split: sum.splits)
  have "parse s = Inr (JArray (map JString ?items))"
    using assms(1) s(1) by (auto simp: json_roundtrip_def)
  moreover have "List.map_filter json_get_string (map JString xs) = xs" for xs
    by (induction xs) (simp_all add: List.map_filter_simps)
  ultimately show ?thesis
    using MultiLineTV ne ft s(2)
    by (simp add: multiline_reverse_postProcessingValue_def join_split_items)
qed simp_all



section \<open>Description for clients\<close>

definition moduleDescriptorsJson :: "policy_registry \<Rightarrow> json" where
  "moduleDescriptorsJson reg =
     JArray (map (\<lambda>(n, m). json_object
       [(''name'', JString n), (''view'', JString (moduleViewName (view m))),
        (''display_order'', JInteger (displayOrder m))]) (modules reg))"

text \<open>The value shown and whether it is valid: an exception of the library makes it invalid.\<close>

definition shown_value :: "json_parse \<Rightarrow> policy_type_value \<Rightarrow> policy \<Rightarrow> exn + string \<times> bool" where
  "shown_value parse tv p =
     (if \<not> pol_hasConfiguredValue p then Inr (getDefaultValue tv, hasDefaultValue tv)
      else case pol_getValue parse p of
        Inr (Some v) \<Rightarrow> Inr (v, True)
      | Inr None \<Rightarrow> Inr (getDefaultValue tv, False)
      | Inl e \<Rightarrow> (case exn_what e of Some _ \<Rightarrow> Inr (getDefaultValue tv, False) | None \<Rightarrow> Inl e))"

definition json_ref :: "policy_ref \<Rightarrow> json" where
  "json_ref r = json_object
     [(''module'', JString (ref_moduleName r)), (''submodule'', JString (ref_submoduleName r)),
      (''policy'', JString (ref_policyName r))]"

fun required_refs :: "json_parse \<Rightarrow> policy \<Rightarrow> policy_dependency list \<Rightarrow> exn + policy_ref list" where
  "required_refs parse p [] = Inr []"
| "required_refs parse p (d # ds) =
     (if strength d = Required
      then and_then (dependencyConditionMatches parse p (condition d)) (\<lambda>hit.
             and_then (required_refs parse p ds) (\<lambda>rs. Inr (if hit then dep_policy d # rs else rs)))
      else required_refs parse p ds)"

definition policyToJson ::
    "json_parse \<Rightarrow> (string \<Rightarrow> string) \<Rightarrow> string \<Rightarrow> string \<Rightarrow> string \<Rightarrow> policy \<Rightarrow> exn + json" where
  "policyToJson parse getLang mn sn pn p =
     (case policyTypeValue p of
        None \<Rightarrow> Inl type_value_missing
      | Some tv \<Rightarrow>
          let spec = getEditorSpec tv; isSet = pol_hasConfiguredValue p in
          and_then (shown_value parse tv p) (\<lambda>(v, valid).
          and_then (violationSeverityToken (getViolationSeverity p)) (\<lambda>sev.
          and_then (violationSeverityToken (defaultViolationSeverity p)) (\<lambda>dsev.
          and_then (if isEnabled p then required_refs parse p (dependencies p) else Inr []) (\<lambda>req.
          Inr (json_object
            ([(''module'', JString mn), (''submodule'', JString sn), (''policy'', JString pn),
              (''enabled'', JBool (isEnabled p)), (''set'', JBool isSet), (''value'', JString v),
              (''value_valid'', JBool valid),
              (''default_value'',
                 if hasDefaultValue tv then JString (getDefaultValue tv) else JNull),
              (''editor'', JString (editor spec)), (''validator'', JString (validator spec)),
              (''possible_values'', JArray (map JString (possibleValues spec))),
              (''restriction'', JString (getPolicyRestrictionInfo getLang tv @ [CHR 0x0A])),
              (''violation_severity'', JString sev), (''default_violation_severity'', JString dsev),
              (''violation_severity_values'',
                 JArray (map JString [''NONE'', ''SOFT'', ''STANDARD'', ''HARD'', ''ISOLATE''])),
              (''required_dependencies'', JArray (map json_ref req))]
             @ (case spec_min spec of None \<Rightarrow> [] | Some n \<Rightarrow> [(''min'', JInteger n)])
             @ (case spec_max spec of None \<Rightarrow> [] | Some n \<Rightarrow> [(''max'', JInteger n)])
             @ (case textDelimiter spec of None \<Rightarrow> []
                | Some d \<Rightarrow> [(''text_delimiter'', JString d)]))))))))"

fun policies_json ::
    "json_parse \<Rightarrow> (string \<Rightarrow> string) \<Rightarrow> string \<Rightarrow> (string \<times> string \<times> policy) list \<Rightarrow> exn + json list" where
  "policies_json parse getLang mn [] = Inr []"
| "policies_json parse getLang mn ((sn, pn, p) # rest) =
     and_then (policyToJson parse getLang mn sn pn p) (\<lambda>j.
       and_then (policies_json parse getLang mn rest) (\<lambda>js. Inr (j # js)))"

definition policyListJson ::
    "json_parse \<Rightarrow> (string \<Rightarrow> string) \<Rightarrow> policy_registry \<Rightarrow> string \<Rightarrow> exn + json" where
  "policyListJson parse getLang reg mn =
     (case omap_find (modules reg) mn of
        None \<Rightarrow> Inr (JArray [])
      | Some m \<Rightarrow> and_then (policies_json parse getLang mn
          (concat (map (\<lambda>(sn, ps). map (\<lambda>(pn, p). (sn, pn, p)) ps) (submodules m))))
          (\<lambda>js. Inr (JArray js)))"

lemma policyToJson_value:
  assumes "policyToJson parse getLang mn sn pn p = Inr j" "policyTypeValue p = Some tv"
  shows "\<exists>v valid. shown_value parse tv p = Inr (v, valid) \<and>
    json_member ''value'' j = Some (JString v) \<and> json_member ''value_valid'' j = Some (JBool valid)"
proof -
  obtain v valid where sv: "shown_value parse tv p = Inr (v, valid)"
    using assms by (auto simp: policyToJson_def and_then_Inr Let_def)
  have "json_member ''value'' j = Some (JString v) \<and> json_member ''value_valid'' j = Some (JBool valid)"
    using assms sv
    by (cases "spec_min (getEditorSpec tv)"; cases "spec_max (getEditorSpec tv)";
        cases "textDelimiter (getEditorSpec tv)")
       (auto simp: policyToJson_def and_then_Inr Let_def json_member_object)
  with sv show ?thesis by blast
qed

lemma shown_value_valid:
  assumes "shown_value parse tv p = Inr (v, True)" "policyTypeValue p = Some tv" "constructed tv"
  shows "tv_validate tv v"
proof (cases "pol_hasConfiguredValue p")
  case False
  with assms constructed_default_validates show ?thesis by (auto simp: shown_value_def)
next
  case True
  with assms(1) have "pol_getValue parse p = Inr (Some v)"
    by (auto simp: shown_value_def split: sum.splits option.splits)
  with True assms(2) show ?thesis
    by (auto simp: pol_getValue_def pol_validate_def split: sum.splits if_splits)
qed

text \<open>
  The description a client receives never calls an unusable value valid: when a policy of a
  constructed value type is described with \<open>value_valid\<close> set, the described value passes the
  validator of the policy, whether it is the configured value or the default.
\<close>

theorem described_valid_value_validates:
  assumes "policyToJson parse getLang mn sn pn p = Inr j"
    and "policyTypeValue p = Some tv" "constructed tv"
    and "json_member ''value_valid'' j = Some (JBool True)"
  shows "\<exists>v. json_member ''value'' j = Some (JString v) \<and> pol_validate p v = Inr True"
  using policyToJson_value [OF assms(1,2)] assms(2-4) shown_value_valid
  by (fastforce simp: pol_validate_def)

lemma described_valid_value_validates_witness:
  "\<exists>j. policyToJson sample_parse (\<lambda>s. s) ''DAC'' ''s'' ''a'' (sample_policy ''a'' []) = Inr j \<and>
     (\<exists>v. json_member ''value'' j = Some (JString v) \<and>
        pol_validate (sample_policy ''a'' []) v = Inr True)"
proof -
  obtain j where j: "policyToJson sample_parse (\<lambda>s. s) ''DAC'' ''s'' ''a'' (sample_policy ''a'' []) = Inr j"
    "json_member ''value_valid'' j = Some (JBool True)"
  proof -
    have "map_sum id (json_member ''value_valid'')
        (policyToJson sample_parse (\<lambda>s. s) ''DAC'' ''s'' ''a'' (sample_policy ''a'' [])) =
        Inr (Some (JBool True))"
      by code_simp
    then show ?thesis
      using that by (cases "policyToJson sample_parse (\<lambda>s. s) ''DAC'' ''s'' ''a'' (sample_policy ''a'' [])") auto
  qed
  have "policyTypeValue (sample_policy ''a'' []) = Some (FixedTV None)"
    by (simp add: sample_policy_def)
  from described_valid_value_validates [OF j(1) this constructed_fixed_any j(2)] j(1)
  show ?thesis by blast
qed

end
