(* ===== verification/Logging.thy ===== *)
theory Logging
  imports ModuleConfig
begin

text \<open>
  The part of \<open>fic-core/logging/Logger\<close> that decides what is recorded: the levels, the configured
  threshold and the capture that collects the records of a policy run. Writing the log file is
  not modelled. The lemmas bound the capture and show when it says that it dropped a record.
\<close>

section \<open>Levels\<close>

datatype log_level = NoLog | TRACE | DEBUG | INFO | WARN | ERROR | FATAL

primrec log_rank :: "log_level \<Rightarrow> nat" where
  "log_rank NoLog = 0" | "log_rank TRACE = 1" | "log_rank DEBUG = 2" | "log_rank INFO = 3"
| "log_rank WARN = 4" | "log_rank ERROR = 5" | "log_rank FATAL = 6"

primrec level_to_string :: "log_level \<Rightarrow> string" where
  "level_to_string NoLog = ''UNKNOWN''" | "level_to_string TRACE = ''TRACE''"
| "level_to_string DEBUG = ''DEBUG''" | "level_to_string INFO = ''INFO''"
| "level_to_string WARN = ''WARN''" | "level_to_string ERROR = ''ERROR''"
| "level_to_string FATAL = ''FATAL''"

text \<open>\<open>std::toupper\<close> in the C locale.\<close>

definition upper_char :: "char \<Rightarrow> char" where
  "upper_char c =
     (let n = (of_char c :: nat) in if 97 \<le> n \<and> n \<le> 122 then char_of (n - 32) else c)"

definition normalize_level_string :: "string \<Rightarrow> string" where
  "normalize_level_string s = map upper_char (filter (\<lambda>c. \<not> is_space c) s)"

definition string_to_level :: "string \<Rightarrow> log_level" where
  "string_to_level s =
     (let n = normalize_level_string s in
      if n = ''NOLOG'' then NoLog else if n = ''TRACE'' then TRACE else if n = ''DEBUG'' then DEBUG
      else if n = ''INFO'' then INFO else if n = ''WARN'' then WARN else if n = ''ERROR'' then ERROR
      else if n = ''FATAL'' then FATAL else ERROR)"

text \<open>\<open>get_configured_log_level\<close> on the configuration of the module \<open>AUDIT\<close>.\<close>

definition get_configured_log_level :: "config_file \<Rightarrow> log_level" where
  "get_configured_log_level audit =
     (case getEnabledValue audit ''log_level'' of
        None \<Rightarrow> ERROR
      | Some v \<Rightarrow> if v = [] then ERROR else string_to_level v)"

section \<open>Records and capture\<close>

record log_record =
  log_timestamp :: string
  log_level_of :: log_level
  log_type :: string
  log_message :: string

text \<open>The test of \<open>Logger::log\<close>: whether a call becomes a record.\<close>

definition log_accepts :: "log_level \<Rightarrow> log_record \<Rightarrow> bool" where
  "log_accepts configured r \<longleftrightarrow>
     log_level_of r \<noteq> NoLog \<and> log_message r \<noteq> [] \<and> configured \<noteq> NoLog \<and>
     \<not> log_rank (log_level_of r) < log_rank configured"

record capture_state =
  records :: "log_record list"
  maxRecords :: nat
  maxBytes :: nat
  capturedBytes :: nat
  truncated :: bool

definition ScopedCapture :: "nat \<Rightarrow> nat \<Rightarrow> capture_state" where
  "ScopedCapture mr mb =
     \<lparr>records = [], maxRecords = mr, maxBytes = mb, capturedBytes = 0, truncated = False\<rparr>"

text \<open>The default limits of a capture.\<close>

definition default_maxRecords :: nat where
  [code del]: "default_maxRecords = 128"

definition default_maxBytes :: nat where
  [code del]: "default_maxBytes = 64 * 1024"

definition record_bytes :: "log_record \<Rightarrow> nat" where
  "record_bytes r = length (log_timestamp r) + length (log_type r) + length (log_message r) + 32"

definition capture_append :: "log_record \<Rightarrow> capture_state \<Rightarrow> capture_state" where
  "capture_append r s =
     (if length (records s) \<ge> maxRecords s \<or> record_bytes r > maxBytes s - capturedBytes s
      then s\<lparr>truncated := True\<rparr>
      else s\<lparr>records := records s @ [r], capturedBytes := capturedBytes s + record_bytes r\<rparr>)"

text \<open>The records of the calls made while a capture is active, in order.\<close>

definition capture_calls :: "log_level \<Rightarrow> log_record list \<Rightarrow> capture_state \<Rightarrow> capture_state" where
  "capture_calls configured calls s =
     fold (\<lambda>r s. if log_accepts configured r then capture_append r s else s) calls s"

definition capture_wf :: "capture_state \<Rightarrow> bool" where
  "capture_wf s \<longleftrightarrow>
     length (records s) \<le> maxRecords s \<and> capturedBytes s \<le> maxBytes s \<and>
     capturedBytes s = sum_list (map record_bytes (records s))"

lemma capture_append_wf: "capture_wf s \<Longrightarrow> capture_wf (capture_append r s)"
  by (auto simp: capture_wf_def capture_append_def)

lemma capture_append_keeps:
  "maxRecords (capture_append r s) = maxRecords s" "maxBytes (capture_append r s) = maxBytes s"
  "truncated s \<Longrightarrow> truncated (capture_append r s)"
  by (simp_all add: capture_append_def)

lemma capture_calls_Cons [simp]:
  "capture_calls l (r # rs) s =
     capture_calls l rs (if log_accepts l r then capture_append r s else s)"
  "capture_calls l [] s = s"
  by (simp_all add: capture_calls_def)

lemma capture_calls_wf:
  "capture_wf s \<Longrightarrow> capture_wf (capture_calls l rs s) \<and>
     maxRecords (capture_calls l rs s) = maxRecords s \<and> maxBytes (capture_calls l rs s) = maxBytes s"
  by (induction rs arbitrary: s) (auto simp: capture_append_wf capture_append_keeps)

lemma capture_calls_truncated: "truncated s \<Longrightarrow> truncated (capture_calls l rs s)"
  by (induction rs arbitrary: s) (auto simp: capture_append_keeps)

lemma capture_calls_complete:
  "\<not> truncated (capture_calls l rs s) \<Longrightarrow>
     records (capture_calls l rs s) = records s @ filter (log_accepts l) rs"
proof (induction rs arbitrary: s)
  case (Cons r rs)
  show ?case
  proof (cases "log_accepts l r")
    case True
    have "\<not> truncated (capture_append r s)"
      using Cons.prems True capture_calls_truncated by auto
    then have "records (capture_append r s) = records s @ [r]"
      by (auto simp: capture_append_def split: if_splits)
    with Cons True show ?thesis by simp
  qed (use Cons in simp)
qed simp

text \<open>
  C34. The capture of a policy run is bounded and honest: it never holds more records or more bytes
  than its limits, and unless it is marked truncated it holds every record that passed the
  configured level, in order.
\<close>

theorem capture_bounded_and_honest:
  "let s = capture_calls configured calls (ScopedCapture mr mb) in
   length (records s) \<le> mr \<and> sum_list (map record_bytes (records s)) \<le> mb \<and>
   (if truncated s then True else records s = filter (log_accepts configured) calls)"
proof -
  have "capture_wf (ScopedCapture mr mb)" by (simp add: capture_wf_def ScopedCapture_def)
  from capture_calls_wf [OF this, of configured calls]
  show ?thesis
    using capture_calls_complete [of configured calls "ScopedCapture mr mb"]
    by (auto simp: capture_wf_def ScopedCapture_def Let_def)
qed

end
