(* ===== verification/Planner.thy ===== *)
theory Planner
  imports RegistryOps Logging
begin

text \<open>
  Execution of policies in dependency order (\<open>fic/src/policy/execution/PolicyExecutionPlanner.cpp\<close>
  and \<open>PolicyApplication.cpp\<close>). What a policy does to the machine is a parameter: the record
  \<open>exec_env\<close> gives the outcome of \<open>Policy::apply\<close> and of the optional own executor on a world of
  an arbitrary type, with the log calls they make. The registry does not change during a pass.
  The theorems show that a pass always returns, that a policy counts as applied only after every
  required dependency was applied in the same pass, that no policy is run twice, and that an
  excluded module is left alone.
\<close>

section \<open>The environment of a pass\<close>

record 'w exec_env =
  env_parse :: json_parse
  env_time :: "'w \<Rightarrow> string"
  env_log_level :: log_level
  env_apply :: "policy_ref \<Rightarrow> 'w \<Rightarrow> (exn + bool) \<times> log_record list \<times> 'w"
  env_executor ::
    "(policy_ref \<Rightarrow> policy \<Rightarrow> 'w \<Rightarrow> (exn + policy_apply_result option) \<times> log_record list \<times> 'w) option"

definition dependencyDiagnostic ::
    "'w exec_env \<Rightarrow> 'w \<Rightarrow> policy_ref \<Rightarrow> dependency_strength \<Rightarrow> string \<Rightarrow> policy_diagnostic" where
  "dependencyDiagnostic env w dep s detail =
     \<lparr>timestamp = env_time env w,
      level = level_to_string (if s = Required then ERROR else WARN),
      category = ''daemon'',
      diag_message = (if s = Required then ''Required'' else ''Recommended'') @
        '' dependency was not applied: '' @ formatPolicyRef dep @ ''; '' @ detail\<rparr>"

section \<open>Running one policy\<close>

text \<open>
  The \<open>try\<close> block of \<open>executeOwnPolicy\<close>: the executor's own result (checked for identity and
  status) or the outcome of \<open>apply\<close>, or the exception that was caught.
\<close>

definition own_run ::
    "'w exec_env \<Rightarrow> policy_ref \<Rightarrow> policy \<Rightarrow> 'w \<Rightarrow>
     (exn + policy_apply_result option \<times> bool) \<times> log_record list \<times> 'w" where
  "own_run env ref p w =
     (let plain = (\<lambda>logs w. case env_apply env ref w of
            (Inl e, logs2, w') \<Rightarrow> (Inl e, logs @ logs2, w')
          | (Inr ok, logs2, w') \<Rightarrow> (Inr (None, ok), logs @ logs2, w'))
      in case env_executor env of
           None \<Rightarrow> plain [] w
         | Some ex \<Rightarrow> (case ex ref p w of
             (Inl e, logs, w') \<Rightarrow> (Inl e, logs, w')
           | (Inr None, logs, w') \<Rightarrow> plain logs w'
           | (Inr (Some r), logs, w') \<Rightarrow>
               if result_ref r \<noteq> ref
               then (Inl (RuntimeError ''own executor returned a different policy identity''), logs, w')
               else if status r \<noteq> Applied \<and> status r \<noteq> Failed
               then (Inl (RuntimeError ''own executor returned an invalid execution status''), logs, w')
               else (Inr (Some r, status r = Applied), logs, w')))"

definition exception_message :: "exn \<Rightarrow> string" where
  "exception_message e =
     (case exn_what e of
        Some m \<Rightarrow> ''Exception while applying the policy: '' @ m
      | None \<Rightarrow> ''Unknown exception while applying the policy'')"

definition diagnostic_of_record :: "log_record \<Rightarrow> policy_diagnostic" where
  "diagnostic_of_record r =
     \<lparr>timestamp = log_timestamp r, level = level_to_string (log_level_of r),
      category = log_type r, diag_message = log_message r\<rparr>"

definition executeOwnPolicy ::
    "'w exec_env \<Rightarrow> policy_ref \<Rightarrow> policy \<Rightarrow> 'w \<Rightarrow> policy_apply_result \<times> 'w" where
  "executeOwnPolicy env ref p w =
     (case own_run env ref p w of (outcome, logs, w') \<Rightarrow>
      let captured = capture_calls (env_log_level env) logs (ScopedCapture default_maxRecords default_maxBytes);
          diags = map diagnostic_of_record (records captured)
      in case outcome of
           Inr (Some r, _) \<Rightarrow>
             (r\<lparr>diagnostics := diagnostics r @ diags,
                diagnosticsTruncated := diagnosticsTruncated r \<or> truncated captured\<rparr>, w')
         | Inr (None, ok) \<Rightarrow>
             ((make_result ref (if ok then Applied else Failed)
                 (if ok then ''Policy applied'' else ''Policy could not be applied''))
              \<lparr>diagnostics := diags, diagnosticsTruncated := truncated captured,
               ownApplyAttempted := True,
               failureOrigin := (if ok then NoFailure else OwnApplyFailure)\<rparr>, w')
         | Inl e \<Rightarrow>
             ((make_result ref Failed (exception_message e))
              \<lparr>diagnostics := diags @
                 [\<lparr>timestamp = env_time env w', level = level_to_string ERROR,
                   category = ''daemon'', diag_message = exception_message e\<rparr>],
               diagnosticsTruncated := truncated captured,
               ownApplyAttempted := True, failureOrigin := OwnApplyFailure\<rparr>, w'))"

section \<open>The planner\<close>

record 'w exec_state =
  exec_results :: "(policy_ref, policy_apply_result) omap"
  visiting :: "policy_ref set"
  summary :: policy_apply_summary
  world :: 'w

text \<open>
  \<open>results_.emplace\<close> followed by \<open>summary.add\<close> of the entry the map holds: an entry that is
  already there is kept and added again.
\<close>

definition record_result ::
    "policy_ref \<Rightarrow> policy_apply_result \<Rightarrow> 'w exec_state \<Rightarrow> policy_apply_result \<times> 'w exec_state" where
  "record_result ref r st =
     (let rs = omap_emplace ref r (exec_results st);
          stored = (case omap_find rs ref of Some x \<Rightarrow> x | None \<Rightarrow> r)
      in (stored, st\<lparr>exec_results := rs, summary := summary_add stored (summary st)\<rparr>))"

type_synonym ('a, 'w) exec_outcome = "((exn \<times> 'w) + ('a \<times> 'w exec_state)) option"

text \<open>
  The loop over the dependencies of a policy; \<open>exec\<close> is the recursive call. An exception of the
  condition test leaves the planner. The accumulators are \<open>requiredBlocked\<close> and the
  diagnostics.
\<close>

fun dependency_loop ::
    "'w exec_env \<Rightarrow> string set \<Rightarrow> policy \<Rightarrow>
     (policy_ref \<Rightarrow> 'w exec_state \<Rightarrow> (policy_apply_result, 'w) exec_outcome) \<Rightarrow>
     policy_dependency list \<Rightarrow> bool \<Rightarrow> policy_diagnostic list \<Rightarrow> 'w exec_state \<Rightarrow>
     (bool \<times> policy_diagnostic list, 'w) exec_outcome" where
  "dependency_loop env excl p exec [] blocked diags st = Some (Inr ((blocked, diags), st))"
| "dependency_loop env excl p exec (d # ds) blocked diags st =
     (case dependencyConditionMatches (env_parse env) p (condition d) of
        Inl e \<Rightarrow> Some (Inl (e, world st))
      | Inr False \<Rightarrow> dependency_loop env excl p exec ds blocked diags st
      | Inr True \<Rightarrow>
          if ref_moduleName (dep_policy d) \<in> excl
          then dependency_loop env excl p exec ds (blocked \<or> strength d = Required)
                 (diags @ [dependencyDiagnostic env (world st) (dep_policy d) (strength d)
                    (''dependency belongs to explicitly excluded module '' @
                     ref_moduleName (dep_policy d))]) st
          else (case exec (dep_policy d) st of
                  None \<Rightarrow> None
                | Some (Inl e) \<Rightarrow> Some (Inl e)
                | Some (Inr (r, st')) \<Rightarrow>
                    if status r \<noteq> Applied
                    then dependency_loop env excl p exec ds (blocked \<or> strength d = Required)
                           (diags @ [dependencyDiagnostic env (world st') (dep_policy d) (strength d)
                              (''dependency status='' @ policyApplyStatusToString (status r))]) st'
                    else dependency_loop env excl p exec ds blocked diags st'))"

definition cycle_result :: "'w exec_env \<Rightarrow> policy_ref \<Rightarrow> 'w \<Rightarrow> policy_apply_result" where
  "cycle_result env ref w =
     (make_result ref Failed ''Policy dependency cycle reached during execution'')
     \<lparr>diagnostics := [\<lparr>timestamp = env_time env w, level = level_to_string ERROR,
         category = ''daemon'',
         diag_message = ''Policy dependency cycle reached during execution at '' @
           formatPolicyRef ref\<rparr>],
      failureOrigin := DependencyCycle\<rparr>"

definition blocked_result :: "policy_ref \<Rightarrow> policy_diagnostic list \<Rightarrow> policy_apply_result" where
  "blocked_result ref diags =
     (make_result ref Failed ''Required dependency was not applied'')
     \<lparr>diagnostics := diags, failureOrigin := RequiredDependencyBlocked\<rparr>"

fun executePolicy ::
    "nat \<Rightarrow> 'w exec_env \<Rightarrow> string set \<Rightarrow> policy_registry \<Rightarrow> policy_ref \<Rightarrow> 'w exec_state \<Rightarrow>
     (policy_apply_result, 'w) exec_outcome" where
  "executePolicy 0 env excl reg ref st = None"
| "executePolicy (Suc n) env excl reg ref st =
     (case omap_find (exec_results st) ref of
        Some r \<Rightarrow> Some (Inr (r, st))
      | None \<Rightarrow> (case findPolicy reg ref of
          None \<Rightarrow> Some (Inr (record_result ref
            (make_result ref NotFound ''Policy does not exist'') st))
        | Some p \<Rightarrow>
            if \<not> isEnabled p
            then Some (Inr (record_result ref
              (make_result ref Disabled ''Policy is disabled and is not applied'') st))
            else if ref \<in> visiting st
            then Some (Inr (record_result ref (cycle_result env ref (world st)) st))
            else (case dependency_loop env excl p (executePolicy n env excl reg)
                    (sort_key dep_policy (dependencies p)) False []
                    (st\<lparr>visiting := insert ref (visiting st)\<rparr>) of
                    None \<Rightarrow> None
                  | Some (Inl e) \<Rightarrow> Some (Inl e)
                  | Some (Inr ((blocked, diags), st1)) \<Rightarrow>
                      let st2 = st1\<lparr>visiting := visiting st1 - {ref}\<rparr> in
                      if blocked then Some (Inr (record_result ref (blocked_result ref diags) st2))
                      else (case executeOwnPolicy env ref p (world st2) of (r, w) \<Rightarrow>
                        Some (Inr (record_result ref (r\<lparr>diagnostics := diags @ diagnostics r\<rparr>)
                          (st2\<lparr>world := w\<rparr>)))))))"

record exec_request =
  req_roots :: "policy_ref list"
  req_excluded :: "string set"

fun execute_roots ::
    "nat \<Rightarrow> 'w exec_env \<Rightarrow> string set \<Rightarrow> policy_registry \<Rightarrow> policy_ref list \<Rightarrow> 'w exec_state \<Rightarrow>
     (unit, 'w) exec_outcome" where
  "execute_roots n env excl reg [] st = Some (Inr ((), st))"
| "execute_roots n env excl reg (r # rs) st =
     (case executePolicy n env excl reg r st of
        None \<Rightarrow> None
      | Some (Inl e) \<Rightarrow> Some (Inl e)
      | Some (Inr (_, st')) \<Rightarrow> execute_roots n env excl reg rs st')"

text \<open>
  \<open>PolicyExecutionPlanner::execute\<close>. The roots go through a \<open>std::set\<close>. The fuel is one more than
  the number of registered policies: a call nests only below a policy that is not yet visited.
\<close>

definition execute ::
    "'w exec_env \<Rightarrow> policy_registry \<Rightarrow> exec_request \<Rightarrow> 'w \<Rightarrow>
     ((exn \<times> 'w) + (policy_apply_summary \<times> 'w)) option" where
  "execute env reg req w =
     (let roots = sort (remdups (req_roots req));
          s0 = fold markRequestedRoot roots empty_summary
      in case execute_roots (Suc (length (policyRefs reg))) env (req_excluded req) reg roots
                \<lparr>exec_results = [], visiting = {}, summary = s0, world = w\<rparr> of
           None \<Rightarrow> None
         | Some (Inl e) \<Rightarrow> Some (Inl e)
         | Some (Inr (_, st)) \<Rightarrow> Some (Inr (summary st, world st)))"

section \<open>Requests\<close>

definition not_found_summary :: "policy_ref \<Rightarrow> string \<Rightarrow> policy_apply_summary" where
  "not_found_summary r m =
     summary_add (make_result r NotFound m) (markRequestedRoot r empty_summary)"

definition applyPolicy ::
    "'w exec_env \<Rightarrow> policy_registry \<Rightarrow> string \<Rightarrow> string \<Rightarrow> 'w \<Rightarrow>
     ((exn \<times> 'w) + (policy_apply_summary \<times> 'w)) option" where
  "applyPolicy env reg mn pn w =
     (case omap_find (modules reg) mn of
        None \<Rightarrow> Some (Inr (not_found_summary (PolicyRef mn [] pn) ''Module does not exist'', w))
      | Some m \<Rightarrow>
          (case find (\<lambda>(sn, ps). omap_find ps pn \<noteq> None) (submodules m) of
             Some (sn, _) \<Rightarrow>
               execute env reg \<lparr>req_roots = [PolicyRef mn sn pn], req_excluded = {}\<rparr> w
           | None \<Rightarrow>
               Some (Inr (not_found_summary (PolicyRef mn [] pn) ''Policy does not exist'', w))))"

definition module_refs :: "string \<Rightarrow> policy_module \<Rightarrow> policy_ref list" where
  "module_refs mn m =
     concat (map (\<lambda>(sn, ps). map (\<lambda>(pn, _). PolicyRef mn sn pn) ps) (submodules m))"

definition applyModulePolicies ::
    "'w exec_env \<Rightarrow> policy_registry \<Rightarrow> string \<Rightarrow> 'w \<Rightarrow>
     ((exn \<times> 'w) + (policy_apply_summary \<times> 'w)) option" where
  "applyModulePolicies env reg mn w =
     (case omap_find (modules reg) mn of
        None \<Rightarrow> Some (Inr (not_found_summary (PolicyRef mn [] ''all'') ''Module does not exist'', w))
      | Some m \<Rightarrow> execute env reg \<lparr>req_roots = module_refs mn m, req_excluded = {}\<rparr> w)"

definition applySubmodulePolicies ::
    "'w exec_env \<Rightarrow> policy_registry \<Rightarrow> string \<Rightarrow> string \<Rightarrow> 'w \<Rightarrow>
     ((exn \<times> 'w) + (policy_apply_summary \<times> 'w)) option" where
  "applySubmodulePolicies env reg mn sn w =
     execute env reg
       \<lparr>req_roots = filter (\<lambda>r. ref_moduleName r = mn \<and> ref_submoduleName r = sn) (policyRefs reg),
        req_excluded = {}\<rparr> w"

definition applyAllPolicies ::
    "'w exec_env \<Rightarrow> policy_registry \<Rightarrow> 'w \<Rightarrow> ((exn \<times> 'w) + (policy_apply_summary \<times> 'w)) option" where
  "applyAllPolicies env reg w =
     execute env reg
       \<lparr>req_roots = concat (map (\<lambda>(mn, m). module_refs mn m) (modules reg)), req_excluded = {}\<rparr> w"

definition applyAllPoliciesExceptModule ::
    "'w exec_env \<Rightarrow> policy_registry \<Rightarrow> string \<Rightarrow> 'w \<Rightarrow>
     ((exn \<times> 'w) + (policy_apply_summary \<times> 'w)) option" where
  "applyAllPoliciesExceptModule env reg excluded w =
     execute env reg
       \<lparr>req_roots = concat (map (\<lambda>(mn, m). module_refs mn m)
          (filter (\<lambda>(mn, _). mn \<noteq> excluded) (modules reg))),
        req_excluded = {excluded}\<rparr> w"

definition isPolicyApplySuccessful :: "policy_apply_summary \<Rightarrow> string \<Rightarrow> string \<Rightarrow> bool" where
  "isPolicyApplySuccessful s mn pn =
     (if mn \<noteq> ''all'' \<and> pn \<noteq> ''all'' then requestedRootsApplied s
      else requestedRootsWithoutFailures s)"

section \<open>What a result means\<close>

text \<open>A required dependency of a policy whose condition holds.\<close>

definition requires_now :: "'w exec_env \<Rightarrow> policy \<Rightarrow> policy_dependency \<Rightarrow> bool" where
  "requires_now env p d \<longleftrightarrow>
     strength d = Required \<and> dependencyConditionMatches (env_parse env) p (condition d) = Inr True"

text \<open>
  The status of a result is justified by the registry and the results before it: nothing is
  applied before what it requires, and nothing is blocked without a dependency that is missing.
\<close>

definition justified ::
    "'w exec_env \<Rightarrow> string set \<Rightarrow> policy_registry \<Rightarrow> policy_apply_result list \<Rightarrow>
     policy_apply_result \<Rightarrow> bool" where
  "justified env excl reg prev x \<longleftrightarrow>
     (case findPolicy reg (result_ref x) of
        None \<Rightarrow> status x = NotFound \<and> failureOrigin x = NoFailure
      | Some p \<Rightarrow>
          (if \<not> isEnabled p then status x = Disabled \<and> failureOrigin x = NoFailure
           else (status x = Applied \<or> status x = Failed) \<and>
            (status x = Applied \<longrightarrow>
               (\<forall>d \<in> set (dependencies p). requires_now env p d \<longrightarrow>
                  ref_moduleName (dep_policy d) \<notin> excl \<and>
                  (\<exists>y \<in> set prev. result_ref y = dep_policy d \<and> status y = Applied))) \<and>
            (env_executor env = None \<and> failureOrigin x = RequiredDependencyBlocked \<longrightarrow>
               \<not> ownApplyAttempted x \<and> status x = Failed \<and>
               (\<exists>d \<in> set (dependencies p). requires_now env p d \<and>
                  (ref_moduleName (dep_policy d) \<in> excl \<or>
                   (\<exists>y \<in> set prev. result_ref y = dep_policy d \<and> status y \<noteq> Applied))))))"

fun justified_list ::
    "'w exec_env \<Rightarrow> string set \<Rightarrow> policy_registry \<Rightarrow> policy_apply_result list \<Rightarrow>
     policy_apply_result list \<Rightarrow> bool" where
  "justified_list env excl reg prev [] \<longleftrightarrow> True"
| "justified_list env excl reg prev (x # xs) \<longleftrightarrow>
     justified env excl reg prev x \<and> justified_list env excl reg (prev @ [x]) xs"

lemma justified_mono:
  "justified env excl reg prev x \<Longrightarrow> set prev \<subseteq> set prev' \<Longrightarrow> justified env excl reg prev' x"
  unfolding justified_def by (fastforce split: option.splits if_splits)

lemma justified_list_append:
  "justified_list env excl reg prev (xs @ ys) \<longleftrightarrow>
     justified_list env excl reg prev xs \<and> justified_list env excl reg (prev @ xs) ys"
  by (induction xs arbitrary: prev) auto

lemma justified_list_member:
  "justified_list env excl reg prev xs \<Longrightarrow> x \<in> set xs \<Longrightarrow> justified env excl reg (prev @ xs) x"
proof (induction xs arbitrary: prev)
  case (Cons a xs)
  show ?case
  proof (cases "x = a")
    case True
    with Cons.prems justified_mono [of env excl reg prev x "prev @ a # xs"] show ?thesis by auto
  next
    case False
    with Cons.prems have "x \<in> set xs" "justified_list env excl reg (prev @ [a]) xs" by auto
    from Cons.IH [OF this(2,1)] show ?thesis by simp
  qed
qed simp

lemma justified_list_nth:
  "justified_list env excl reg prev xs \<Longrightarrow> i < length xs \<Longrightarrow>
     justified env excl reg (prev @ take i xs) (xs ! i)"
proof (induction xs arbitrary: prev i)
  case (Cons a xs)
  then show ?case by (cases i) fastforce+
qed simp

text \<open>The invariant of the planner between calls.\<close>

definition exec_inv :: "'w exec_env \<Rightarrow> string set \<Rightarrow> policy_registry \<Rightarrow> 'w exec_state \<Rightarrow> bool" where
  "exec_inv env excl reg st \<longleftrightarrow>
     (\<forall>r x. omap_find (exec_results st) r = Some x \<longrightarrow>
        result_ref x = r \<and> x \<in> set (results (summary st))) \<and>
     (\<forall>x \<in> set (results (summary st)). omap_find (exec_results st) (result_ref x) = Some x) \<and>
     justified_list env excl reg [] (results (summary st)) \<and>
     (acyclic (dep_edges reg) \<longrightarrow>
        visiting st \<inter> dom (omap_find (exec_results st)) = {} \<and>
        distinct (map result_ref (results (summary st))))"

text \<open>How a call may change the state: results are only added, and only for policies in \<open>ok\<close>.\<close>

definition exec_ext :: "policy_ref set \<Rightarrow> 'w exec_state \<Rightarrow> 'w exec_state \<Rightarrow> bool" where
  "exec_ext ok st st' \<longleftrightarrow>
     visiting st' = visiting st \<and>
     requestedRoots (summary st') = requestedRoots (summary st) \<and>
     omap_find (exec_results st) \<subseteq>\<^sub>m omap_find (exec_results st') \<and>
     (\<exists>xs. results (summary st') = results (summary st) @ xs \<and> result_ref ` set xs \<subseteq> ok)"

lemma exec_ext_refl [simp]: "exec_ext ok st st"
  by (simp add: exec_ext_def)

lemma exec_ext_trans:
  assumes "exec_ext ok a b" "exec_ext ok b c"
  shows "exec_ext ok a c"
proof -
  obtain xs ys where "results (summary b) = results (summary a) @ xs" "result_ref ` set xs \<subseteq> ok"
    "results (summary c) = results (summary b) @ ys" "result_ref ` set ys \<subseteq> ok"
    using assms by (auto simp: exec_ext_def)
  then have "results (summary c) = results (summary a) @ (xs @ ys)" "result_ref ` set (xs @ ys) \<subseteq> ok"
    by auto
  moreover have "omap_find (exec_results a) \<subseteq>\<^sub>m omap_find (exec_results b)"
    "omap_find (exec_results b) \<subseteq>\<^sub>m omap_find (exec_results c)"
    using assms by (simp_all add: exec_ext_def)
  then have "omap_find (exec_results a) \<subseteq>\<^sub>m omap_find (exec_results c)" by (rule map_le_trans)
  moreover have "visiting c = visiting a" "requestedRoots (summary c) = requestedRoots (summary a)"
    using assms by (simp_all add: exec_ext_def)
  ultimately show ?thesis unfolding exec_ext_def by blast
qed

lemma exec_ext_results: "exec_ext ok st st' \<Longrightarrow> set (results (summary st)) \<subseteq> set (results (summary st'))"
  by (auto simp: exec_ext_def)

lemma exec_ext_find:
  "exec_ext ok st st' \<Longrightarrow> omap_find (exec_results st) r = Some x \<Longrightarrow>
     omap_find (exec_results st') r = Some x"
  by (auto simp: exec_ext_def map_le_def dom_def)

lemma exec_inv_member:
  "exec_inv env excl reg st \<Longrightarrow> omap_find (exec_results st) r = Some x \<Longrightarrow>
     result_ref x = r \<and> x \<in> set (results (summary st))"
  by (simp add: exec_inv_def)

lemma exec_inv_stored:
  "exec_inv env excl reg st \<Longrightarrow> x \<in> set (results (summary st)) \<Longrightarrow>
     omap_find (exec_results st) (result_ref x) = Some x"
  by (simp add: exec_inv_def)

lemma exec_inv_justified:
  "exec_inv env excl reg st \<Longrightarrow> justified_list env excl reg [] (results (summary st))"
  by (simp add: exec_inv_def)

lemma exec_inv_acyclic:
  "exec_inv env excl reg st \<Longrightarrow> acyclic (dep_edges reg) \<Longrightarrow>
     visiting st \<inter> dom (omap_find (exec_results st)) = {} \<and>
     distinct (map result_ref (results (summary st)))"
  by (simp add: exec_inv_def)

lemma exec_inv_add:
  assumes inv: "exec_inv env excl reg st" and new: "omap_find (exec_results st) (result_ref x) = None"
    and just: "justified env excl reg (results (summary st)) x" and vis: "acyclic (dep_edges reg) \<Longrightarrow> result_ref x \<notin> visiting st"
  shows "exec_inv env excl reg
    (st\<lparr>exec_results := omap_assign (result_ref x) x (exec_results st),
        summary := summary_add x (summary st)\<rparr>)"
proof -
  have fresh: "result_ref z \<noteq> result_ref x" if "z \<in> set (results (summary st))" for z
    using exec_inv_stored [OF inv that] new by auto
  show ?thesis unfolding exec_inv_def
  proof (intro conjI allI impI ballI)
    fix r y
    assume "omap_find (exec_results (st\<lparr>exec_results := omap_assign (result_ref x) x (exec_results st),
        summary := summary_add x (summary st)\<rparr>)) r = Some y"
    then have "(r = result_ref x \<and> y = x) \<or> omap_find (exec_results st) r = Some y"
      by (simp add: omap_find_assign split: if_splits)
    then show "result_ref y = r"
      and "y \<in> set (results (summary (st\<lparr>exec_results := omap_assign (result_ref x) x (exec_results st),
        summary := summary_add x (summary st)\<rparr>)))"
      using exec_inv_member [OF inv, of r y] by (auto simp: summary_add_def)
  next
    fix y
    assume "y \<in> set (results (summary (st\<lparr>exec_results := omap_assign (result_ref x) x (exec_results st),
        summary := summary_add x (summary st)\<rparr>)))"
    then have "y = x \<or> y \<in> set (results (summary st))" by (simp add: summary_add_def disj_commute)
    then show "omap_find (exec_results (st\<lparr>exec_results := omap_assign (result_ref x) x (exec_results st),
        summary := summary_add x (summary st)\<rparr>)) (result_ref y) = Some y"
      using exec_inv_stored [OF inv, of y] fresh [of y] by (auto simp: omap_find_assign)
  next
    assume ac: "acyclic (dep_edges reg)"
    have "result_ref x \<notin> result_ref ` set (results (summary st))" using fresh by force
    with exec_inv_acyclic [OF inv ac] show
      "distinct (map result_ref (results (summary (st\<lparr>exec_results :=
         omap_assign (result_ref x) x (exec_results st), summary := summary_add x (summary st)\<rparr>))))"
      by (simp add: summary_add_def)
    from exec_inv_acyclic [OF inv ac] vis [OF ac] show
      "visiting (st\<lparr>exec_results := omap_assign (result_ref x) x (exec_results st),
         summary := summary_add x (summary st)\<rparr>) \<inter>
       dom (omap_find (exec_results (st\<lparr>exec_results := omap_assign (result_ref x) x (exec_results st),
         summary := summary_add x (summary st)\<rparr>))) = {}"
      by (simp add: omap_find_assign)
  qed (use exec_inv_justified [OF inv] just in \<open>simp add: summary_add_def justified_list_append\<close>)
qed

lemma exec_inv_add_again:
  assumes inv: "exec_inv env excl reg st" and old: "x \<in> set (results (summary st))"
    and cyc: "\<not> acyclic (dep_edges reg)"
  shows "exec_inv env excl reg (st\<lparr>summary := summary_add x (summary st)\<rparr>)"
proof -
  have "justified env excl reg (results (summary st)) x"
    using justified_list_member [OF exec_inv_justified [OF inv] old] by simp
  with inv old cyc show ?thesis
    unfolding exec_inv_def by (simp add: summary_add_def justified_list_append)
qed

lemma record_result_step:
  assumes inv: "exec_inv env excl reg st" and ok: "ref \<in> ok" and x: "result_ref x = ref"
    and just: "justified env excl reg (results (summary st)) x"
    and new: "acyclic (dep_edges reg) \<Longrightarrow> ref \<notin> visiting st \<and> omap_find (exec_results st) ref = None"
    and rec: "record_result ref x st = (y, st')"
  shows "exec_inv env excl reg st' \<and> exec_ext ok st st' \<and> omap_find (exec_results st') ref = Some y"
proof (cases "omap_find (exec_results st) ref")
  case None
  then have st': "y = x" "st' = st\<lparr>exec_results := omap_assign (result_ref x) x (exec_results st),
      summary := summary_add x (summary st)\<rparr>"
    using rec x by (auto simp: record_result_def omap_emplace_def omap_find_assign Let_def)
  have "exec_inv env excl reg st'"
    unfolding st'(2) using inv None x just new by (intro exec_inv_add) auto
  moreover have "exec_ext ok st st'" "omap_find (exec_results st') ref = Some y"
    using st' None x ok by (auto simp: exec_ext_def summary_add_def omap_find_assign map_le_def)
  ultimately show ?thesis by blast
next
  case (Some z)
  then have st': "y = z" "st' = st\<lparr>summary := summary_add z (summary st)\<rparr>"
    using rec by (auto simp: record_result_def omap_emplace_def Let_def)
  note z = exec_inv_member [OF inv Some]
  have "exec_inv env excl reg st'"
    unfolding st'(2) using inv z new Some by (intro exec_inv_add_again) auto
  moreover have "exec_ext ok st st'" "omap_find (exec_results st') ref = Some y"
    using st' z ok Some by (auto simp: exec_ext_def summary_add_def)
  ultimately show ?thesis by blast
qed

section \<open>Every call keeps the invariant\<close>

definition exec_post ::
    "'w exec_env \<Rightarrow> string set \<Rightarrow> policy_registry \<Rightarrow> policy_ref set \<Rightarrow> policy_ref \<Rightarrow> 'w exec_state \<Rightarrow>
     (policy_apply_result, 'w) exec_outcome \<Rightarrow> bool" where
  "exec_post env excl reg ok ref st res \<longleftrightarrow>
     (case res of None \<Rightarrow> False
      | Some (Inl _) \<Rightarrow> True
      | Some (Inr (x, st')) \<Rightarrow>
          exec_inv env excl reg st' \<and> exec_ext ok st st' \<and> omap_find (exec_results st') ref = Some x)"

definition exec_spec ::
    "'w exec_env \<Rightarrow> string set \<Rightarrow> policy_registry \<Rightarrow> policy_ref set \<Rightarrow> nat \<Rightarrow>
     (policy_ref \<Rightarrow> 'w exec_state \<Rightarrow> (policy_apply_result, 'w) exec_outcome) \<Rightarrow> bool" where
  "exec_spec env excl reg ok n exec \<longleftrightarrow>
     (\<forall>ref st. exec_inv env excl reg st \<longrightarrow> ref \<in> ok \<longrightarrow>
        card (dom (findPolicy reg) - visiting st) < n \<longrightarrow>
        (\<forall>v \<in> visiting st. (v, ref) \<in> (dep_edges reg)\<^sup>+) \<longrightarrow>
        exec_post env excl reg ok ref st (exec ref st))"

text \<open>A matching required dependency that stands in the way, given the results so far.\<close>

definition dep_missing ::
    "'w exec_env \<Rightarrow> string set \<Rightarrow> policy \<Rightarrow> policy_apply_result list \<Rightarrow> policy_dependency \<Rightarrow> bool" where
  "dep_missing env excl p rs d \<longleftrightarrow>
     requires_now env p d \<and>
     (ref_moduleName (dep_policy d) \<in> excl \<or>
      (\<exists>y \<in> set rs. result_ref y = dep_policy d \<and> status y \<noteq> Applied))"

definition dep_satisfied ::
    "'w exec_env \<Rightarrow> string set \<Rightarrow> policy \<Rightarrow> policy_apply_result list \<Rightarrow> policy_dependency \<Rightarrow> bool" where
  "dep_satisfied env excl p rs d \<longleftrightarrow>
     (requires_now env p d \<longrightarrow> ref_moduleName (dep_policy d) \<notin> excl \<and>
      (\<exists>y \<in> set rs. result_ref y = dep_policy d \<and> status y = Applied))"

definition loop_post ::
    "'w exec_env \<Rightarrow> string set \<Rightarrow> policy_registry \<Rightarrow> policy_ref set \<Rightarrow> policy \<Rightarrow>
     policy_dependency list \<Rightarrow> bool \<Rightarrow> 'w exec_state \<Rightarrow>
     (bool \<times> policy_diagnostic list, 'w) exec_outcome \<Rightarrow> bool" where
  "loop_post env excl reg ok p ds blocked st res \<longleftrightarrow>
     (case res of None \<Rightarrow> False
      | Some (Inl _) \<Rightarrow> True
      | Some (Inr ((b, _), st')) \<Rightarrow>
          exec_inv env excl reg st' \<and> exec_ext ok st st' \<and>
          (b \<longrightarrow> blocked \<or> (\<exists>d \<in> set ds. dep_missing env excl p (results (summary st')) d)) \<and>
          (\<not> b \<longrightarrow> \<not> blocked \<and> (\<forall>d \<in> set ds. dep_satisfied env excl p (results (summary st')) d)))"

lemma dep_mono:
  "dep_missing env excl p rs d \<Longrightarrow> set rs \<subseteq> set rs' \<Longrightarrow> dep_missing env excl p rs' d"
  "dep_satisfied env excl p rs d \<Longrightarrow> set rs \<subseteq> set rs' \<Longrightarrow> dep_satisfied env excl p rs' d"
  by (auto simp: dep_missing_def dep_satisfied_def)

text \<open>The loop on the rest of the list, after a step that decided the first dependency.\<close>

lemma loop_post_step:
  assumes rest: "loop_post env excl reg ok p ds bm sm res" and ext: "exec_ext ok st sm"
    and "bm \<Longrightarrow> blocked \<or> dep_missing env excl p (results (summary sm)) d"
    and "\<not> bm \<Longrightarrow> \<not> blocked \<and> dep_satisfied env excl p (results (summary sm)) d"
  shows "loop_post env excl reg ok p (d # ds) blocked st res"
proof -
  show ?thesis
  proof (cases "\<exists>b dg st'. res = Some (Inr ((b, dg), st'))")
    case True
    then obtain b dg st' where res: "res = Some (Inr ((b, dg), st'))" by blast
    then have r: "exec_inv env excl reg st'" "exec_ext ok sm st'"
      "b \<Longrightarrow> bm \<or> (\<exists>d \<in> set ds. dep_missing env excl p (results (summary st')) d)"
      "\<not> b \<Longrightarrow> \<not> bm \<and> (\<forall>d \<in> set ds. dep_satisfied env excl p (results (summary st')) d)"
      using rest by (auto simp: loop_post_def)
    note sub = exec_ext_results [OF r(2)]
    have "b \<Longrightarrow> blocked \<or> (\<exists>d \<in> set (d # ds). dep_missing env excl p (results (summary st')) d)"
      using r(3) assms(3) dep_mono(1) [OF _ sub] by fastforce
    moreover have "\<not> b \<Longrightarrow> \<not> blocked \<and> (\<forall>d \<in> set (d # ds). dep_satisfied env excl p (results (summary st')) d)"
      using r(4) assms(4) dep_mono(2) [OF _ sub] by fastforce
    ultimately show ?thesis
      using res r(1) exec_ext_trans [OF ext r(2)] by (simp add: loop_post_def)
  next
    case False
    with rest show ?thesis by (auto simp: loop_post_def split: option.splits sum.splits)
  qed
qed

lemma dependency_loop_post:
  assumes spec: "exec_spec env excl reg ok n exec" and okD: "{r. ref_moduleName r \<notin> excl} \<subseteq> ok"
    and "exec_inv env excl reg st" "card (dom (findPolicy reg) - visiting st) < n"
    and "\<forall>d \<in> set ds. \<forall>v \<in> visiting st. (v, dep_policy d) \<in> (dep_edges reg)\<^sup>+"
  shows "loop_post env excl reg ok p ds blocked st (dependency_loop env excl p exec ds blocked diags st)"
  using assms(3-5)
proof (induction ds arbitrary: blocked diags st)
  case Nil
  then show ?case by (simp add: loop_post_def)
next
  case (Cons d ds)
  let ?c = "dependencyConditionMatches (env_parse env) p (condition d)"
  have rest: "loop_post env excl reg ok p ds b sm (dependency_loop env excl p exec ds b dg sm)"
    if "exec_inv env excl reg sm" "visiting sm = visiting st" for b dg sm
    using Cons that by auto
  consider (exn) e where "?c = Inl e" | (no) "?c = Inr False"
    | (excluded) "?c = Inr True" "ref_moduleName (dep_policy d) \<in> excl"
    | (go) "?c = Inr True" "ref_moduleName (dep_policy d) \<notin> excl"
    by (cases ?c) auto
  then show ?case
  proof cases
    case exn
    then show ?thesis by (simp add: loop_post_def)
  next
    case no
    with rest [OF Cons.prems(1) refl] show ?thesis
      by (auto simp: dep_satisfied_def requires_now_def 
          intro!: loop_post_step [where sm = st and bm = blocked])
  next
    case excluded
    with rest [OF Cons.prems(1) refl] show ?thesis
      by (auto simp: dep_satisfied_def dep_missing_def requires_now_def
          intro!: loop_post_step [where sm = st and bm = "blocked \<or> strength d = Required"])
  next
    case go
    have post: "exec_post env excl reg ok (dep_policy d) st (exec (dep_policy d) st)"
      using spec go(2) okD Cons.prems unfolding exec_spec_def by auto
    show ?thesis
    proof (cases "\<exists>x st'. exec (dep_policy d) st = Some (Inr (x, st'))")
      case True
      then obtain x st' where x: "exec (dep_policy d) st = Some (Inr (x, st'))" by blast
      with post have st': "exec_inv env excl reg st'" "exec_ext ok st st'"
        "omap_find (exec_results st') (dep_policy d) = Some x" by (auto simp: exec_post_def)
      have m: "result_ref x = dep_policy d" "x \<in> set (results (summary st'))"
        using exec_inv_member [OF st'(1,3)] by auto
      have v: "visiting st' = visiting st" using st'(2) by (simp add: exec_ext_def)
      show ?thesis
      proof (cases "status x = Applied")
        case True
        with go x rest [OF st'(1) v] st'(2) m show ?thesis
          by (auto simp: dep_satisfied_def intro!: loop_post_step [where sm = st' and bm = blocked])
      next
        case False
        with go x rest [OF st'(1) v] st'(2) m show ?thesis
          by (auto simp: dep_satisfied_def dep_missing_def requires_now_def
              intro!: loop_post_step [where sm = st' and bm = "blocked \<or> strength d = Required"])
      qed
    next
      case False
      with post go show ?thesis
        by (auto simp: exec_post_def loop_post_def split: option.splits sum.splits)
    qed
  qed
qed

lemma own_run_status:
  assumes "own_run env ref p w = (Inr (Some r, ok), logs, w')"
  shows "result_ref r = ref \<and> (status r = Applied \<or> status r = Failed)"
  using assms
  by (auto simp: own_run_def Let_def split: option.splits prod.splits sum.splits if_splits)

lemma own_run_plain:
  assumes "own_run env ref p w = (Inr (Some r, ok), logs, w')"
  shows "env_executor env \<noteq> None"
  using assms
  by (auto simp: own_run_def Let_def split: option.splits prod.splits sum.splits if_splits)

lemma executeOwnPolicy_result:
  assumes "executeOwnPolicy env ref p w = (r, w')"
  shows "result_ref r = ref" "status r = Applied \<or> status r = Failed"
    and "env_executor env = None \<Longrightarrow> failureOrigin r \<noteq> RequiredDependencyBlocked"
proof -
  obtain outcome logs w1 where run: "own_run env ref p w = (outcome, logs, w1)" by (metis surj_pair)
  have "result_ref r = ref \<and> (status r = Applied \<or> status r = Failed) \<and>
     (env_executor env = None \<longrightarrow> failureOrigin r \<noteq> RequiredDependencyBlocked)"
  proof (cases "\<exists>x ok. outcome = Inr (Some x, ok)")
    case True
    then obtain x ok where x: "outcome = Inr (Some x, ok)" by blast
    from own_run_status [OF run [unfolded x]] own_run_plain [OF run [unfolded x]] assms run x
    show ?thesis by (auto simp: executeOwnPolicy_def Let_def)
  next
    case False
    then consider e where "outcome = Inl e" | ok where "outcome = Inr (None, ok)"
      by (metis sumE old.prod.exhaust option.exhaust)
    then show ?thesis
      using assms run by cases (auto simp: executeOwnPolicy_def Let_def make_result_def split: if_splits)
  qed
  then show "result_ref r = ref" "status r = Applied \<or> status r = Failed"
    "env_executor env = None \<Longrightarrow> failureOrigin r \<noteq> RequiredDependencyBlocked" by auto
qed

lemma make_result_sel [simp]:
  "result_ref (make_result r s m) = r" "status (make_result r s m) = s"
  "failureOrigin (make_result r s m) = NoFailure" "ownApplyAttempted (make_result r s m) = False"
  by (simp_all add: make_result_def)

lemma cycle_result_sel [simp]:
  "result_ref (cycle_result env r w) = r" "status (cycle_result env r w) = Failed"
  "failureOrigin (cycle_result env r w) = DependencyCycle"
  by (simp_all add: cycle_result_def)

lemma blocked_result_sel [simp]:
  "result_ref (blocked_result r ds) = r" "status (blocked_result r ds) = Failed"
  "ownApplyAttempted (blocked_result r ds) = False"
  by (simp_all add: blocked_result_def)

text \<open>Leaving a policy: its own result, after the loop over its dependencies.\<close>

lemma exec_inv_visiting:
  "exec_inv env excl reg st \<Longrightarrow> exec_inv env excl reg (st\<lparr>visiting := visiting st - V, world := w\<rparr>)"
  unfolding exec_inv_def by auto

lemma exec_inv_enter:
  assumes "exec_inv env excl reg st" "omap_find (exec_results st) ref = None"
  shows "exec_inv env excl reg (st\<lparr>visiting := insert ref (visiting st)\<rparr>)"
  using assms unfolding exec_inv_def by (simp add: domIff)

lemma own_result_post:
  assumes wf: "findPolicy reg ref = Some p" "isEnabled p" and ok: "ref \<in> ok"
    and vis: "ref \<notin> visiting st"
    and loop: "loop_post env excl reg ok p ds False (st\<lparr>visiting := insert ref (visiting st)\<rparr>)
      (Some (Inr ((b, diags), sm)))" and ds: "set ds = set (dependencies p)"
    and r: "if b then r = blocked_result ref diags
      else \<exists>r0 wm. executeOwnPolicy env ref p wm = (r0, w) \<and> r = r0\<lparr>diagnostics := diags @ diagnostics r0\<rparr>"
    and rec: "record_result ref r (sm\<lparr>visiting := visiting sm - {ref}, world := w\<rparr>) = (y, st')"
  shows "exec_post env excl reg ok ref st (Some (Inr (y, st')))"
proof -
  let ?sm = "sm\<lparr>visiting := visiting sm - {ref}, world := w\<rparr>"
  have inv: "exec_inv env excl reg sm" and ext: "exec_ext ok (st\<lparr>visiting := insert ref (visiting st)\<rparr>) sm"
    using loop by (auto simp: loop_post_def)
  have vsm: "visiting sm = insert ref (visiting st)" using ext by (simp add: exec_ext_def)
  have fresh: "omap_find (exec_results sm) ref = None" if "acyclic (dep_edges reg)"
    using exec_inv_acyclic [OF inv that] vsm by (auto simp: disjoint_iff domIff)
  have just: "justified env excl reg (results (summary ?sm)) r" and rr: "result_ref r = ref"
  proof -
    have "justified env excl reg (results (summary sm)) r \<and> result_ref r = ref"
    proof (cases b)
      case True
      with loop have "\<exists>d \<in> set (dependencies p). dep_missing env excl p (results (summary sm)) d"
        by (simp add: loop_post_def ds)
      with True r wf show ?thesis by (auto simp: justified_def dep_missing_def)
    next
      case False
      with loop have "\<forall>d \<in> set (dependencies p). dep_satisfied env excl p (results (summary sm)) d"
        by (simp add: loop_post_def ds)
      with False r wf executeOwnPolicy_result show ?thesis
        by (fastforce simp: justified_def dep_satisfied_def)
    qed
    then show "justified env excl reg (results (summary ?sm)) r" "result_ref r = ref" by auto
  qed
  have "exec_inv env excl reg st' \<and> exec_ext ok ?sm st' \<and> omap_find (exec_results st') ref = Some y"
    using exec_inv_visiting [OF inv] just rr ok fresh rec
    by (intro record_result_step [where x = r]) auto
  moreover have "exec_ext ok st ?sm" using ext vis vsm by (simp add: exec_ext_def)
  ultimately show ?thesis by (auto simp: exec_post_def intro: exec_ext_trans)
qed

text \<open>The call for an enabled policy that is neither cached nor being visited.\<close>

lemma execute_enabled_post:
  assumes wf: "registry_wf reg" and okD: "{r. ref_moduleName r \<notin> excl} \<subseteq> ok"
    and IH: "exec_spec env excl reg ok n (executePolicy n env excl reg)"
    and inv: "exec_inv env excl reg st" and ok: "ref \<in> ok"
    and fuel: "card (dom (findPolicy reg) - visiting st) < Suc n"
    and path: "\<forall>v \<in> visiting st. (v, ref) \<in> (dep_edges reg)\<^sup>+"
    and go: "omap_find (exec_results st) ref = None" "findPolicy reg ref = Some p" "isEnabled p"
      "ref \<notin> visiting st"
  shows "exec_post env excl reg ok ref st (executePolicy (Suc n) env excl reg ref st)"
proof -
  let ?st1 = "st\<lparr>visiting := insert ref (visiting st)\<rparr>"
  let ?ds = "sort_key dep_policy (dependencies p)"
  let ?loop = "dependency_loop env excl p (executePolicy n env excl reg) ?ds False [] ?st1"
  have fuel1: "card (dom (findPolicy reg) - visiting ?st1) < n"
    using reg.unvisited_less [OF wf, of ref "visiting st"] go fuel by simp
  have edge: "(ref, dep_policy d) \<in> dep_edges reg" if "d \<in> set ?ds" for d
    using that go(2) by (auto simp: dep_edges_def)
  have loop: "loop_post env excl reg ok p ?ds False ?st1 ?loop"
    using IH okD exec_inv_enter [OF inv go(1)] fuel1 edge path
    by (intro dependency_loop_post) (auto intro: trancl_into_trancl)
  show ?thesis
  proof (cases "\<exists>b diags sm. ?loop = Some (Inr ((b, diags), sm))")
    case True
    then obtain b diags sm where l: "?loop = Some (Inr ((b, diags), sm))" by blast
    obtain r0 w0 where r0: "executeOwnPolicy env ref p (world sm) = (r0, w0)" by force
    define r where "r = (if b then blocked_result ref diags else r0\<lparr>diagnostics := diags @ diagnostics r0\<rparr>)"
    define w where "w = (if b then world sm else w0)"
    obtain y st' where rec: "record_result ref r (sm\<lparr>visiting := visiting sm - {ref}, world := w\<rparr>) = (y, st')"
      by force
    have "executePolicy (Suc n) env excl reg ref st = Some (Inr (y, st'))"
      using go l r0 rec by (simp add: r_def w_def Let_def split: if_splits)
    moreover have "exec_post env excl reg ok ref st (Some (Inr (y, st')))"
      using loop [unfolded l] go ok rec r0
      by (intro own_result_post [where p = p and ds = ?ds and b = b and diags = diags and sm = sm
            and w = w and r = r]) (auto simp: r_def w_def)
    ultimately show ?thesis by simp
  next
    case False
    with loop go show ?thesis
      by (auto simp: loop_post_def exec_post_def split: option.splits sum.splits)
  qed
qed

lemma executePolicy_spec:
  assumes wf: "registry_wf reg" and okD: "{r. ref_moduleName r \<notin> excl} \<subseteq> ok"
  shows "exec_spec env excl reg ok n (executePolicy n env excl reg)"
proof (induction n)
  case 0
  then show ?case by (simp add: exec_spec_def)
next
  case (Suc n)
  show ?case unfolding exec_spec_def
  proof (intro allI impI)
    fix ref and st :: "'a exec_state"
    assume inv: "exec_inv env excl reg st" and ok: "ref \<in> ok"
      and fuel: "card (dom (findPolicy reg) - visiting st) < Suc n"
      and path: "\<forall>v \<in> visiting st. (v, ref) \<in> (dep_edges reg)\<^sup>+"
    have nv: "ref \<notin> visiting st" if "acyclic (dep_edges reg)"
      using path that by (auto simp: acyclic_def)
    have simple: "exec_post env excl reg ok ref st (Some (Inr (record_result ref x st)))"
      if "result_ref x = ref" "justified env excl reg (results (summary st)) x"
        "omap_find (exec_results st) ref = None" for x
      using record_result_step [OF inv ok that(1,2)] nv that(3)
      by (cases "record_result ref x st") (auto simp: exec_post_def)
    consider (cached) x where "omap_find (exec_results st) ref = Some x"
      | (none) "omap_find (exec_results st) ref = None" "findPolicy reg ref = None"
      | (off) p where "omap_find (exec_results st) ref = None" "findPolicy reg ref = Some p" "\<not> isEnabled p"
      | (cycle) p where "omap_find (exec_results st) ref = None" "findPolicy reg ref = Some p"
          "isEnabled p" "ref \<in> visiting st"
      | (go) p where "omap_find (exec_results st) ref = None" "findPolicy reg ref = Some p"
          "isEnabled p" "ref \<notin> visiting st"
      by (cases "omap_find (exec_results st) ref"; cases "findPolicy reg ref") auto
    then show "exec_post env excl reg ok ref st (executePolicy (Suc n) env excl reg ref st)"
    proof cases
      case cached
      with inv show ?thesis by (simp add: exec_post_def)
    next
      case none
      with simple [of "make_result ref NotFound ''Policy does not exist''"] show ?thesis
        by (simp add: justified_def)
    next
      case (off p)
      with simple [of "make_result ref Disabled ''Policy is disabled and is not applied''"]
      show ?thesis by (simp add: justified_def)
    next
      case (cycle p)
      with simple [of "cycle_result env ref (world st)"] show ?thesis
        by (simp add: justified_def)
    next
      case (go p)
      show ?thesis by (rule execute_enabled_post [OF wf okD Suc inv ok fuel path go])
    qed
  qed
qed

lemma execute_roots_post:
  assumes wf: "registry_wf reg" and okD: "{r. ref_moduleName r \<notin> excl} \<subseteq> ok"
    and "set rs \<subseteq> ok" "exec_inv env excl reg st" "visiting st = {}" "length (policyRefs reg) < n"
  shows "case execute_roots n env excl reg rs st of None \<Rightarrow> False | Some (Inl _) \<Rightarrow> True
    | Some (Inr (_, st')) \<Rightarrow> exec_inv env excl reg st' \<and> exec_ext ok st st' \<and>
        (\<forall>r \<in> set rs. omap_find (exec_results st') r \<noteq> None)"
  using assms(3-5)
proof (induction rs arbitrary: st)
  case (Cons r rs)
  have "card (dom (findPolicy reg) - visiting st) < n"
    using reg.unvisited_le [OF wf, of "visiting st"] assms(6) by simp
  then have post: "exec_post env excl reg ok r st (executePolicy n env excl reg r st)"
    using executePolicy_spec [OF wf okD, of env n] Cons.prems unfolding exec_spec_def by simp
  show ?case
  proof (cases "\<exists>x st'. executePolicy n env excl reg r st = Some (Inr (x, st'))")
    case True
    then obtain x sm where x: "executePolicy n env excl reg r st = Some (Inr (x, sm))" by blast
    with post have sm: "exec_inv env excl reg sm" "exec_ext ok st sm" "omap_find (exec_results sm) r = Some x"
      by (auto simp: exec_post_def)
    have "visiting sm = {}" using sm(2) Cons.prems(3) by (simp add: exec_ext_def)
    note IH = Cons.IH [OF _ sm(1) this]
    show ?thesis
      using IH Cons.prems(1) x sm exec_ext_trans [OF sm(2)] exec_ext_find [OF _ sm(3)]
      by (fastforce split: option.splits sum.splits)
  next
    case False
    with post show ?thesis by (auto simp: exec_post_def split: option.splits sum.splits)
  qed
qed simp

section \<open>A pass\<close>

lemma fold_markRequestedRoot:
  "set (requestedRoots (fold markRequestedRoot rs s)) = set rs \<union> set (requestedRoots s)"
  "results (fold markRequestedRoot rs s) = results s"
  by (induction rs arbitrary: s) (auto simp: markRequestedRoot_def set_insort_key)

lemma execute_post:
  assumes wf: "registry_wf reg"
  shows "execute env reg req w \<noteq> None"
    and "execute env reg req w = Some (Inr (s, w')) \<Longrightarrow>
      justified_list env (req_excluded req) reg [] (results s) \<and>
      result_ref ` set (results s) \<subseteq> {r. ref_moduleName r \<notin> req_excluded req} \<union> set (req_roots req) \<and>
      set (requestedRoots s) = set (req_roots req) \<and>
      set (req_roots req) \<subseteq> result_ref ` set (results s) \<and>
      (\<forall>x \<in> set (results s). \<forall>y \<in> set (results s). result_ref x = result_ref y \<longrightarrow> x = y) \<and>
      (acyclic (dep_edges reg) \<longrightarrow> distinct (map result_ref (results s)))"
proof -
  let ?excl = "req_excluded req" and ?n = "Suc (length (policyRefs reg))"
  let ?roots = "sort (remdups (req_roots req))"
  let ?ok = "{r. ref_moduleName r \<notin> ?excl} \<union> set (req_roots req)"
  let ?s0 = "fold markRequestedRoot ?roots empty_summary"
  let ?st = "\<lparr>exec_results = [], visiting = {}, summary = ?s0, world = w\<rparr>"
  have s0: "results ?s0 = []" "set (requestedRoots ?s0) = set (req_roots req)"
    using fold_markRequestedRoot [of ?roots empty_summary] by (auto simp: empty_summary_def)
  have inv: "exec_inv env ?excl reg ?st" using s0 by (simp add: exec_inv_def)
  have post: "case execute_roots ?n env ?excl reg ?roots ?st of None \<Rightarrow> False | Some (Inl _) \<Rightarrow> True
    | Some (Inr (_, st')) \<Rightarrow> exec_inv env ?excl reg st' \<and> exec_ext ?ok ?st st' \<and>
        (\<forall>r \<in> set ?roots. omap_find (exec_results st') r \<noteq> None)"
    by (rule execute_roots_post [OF wf _ _ inv]) auto
  show "execute env reg req w \<noteq> None"
    using post by (auto simp: execute_def Let_def split: option.splits sum.splits)
  assume "execute env reg req w = Some (Inr (s, w'))"
  then obtain st' where ex: "execute_roots ?n env ?excl reg ?roots ?st = Some (Inr ((), st'))"
    "s = summary st'"
    by (auto simp: execute_def Let_def split: option.splits sum.splits)
  with post have st': "exec_inv env ?excl reg st'" "exec_ext ?ok ?st st'"
    "\<forall>r \<in> set (req_roots req). \<exists>x. omap_find (exec_results st') r = Some x" by auto
  have "result_ref ` set (results s) \<subseteq> ?ok" "set (requestedRoots s) = set (req_roots req)"
    using st'(2) ex(2) s0 by (auto simp: exec_ext_def)
  moreover have "set (req_roots req) \<subseteq> result_ref ` set (results s)"
  proof
    fix r assume "r \<in> set (req_roots req)"
    then obtain x where "omap_find (exec_results st') r = Some x" using st'(3) by blast
    from exec_inv_member [OF st'(1) this] ex(2) show "r \<in> result_ref ` set (results s)" by auto
  qed
  moreover have "x = y" if "x \<in> set (results s)" "y \<in> set (results s)" "result_ref x = result_ref y" for x y
    using exec_inv_stored [OF st'(1) that(1) [unfolded ex(2)]]
      exec_inv_stored [OF st'(1) that(2) [unfolded ex(2)]] that(3) by (metis option.inject)
  ultimately show "justified_list env ?excl reg [] (results s) \<and>
      result_ref ` set (results s) \<subseteq> ?ok \<and>
      set (requestedRoots s) = set (req_roots req) \<and>
      set (req_roots req) \<subseteq> result_ref ` set (results s) \<and>
      (\<forall>x \<in> set (results s). \<forall>y \<in> set (results s). result_ref x = result_ref y \<longrightarrow> x = y) \<and>
      (acyclic (dep_edges reg) \<longrightarrow> distinct (map result_ref (results s)))"
    using exec_inv_justified [OF st'(1)] exec_inv_acyclic [OF st'(1)] ex(2) by blast
qed

text \<open>A world that remembers which policies were applied, in order.\<close>

definition sample_env :: "policy_ref list exec_env" where
  "sample_env = \<lparr>env_parse = (\<lambda>_. Inl UnknownException), env_time = (\<lambda>_. []), env_log_level = ERROR,
     env_apply = (\<lambda>r w. (Inr True, [], w @ [r])), env_executor = None\<rparr>"

text \<open>
  C23. A pass over the policies always returns, and a policy is reported as applied only when it is
  registered and enabled and every required dependency whose condition holds lies outside the
  excluded modules and was itself reported as applied earlier in the same pass. This holds for
  every behaviour of the policies and for cyclic graphs too.
\<close>

theorem applied_only_after_required:
  assumes "registry_wf reg"
  shows "execute env reg req w \<noteq> None \<and>
    (execute env reg req w = Some (Inr (s, w')) \<and> i < length (results s) \<and>
       status (results s ! i) = Applied \<longrightarrow>
     (\<exists>p. findPolicy reg (result_ref (results s ! i)) = Some p \<and> isEnabled p \<and>
       (\<forall>d \<in> set (dependencies p). strength d = Required \<and>
          dependencyConditionMatches (env_parse env) p (condition d) = Inr True \<longrightarrow>
          ref_moduleName (dep_policy d) \<notin> req_excluded req \<and>
          (\<exists>j < i. result_ref (results s ! j) = dep_policy d \<and> status (results s ! j) = Applied))))"
proof -
  have "\<exists>p. findPolicy reg (result_ref (results s ! i)) = Some p \<and> isEnabled p \<and>
       (\<forall>d \<in> set (dependencies p). requires_now env p d \<longrightarrow>
          ref_moduleName (dep_policy d) \<notin> req_excluded req \<and>
          (\<exists>j < i. result_ref (results s ! j) = dep_policy d \<and> status (results s ! j) = Applied))"
    if "execute env reg req w = Some (Inr (s, w'))" and i: "i < length (results s)"
      and a: "status (results s ! i) = Applied"
  proof -
    have "justified env (req_excluded req) reg (take i (results s)) (results s ! i)"
      using execute_post(2) [OF assms that(1)] justified_list_nth [OF _ i] by fastforce
    then obtain p where p: "findPolicy reg (result_ref (results s ! i)) = Some p" "isEnabled p"
      "\<forall>d \<in> set (dependencies p). requires_now env p d \<longrightarrow>
        ref_moduleName (dep_policy d) \<notin> req_excluded req \<and>
        (\<exists>y \<in> set (take i (results s)). result_ref y = dep_policy d \<and> status y = Applied)"
      using a by (auto simp: justified_def split: option.splits if_splits)
    have "\<exists>j < i. results s ! j = y" if "y \<in> set (take i (results s))" for y
      using that by (auto simp: in_set_conv_nth)
    with p show ?thesis by metis
  qed
  then show ?thesis using execute_post(1) [OF assms] by (simp add: requires_now_def)
qed

lemma applied_only_after_required_witness:
  "\<exists>s. execute sample_env (sample_registry [sample_ref ''b''] [])
     \<lparr>req_roots = [sample_ref ''a''], req_excluded = {}\<rparr> [] =
     Some (Inr (s, [sample_ref ''b'', sample_ref ''a''])) \<and>
   map result_ref (results s) = [sample_ref ''b'', sample_ref ''a''] \<and>
   (\<exists>p. findPolicy (sample_registry [sample_ref ''b''] []) (result_ref (results s ! 1)) = Some p \<and> isEnabled p)"
proof -
  let ?x = "execute sample_env (sample_registry [sample_ref ''b''] [])
     \<lparr>req_roots = [sample_ref ''a''], req_excluded = {}\<rparr> []"
  have "(case ?x of Some (Inr (s, w)) \<Rightarrow>
      map result_ref (results s) = [sample_ref ''b'', sample_ref ''a''] \<and>
      map status (results s) = [Applied, Applied] \<and> w = [sample_ref ''b'', sample_ref ''a'']
    | _ \<Rightarrow> False)"
    by code_simp
  then obtain s where s: "?x = Some (Inr (s, [sample_ref ''b'', sample_ref ''a'']))"
    "map result_ref (results s) = [sample_ref ''b'', sample_ref ''a'']"
    "map status (results s) = [Applied, Applied]"
    by (auto split: option.splits sum.splits)
  then have l: "1 < length (results s)" "status (results s ! 1) = Applied"
    by (auto simp: map_eq_Cons_conv)
  from applied_only_after_required [OF sample_registry_wf, THEN conjunct2, THEN mp,
      OF conjI [OF s(1) conjI [OF l]]]
  obtain p where "findPolicy (sample_registry [sample_ref ''b''] []) (result_ref (results s ! 1)) = Some p"
    "isEnabled p" by (elim exE conjE)
  with s show ?thesis by (intro exI conjI)
qed

text \<open>
  C30. On a registry that passed validation, no policy occurs twice in the report of a pass, every
  requested policy occurs in it, and the requested ones are exactly those that were asked for.
\<close>

theorem each_policy_once:
  assumes "registry_wf reg" "validatePolicyDependencyGraph reg = Some (Inr None)"
    and "execute env reg req w = Some (Inr (s, w'))"
  shows "distinct (map result_ref (results s)) \<and>
    set (requestedRoots s) = set (req_roots req) \<and>
    set (req_roots req) \<subseteq> result_ref ` set (results s)"
  using execute_post(2) [OF assms(1,3)] assms(2) validate_iff [OF assms(1)]
  by (simp add: graph_ok_def)

lemma each_policy_once_witness:
  "\<exists>s w. execute sample_env (sample_registry [sample_ref ''b''] [])
     \<lparr>req_roots = [sample_ref ''b'', sample_ref ''a''], req_excluded = {}\<rparr> [] = Some (Inr (s, w)) \<and>
   distinct (map result_ref (results s))"
proof -
  let ?r = "sample_registry [sample_ref ''b''] []"
  let ?q = "\<lparr>req_roots = [sample_ref ''b'', sample_ref ''a''], req_excluded = {}\<rparr>"
  have v: "validatePolicyDependencyGraph ?r = Some (Inr None)" by code_simp
  have "(case execute sample_env ?r ?q [] of Some (Inr _) \<Rightarrow> True | _ \<Rightarrow> False)" by code_simp
  then obtain s w where "execute sample_env ?r ?q [] = Some (Inr (s, w))"
    by (auto split: option.splits sum.splits)
  with each_policy_once [OF sample_registry_wf v this] show ?thesis by blast
qed

text \<open>
  A pass over everything except one module never touches that module: no policy of it is run
  or reported, not even as a dependency of another one.
\<close>

theorem excluded_module_untouched:
  assumes "registry_wf reg" "applyAllPoliciesExceptModule env reg m w = Some (Inr (s, w'))"
    and "x \<in> set (results s)"
  shows "ref_moduleName (result_ref x) \<noteq> m"
proof -
  let ?req = "\<lparr>req_roots = concat (map (\<lambda>(mn, m). module_refs mn m)
      (filter (\<lambda>(mn, _). mn \<noteq> m) (modules reg))), req_excluded = {m}\<rparr>"
  have roots: "ref_moduleName r \<noteq> m" if "r \<in> set (req_roots ?req)" for r
    using that by (auto simp: module_refs_def)
  have ex: "execute env reg ?req w = Some (Inr (s, w'))"
    using assms(2) by (simp add: applyAllPoliciesExceptModule_def)
  have "result_ref ` set (results s) \<subseteq>
      {r. ref_moduleName r \<notin> req_excluded ?req} \<union> set (req_roots ?req)"
    using execute_post(2) [OF assms(1) ex] by blast
  then have "result_ref x \<in> {r. ref_moduleName r \<notin> {m}} \<union> set (req_roots ?req)"
    using assms(3) by (simp only: exec_request.simps) blast
  then show ?thesis using roots by blast
qed

lemma excluded_module_untouched_witness:
  "\<exists>s w. applyAllPoliciesExceptModule sample_env (sample_registry [] []) ''NET'' [] = Some (Inr (s, w)) \<and>
     (\<exists>x \<in> set (results s). ref_moduleName (result_ref x) \<noteq> ''NET'')"
proof -
  let ?r = "sample_registry [] []"
  have "(case applyAllPoliciesExceptModule sample_env ?r ''NET'' [] of
      Some (Inr (s, _)) \<Rightarrow> results s \<noteq> [] | _ \<Rightarrow> False)" by code_simp
  then obtain s w where s: "applyAllPoliciesExceptModule sample_env ?r ''NET'' [] = Some (Inr (s, w))"
    and "results s \<noteq> []"
    by (auto split: option.splits sum.splits)
  then obtain x where x: "x \<in> set (results s)" by (meson list.set_sel(1))
  with s excluded_module_untouched [OF sample_registry_wf s x] show ?thesis by blast
qed

lemma summary_find_unique:
  assumes "\<forall>x \<in> set (results s). \<forall>y \<in> set (results s). result_ref x = result_ref y \<longrightarrow> x = y"
    and "r \<in> result_ref ` set (results s)"
  shows "\<exists>x \<in> set (results s). summary_find s r = Some x \<and> result_ref x = r \<and>
    (\<forall>y \<in> set (results s). result_ref y = r \<longrightarrow> y = x)"
proof -
  obtain x where "x \<in> set (results s)" "result_ref x = r" using assms(2) by blast
  then obtain z where z: "summary_find s r = Some z"
    unfolding summary_find_def by (metis (mono_tags) find_None_iff not_None_eq)
  then have "z \<in> set (results s)" "result_ref z = r"
    by (auto simp: summary_find_def find_Some_iff)
  with z assms(1) show ?thesis by auto
qed

text \<open>
  C31. The success of a request is the success of what was asked for, whatever else the pass ran: a
  request for a single policy succeeds exactly when every result for a requested policy is
  applied (and one was requested), a request for a module or for everything exactly when every
  such result is applied or disabled.
\<close>

theorem request_success_exact:
  assumes "registry_wf reg" "execute env reg req w = Some (Inr (s, w'))"
  shows "isPolicyApplySuccessful s mn pn \<longleftrightarrow>
    (if mn \<noteq> ''all'' \<and> pn \<noteq> ''all''
     then req_roots req \<noteq> [] \<and>
       (\<forall>x \<in> set (results s). result_ref x \<in> set (req_roots req) \<longrightarrow> status x = Applied)
     else (\<forall>x \<in> set (results s). result_ref x \<in> set (req_roots req) \<longrightarrow>
             status x = Applied \<or> status x = Disabled))"
proof -
  from execute_post(2) [OF assms] have uniq: "\<forall>x \<in> set (results s). \<forall>y \<in> set (results s).
      result_ref x = result_ref y \<longrightarrow> x = y"
    and roots: "set (requestedRoots s) = set (req_roots req)"
      "set (req_roots req) \<subseteq> result_ref ` set (results s)" by blast+
  have all: "(\<forall>r \<in> set (req_roots req). case summary_find s r of None \<Rightarrow> False | Some x \<Rightarrow> Q x) \<longleftrightarrow>
      (\<forall>x \<in> set (results s). result_ref x \<in> set (req_roots req) \<longrightarrow> Q x)" (is "?l \<longleftrightarrow> ?r") for Q
  proof
    assume l: ?l
    show ?r
    proof (intro ballI impI)
      fix x assume x: "x \<in> set (results s)" "result_ref x \<in> set (req_roots req)"
      then have "summary_find s (result_ref x) = Some x"
        using summary_find_unique [OF uniq, of "result_ref x"] by fastforce
      with l x(2) show "Q x" by fastforce
    qed
  next
    assume r: ?r
    show ?l
    proof
      fix r assume "r \<in> set (req_roots req)"
      then show "case summary_find s r of None \<Rightarrow> False | Some x \<Rightarrow> Q x"
        using summary_find_unique [OF uniq, of r] roots(2) r by fastforce
    qed
  qed
  have "requestedRoots s \<noteq> [] \<longleftrightarrow> req_roots req \<noteq> []" using roots(1) by (metis set_empty)
  moreover have "\<not> isFailure x \<longleftrightarrow> status x = Applied \<or> status x = Disabled" for x
    by (cases "status x") (auto simp: isFailure_def)
  ultimately show ?thesis
    by (simp add: isPolicyApplySuccessful_def requestedRootsApplied_def
        requestedRootsWithoutFailures_def list_all_iff roots(1) all isApplied_def)
qed

lemma request_success_exact_witness:
  "\<exists>s w. execute sample_env (sample_registry [sample_ref ''b''] [])
     \<lparr>req_roots = [sample_ref ''a''], req_excluded = {}\<rparr> [] = Some (Inr (s, w)) \<and>
   isPolicyApplySuccessful s ''DAC'' ''a''"
proof -
  let ?x = "execute sample_env (sample_registry [sample_ref ''b''] [])
     \<lparr>req_roots = [sample_ref ''a''], req_excluded = {}\<rparr> []"
  have "(case ?x of Some (Inr (s, w)) \<Rightarrow> list_all (\<lambda>x. status x = Applied) (results s) | _ \<Rightarrow> False)"
    by code_simp
  then obtain s w where s: "?x = Some (Inr (s, w))" "list_all (\<lambda>x. status x = Applied) (results s)"
    by (auto split: option.splits sum.splits)
  have "isPolicyApplySuccessful s ''DAC'' ''a''"
    unfolding request_success_exact [OF sample_registry_wf s(1)] using s(2) by (simp add: list_all_iff)
  with s(1) show ?thesis by blast
qed

text \<open>
  Without an own executor, a policy is reported as blocked only for a reason that the report
  shows: it is registered and enabled, its own \<open>apply\<close> was not called, and a required dependency
  whose condition holds lies in an excluded module or has an earlier result that is not applied.
\<close>

theorem blocked_has_reason:
  assumes "registry_wf reg" "env_executor env = None"
    and "execute env reg req w = Some (Inr (s, w'))" "i < length (results s)"
    and "failureOrigin (results s ! i) = RequiredDependencyBlocked"
  shows "\<not> ownApplyAttempted (results s ! i) \<and> status (results s ! i) = Failed \<and>
    (\<exists>p d. findPolicy reg (result_ref (results s ! i)) = Some p \<and> isEnabled p \<and>
       d \<in> set (dependencies p) \<and> strength d = Required \<and>
       dependencyConditionMatches (env_parse env) p (condition d) = Inr True \<and>
       (ref_moduleName (dep_policy d) \<in> req_excluded req \<or>
        (\<exists>y \<in> set (take i (results s)). result_ref y = dep_policy d \<and> status y \<noteq> Applied)))"
proof -
  have "justified env (req_excluded req) reg (take i (results s)) (results s ! i)"
    using execute_post(2) [OF assms(1,3)] justified_list_nth [OF _ assms(4)] by fastforce
  with assms(2,5) show ?thesis
    by (auto simp: justified_def requires_now_def split: option.splits if_splits)
qed

lemma blocked_has_reason_witness:
  "\<exists>s w. execute sample_env (sample_registry [sample_ref ''b''] [])
     \<lparr>req_roots = [sample_ref ''a''], req_excluded = {''DAC''}\<rparr> [] = Some (Inr (s, w)) \<and>
   \<not> ownApplyAttempted (results s ! 0)"
proof -
  let ?x = "execute sample_env (sample_registry [sample_ref ''b''] [])
     \<lparr>req_roots = [sample_ref ''a''], req_excluded = {''DAC''}\<rparr> []"
  have "(case ?x of Some (Inr (s, w)) \<Rightarrow> map failureOrigin (results s) = [RequiredDependencyBlocked]
    | _ \<Rightarrow> False)"
    by code_simp
  then obtain s w where s: "?x = Some (Inr (s, w))"
    "map failureOrigin (results s) = [RequiredDependencyBlocked]"
    by (auto split: option.splits sum.splits)
  then have l: "0 < length (results s)" "failureOrigin (results s ! 0) = RequiredDependencyBlocked"
    by (auto simp: map_eq_Cons_conv)
  have "env_executor sample_env = None" by (simp add: sample_env_def)
  from blocked_has_reason [OF sample_registry_wf this s(1) l] s(1) show ?thesis by blast
qed

end
