(* ===== verification/FileSystem.thy ===== *)
theory FileSystem
  imports Prelude
begin

text \<open>
  The operating system interface below the file components. A file system holds inodes, directory
  entries and, for every directory entry, the set of values the entry may have after a power loss.
  Every system call takes the next event of a schedule: what other processes did to the file
  system before the call, and how the call ends (normally, with an error, with a short count, or
  with the death of the process, after which no call has an effect). Quantifying over schedules
  covers every error path and every crash point of a caller.

  The kernel is not code of the repository: the definitions are the documented behaviour of the
  calls the sources make (\<open>open\<close>, \<open>lstat\<close>, \<open>read\<close>, \<open>write\<close>, \<open>rename\<close>, \<open>fsync\<close> and so on). Inode
  numbers are not reused, the permission bits are kept apart from the file type, and the lookup of
  the directory part of a path is a function of the state.
\<close>

section \<open>Error numbers\<close>

datatype errno = ENOENT | EINTR | EIO | EEXIST | ENOSYS | EINVAL | ELOOP | ENOTDIR | EISDIR
  | EACCES | ENOSPC | EROFS

fun strerror :: "errno \<Rightarrow> string" where
  "strerror ENOENT = ''No such file or directory''"
| "strerror EINTR = ''Interrupted system call''"
| "strerror EIO = ''Input/output error''"
| "strerror EEXIST = ''File exists''"
| "strerror ENOSYS = ''Function not implemented''"
| "strerror EINVAL = ''Invalid argument''"
| "strerror ELOOP = ''Too many levels of symbolic links''"
| "strerror ENOTDIR = ''Not a directory''"
| "strerror EISDIR = ''Is a directory''"
| "strerror EACCES = ''Permission denied''"
| "strerror ENOSPC = ''No space left on device''"
| "strerror EROFS = ''Read-only file system''"

section \<open>Paths\<close>

text \<open>\<open>std::filesystem::path\<close>: the file name, the parent path, concatenation and \<open>absolute\<close>.\<close>

definition is_slash :: "char \<Rightarrow> bool" where
  "is_slash c \<longleftrightarrow> c = CHR ''/''"

definition filename :: "string \<Rightarrow> string" where
  "filename p = rev (takeWhile (\<lambda>c. \<not> is_slash c) (rev p))"

definition parent_path :: "string \<Rightarrow> string" where
  "parent_path p =
     (case dropWhile (\<lambda>c. \<not> is_slash c) (rev p) of
        [] \<Rightarrow> ''''
      | rest \<Rightarrow> (let q = rev (dropWhile is_slash rest) in if q = '''' then ''/'' else q))"

definition is_absolute :: "string \<Rightarrow> bool" where
  "is_absolute p \<longleftrightarrow> p \<noteq> '''' \<and> is_slash (hd p)"

definition path_join :: "string \<Rightarrow> string \<Rightarrow> string" where
  "path_join a b =
     (if is_absolute b \<or> a = '''' then b
      else if is_slash (last a) then a @ b
      else a @ ''/'' @ b)"

definition absolute_path :: "string \<Rightarrow> string \<Rightarrow> errno + string" where
  "absolute_path cwd p =
     (if p = '''' then Inl EINVAL else if is_absolute p then Inr p else Inr (path_join cwd p))"

lemma filename_no_slash: "\<not> is_slash c \<or> c \<notin> set (filename p)"
  unfolding filename_def using set_takeWhileD by fastforce

lemma parent_path_form: "parent_path p = '''' \<or> parent_path p = ''/'' \<or> \<not> is_slash (last (parent_path p))"
proof (cases "dropWhile (\<lambda>c. \<not> is_slash c) (rev p)")
  case (Cons a list)
  let ?q = "dropWhile is_slash (a # list)"
  show ?thesis
  proof (cases "?q = []")
    case False
    then have "\<not> is_slash (hd ?q)" by (rule hd_dropWhile)
    then have "\<not> is_slash (last (rev ?q))" using False by (simp add: last_rev)
    then show ?thesis using Cons by (simp add: parent_path_def Let_def)
  qed (simp add: parent_path_def Cons Let_def)
next
  case Nil
  then show ?thesis unfolding parent_path_def by (simp only: list.case simp_thms)
qed

lemma filename_join:
  assumes "\<forall>c \<in> set n. \<not> is_slash c"
  shows "filename (path_join a n) = n"
proof -
  have abs: "\<not> is_absolute n"
    using assms by (cases n) (auto simp: is_absolute_def)
  have stop: "takeWhile (\<lambda>c. \<not> is_slash c) (rev n @ CHR ''/'' # y) = rev n" for y
    using assms by (subst takeWhile_append2) (auto simp: is_slash_def)
  have whole: "takeWhile (\<lambda>c. \<not> is_slash c) (rev n) = rev n"
    using assms by (subst takeWhile_eq_all_conv) auto
  show ?thesis
  proof (cases "a = '''' \<or> \<not> is_slash (last a)")
    case True
    then show ?thesis
      by (cases "a = ''''") (simp_all add: path_join_def filename_def abs stop whole)
  next
    case False
    then obtain b where "a = b @ ''/''"
      by (metis append_butlast_last_id is_slash_def)
    then show ?thesis using abs stop by (simp add: path_join_def filename_def is_slash_def)
  qed
qed

lemma parent_path_join:
  assumes n: "\<forall>c \<in> set n. \<not> is_slash c" and a: "a = ''/'' \<or> a \<noteq> '''' \<and> \<not> is_slash (last a)"
  shows "parent_path (path_join a n) = a"
proof -
  have abs: "\<not> is_absolute n"
    using n by (cases n) (auto simp: is_absolute_def)
  have stop: "dropWhile (\<lambda>c. \<not> is_slash c) (rev n @ CHR ''/'' # y) = CHR ''/'' # y" for y
    using n by (subst dropWhile_append2) (auto simp: is_slash_def)
  show ?thesis
  proof (cases "a = ''/''")
    case True
    then show ?thesis using abs stop[of "[]"] by (simp add: path_join_def parent_path_def is_slash_def)
  next
    case False
    then have "a \<noteq> ''''" "\<not> is_slash (last a)" using a by auto
    moreover from this have "dropWhile is_slash (CHR ''/'' # rev a) = rev a"
      by (simp add: dropWhile_eq_self_iff hd_rev) (simp add: is_slash_def)
    ultimately show ?thesis
      using last_in_set[of a]
      by (auto simp add: path_join_def parent_path_def Let_def abs stop simp del: dropWhile.simps)
  qed
qed

section \<open>The file system\<close>

datatype file_kind = Reg | Dir | Symlink string | Special

record inode =
  i_kind :: file_kind
  i_dev :: nat
  i_mode :: int
  i_uid :: int
  i_gid :: int
  i_nlink :: nat
  i_data :: string
  i_mtime :: nat
  i_ctime :: nat
  i_synced :: bool

text \<open>
  Where the directory part of a path leads: to a directory, through a symbolic link to the
  directory with the given canonical path, or nowhere.
\<close>

datatype dir_lookup = DirNode nat | DirLink string | DirError errno

text \<open>
  An entry is a directory inode and a name. \<open>durables\<close> is the set of values an entry may have
  after a power loss: a change of the entry adds a value, and an \<open>fsync\<close> of the directory leaves
  only the current one. \<open>i_synced\<close> says that the data and metadata of an inode are on the disk.
\<close>

type_synonym dirent = "nat \<times> string"

record fsys =
  dirents :: "dirent \<Rightarrow> nat option"
  durables :: "dirent \<Rightarrow> nat option set"
  inodes :: "nat \<Rightarrow> inode"
  dirs :: "string \<Rightarrow> dir_lookup"
  next_ino :: nat
  clock :: nat

definition dir_node :: "fsys \<Rightarrow> string \<Rightarrow> errno + nat" where
  "dir_node f q =
     (case dirs f q of
        DirNode d \<Rightarrow> Inr d
      | DirLink c \<Rightarrow> (case dirs f c of DirNode d \<Rightarrow> Inr d | DirLink _ \<Rightarrow> Inl ELOOP | DirError e \<Rightarrow> Inl e)
      | DirError e \<Rightarrow> Inl e)"

definition locate :: "fsys \<Rightarrow> string \<Rightarrow> errno + dirent" where
  "locate f p =
     (if p = '''' then Inl ENOENT
      else and_then (dir_node f (parent_path p)) (\<lambda>d. Inr (d, filename p)))"

definition lookup :: "fsys \<Rightarrow> string \<Rightarrow> errno + nat" where
  "lookup f p =
     and_then (locate f p) (\<lambda>e. case dirents f e of None \<Rightarrow> Inl ENOENT | Some i \<Rightarrow> Inr i)"

text \<open>Following symbolic links in the last component, at most 40 of them as the kernel does.\<close>

fun follow :: "nat \<Rightarrow> fsys \<Rightarrow> string \<Rightarrow> errno + (string \<times> nat)" where
  "follow 0 f p = Inl ELOOP"
| "follow (Suc k) f p =
     and_then (lookup f p) (\<lambda>i.
       case i_kind (inodes f i) of
         Symlink t \<Rightarrow> follow k f (path_join (parent_path p) t)
       | _ \<Rightarrow> Inr (p, i))"

definition link_limit :: nat where
  "link_limit = 40"

text \<open>\<open>std::filesystem::canonical\<close>.\<close>

definition canonical_path :: "string \<Rightarrow> fsys \<Rightarrow> string \<Rightarrow> errno + string" where
  "canonical_path cwd f p =
     and_then (absolute_path cwd p) (\<lambda>a.
     and_then (follow link_limit f a) (\<lambda>(q, i).
       Inr (path_join (case dirs f (parent_path q) of DirLink c \<Rightarrow> c | _ \<Rightarrow> parent_path q)
              (filename q))))"

record stat =
  st_dev :: nat
  st_ino :: nat
  st_kind :: file_kind
  st_mode :: int
  st_uid :: int
  st_gid :: int
  st_nlink :: nat
  st_size :: nat
  st_mtim :: nat
  st_ctim :: nat

definition stat_of :: "fsys \<Rightarrow> nat \<Rightarrow> stat" where
  "stat_of f i =
     (let n = inodes f i in
      \<lparr> st_dev = i_dev n, st_ino = i, st_kind = i_kind n, st_mode = i_mode n, st_uid = i_uid n,
        st_gid = i_gid n, st_nlink = i_nlink n, st_size = length (i_data n), st_mtim = i_mtime n,
        st_ctim = i_ctime n \<rparr>)"

lemma stat_of_simps [simp]:
  "st_dev (stat_of f i) = i_dev (inodes f i)" "st_ino (stat_of f i) = i"
  "st_kind (stat_of f i) = i_kind (inodes f i)" "st_mode (stat_of f i) = i_mode (inodes f i)"
  "st_uid (stat_of f i) = i_uid (inodes f i)" "st_gid (stat_of f i) = i_gid (inodes f i)"
  "st_nlink (stat_of f i) = i_nlink (inodes f i)" "st_size (stat_of f i) = length (i_data (inodes f i))"
  "st_mtim (stat_of f i) = i_mtime (inodes f i)" "st_ctim (stat_of f i) = i_ctime (inodes f i)"
  by (simp_all add: stat_of_def Let_def)

section \<open>Effects of the system calls\<close>

text \<open>An operation gets the limit of a short transfer, if there is one.\<close>

type_synonym 'a fs_op = "nat option \<Rightarrow> fsys \<Rightarrow> (errno + 'a) \<times> fsys"

definition read_only :: "(fsys \<Rightarrow> errno + 'a) \<Rightarrow> 'a fs_op" where
  "read_only g = (\<lambda>lim f. (g f, f))"

definition set_inode :: "nat \<Rightarrow> inode \<Rightarrow> fsys \<Rightarrow> fsys" where
  "set_inode i n f = f\<lparr>inodes := (inodes f)(i := n)\<rparr>"

definition set_dirent :: "dirent \<Rightarrow> nat option \<Rightarrow> fsys \<Rightarrow> fsys" where
  "set_dirent e v f =
     f\<lparr>dirents := (dirents f)(e := v), durables := (durables f)(e := insert v (durables f e))\<rparr>"

definition add_links :: "nat \<Rightarrow> fsys \<Rightarrow> fsys" where
  "add_links i f = set_inode i
     ((inodes f i)\<lparr>i_nlink := Suc (i_nlink (inodes f i)), i_ctime := clock f\<rparr>) f"

definition drop_link :: "nat option \<Rightarrow> fsys \<Rightarrow> fsys" where
  "drop_link v f = (case v of None \<Rightarrow> f | Some i \<Rightarrow> set_inode i
     ((inodes f i)\<lparr>i_nlink := i_nlink (inodes f i) - 1, i_ctime := clock f\<rparr>) f)"

definition op_open_nofollow :: "(fsys \<Rightarrow> errno + nat) \<Rightarrow> nat fs_op" where
  "op_open_nofollow look = read_only (\<lambda>f.
     and_then (look f) (\<lambda>i. case i_kind (inodes f i) of Symlink _ \<Rightarrow> Inl ELOOP | _ \<Rightarrow> Inr i))"

definition op_open_dir :: "bool \<Rightarrow> string \<Rightarrow> nat fs_op" where
  "op_open_dir nofollow q = read_only (\<lambda>f.
     (case dirs f q of DirLink _ \<Rightarrow> if nofollow then Inl ENOTDIR else dir_node f q
      | _ \<Rightarrow> dir_node f q))"

definition lookup_at :: "nat \<Rightarrow> string \<Rightarrow> fsys \<Rightarrow> errno + nat" where
  "lookup_at d n f = (case dirents f (d, n) of None \<Rightarrow> Inl ENOENT | Some i \<Rightarrow> Inr i)"

definition op_read :: "nat \<Rightarrow> nat \<Rightarrow> nat \<Rightarrow> string fs_op" where
  "op_read i off len lim f =
     (Inr (take (case lim of None \<Rightarrow> len | Some n \<Rightarrow> min len (max 1 n)) (drop off (i_data (inodes f i)))), f)"

definition write_at :: "nat \<Rightarrow> string \<Rightarrow> string \<Rightarrow> string" where
  "write_at off chunk old =
     take off old @ replicate (off - length old) (CHR 0x00) @ chunk @ drop (off + length chunk) old"

definition op_write :: "nat \<Rightarrow> nat \<Rightarrow> string \<Rightarrow> nat fs_op" where
  "op_write i off s lim f =
     (let chunk = take (case lim of None \<Rightarrow> length s | Some n \<Rightarrow> n) s; n = inodes f i in
      (Inr (length chunk),
       set_inode i (n\<lparr>i_data := write_at off chunk (i_data n), i_mtime := clock f,
                     i_ctime := clock f, i_synced := False\<rparr>) f))"

definition op_fsync :: "nat \<Rightarrow> unit fs_op" where
  "op_fsync i lim f =
     (let n = inodes f i; f' = set_inode i (n\<lparr>i_synced := True\<rparr>) f in
      (Inr (),
       if i_kind n = Dir
       then f'\<lparr>durables := (\<lambda>e. if fst e = i then {dirents f e} else durables f e)\<rparr>
       else f'))"

definition op_fchown :: "nat \<Rightarrow> int \<Rightarrow> int \<Rightarrow> unit fs_op" where
  "op_fchown i u g lim f =
     (Inr (), set_inode i ((inodes f i)\<lparr>i_uid := u, i_gid := g, i_ctime := clock f, i_synced := False\<rparr>) f)"

definition op_fchmod :: "nat \<Rightarrow> int \<Rightarrow> unit fs_op" where
  "op_fchmod i m lim f =
     (Inr (), set_inode i ((inodes f i)\<lparr>i_mode := m, i_ctime := clock f, i_synced := False\<rparr>) f)"

text \<open>\<open>mkstemp\<close> replaces the last six characters of its template.\<close>

definition temp_suffix :: "nat \<Rightarrow> string" where
  "temp_suffix n = map (\<lambda>k. char_of (48 + n div 10 ^ k mod 10)) [5, 4, 3, 2, 1, 0]"

definition temp_name :: "string \<Rightarrow> nat \<Rightarrow> string" where
  "temp_name tmpl n = take (length tmpl - 6) tmpl @ temp_suffix n"

definition op_mkstemp :: "int \<Rightarrow> int \<Rightarrow> string \<Rightarrow> (nat \<times> string) fs_op" where
  "op_mkstemp uid gid tmpl lim f =
     (let p = temp_name tmpl (next_ino f) in
      case locate f p of
        Inl e \<Rightarrow> (Inl e, f)
      | Inr e \<Rightarrow>
         if dirents f e \<noteq> None then (Inl EEXIST, f)
         else let i = next_ino f in
           (Inr (i, p),
            set_dirent e (Some i)
              (set_inode i \<lparr> i_kind = Reg, i_dev = i_dev (inodes f (fst e)), i_mode = 384, i_uid = uid,
                  i_gid = gid, i_nlink = 1, i_data = '''', i_mtime = clock f, i_ctime = clock f,
                  i_synced = False \<rparr> (f\<lparr>next_ino := Suc i\<rparr>))))"

definition is_dir_at :: "fsys \<Rightarrow> dirent \<Rightarrow> bool" where
  "is_dir_at f e \<longleftrightarrow> (case dirents f e of None \<Rightarrow> False | Some i \<Rightarrow> i_kind (inodes f i) = Dir)"

definition rename_entry :: "dirent \<Rightarrow> dirent \<Rightarrow> nat \<Rightarrow> fsys \<Rightarrow> fsys" where
  "rename_entry a b i f =
     (if dirents f b = Some i then f
      else set_dirent b (Some i) (set_dirent a None (drop_link (dirents f b) f)))"

definition op_rename :: "bool \<Rightarrow> string \<Rightarrow> string \<Rightarrow> unit fs_op" where
  "op_rename noreplace old new lim f =
     (case locate f old of
        Inl e \<Rightarrow> (Inl e, f)
      | Inr a \<Rightarrow>
        (case locate f new of
           Inl e \<Rightarrow> (Inl e, f)
         | Inr b \<Rightarrow>
           (case dirents f a of
              None \<Rightarrow> (Inl ENOENT, f)
            | Some i \<Rightarrow>
                if noreplace \<and> dirents f b \<noteq> None then (Inl EEXIST, f)
                else if is_dir_at f b then (Inl EISDIR, f)
                else (Inr (), rename_entry a b i f))))"

definition op_link :: "string \<Rightarrow> string \<Rightarrow> unit fs_op" where
  "op_link old new lim f =
     (case locate f old of
        Inl e \<Rightarrow> (Inl e, f)
      | Inr a \<Rightarrow>
        (case locate f new of
           Inl e \<Rightarrow> (Inl e, f)
         | Inr b \<Rightarrow>
           (case dirents f a of
              None \<Rightarrow> (Inl ENOENT, f)
            | Some i \<Rightarrow>
                if dirents f b \<noteq> None then (Inl EEXIST, f)
                else (Inr (), set_dirent b (Some i) (add_links i f)))))"

definition op_unlink_at :: "dirent \<Rightarrow> unit fs_op" where
  "op_unlink_at e lim f =
     (case dirents f e of
        None \<Rightarrow> (Inl ENOENT, f)
      | Some i \<Rightarrow>
          if i_kind (inodes f i) = Dir then (Inl EISDIR, f)
          else (Inr (), set_dirent e None (drop_link (Some i) f)))"

definition op_unlink :: "string \<Rightarrow> unit fs_op" where
  "op_unlink p lim f =
     (case locate f p of Inl e \<Rightarrow> (Inl e, f) | Inr e \<Rightarrow> op_unlink_at e lim f)"

section \<open>The process and its schedule\<close>

datatype fault = Normal | Err errno | Short nat | Kill

datatype event = Event (interference: "fsys \<Rightarrow> fsys") (fault_of: fault)

record world =
  fs :: fsys
  sched :: "event list"
  alive :: bool
  last_errno :: errno
  euid :: int
  egid :: int
  cwd :: string

type_synonym 'a io = "(world, 'a) state"

definition perform :: "'a fs_op \<Rightarrow> nat option \<Rightarrow> world \<Rightarrow> (errno + 'a) \<times> world" where
  "perform op lim w =
     (case op lim (fs w) of
        (Inl e, f) \<Rightarrow> (Inl e, w\<lparr>fs := f, last_errno := e\<rparr>)
      | (Inr a, f) \<Rightarrow> (Inr a, w\<lparr>fs := f\<rparr>))"

definition call :: "'a fs_op \<Rightarrow> world \<Rightarrow> (errno + 'a) \<times> world" where
  "call op w =
     (if \<not> alive w then (Inl EIO, w\<lparr>last_errno := EIO\<rparr>)
      else
        (case sched w of
           [] \<Rightarrow> perform op None w
         | ev # evs \<Rightarrow>
            let w' = w\<lparr>fs := interference ev (fs w), sched := evs\<rparr> in
            (case fault_of ev of
               Normal \<Rightarrow> perform op None w'
             | Short n \<Rightarrow> perform op (Some n) w'
             | Err e \<Rightarrow> (Inl e, w'\<lparr>last_errno := e\<rparr>)
             | Kill \<Rightarrow> (Inl EIO, w'\<lparr>last_errno := EIO, alive := False\<rparr>))))"

definition syscall :: "'a fs_op \<Rightarrow> (errno + 'a) io" where
  "syscall op = State (call op)"

definition errnoMessage :: "string io" where
  "errnoMessage = State (\<lambda>w. (strerror (last_errno w), w))"

section \<open>The system calls\<close>

definition sys_lstat :: "string \<Rightarrow> (errno + stat) io" where
  "sys_lstat p = syscall (read_only (\<lambda>f. and_then (lookup f p) (\<lambda>i. Inr (stat_of f i))))"

definition sys_stat :: "string \<Rightarrow> (errno + stat) io" where
  "sys_stat p = syscall (read_only (\<lambda>f.
     and_then (follow link_limit f p) (\<lambda>(q, i). Inr (stat_of f i))))"

definition sys_fstat :: "nat \<Rightarrow> (errno + stat) io" where
  "sys_fstat i = syscall (read_only (\<lambda>f. Inr (stat_of f i)))"

definition sys_fstatat :: "nat \<Rightarrow> string \<Rightarrow> (errno + stat) io" where
  "sys_fstatat d n = syscall (read_only (\<lambda>f. and_then (lookup_at d n f) (\<lambda>i. Inr (stat_of f i))))"

definition sys_open_nofollow :: "string \<Rightarrow> (errno + nat) io" where
  "sys_open_nofollow p = syscall (op_open_nofollow (\<lambda>f. lookup f p))"

definition sys_openat_nofollow :: "nat \<Rightarrow> string \<Rightarrow> (errno + nat) io" where
  "sys_openat_nofollow d n = syscall (op_open_nofollow (lookup_at d n))"

definition sys_open_dir :: "bool \<Rightarrow> string \<Rightarrow> (errno + nat) io" where
  "sys_open_dir nofollow q = syscall (op_open_dir nofollow q)"

definition sys_read :: "nat \<Rightarrow> nat \<Rightarrow> nat \<Rightarrow> (errno + string) io" where
  "sys_read i off len = syscall (op_read i off len)"

definition sys_write :: "nat \<Rightarrow> nat \<Rightarrow> string \<Rightarrow> (errno + nat) io" where
  "sys_write i off s = syscall (op_write i off s)"

definition sys_fsync :: "nat \<Rightarrow> (errno + unit) io" where
  "sys_fsync i = syscall (op_fsync i)"

definition sys_fchown :: "nat \<Rightarrow> int \<Rightarrow> int \<Rightarrow> (errno + unit) io" where
  "sys_fchown i u g = syscall (op_fchown i u g)"

definition sys_fchmod :: "nat \<Rightarrow> int \<Rightarrow> (errno + unit) io" where
  "sys_fchmod i m = syscall (op_fchmod i m)"

definition sys_mkstemp :: "string \<Rightarrow> (errno + nat \<times> string) io" where
  "sys_mkstemp tmpl = State (\<lambda>w. call (op_mkstemp (euid w) (egid w) tmpl) w)"

definition sys_rename :: "bool \<Rightarrow> string \<Rightarrow> string \<Rightarrow> (errno + unit) io" where
  "sys_rename noreplace old new = syscall (op_rename noreplace old new)"

definition sys_link :: "string \<Rightarrow> string \<Rightarrow> (errno + unit) io" where
  "sys_link old new = syscall (op_link old new)"

definition sys_unlink :: "string \<Rightarrow> (errno + unit) io" where
  "sys_unlink p = syscall (op_unlink p)"

definition sys_unlinkat :: "nat \<Rightarrow> string \<Rightarrow> (errno + unit) io" where
  "sys_unlinkat d n = syscall (op_unlink_at (d, n))"

definition sys_close :: "nat \<Rightarrow> (errno + unit) io" where
  "sys_close i = syscall (read_only (\<lambda>f. Inr ()))"

definition fs_canonical :: "string \<Rightarrow> (errno + string) io" where
  "fs_canonical p = State (\<lambda>w. call (read_only (\<lambda>f. canonical_path (cwd w) f p)) w)"

definition fs_absolute :: "string \<Rightarrow> (errno + string) io" where
  "fs_absolute p = State (\<lambda>w. call (read_only (\<lambda>f. absolute_path (cwd w) p)) w)"

section \<open>Schedules\<close>

text \<open>A call of a live process takes one event; a dead process gets an error and changes nothing.\<close>

lemma call_dead: "\<not> alive w \<Longrightarrow> call op w = (Inl EIO, w\<lparr>last_errno := EIO\<rparr>)"
  by (simp add: call_def)

lemma perform_frame:
  assumes "perform op lim w = (r, w')"
  shows "sched w' = sched w" "alive w' = alive w" "cwd w' = cwd w" "euid w' = euid w" "egid w' = egid w"
  using assms by (auto simp: perform_def split: prod.splits sum.splits)

lemma call_frame:
  assumes "call op w = (r, w')"
  shows "cwd w' = cwd w" "euid w' = euid w" "egid w' = egid w"
  using assms by (auto simp: call_def Let_def perform_def split: if_splits list.splits fault.splits
      prod.splits sum.splits)

lemma call_sched:
  assumes "call op w = (r, w')"
  shows "sched w' = (if alive w then tl (sched w) else sched w)"
  using assms by (auto simp: call_def Let_def perform_def split: if_splits list.splits fault.splits
      prod.splits sum.splits)

lemma call_no_events:
  assumes "call op w = (r, w')" "sched w = []" "alive w"
  shows "perform op None w = (r, w')"
  using assms by (simp add: call_def)

lemma call_sched_less:
  assumes "call op w = (r, w')" "sched w \<noteq> []" "alive w"
  shows "length (sched w') < length (sched w)"
  using assms call_sched[OF assms(1)] by (cases "sched w") auto

end
