(* ===== verification/AtomicFile.thy ===== *)
theory AtomicFile
  imports FileSystem
begin

text \<open>
  The atomic file writer (\<open>fic-core/fs/AtomicFileWriter\<close>): replacement of a file through a
  synced temporary file and \<open>rename\<close>, the optimistic precondition on the replaced file, the
  durability barrier, the capture of a file's state and the conditional removal. The long functions
  are written as the stages they consist of; a refusal of a stage carries the error message and
  whether the precondition failed. The hooks for tests are not modelled: production code never
  sets them.
\<close>

section \<open>Data\<close>

datatype FileMetadataPolicy = PreserveExisting | EnforceProvided

record AtomicTargetIdentity =
  device :: nat
  inode_no :: nat

record AtomicTargetState =
  ts_identity :: AtomicTargetIdentity
  ts_content :: string
  ts_mode :: int
  ts_owner :: int
  ts_group :: int

definition emptyTargetState :: AtomicTargetState where
  "emptyTargetState =
     \<lparr> ts_identity = \<lparr> device = 0, inode_no = 0 \<rparr>, ts_content = '''', ts_mode = 0, ts_owner = 0,
       ts_group = 0 \<rparr>"

record AtomicRemoveResult =
  rm_removed :: bool
  rm_durabilityConfirmed :: bool
  rm_preconditionFailed :: bool

definition emptyRemoveResult :: AtomicRemoveResult where
  "emptyRemoveResult =
     \<lparr> rm_removed = False, rm_durabilityConfirmed = False, rm_preconditionFailed = False \<rparr>"

text \<open>What the admission callback did: it returned a verdict and a text, or it threw.\<close>

datatype publish_verdict = Admits | Refuses string | Throws exn

record AtomicWriteOptions =
  createIfMissing :: bool
  rejectSymlink :: bool
  exclusiveCreate :: bool
  metadataPolicy :: FileMetadataPolicy
  fileMode :: "int option"
  fileOwner :: "int option"
  fileGroup :: "int option"
  expectedTargetIdentity :: "AtomicTargetIdentity option"
  expectedTargetState :: "AtomicTargetState option"
  beforePublish :: "(AtomicTargetState \<Rightarrow> publish_verdict io) option"

definition defaultWriteOptions :: AtomicWriteOptions where
  "defaultWriteOptions =
     \<lparr> createIfMissing = False, rejectSymlink = False, exclusiveCreate = False,
       metadataPolicy = PreserveExisting, fileMode = None, fileOwner = None, fileGroup = None,
       expectedTargetIdentity = None, expectedTargetState = None, beforePublish = None \<rparr>"

record AtomicWriteResult =
  installed :: bool
  durabilityConfirmed :: bool
  preconditionFailed :: bool
  installedTargetState :: "AtomicTargetState option"

definition emptyWriteResult :: AtomicWriteResult where
  "emptyWriteResult =
     \<lparr> installed = False, durabilityConfirmed = False, preconditionFailed = False,
       installedTargetState = None \<rparr>"

fun is_symlink :: "file_kind \<Rightarrow> bool" where
  "is_symlink (Symlink t) = True"
| "is_symlink _ = False"

section \<open>Descriptor helpers\<close>

definition buffer_size :: nat where
  "buffer_size = 8192"

lemma call_write_eintr:
  assumes "call (op_write fd off s) w = (Inl EINTR, w')"
  shows "length (sched w') < length (sched w)"
proof -
  have "alive w" using assms by (auto simp: call_def split: if_splits)
  moreover have "sched w \<noteq> []"
    using assms \<open>alive w\<close> by (auto simp: call_def perform_def op_write_def Let_def)
  ultimately show ?thesis using call_sched_less assms by blast
qed

function writeAll :: "nat \<Rightarrow> nat \<Rightarrow> string \<Rightarrow> world \<Rightarrow> bool \<times> world" where
  "writeAll fd off s w =
     (if s = [] then (True, w)
      else
        (case call (op_write fd off s) w of
           (Inl e, w') \<Rightarrow> if e = EINTR then writeAll fd off s w' else (False, w')
         | (Inr n, w') \<Rightarrow>
             if n = 0 then (False, w'\<lparr>last_errno := EIO\<rparr>)
             else writeAll fd (off + n) (drop n s) w'))"
  by pat_completeness auto

termination
proof (relation "measure (\<lambda>(fd, off, s, w). length (sched w) + length s)", goal_cases)
  case (2 fd off s w x w' e)
  then show ?case using call_write_eintr[of fd off s w w'] by (auto dest: sym)
next
  case (3 fd off s w x w' n)
  then have "length (sched w') \<le> length (sched w)"
    using call_sched[of "op_write fd off s" w "Inr n" w'] by (auto dest: sym)
  with 3 show ?case by (cases s) auto
qed simp

declare writeAll.simps [simp del]

definition closeFd :: "nat option \<Rightarrow> bool io" where
  "closeFd fd =
     (case fd of
        None \<Rightarrow> State_Monad.return True
      | Some i \<Rightarrow> do { r \<leftarrow> sys_close i; State_Monad.return (\<not> isl r) })"

definition installTempFile :: "string \<Rightarrow> string \<Rightarrow> bool \<Rightarrow> (errno + unit) io" where
  "installTempFile tempPath targetPath exclusive =
     (if \<not> exclusive then sys_rename False tempPath targetPath
      else do {
        r \<leftarrow> sys_rename True tempPath targetPath;
        (case r of
           Inr _ \<Rightarrow> State_Monad.return (Inr ())
         | Inl e \<Rightarrow>
             if e \<noteq> ENOSYS \<and> e \<noteq> EINVAL then State_Monad.return (Inl e)
             else do {
               l \<leftarrow> sys_link tempPath targetPath;
               (case l of
                  Inl e' \<Rightarrow> State_Monad.return (Inl e')
                | Inr _ \<Rightarrow> sys_unlink tempPath)
             })
      })"

section \<open>The precondition on the replaced file\<close>

definition matchesExpectedIdentity :: "string \<Rightarrow> AtomicWriteOptions \<Rightarrow> bool io" where
  "matchesExpectedIdentity path options =
     (case expectedTargetIdentity options of
        None \<Rightarrow> State_Monad.return True
      | Some x \<Rightarrow> do {
          r \<leftarrow> sys_lstat path;
          State_Monad.return
            (case r of
               Inl _ \<Rightarrow> False
             | Inr current \<Rightarrow>
                 st_kind current = Reg \<and> st_dev current = device x \<and> st_ino current = inode_no x)
        })"

text \<open>The metadata comparison of the captured state with an opened file.\<close>

definition stat_matches :: "AtomicTargetState \<Rightarrow> stat \<Rightarrow> bool" where
  "stat_matches x current \<longleftrightarrow>
     st_kind current = Reg \<and> st_dev current = device (ts_identity x) \<and>
     st_ino current = inode_no (ts_identity x) \<and> st_mode current = ts_mode x \<and>
     st_uid current = ts_owner x \<and> st_gid current = ts_group x"

lemma call_read_eintr:
  assumes "call (op_read fd off n) w = (Inl EINTR, w')"
  shows "length (sched w') < length (sched w)"
proof -
  have "alive w" using assms by (auto simp: call_def split: if_splits)
  moreover have "sched w \<noteq> []"
    using assms \<open>alive w\<close> by (auto simp: call_def perform_def op_read_def)
  ultimately show ?thesis using call_sched_less assms by blast
qed

text \<open>The comparing read loop: \<open>Inl\<close> is an early mismatch or a failed read.\<close>

function compare_content :: "nat \<Rightarrow> string \<Rightarrow> nat \<Rightarrow> world \<Rightarrow> (unit + bool) \<times> world" where
  "compare_content fd expected off w =
     (case call (op_read fd off buffer_size) w of
        (Inl e, w') \<Rightarrow> if e = EINTR then compare_content fd expected off w' else (Inl (), w')
      | (Inr chunk, w') \<Rightarrow>
          if chunk = [] then (Inr (off = length expected), w')
          else if off + length chunk > length expected \<or>
                  take (length chunk) (drop off expected) \<noteq> chunk
          then (Inl (), w')
          else compare_content fd expected (off + length chunk) w')"
  by pat_completeness auto

termination
proof (relation "measure (\<lambda>(fd, x, off, w). length (sched w) + (length x - off))", goal_cases)
  case (2 fd expected off w x w' e)
  then show ?case using call_read_eintr[of fd off buffer_size w w'] by (auto dest: sym)
next
  case (3 fd expected off w x w' chunk)
  then have "length (sched w') \<le> length (sched w)"
    using call_sched[of "op_read fd off buffer_size" w "Inr chunk" w'] by (auto dest: sym)
  moreover have "length expected - (off + length chunk) < length expected - off"
    using 3 by (cases chunk) auto
  ultimately show ?case by simp
qed simp

declare compare_content.simps [simp del]

definition matchesExpectedState :: "string \<Rightarrow> AtomicWriteOptions \<Rightarrow> bool io" where
  "matchesExpectedState path options =
     (case expectedTargetState options of
        None \<Rightarrow> State_Monad.return True
      | Some expected \<Rightarrow> do {
          r \<leftarrow> sys_open_nofollow path;
          (case r of
             Inl _ \<Rightarrow> State_Monad.return False
           | Inr descriptor \<Rightarrow> do {
               s \<leftarrow> sys_fstat descriptor;
               (if isl s \<or> \<not> stat_matches expected (projr s) then do {
                  closeFd (Some descriptor);
                  State_Monad.return False
                } else do {
                  c \<leftarrow> State (compare_content descriptor (ts_content expected) 0);
                  closed \<leftarrow> closeFd (Some descriptor);
                  State_Monad.return
                    (case c of Inl _ \<Rightarrow> False | Inr matches \<Rightarrow> closed \<and> matches)
                })
             })
        })"

definition matchesExpectedTarget :: "string \<Rightarrow> AtomicWriteOptions \<Rightarrow> bool io" where
  "matchesExpectedTarget path options = do {
     i \<leftarrow> matchesExpectedIdentity path options;
     (if i then matchesExpectedState path options else State_Monad.return False)
   }"

definition cleanup :: "nat option \<Rightarrow> string \<Rightarrow> unit io" where
  "cleanup fd path = do {
     closeFd fd;
     sys_unlink path;
     State_Monad.return ()
   }"

section \<open>The durability barrier\<close>

definition fsyncParentDirectory :: "string \<Rightarrow> (bool \<times> string) io" where
  "fsyncParentDirectory targetDir = do {
     r \<leftarrow> sys_open_dir False targetDir;
     (case r of
        Inl e \<Rightarrow> State_Monad.return
          (False, ''could not open directory '' @ targetDir @ '': '' @ strerror e)
      | Inr dirFd \<Rightarrow> do {
          s \<leftarrow> sys_fsync dirFd;
          (case s of
             Inl e \<Rightarrow> do {
               closeFd (Some dirFd);
               State_Monad.return
                 (False, ''could not fsync directory '' @ targetDir @ '': '' @ strerror e)
             }
           | Inr _ \<Rightarrow> do {
               closed \<leftarrow> closeFd (Some dirFd);
               msg \<leftarrow> errnoMessage;
               State_Monad.return
                 (True, if closed then ''''
                        else ''could not close directory '' @ targetDir @ '': '' @ msg)
             })
        })
   }"

section \<open>Replacing a file\<close>

text \<open>A refusal: the error message and whether the precondition failed.\<close>

type_synonym refusal = "string \<times> bool"

definition refuse :: "string \<Rightarrow> (refusal + 'a) io" where
  "refuse msg = State_Monad.return (Inl (msg, False))"

definition precondition_failure :: "string \<Rightarrow> (refusal + 'a) io" where
  "precondition_failure msg = State_Monad.return (Inl (msg, True))"

text \<open>Continuing after a stage that did not refuse.\<close>

definition proceed :: "('e + 'a) io \<Rightarrow> ('a \<Rightarrow> ('e + 'b) io) \<Rightarrow> ('e + 'b) io" where
  "proceed m f = do {
     r \<leftarrow> m;
     (case r of Inl e \<Rightarrow> State_Monad.return (Inl e) | Inr a \<Rightarrow> f a)
   }"

text \<open>The checks on the requested path. The result says whether an object is there.\<close>

definition check_current :: "string \<Rightarrow> AtomicWriteOptions \<Rightarrow> bool \<Rightarrow> (refusal + bool) io" where
  "check_current path options targetExists = do {
     ok \<leftarrow> matchesExpectedTarget path options;
     (if ok then State_Monad.return (Inr targetExists)
      else precondition_failure (''target state changed before atomic write: '' @ path))
   }"

definition check_request :: "string \<Rightarrow> AtomicWriteOptions \<Rightarrow> (refusal + bool) io" where
  "check_request path options = do {
     r \<leftarrow> sys_lstat path;
     (case r of
        Inl e \<Rightarrow>
          if e \<noteq> ENOENT then refuse (''could not stat file '' @ path @ '': '' @ strerror e)
          else if \<not> createIfMissing options then refuse (''refusing to create missing file: '' @ path)
          else check_current path options False
      | Inr linkStat \<Rightarrow>
          if exclusiveCreate options then refuse (''refusing to replace existing file: '' @ path)
          else if rejectSymlink options \<and> is_symlink (st_kind linkStat)
          then refuse (''refusing to replace symbolic link: '' @ path)
          else check_current path options True)
   }"

text \<open>The path that is replaced, its directory, and the metadata of the object there.\<close>

definition stat_target ::
    "AtomicWriteOptions \<Rightarrow> string \<Rightarrow> string \<Rightarrow> (refusal + stat option) io" where
  "stat_target options path targetPath =
     (if parent_path targetPath = ''''
      then refuse (''could not determine parent directory: '' @ path)
      else do {
        r \<leftarrow> sys_stat targetPath;
        (case r of
           Inl e \<Rightarrow>
             if e \<noteq> ENOENT then refuse (''could not stat target '' @ targetPath @ '': '' @ strerror e)
             else if \<not> createIfMissing options
             then refuse (''target disappeared before write: '' @ targetPath)
             else State_Monad.return (Inr None)
         | Inr targetStat \<Rightarrow>
             if st_kind targetStat \<noteq> Reg
             then refuse (''refusing to replace non-regular file: '' @ targetPath)
             else State_Monad.return (Inr (Some targetStat)))
      })"

definition resolve_target ::
    "string \<Rightarrow> AtomicWriteOptions \<Rightarrow> bool \<Rightarrow> (refusal + string \<times> stat option) io" where
  "resolve_target path options targetExists = do {
     r \<leftarrow> (if targetExists \<and> \<not> rejectSymlink options then fs_canonical path else fs_absolute path);
     (case r of
        Inl e \<Rightarrow> refuse (''could not resolve file path '' @ path @ '': '' @ strerror e)
      | Inr targetPath \<Rightarrow>
          proceed (stat_target options path targetPath)
            (\<lambda>st. State_Monad.return (Inr (targetPath, st))))
   }"

text \<open>The metadata the new file gets.\<close>

definition preserves_existing :: "AtomicWriteOptions \<Rightarrow> stat option \<Rightarrow> bool" where
  "preserves_existing options st \<longleftrightarrow> st \<noteq> None \<and> metadataPolicy options = PreserveExisting"

definition chosen_metadata ::
    "AtomicWriteOptions \<Rightarrow> int option \<Rightarrow> stat option \<Rightarrow> (stat \<Rightarrow> int) \<Rightarrow> int \<Rightarrow> int" where
  "chosen_metadata options provided st field otherwise =
     (case st of
        Some s \<Rightarrow> if preserves_existing options st then field s
                 else (case provided of Some v \<Rightarrow> v | None \<Rightarrow> field s)
      | None \<Rightarrow> (case provided of Some v \<Rightarrow> v | None \<Rightarrow> otherwise))"

definition temp_template :: "string \<Rightarrow> string" where
  "temp_template targetPath =
     path_join (parent_path targetPath) (''.'' @ filename targetPath @ ''.tmp.XXXXXX'')"

text \<open>Refusing after the temporary file exists removes it.\<close>

definition abandon :: "nat option \<Rightarrow> string \<Rightarrow> refusal \<Rightarrow> (refusal + 'a) io" where
  "abandon fd tempPath why = do {
     cleanup fd tempPath;
     State_Monad.return (Inl why)
   }"

definition state_of_stat :: "stat \<Rightarrow> string \<Rightarrow> AtomicTargetState" where
  "state_of_stat st content =
     \<lparr> ts_identity = \<lparr> device = st_dev st, inode_no = st_ino st \<rparr>, ts_content = content,
       ts_mode = st_mode st, ts_owner = st_uid st, ts_group = st_gid st \<rparr>"

text \<open>Owner, group and mode of the temporary file.\<close>

definition set_temp_metadata ::
    "nat \<Rightarrow> string \<Rightarrow> int \<Rightarrow> int \<Rightarrow> int \<Rightarrow> (refusal + unit) io" where
  "set_temp_metadata tempFd tempPath owner grp mode = do {
     r \<leftarrow> sys_fstat tempFd;
     (case r of
        Inl e \<Rightarrow> abandon (Some tempFd) tempPath
          (''could not stat temporary file '' @ tempPath @ '': '' @ strerror e, False)
      | Inr tempStat \<Rightarrow> do {
          chowned \<leftarrow> (if st_uid tempStat \<noteq> owner \<or> st_gid tempStat \<noteq> grp
                     then sys_fchown tempFd owner grp else State_Monad.return (Inr ()));
          (case chowned of
             Inl e \<Rightarrow> abandon (Some tempFd) tempPath
               (''could not set owner on '' @ tempPath @ '': '' @ strerror e, False)
           | Inr _ \<Rightarrow> do {
               m \<leftarrow> sys_fchmod tempFd mode;
               (case m of
                  Inl e \<Rightarrow> abandon (Some tempFd) tempPath
                    (''could not set metadata on '' @ tempPath @ '': '' @ strerror e, False)
                | Inr _ \<Rightarrow> State_Monad.return (Inr ()))
             })
        })
   }"

text \<open>Content, sync and the final metadata of the temporary file.\<close>

definition fill_temp :: "nat \<Rightarrow> string \<Rightarrow> string \<Rightarrow> (refusal + stat) io" where
  "fill_temp tempFd tempPath content = do {
     written \<leftarrow> State (writeAll tempFd 0 content);
     (if \<not> written then do {
        msg \<leftarrow> errnoMessage;
        abandon (Some tempFd) tempPath (''could not write '' @ tempPath @ '': '' @ msg, False)
      } else do {
        s \<leftarrow> sys_fsync tempFd;
        (case s of
           Inl e \<Rightarrow> abandon (Some tempFd) tempPath
             (''could not fsync '' @ tempPath @ '': '' @ strerror e, False)
         | Inr _ \<Rightarrow> do {
             i \<leftarrow> sys_fstat tempFd;
             (case i of
                Inl e \<Rightarrow> abandon (Some tempFd) tempPath
                  (''could not stat prepared temporary file '' @ tempPath @ '': '' @ strerror e, False)
              | Inr installedStat \<Rightarrow> State_Monad.return (Inr installedStat))
           })
      })
   }"

text \<open>The admission callback; an exception counts as a refusal.\<close>

definition admit ::
    "AtomicWriteOptions \<Rightarrow> nat \<Rightarrow> string \<Rightarrow> AtomicTargetState \<Rightarrow> (refusal + unit) io" where
  "admit options tempFd tempPath prepared =
     (case beforePublish options of
        None \<Rightarrow> State_Monad.return (Inr ())
      | Some callback \<Rightarrow> do {
          v \<leftarrow> callback prepared;
          (case v of
             Admits \<Rightarrow> State_Monad.return (Inr ())
           | Refuses why \<Rightarrow> abandon (Some tempFd) tempPath
               (''prepared publication refused: '' @ why, False)
           | Throws x \<Rightarrow> abandon (Some tempFd) tempPath
               (''prepared publication refused: '' @
                (case exn_what x of Some m \<Rightarrow> m
                 | None \<Rightarrow> ''unknown publication admission exception''), False))
        })"

text \<open>The last checks and the replacement itself.\<close>

definition recheck_target ::
    "AtomicWriteOptions \<Rightarrow> string \<Rightarrow> string \<Rightarrow> (refusal + unit) io" where
  "recheck_target options tempPath targetPath = do {
     ok \<leftarrow> matchesExpectedTarget targetPath options;
     (if ok then State_Monad.return (Inr ())
      else abandon None tempPath
        (''target state changed before atomic replacement: '' @ targetPath, True))
   }"

definition publish :: "AtomicWriteOptions \<Rightarrow> nat \<Rightarrow> string \<Rightarrow> string \<Rightarrow> (refusal + unit) io" where
  "publish options tempFd tempPath targetPath = do {
     c \<leftarrow> sys_close tempFd;
     (case c of
        Inl e \<Rightarrow> abandon None tempPath (''could not close '' @ tempPath @ '': '' @ strerror e, False)
      | Inr _ \<Rightarrow>
          proceed (recheck_target options tempPath targetPath) (\<lambda>_.
          proceed (recheck_target options tempPath targetPath) (\<lambda>_. do {
            r \<leftarrow> installTempFile tempPath targetPath (exclusiveCreate options);
            (case r of
               Inl e \<Rightarrow> abandon None tempPath
                 (''could not replace '' @ targetPath @ '': '' @ strerror e,
                  exclusiveCreate options \<and> e = EEXIST)
             | Inr _ \<Rightarrow> State_Monad.return (Inr ()))
          })))
   }"

text \<open>Everything from the temporary file to the replacement, for a resolved target.\<close>

definition replace_resolved ::
    "string \<Rightarrow> AtomicWriteOptions \<Rightarrow> string \<Rightarrow> stat option \<Rightarrow> (refusal + string \<times> AtomicTargetState) io" where
  "replace_resolved content options targetPath targetStat = do {
     t \<leftarrow> sys_mkstemp (temp_template targetPath);
     (case t of
        Inl e \<Rightarrow> refuse (''could not create temporary file for '' @ targetPath @ '': '' @ strerror e)
      | Inr (tempFd, tempPath) \<Rightarrow> do {
          w \<leftarrow> State_Monad.get;
          proceed (set_temp_metadata tempFd tempPath
              (chosen_metadata options (fileOwner options) targetStat st_uid (euid w))
              (chosen_metadata options (fileGroup options) targetStat st_gid (egid w))
              (chosen_metadata options (fileMode options) targetStat st_mode 384)) (\<lambda>_.
          proceed (fill_temp tempFd tempPath content) (\<lambda>installedStat.
          proceed (admit options tempFd tempPath (state_of_stat installedStat content)) (\<lambda>_.
          proceed (publish options tempFd tempPath targetPath) (\<lambda>_.
            State_Monad.return
              (Inr (parent_path targetPath, state_of_stat installedStat content))))))
        })
   }"

text \<open>Everything up to the replacement. The result is the directory and the published state.\<close>

definition replace_file ::
    "string \<Rightarrow> string \<Rightarrow> AtomicWriteOptions \<Rightarrow> (refusal + string \<times> AtomicTargetState) io" where
  "replace_file path content options =
     proceed (check_request path options) (\<lambda>targetExists.
     proceed (resolve_target path options targetExists) (\<lambda>(targetPath, targetStat).
       replace_resolved content options targetPath targetStat))"

definition writeWithResult ::
    "string \<Rightarrow> string \<Rightarrow> AtomicWriteOptions \<Rightarrow> (bool \<times> string \<times> AtomicWriteResult) io" where
  "writeWithResult path content options = do {
     r \<leftarrow> replace_file path content options;
     (case r of
        Inl (msg, pre) \<Rightarrow>
          State_Monad.return (False, msg, emptyWriteResult\<lparr>preconditionFailed := pre\<rparr>)
      | Inr (targetDir, state) \<Rightarrow> do {
          (durable, msg) \<leftarrow> fsyncParentDirectory targetDir;
          State_Monad.return
            (durable, msg,
             emptyWriteResult\<lparr>installed := True, installedTargetState := Some state,
               durabilityConfirmed := durable\<rparr>)
        })
   }"

definition atomic_write :: "string \<Rightarrow> string \<Rightarrow> AtomicWriteOptions \<Rightarrow> (bool \<times> string) io" where
  "atomic_write path content options = do {
     (ok, msg, result) \<leftarrow> writeWithResult path content options;
     State_Monad.return (ok, msg)
   }"

section \<open>Durability of an observed file\<close>

definition ensureTargetDurable :: "string \<Rightarrow> (bool \<times> string) io" where
  "ensureTargetDurable path = do {
     r \<leftarrow> sys_lstat path;
     (if isl r \<or> st_kind (projr r) \<noteq> Reg then do {
        msg \<leftarrow> errnoMessage;
        State_Monad.return (False, ''could not stat regular file '' @ path @ '': '' @ msg)
      } else do {
        c \<leftarrow> fs_canonical path;
        (case c of
           Inl e \<Rightarrow> State_Monad.return
             (False, ''could not resolve file path '' @ path @ '': '' @ strerror e)
         | Inr resolvedPath \<Rightarrow> fsyncParentDirectory (parent_path resolvedPath))
      })
   }"

definition fsyncParentDirectoryForPath :: "string \<Rightarrow> (bool \<times> string) io" where
  "fsyncParentDirectoryForPath path = fsyncParentDirectory (parent_path path)"

definition targetStateMatches :: "string \<Rightarrow> AtomicTargetState \<Rightarrow> (bool \<times> string) io" where
  "targetStateMatches path expected = do {
     ok \<leftarrow> matchesExpectedTarget path (defaultWriteOptions\<lparr>expectedTargetState := Some expected\<rparr>);
     State_Monad.return
       (ok, if ok then ''''
            else ''target state does not match the expected FIC-installed state: '' @ path)
   }"

definition ensureTargetDurableIfCurrentState ::
    "string \<Rightarrow> AtomicTargetState \<Rightarrow> (bool \<times> string) io" where
  "ensureTargetDurableIfCurrentState path expected = do {
     (ok, matchError) \<leftarrow> targetStateMatches path expected;
     (if \<not> ok then State_Monad.return
        (False, ''state changed before durability confirmation: '' @ matchError)
      else ensureTargetDurable path)
   }"

section \<open>Capturing a file\<close>

text \<open>
  The loop ends because every round takes an event of the schedule or, when none is left, gets
  closer to the end of the file.
\<close>

definition read_left :: "nat \<Rightarrow> nat \<Rightarrow> world \<Rightarrow> nat \<times> nat" where
  "read_left fd off w = (length (sched w), length (i_data (inodes (fs w) fd)) - off)"

lemma call_read_progress:
  assumes "call (op_read fd off n) w = (Inr chunk, w')" "chunk \<noteq> []"
  shows "(read_left fd (off + length chunk) w', read_left fd off w) \<in> less_than <*lex*> less_than"
proof -
  have live: "alive w" using assms by (auto simp: call_def split: if_splits)
  show ?thesis
  proof (cases "sched w = []")
    case True
    then have "perform (op_read fd off n) None w = (Inr chunk, w')"
      using assms live by (simp add: call_def)
    then have "w' = w" "chunk = take n (drop off (i_data (inodes (fs w) fd)))"
      by (auto simp: perform_def op_read_def)
    moreover have "off < length (i_data (inodes (fs w) fd))"
      using assms(2) calculation(2) by (rule_tac ccontr) simp
    ultimately show ?thesis using assms(2) by (cases chunk) (auto simp: read_left_def)
  next
    case False
    then show ?thesis
      using call_sched_less[OF assms(1) _ live] by (simp add: read_left_def)
  qed
qed

lemma call_read_eintr_left:
  assumes "call (op_read fd off n) w = (Inl EINTR, w')"
  shows "(read_left fd off w', read_left fd off w) \<in> less_than <*lex*> less_than"
  using call_read_eintr[OF assms] by (simp add: read_left_def)

text \<open>Reading to the end of the file; interrupted reads are repeated.\<close>

function read_all :: "nat \<Rightarrow> string \<Rightarrow> world \<Rightarrow> (errno + string) \<times> world" where
  "read_all fd content w =
     (case call (op_read fd (length content) buffer_size) w of
        (Inl e, w') \<Rightarrow> if e = EINTR then read_all fd content w' else (Inl e, w')
      | (Inr chunk, w') \<Rightarrow>
          if chunk = [] then (Inr content, w') else read_all fd (content @ chunk) w')"
  by pat_completeness auto

termination
proof (relation "inv_image (less_than <*lex*> less_than) (\<lambda>(fd, content, w). read_left fd (length content) w)",
    goal_cases)
  case 1
  then show ?case by auto
next
  case (2 fd content w x w' e)
  then show ?case using call_read_eintr_left[of fd "length content" buffer_size w w'] by (auto dest: sym)
next
  case (3 fd content w x w' chunk)
  then show ?case
    using call_read_progress[of fd "length content" buffer_size w chunk w'] by (auto dest: sym)
qed

declare read_all.simps [simp del]

definition captureTargetState :: "string \<Rightarrow> (string + AtomicTargetState) io" where
  "captureTargetState path = do {
     r \<leftarrow> sys_open_nofollow path;
     (case r of
        Inl e \<Rightarrow> State_Monad.return (Inl (''could not open '' @ path @ '': '' @ strerror e))
      | Inr descriptor \<Rightarrow> do {
          s \<leftarrow> sys_fstat descriptor;
          (if isl s \<or> st_kind (projr s) \<noteq> Reg then do {
             closeFd (Some descriptor);
             State_Monad.return (Inl (''refusing non-regular file: '' @ path))
           } else do {
             c \<leftarrow> State (read_all descriptor []);
             (case c of
                Inl e \<Rightarrow> do {
                  closeFd (Some descriptor);
                  State_Monad.return (Inl (''could not read '' @ path @ '': '' @ strerror e))
                }
              | Inr content \<Rightarrow> do {
                  closed \<leftarrow> closeFd (Some descriptor);
                  msg \<leftarrow> errnoMessage;
                  State_Monad.return
                    (if closed then Inr (state_of_stat (projr s) content)
                     else Inl (''could not close '' @ path @ '': '' @ msg))
                })
           })
        })
   }"

section \<open>Conditional removal\<close>

text \<open>An early return: the value, the error message and whether the precondition failed.\<close>

type_synonym remove_stop = "bool \<times> string \<times> bool"

primrec closing :: "nat list \<Rightarrow> 'a \<Rightarrow> 'a io" where
  "closing [] x = State_Monad.return x"
| "closing (fd # fds) x = do { closeFd (Some fd); closing fds x }"

definition remove_path_valid :: "string \<Rightarrow> bool" where
  "remove_path_valid path \<longleftrightarrow>
     parent_path path \<noteq> '''' \<and> filename path \<noteq> '''' \<and> filename path \<noteq> ''.'' \<and> filename path \<noteq> ''..''"

text \<open>The proof that the directory entry names the expected object.\<close>

definition prove_entry ::
    "string \<Rightarrow> AtomicTargetState \<Rightarrow> nat \<Rightarrow> (remove_stop + unit) io" where
  "prove_entry path expected dirFd = do {
     r \<leftarrow> sys_fstatat dirFd (filename path);
     (case r of
        Inl e \<Rightarrow> closing [dirFd] (Inl
          (if e = ENOENT then (True, ''removal target does not exist: '' @ path, True)
           else (False, ''could not stat removal target '' @ path @ '': '' @ strerror e, False)))
      | Inr info \<Rightarrow>
          if st_kind info \<noteq> Reg then closing [dirFd] (Inl
            (True, ''refusing to remove a symlink or non-regular target: '' @ path, True))
          else if st_dev info \<noteq> device (ts_identity expected) \<or>
                  st_ino info \<noteq> inode_no (ts_identity expected)
          then closing [dirFd] (Inl
            (True, ''removal target identity changed before the delete (same content under a different inode is still a replacement): '' @ path, True))
          else if st_mode info \<noteq> ts_mode expected \<or> st_uid info \<noteq> ts_owner expected \<or>
                  st_gid info \<noteq> ts_group expected
          then closing [dirFd] (Inl
            (True, ''removal target metadata changed before the delete: '' @ path, True))
          else State_Monad.return (Inr ()))
   }"

text \<open>The proof that the object has the expected content, through the same directory.\<close>

definition prove_opened ::
    "string \<Rightarrow> AtomicTargetState \<Rightarrow> nat \<Rightarrow> (remove_stop + nat \<times> stat) io" where
  "prove_opened path expected dirFd = do {
     r \<leftarrow> sys_openat_nofollow dirFd (filename path);
     (case r of
        Inl e \<Rightarrow> closing [dirFd] (Inl
          (False, ''could not open removal target '' @ path @ '': '' @ strerror e, False))
      | Inr fileFd \<Rightarrow> do {
          s \<leftarrow> sys_fstat fileFd;
          (case s of
             Inl e \<Rightarrow> closing [fileFd, dirFd] (Inl
               (False, ''could not stat the opened removal target '' @ path @ '': '' @ strerror e, False))
           | Inr openedInfo \<Rightarrow>
               if \<not> stat_matches expected openedInfo then closing [fileFd, dirFd] (Inl
                 (True, ''removal target identity changed before the delete (the opened object does not match the captured state; a replacement is never deleted): '' @ path, True))
               else State_Monad.return (Inr (fileFd, openedInfo)))
        })
   }"

definition prove_content ::
    "string \<Rightarrow> AtomicTargetState \<Rightarrow> nat \<Rightarrow> nat \<Rightarrow> (remove_stop + unit) io" where
  "prove_content path expected dirFd fileFd = do {
     c \<leftarrow> State (read_all fileFd []);
     (case c of
        Inl e \<Rightarrow> closing [fileFd, dirFd] (Inl (False, ''could not read removal target '' @ path, False))
      | Inr content \<Rightarrow>
          if content \<noteq> ts_content expected then closing [fileFd, dirFd] (Inl
            (True, ''removal target content changed before the delete: '' @ path, True))
          else State_Monad.return (Inr ()))
   }"

text \<open>The last look at the path, compared with the opened object, and the removal.\<close>

definition prove_final ::
    "string \<Rightarrow> nat \<Rightarrow> nat \<Rightarrow> stat \<Rightarrow> (remove_stop + unit) io" where
  "prove_final path dirFd fileFd openedInfo = do {
     r \<leftarrow> sys_fstatat dirFd (filename path);
     (case r of
        Inl e \<Rightarrow> closing [fileFd, dirFd] (Inl
          (True, if e = ENOENT then ''removal target does not exist: '' @ path
                 else ''could not re-stat removal target '' @ path @ '': '' @ strerror e, True))
      | Inr finalInfo \<Rightarrow>
          if st_kind finalInfo \<noteq> Reg \<or> st_dev finalInfo \<noteq> st_dev openedInfo \<or>
             st_ino finalInfo \<noteq> st_ino openedInfo \<or> st_mode finalInfo \<noteq> st_mode openedInfo \<or>
             st_uid finalInfo \<noteq> st_uid openedInfo \<or> st_gid finalInfo \<noteq> st_gid openedInfo
          then closing [fileFd, dirFd] (Inl
            (True, ''removal target identity changed before the delete (same content under a different inode is still a replacement): '' @ path, True))
          else State_Monad.return (Inr ()))
   }"

definition unlink_proven :: "string \<Rightarrow> nat \<Rightarrow> nat \<Rightarrow> (remove_stop + unit) io" where
  "unlink_proven path dirFd fileFd = do {
     r \<leftarrow> sys_unlinkat dirFd (filename path);
     (case r of
        Inl e \<Rightarrow> closing [fileFd, dirFd] (Inl
          (False, ''could not unlink '' @ path @ '': '' @ strerror e, False))
      | Inr _ \<Rightarrow> closing [fileFd, dirFd] (Inr ()))
   }"

definition remove_proven :: "string \<Rightarrow> AtomicTargetState \<Rightarrow> (remove_stop + unit) io" where
  "remove_proven path expected =
     (if \<not> remove_path_valid path
      then State_Monad.return (Inl (False, ''invalid removal target path: '' @ path, False))
      else do {
        r \<leftarrow> sys_open_dir False (parent_path path);
        (case r of
           Inl e \<Rightarrow> State_Monad.return (Inl
             (False, ''could not open directory '' @ parent_path path @ '': '' @ strerror e, False))
         | Inr dirFd \<Rightarrow>
             proceed (prove_entry path expected dirFd) (\<lambda>_.
             proceed (prove_opened path expected dirFd) (\<lambda>(fileFd, openedInfo).
             proceed (prove_content path expected dirFd fileFd) (\<lambda>_.
             proceed (prove_final path dirFd fileFd openedInfo) (\<lambda>_.
               unlink_proven path dirFd fileFd)))))
      })"

definition removeIfCurrentState ::
    "string \<Rightarrow> AtomicTargetState \<Rightarrow> (bool \<times> string \<times> AtomicRemoveResult) io" where
  "removeIfCurrentState path expected = do {
     r \<leftarrow> remove_proven path expected;
     (case r of
        Inl (ok, msg, pre) \<Rightarrow>
          State_Monad.return (ok, msg, emptyRemoveResult\<lparr>rm_preconditionFailed := pre\<rparr>)
      | Inr _ \<Rightarrow> do {
          (durable, fsyncError) \<leftarrow> fsyncParentDirectoryForPath path;
          State_Monad.return
            (durable,
             if durable then ''''
             else ''directory fsync after removal failed ('' @ fsyncError @ ''); the removal is NOT confirmed durable'',
             emptyRemoveResult\<lparr>rm_removed := True, rm_durabilityConfirmed := durable\<rparr>)
        })
   }"

text \<open>An \<open>lstat\<close> that must report absence.\<close>

definition prove_absent :: "string \<Rightarrow> string \<Rightarrow> string \<Rightarrow> (string + unit) io" where
  "prove_absent path present failed = do {
     r \<leftarrow> sys_lstat path;
     State_Monad.return
       (case r of
          Inr _ \<Rightarrow> Inl (present @ path)
        | Inl e \<Rightarrow> if e \<noteq> ENOENT then Inl (failed @ path @ '': '' @ strerror e) else Inr ())
   }"

definition ensureTargetAbsentDurableIfCurrentState :: "string \<Rightarrow> (bool \<times> string) io" where
  "ensureTargetAbsentDurableIfCurrentState path = do {
     a \<leftarrow> prove_absent path ''target is still present: '' ''could not stat target '';
     (case a of
        Inl msg \<Rightarrow> State_Monad.return (False, msg)
      | Inr _ \<Rightarrow> do {
          (durable, fsyncError) \<leftarrow> fsyncParentDirectoryForPath path;
          (if \<not> durable then State_Monad.return
             (False, ''absence durability barrier failed ('' @ fsyncError @ '')'')
           else do {
             b \<leftarrow> prove_absent path
               ''an object appeared during the absence durability barrier: ''
               ''could not re-prove absence of '';
             State_Monad.return (case b of Inl msg \<Rightarrow> (False, msg) | Inr _ \<Rightarrow> (True, ''''))
           })
        })
   }"

end
