(* ===== verification/SecureState.thy ===== *)
theory SecureState
  imports AtomicFile
begin

text \<open>
  The secure read of a small security state file (\<open>fic-core/fs/SecureStateFile\<close>): the proof of
  the parent directory, the checks on the opened file, the bounded read and the second pass over
  the same descriptor that detects a concurrent change. The hook for tests between the two passes
  is not modelled.
\<close>

unbundle bit_operations_syntax

section \<open>Data\<close>

record SecureStateFileExpectation =
  x_owner :: "int option"
  x_group :: "int option"
  exactMode :: int
  forbiddenMode :: int
  maxSize :: nat
  requireSingleLink :: bool
  exactParentMode :: int
  parentOwner :: "int option"
  parentGroup :: "int option"

definition defaultExpectation :: SecureStateFileExpectation where
  "defaultExpectation =
     \<lparr> x_owner = None, x_group = None, exactMode = 0, forbiddenMode = 0, maxSize = 0,
       requireSingleLink = False, exactParentMode = 0, parentOwner = None, parentGroup = None \<rparr>"

datatype SecureStateReadStatus = StateProven | StateMissing | StateUnprovable

record SecureStateReadResult =
  rr_status :: SecureStateReadStatus
  rr_detail :: string
  rr_content :: string
  rr_targetState :: AtomicTargetState

definition SECURE_STATE_READ_HARD_MAX_BYTES :: nat where
  "SECURE_STATE_READ_HARD_MAX_BYTES = 4096"

definition unprovable :: "string \<Rightarrow> SecureStateReadResult" where
  "unprovable detail =
     \<lparr> rr_status = StateUnprovable, rr_detail = detail, rr_content = '''',
       rr_targetState = emptyTargetState \<rparr>"

definition missing_state :: SecureStateReadResult where
  "missing_state =
     \<lparr> rr_status = StateMissing, rr_detail = '''', rr_content = '''',
       rr_targetState = emptyTargetState \<rparr>"

definition proven_state :: "stat \<Rightarrow> string \<Rightarrow> SecureStateReadResult" where
  "proven_state before content =
     \<lparr> rr_status = StateProven, rr_detail = '''', rr_content = content,
       rr_targetState = state_of_stat before content \<rparr>"

section \<open>The parent directory\<close>

text \<open>An optional requirement on a value.\<close>

definition allowed :: "int option \<Rightarrow> int \<Rightarrow> bool" where
  "allowed x v \<longleftrightarrow> (case x of None \<Rightarrow> True | Some r \<Rightarrow> v = r)"

definition parent_complaint :: "SecureStateFileExpectation \<Rightarrow> string \<Rightarrow> stat \<Rightarrow> string option" where
  "parent_complaint x parent info =
     (if \<not> allowed (parentOwner x) (st_uid info)
      then Some (''parent directory has unsafe ownership: '' @ parent)
      else if \<not> allowed (parentGroup x) (st_gid info)
      then Some (''parent directory has unsafe group: '' @ parent)
      else if exactParentMode x \<noteq> 0 \<and> st_mode info \<noteq> exactParentMode x
      then Some (''parent directory has unsafe mode: '' @ parent)
      else None)"

definition proveSafeParentDirectory ::
    "string \<Rightarrow> SecureStateFileExpectation \<Rightarrow> (string + unit) io" where
  "proveSafeParentDirectory parent x =
     (if parent = '''' then State_Monad.return (Inl ''parent path is empty'')
      else do {
        r \<leftarrow> sys_open_dir True parent;
        (case r of
           Inl e \<Rightarrow> State_Monad.return
             (Inl (''unsafe parent directory '' @ parent @ '': '' @ strerror e))
         | Inr directory \<Rightarrow> do {
             s \<leftarrow> sys_fstat directory;
             sys_close directory;
             State_Monad.return
               (case s of
                  Inl e \<Rightarrow> Inl (''could not inspect parent directory '' @ parent @ '': '' @ strerror e)
                | Inr info \<Rightarrow>
                    (case parent_complaint x parent info of
                       Some msg \<Rightarrow> Inl msg
                     | None \<Rightarrow> Inr ()))
           })
      })"

section \<open>The bounded read\<close>

text \<open>The checks on the opened file, in the order of the code.\<close>

definition file_complaint ::
    "SecureStateFileExpectation \<Rightarrow> nat \<Rightarrow> string \<Rightarrow> stat \<Rightarrow> string option" where
  "file_complaint x acceptedSize path before =
     (if st_kind before \<noteq> Reg then Some (''state file is not a regular file: '' @ path)
      else if \<not> allowed (x_owner x) (st_uid before)
      then Some (''state file has unsafe ownership: '' @ path)
      else if \<not> allowed (x_group x) (st_gid before)
      then Some (''state file has unsafe group: '' @ path)
      else if exactMode x \<noteq> 0 \<and> st_mode before \<noteq> exactMode x
      then Some (''state file has unexpected mode: '' @ path)
      else if forbiddenMode x \<noteq> 0 \<and> (st_mode before AND forbiddenMode x) \<noteq> 0
      then Some (''state file has unsafe mode bits: '' @ path)
      else if requireSingleLink x \<and> st_nlink before \<noteq> 1
      then Some (''state file has multiple hard links: '' @ path)
      else if st_size before > acceptedSize
      then Some (''state file exceeds the accepted size: '' @ path)
      else None)"

definition accepted_size :: "SecureStateFileExpectation \<Rightarrow> nat \<Rightarrow> nat" where
  "accepted_size x hardMaxBytes = (if maxSize x \<noteq> 0 then min (maxSize x) hardMaxBytes else hardMaxBytes)"

text \<open>The first pass stops as soon as more than the accepted size was read.\<close>

function read_bounded :: "nat \<Rightarrow> nat \<Rightarrow> string \<Rightarrow> world \<Rightarrow> (errno + string) \<times> world" where
  "read_bounded fd accepted content w =
     (if length content > accepted then (Inr content, w)
      else
        (case call (op_read fd (length content) buffer_size) w of
           (Inl e, w') \<Rightarrow> if e = EINTR then read_bounded fd accepted content w' else (Inl e, w')
         | (Inr chunk, w') \<Rightarrow>
             if chunk = [] then (Inr content, w')
             else read_bounded fd accepted (content @ chunk) w'))"
  by pat_completeness auto

termination
proof (relation "inv_image (less_than <*lex*> less_than)
      (\<lambda>(fd, accepted, content, w). read_left fd (length content) w)", goal_cases)
  case 1
  then show ?case by auto
next
  case (2 fd accepted content w x w' e)
  then show ?case using call_read_eintr_left[of fd "length content" buffer_size w w'] by (auto dest: sym)
next
  case (3 fd accepted content w x w' chunk)
  then show ?case
    using call_read_progress[of fd "length content" buffer_size w chunk w'] by (auto dest: sym)
qed

declare read_bounded.simps [simp del]

text \<open>The second pass reads up to one byte more than the first one found; \<open>None\<close> is a failed read.\<close>

function pread_again :: "nat \<Rightarrow> nat \<Rightarrow> string \<Rightarrow> world \<Rightarrow> string option \<times> world" where
  "pread_again fd cap second w =
     (if length second \<ge> cap then (Some second, w)
      else
        (case call (op_read fd (length second) (cap - length second)) w of
           (Inl e, w') \<Rightarrow> if e = EINTR then pread_again fd cap second w' else (None, w')
         | (Inr chunk, w') \<Rightarrow>
             if chunk = [] then (Some second, w')
             else pread_again fd cap (second @ chunk) w'))"
  by pat_completeness auto

termination
proof (relation "inv_image (less_than <*lex*> less_than)
      (\<lambda>(fd, cap, second, w). read_left fd (length second) w)", goal_cases)
  case 1
  then show ?case by auto
next
  case (2 fd cap second w x w' e)
  then show ?case
    using call_read_eintr_left[of fd "length second" "cap - length second" w w'] by (auto dest: sym)
next
  case (3 fd cap second w x w' chunk)
  then show ?case
    using call_read_progress[of fd "length second" "cap - length second" w chunk w']
    by (auto dest: sym)
qed

declare pread_again.simps [simp del]

definition same_times :: "stat \<Rightarrow> stat \<Rightarrow> bool" where
  "same_times a b \<longleftrightarrow> st_mtim a = st_mtim b \<and> st_ctim a = st_ctim b"

definition same_object :: "stat \<Rightarrow> stat \<Rightarrow> bool" where
  "same_object after before \<longleftrightarrow>
     st_dev after = st_dev before \<and> st_ino after = st_ino before \<and> st_size after = st_size before \<and>
     same_times after before"

text \<open>Every return after the open closes the descriptor.\<close>

definition closed_with :: "nat \<Rightarrow> SecureStateReadResult \<Rightarrow> SecureStateReadResult io" where
  "closed_with descriptor result = do {
     sys_close descriptor;
     State_Monad.return result
   }"

text \<open>The proof that the file did not change while it was read.\<close>

definition prove_unchanged ::
    "string \<Rightarrow> nat \<Rightarrow> stat \<Rightarrow> string \<Rightarrow> SecureStateReadResult io" where
  "prove_unchanged path descriptor before content = do {
     a \<leftarrow> sys_fstat descriptor;
     (case a of
        Inl e \<Rightarrow> closed_with descriptor
          (unprovable (''could not re-inspect state file '' @ path @ '': '' @ strerror e))
      | Inr after \<Rightarrow>
          if \<not> same_object after before
          then closed_with descriptor (unprovable (''state file changed during the proof: '' @ path))
          else do {
            second \<leftarrow> State (pread_again descriptor (length content + 1) []);
            (if second \<noteq> Some content
             then closed_with descriptor (unprovable (''state file changed during the proof: '' @ path))
             else do {
               f \<leftarrow> sys_fstat descriptor;
               (case f of
                  Inl e \<Rightarrow> closed_with descriptor
                    (unprovable (''state file changed during the proof: '' @ path))
                | Inr finalInfo \<Rightarrow>
                    if \<not> same_times finalInfo after
                    then closed_with descriptor
                      (unprovable (''state file changed during the proof: '' @ path))
                    else closed_with descriptor (proven_state before content))
             })
          })
   }"

text \<open>Reading the opened file.\<close>

definition read_opened ::
    "string \<Rightarrow> SecureStateFileExpectation \<Rightarrow> nat \<Rightarrow> nat \<Rightarrow> SecureStateReadResult io" where
  "read_opened path x acceptedSize descriptor = do {
     b \<leftarrow> sys_fstat descriptor;
     (case b of
        Inl e \<Rightarrow> closed_with descriptor
          (unprovable (''could not inspect opened state file '' @ path @ '': '' @ strerror e))
      | Inr before \<Rightarrow>
          (case file_complaint x acceptedSize path before of
             Some msg \<Rightarrow> closed_with descriptor (unprovable msg)
           | None \<Rightarrow> do {
               c \<leftarrow> State (read_bounded descriptor acceptedSize []);
               (case c of
                  Inl e \<Rightarrow> closed_with descriptor
                    (unprovable (''could not completely read state file '' @ path @ '': '' @ strerror e))
                | Inr content \<Rightarrow>
                    if length content > acceptedSize
                    then closed_with descriptor
                      (unprovable (''state file grew beyond the accepted size while reading: '' @ path))
                    else prove_unchanged path descriptor before content)
             }))
   }"

definition readSecureFileBounded ::
    "string \<Rightarrow> SecureStateFileExpectation \<Rightarrow> nat \<Rightarrow> SecureStateReadResult io" where
  "readSecureFileBounded path x hardMaxBytes =
     (if hardMaxBytes = 0
      then State_Monad.return (unprovable ''secure read requires a nonzero hard size limit'')
      else do {
        p \<leftarrow> proveSafeParentDirectory (parent_path path) x;
        (case p of
           Inl detail \<Rightarrow> State_Monad.return (unprovable detail)
         | Inr _ \<Rightarrow> do {
             r \<leftarrow> sys_open_nofollow path;
             (case r of
                Inl e \<Rightarrow> State_Monad.return
                  (if e = ENOENT then missing_state
                   else if e = ELOOP then unprovable (''state file is a symbolic link: '' @ path)
                   else unprovable
                     (''could not securely open state file '' @ path @ '': '' @ strerror e))
              | Inr descriptor \<Rightarrow> read_opened path x (accepted_size x hardMaxBytes) descriptor)
           })
      })"

definition readSecureStateFile ::
    "string \<Rightarrow> SecureStateFileExpectation \<Rightarrow> SecureStateReadResult io" where
  "readSecureStateFile path x = readSecureFileBounded path x SECURE_STATE_READ_HARD_MAX_BYTES"

end
