(* ===== verification/IncidentStateStore.thy ===== *)
theory IncidentStateStore
  imports SecureState IncidentSeverity
begin

text \<open>
  The owner of the persistent incident state (\<open>fic/src/incident/IncidentStateStore\<close>): the strict
  content format, the fail-closed read, the monotonic raise with its bounded retry, the encoding of
  an incident as a durably absent file, and the administrative clear. A store is the path of the
  state file together with the group id of the group \<open>fic\<close> as the account database gives it
  (\<open>None\<close> when the lookup fails); the identity override for tests is not modelled.
\<close>

section \<open>Data\<close>

record state_store =
  store_path :: string
  fic_gid :: "int option"

datatype Provenance = Proven | Absent | InvalidContent | Broken

record ReadResult =
  provenance :: Provenance
  read_severity :: incident_severity
  read_detail :: string
  provenState :: "AtomicTargetState option"

datatype PersistenceResult = DurableConfirmed | InstalledNotDurable | NotInstalled | PersistFailed

record RaiseResult =
  durable :: bool
  persistence :: PersistenceResult
  effectiveSeverity :: incident_severity
  escalated :: bool
  brokenStatePersisted :: bool
  raise_detail :: string
  installedState :: "AtomicTargetState option"

definition emptyRaiseResult :: RaiseResult where
  "emptyRaiseResult =
     \<lparr> durable = False, persistence = PersistFailed, effectiveSeverity = Isolate, escalated = False,
       brokenStatePersisted = False, raise_detail = '''', installedState = None \<rparr>"

record ClearResult =
  clear_ok :: bool
  brokenState :: bool
  clear_severity :: incident_severity
  clear_persistence :: PersistenceResult
  clear_detail :: string

definition emptyClearResult :: ClearResult where
  "emptyClearResult =
     \<lparr> clear_ok = False, brokenState = False, clear_severity = Standard,
       clear_persistence = PersistFailed, clear_detail = '''' \<rparr>"

section \<open>The content format\<close>

text \<open>The token function throws for no value of the enum (\<open>incidentSeverityToken_total\<close>).\<close>

definition serialize :: "incident_severity \<Rightarrow> string" where
  "serialize severity = projr (incidentSeverityToken severity) @ [CHR 0x0A]"

definition parseStrictSeverity :: "string \<Rightarrow> string + incident_severity" where
  "parseStrictSeverity content =
     (if content = '''' then Inl ''empty content''
      else if last content \<noteq> CHR 0x0A then Inl ''missing final newline''
      else let body = butlast content in
        if body = '''' then Inl ''empty token''
        else if CHR 0x0A \<in> set body then Inl ''multiple lines''
        else if CHR ''#'' \<in> set body then Inl ''comments are not accepted''
        else (case parseIncidentSeverityToken body of
                None \<Rightarrow> Inl ''unknown severity token''
              | Some s \<Rightarrow> Inr s))"

primrec incidentProvenanceReason :: "Provenance \<Rightarrow> string" where
  "incidentProvenanceReason Proven = ''proven''"
| "incidentProvenanceReason Absent = ''absent''"
| "incidentProvenanceReason InvalidContent = ''invalid_content''"
| "incidentProvenanceReason Broken = ''broken''"

primrec incidentProvenanceToken :: "Provenance \<Rightarrow> string" where
  "incidentProvenanceToken Proven = ''PROVEN''"
| "incidentProvenanceToken Absent = ''ABSENT''"
| "incidentProvenanceToken InvalidContent = ''INVALID_CONTENT''"
| "incidentProvenanceToken Broken = ''BROKEN''"

section \<open>Reading\<close>

text \<open>\<open>static_cast<gid_t>(-1)\<close>, the value the group keeps when the lookup fails.\<close>

definition no_gid :: int where
  "no_gid = 2 ^ 32 - 1"

definition state_group :: "state_store \<Rightarrow> int" where
  "state_group st = (case fic_gid st of None \<Rightarrow> no_gid | Some g \<Rightarrow> g)"

definition expectedStateOwner :: "int option" where
  "expectedStateOwner = Some 0"

definition lockedStateExpectation :: "state_store \<Rightarrow> SecureStateFileExpectation" where
  "lockedStateExpectation st =
     defaultExpectation\<lparr>x_owner := expectedStateOwner, x_group := Some (state_group st),
       exactMode := 416, maxSize := 64, requireSingleLink := True, parentOwner := Some 0,
       parentGroup := Some (state_group st), exactParentMode := 1512\<rparr>"

definition read_result_of :: "SecureStateReadResult \<Rightarrow> ReadResult" where
  "read_result_of secure =
     (case rr_status secure of
        StateMissing \<Rightarrow>
          \<lparr> provenance = Absent, read_severity = Unlocked, read_detail = '''', provenState = None \<rparr>
      | StateUnprovable \<Rightarrow>
          \<lparr> provenance = Broken, read_severity = Unlocked, read_detail = rr_detail secure,
            provenState = None \<rparr>
      | StateProven \<Rightarrow>
          (case parseStrictSeverity (rr_content secure) of
             Inl reason \<Rightarrow>
               \<lparr> provenance = InvalidContent, read_severity = Unlocked,
                 read_detail = ''malformed incident state: '' @ reason,
                 provenState = Some (rr_targetState secure) \<rparr>
           | Inr severity \<Rightarrow>
               \<lparr> provenance = Proven, read_severity = severity, read_detail = '''',
                 provenState = Some (rr_targetState secure) \<rparr>))"

definition store_read :: "state_store \<Rightarrow> ReadResult io" where
  "store_read st = do {
     secure \<leftarrow> readSecureStateFile (store_path st) (lockedStateExpectation st);
     State_Monad.return (read_result_of secure)
   }"

section \<open>One conditional write\<close>

definition locked_write_options ::
    "state_store \<Rightarrow> AtomicTargetState \<Rightarrow> bool \<Rightarrow> AtomicWriteOptions" where
  "locked_write_options st precondition allowCreate =
     defaultWriteOptions\<lparr>createIfMissing := allowCreate, exclusiveCreate := allowCreate,
       rejectSymlink := True, metadataPolicy := EnforceProvided,
       fileMode := Some (if ts_mode precondition = 0 then 416 else ts_mode precondition),
       fileOwner := Some (ts_owner precondition),
       fileGroup := (if allowCreate then x_group (lockedStateExpectation st)
                     else Some (ts_group precondition)),
       expectedTargetState := (if allowCreate then None else Some precondition)\<rparr>"

definition write_outcome ::
    "incident_severity \<Rightarrow> bool \<times> string \<times> AtomicWriteResult \<Rightarrow> RaiseResult" where
  "write_outcome target r =
     (case r of (ok, error, wr) \<Rightarrow>
        if \<not> installed wr then
          emptyRaiseResult\<lparr>durable := False,
            persistence := (if preconditionFailed wr then NotInstalled else PersistFailed),
            raise_detail :=
              (if preconditionFailed wr then ''incident state changed before the conditional write''
               else if error = '''' then ''incident state write failed before replacement''
               else ''incident state write failed: '' @ error)\<rparr>
        else if ok \<and> durabilityConfirmed wr then
          emptyRaiseResult\<lparr>effectiveSeverity := target, escalated := True,
            installedState := installedTargetState wr, durable := True,
            persistence := DurableConfirmed\<rparr>
        else
          emptyRaiseResult\<lparr>effectiveSeverity := target, escalated := True,
            installedState := installedTargetState wr, durable := False,
            persistence := InstalledNotDurable,
            raise_detail := ''incident state installed but parent fsync failed''\<rparr>)"

definition writeLocked ::
    "state_store \<Rightarrow> AtomicTargetState \<Rightarrow> incident_severity \<Rightarrow> bool \<Rightarrow> RaiseResult io" where
  "writeLocked st precondition target allowCreate = do {
     r \<leftarrow> writeWithResult (store_path st) (serialize target)
            (locked_write_options st precondition allowCreate);
     State_Monad.return (write_outcome target r)
   }"

definition confirmInstalledDurability :: "state_store \<Rightarrow> RaiseResult \<Rightarrow> RaiseResult io" where
  "confirmInstalledDurability st result =
     (case installedState result of
        None \<Rightarrow> State_Monad.return result
      | Some state \<Rightarrow> do {
          (ok, error) \<leftarrow> ensureTargetDurableIfCurrentState (store_path st) state;
          State_Monad.return
            (if \<not> ok then result\<lparr>durable := False, effectiveSeverity := Isolate,
               brokenStatePersisted := False,
               raise_detail := ''incident state durability could not be confirmed: '' @ error\<rparr>
             else result\<lparr>durable := True, persistence := DurableConfirmed, raise_detail := ''''\<rparr>)
        })"

section \<open>The durable BROKEN state\<close>

definition broken_failure :: "string \<Rightarrow> RaiseResult" where
  "broken_failure detail = emptyRaiseResult\<lparr>raise_detail := detail\<rparr>"

definition broken_success :: "string \<Rightarrow> RaiseResult" where
  "broken_success detail =
     emptyRaiseResult\<lparr>durable := True, brokenStatePersisted := True, effectiveSeverity := Isolate,
       persistence := DurableConfirmed, raise_detail := detail\<rparr>"

definition same_state :: "AtomicTargetState option \<Rightarrow> AtomicTargetState \<Rightarrow> bool" where
  "same_state expected actual \<longleftrightarrow> (case expected of None \<Rightarrow> True | Some x \<Rightarrow>
     device (ts_identity actual) = device (ts_identity x) \<and>
     inode_no (ts_identity actual) = inode_no (ts_identity x) \<and> ts_mode actual = ts_mode x \<and>
     ts_owner actual = ts_owner x \<and> ts_group actual = ts_group x \<and> ts_content actual = ts_content x)"

text \<open>Removing exactly the proven object and proving the absence durable.\<close>

definition remove_witness :: "state_store \<Rightarrow> AtomicTargetState \<Rightarrow> RaiseResult io" where
  "remove_witness st actual = do {
     (ok, error, removed) \<leftarrow> removeIfCurrentState (store_path st) actual;
     (if \<not> ok then State_Monad.return
        (broken_failure (''could not remove the proven incident state object: '' @ error))
      else if rm_preconditionFailed removed \<or> \<not> rm_removed removed then State_Monad.return
        (broken_failure
          (if rm_preconditionFailed removed
           then ''incident state object changed before removal; nothing deleted''
           else ''incident state object was not removed''))
      else if \<not> rm_durabilityConfirmed removed then State_Monad.return
        (broken_failure ''incident state removal is not durable'')
      else do {
        (absent, barrierError) \<leftarrow> ensureTargetAbsentDurableIfCurrentState (store_path st);
        State_Monad.return
          (if \<not> absent
           then broken_failure
             (''incident state absence could not be proven durable: '' @ barrierError)
           else broken_success ''incident encoded as durably absent BROKEN_STATE'')
      })
   }"

definition encodeDurableBrokenStateLocked ::
    "state_store \<Rightarrow> AtomicTargetState option \<Rightarrow> RaiseResult io" where
  "encodeDurableBrokenStateLocked st expected = do {
     current \<leftarrow> store_read st;
     (if provenance current = Absent then do {
        (absent, error) \<leftarrow> ensureTargetAbsentDurableIfCurrentState (store_path st);
        State_Monad.return
          (if \<not> absent then broken_failure (''incident state absence is not durable: '' @ error)
           else broken_success ''incident state is already durably absent'')
      }
      else
        (case (provenance current, provenState current) of
           (Proven, Some actual) \<Rightarrow>
             if \<not> same_state expected actual then State_Monad.return
               (broken_failure ''installed incident state was replaced before BROKEN fallback'')
             else remove_witness st actual
         | _ \<Rightarrow> State_Monad.return
             (broken_failure
               (''incident state object is not provable and was not removed: '' @ read_detail current))))
   }"

definition encodeDurableBrokenState :: "state_store \<Rightarrow> RaiseResult io" where
  "encodeDurableBrokenState st = encodeDurableBrokenStateLocked st None"

section \<open>Raising\<close>

definition MAX_RAISE_ATTEMPTS :: nat where
  "MAX_RAISE_ATTEMPTS = 8"

definition raise_failure :: "string \<Rightarrow> RaiseResult" where
  "raise_failure detail = emptyRaiseResult\<lparr>raise_detail := detail\<rparr>"

definition raise_idempotent :: "incident_severity \<Rightarrow> RaiseResult" where
  "raise_idempotent severity =
     emptyRaiseResult\<lparr>durable := True, persistence := DurableConfirmed,
       effectiveSeverity := severity\<rparr>"

text \<open>What follows a write attempt: a final result, or \<open>None\<close> for another round of the loop.\<close>

definition after_write :: "state_store \<Rightarrow> RaiseResult \<Rightarrow> RaiseResult option io" where
  "after_write st written =
     (case persistence written of
        DurableConfirmed \<Rightarrow> State_Monad.return (Some written)
      | InstalledNotDurable \<Rightarrow> do {
          confirmed \<leftarrow> confirmInstalledDurability st written;
          (if durable confirmed then State_Monad.return (Some confirmed)
           else do {
             b \<leftarrow> encodeDurableBrokenStateLocked st (installedState written);
             State_Monad.return (Some b)
           })
        }
      | NotInstalled \<Rightarrow> State_Monad.return None
      | PersistFailed \<Rightarrow> do {
          b \<leftarrow> encodeDurableBrokenStateLocked st None;
          State_Monad.return (Some b)
        })"

definition raise_attempt :: "state_store \<Rightarrow> incident_severity \<Rightarrow> RaiseResult option io" where
  "raise_attempt st requested = do {
     current \<leftarrow> store_read st;
     (case provenance current of
        Broken \<Rightarrow> State_Monad.return (Some (raise_failure (read_detail current)))
      | InvalidContent \<Rightarrow> State_Monad.return (Some (raise_failure (read_detail current)))
      | Absent \<Rightarrow> do {
          b \<leftarrow> encodeDurableBrokenStateLocked st None;
          State_Monad.return (Some b)
        }
      | Proven \<Rightarrow>
          let target = maxIncidentSeverity (read_severity current) requested in
          if target = read_severity current
          then State_Monad.return (Some (raise_idempotent (read_severity current)))
          else do {
            written \<leftarrow> writeLocked st (the (provenState current)) target False;
            after_write st written
          })
   }"

primrec raise_loop :: "nat \<Rightarrow> state_store \<Rightarrow> incident_severity \<Rightarrow> RaiseResult io" where
  "raise_loop 0 st requested =
     State_Monad.return (raise_failure ''incident state raise did not converge'')"
| "raise_loop (Suc n) st requested = do {
     r \<leftarrow> raise_attempt st requested;
     (case r of Some result \<Rightarrow> State_Monad.return result | None \<Rightarrow> raise_loop n st requested)
   }"

definition raiseToAtLeast :: "state_store \<Rightarrow> incident_severity \<Rightarrow> RaiseResult io" where
  "raiseToAtLeast st requested = raise_loop MAX_RAISE_ATTEMPTS st requested"

section \<open>Clearing\<close>

definition confirm_if_needed :: "state_store \<Rightarrow> RaiseResult \<Rightarrow> RaiseResult io" where
  "confirm_if_needed st written =
     (if persistence written = InstalledNotDurable then confirmInstalledDurability st written
      else State_Monad.return written)"

definition clear_broken :: "RaiseResult \<Rightarrow> ClearResult" where
  "clear_broken broken =
     emptyClearResult\<lparr>clear_severity := Isolate, brokenState := True,
       clear_persistence := persistence broken, clear_detail := ''clear failed; '' @ raise_detail broken\<rparr>"

text \<open>Compensation of a published but unconfirmed downgrade.\<close>

definition undo_clear ::
    "state_store \<Rightarrow> ReadResult \<Rightarrow> AtomicTargetState \<Rightarrow> ClearResult io" where
  "undo_clear st current published =
     (if provenance current = Proven then do {
        attempt \<leftarrow> writeLocked st published (read_severity current) False;
        restored \<leftarrow> confirm_if_needed st attempt;
        (if durable restored then State_Monad.return
           (emptyClearResult\<lparr>clear_severity := read_severity current,
              clear_persistence := persistence restored,
              clear_detail := ''clear failed; previous incident restored durably''\<rparr>)
         else do {
           broken \<leftarrow> encodeDurableBrokenStateLocked st
             (Some (case installedState restored of None \<Rightarrow> published | Some s \<Rightarrow> s));
           State_Monad.return (clear_broken broken)
         })
      } else do {
        broken \<leftarrow> encodeDurableBrokenStateLocked st (Some published);
        State_Monad.return (clear_broken broken)
      })"

definition clear_precondition :: "ReadResult \<Rightarrow> AtomicTargetState" where
  "clear_precondition current =
     (case provenState current of
        Some s \<Rightarrow> s
      | None \<Rightarrow> emptyTargetState\<lparr>ts_mode := 416,
          ts_owner := (case expectedStateOwner of None \<Rightarrow> 0 | Some u \<Rightarrow> u)\<rparr>)"

definition clear_write :: "state_store \<Rightarrow> ReadResult \<Rightarrow> ClearResult io" where
  "clear_write st current = do {
     attempt \<leftarrow> writeLocked st (clear_precondition current) Unlocked (provenance current = Absent);
     written \<leftarrow> confirm_if_needed st attempt;
     (if durable written then State_Monad.return
        (emptyClearResult\<lparr>clear_ok := True, clear_severity := Unlocked,
           clear_persistence := persistence written, clear_detail := raise_detail written\<rparr>)
      else
        (case installedState written of
           Some published \<Rightarrow> undo_clear st current published
         | None \<Rightarrow> do {
             after \<leftarrow> store_read st;
             State_Monad.return
               (emptyClearResult\<lparr>
                  clear_severity := (if provenance after = Proven then read_severity after else Isolate),
                  brokenState := (provenance after \<noteq> Proven),
                  clear_persistence := persistence written,
                  clear_detail := raise_detail written\<rparr>)
           }))
   }"

definition clear :: "state_store \<Rightarrow> ClearResult io" where
  "clear st = do {
     current \<leftarrow> store_read st;
     (if provenance current = Broken then State_Monad.return
        (emptyClearResult\<lparr>brokenState := True, clear_severity := Isolate,
           clear_persistence := NotInstalled,
           clear_detail := ''incident state is not provable: '' @ read_detail current\<rparr>)
      else if provenance current = Proven \<and> read_severity current = Unlocked then State_Monad.return
        (emptyClearResult\<lparr>clear_ok := True, clear_persistence := DurableConfirmed,
           clear_severity := Unlocked\<rparr>)
      else clear_write st current)
   }"

end
