(* ===== verification/TargetStore.thy ===== *)
theory TargetStore
  imports Json IncidentStateStore
begin

text \<open>
  The durable set of session targets of an incident (\<open>incident/IncidentSessionTargetStore\<close>): the
  records, their JSON document, the strict parser and the conditional replacement of the file. The
  ownership override for tests is not modelled; the text functions of the JSON library are
  parameters, and an exception of \<open>dump\<close> leaves the write operations.
\<close>

section \<open>Records\<close>

datatype RuntimeObligation = Pending | Discharged

record IncidentSessionTarget =
  t_uid :: nat
  canonicalName :: string
  t_sessionId :: string
  sessionStartTimestamp :: nat
  sessionClass :: string
  runtimeObligation :: RuntimeObligation

datatype ReadProvenance = TargetsProven | TargetsAbsent | TargetsUnprovable

record TargetReadResult =
  tr_provenance :: ReadProvenance
  tr_bootId :: string
  incidentGeneration :: nat
  tr_targets :: "IncidentSessionTarget list"
  tr_detail :: string
  tr_provenState :: "AtomicTargetState option"

definition emptyTargetRead :: TargetReadResult where
  "emptyTargetRead =
     \<lparr> tr_provenance = TargetsUnprovable, tr_bootId = '''', incidentGeneration = 0, tr_targets = [],
       tr_detail = '''', tr_provenState = None \<rparr>"

record TargetWriteResult =
  tw_durable :: bool
  tw_detail :: string

record target_store =
  targets_path :: string
  targets_fic_gid :: "int option"

definition storeBesideLockStatus :: "state_store \<Rightarrow> target_store" where
  "storeBesideLockStatus st =
     \<lparr> targets_path = path_join (parent_path (store_path st)) ''incident_session_targets'',
       targets_fic_gid = fic_gid st \<rparr>"

section \<open>Validity\<close>

definition kStoreMaxBytes :: nat where
  "kStoreMaxBytes = 64 * 1024"

definition kMaxTargets :: nat where
  "kMaxTargets = 256"

definition kStoreSchemaVersion :: nat where
  "kStoreSchemaVersion = 2"

definition is_hex :: "char \<Rightarrow> bool" where
  "is_hex ch \<longleftrightarrow>
     CHR ''0'' \<le> ch \<and> ch \<le> CHR ''9'' \<or> CHR ''a'' \<le> ch \<and> ch \<le> CHR ''f'' \<or>
     CHR ''A'' \<le> ch \<and> ch \<le> CHR ''F''"

definition validBootId :: "string \<Rightarrow> bool" where
  "validBootId value \<longleftrightarrow>
     length value = 36 \<and>
     (\<forall>i \<in> set [0..<length value].
        if i = 8 \<or> i = 13 \<or> i = 18 \<or> i = 23 then value ! i = CHR ''-'' else is_hex (value ! i))"

definition selectableClass :: "string \<Rightarrow> bool" where
  "selectableClass value \<longleftrightarrow>
     value = ''user'' \<or> value = ''user-early'' \<or> value = ''user-light'' \<or> value = ''user-early-light''"

definition validTarget :: "IncidentSessionTarget \<Rightarrow> bool" where
  "validTarget target \<longleftrightarrow>
     t_uid target \<noteq> 0 \<and> canonicalName target \<noteq> '''' \<and> length (canonicalName target) \<le> 256 \<and>
     t_sessionId target \<noteq> '''' \<and> length (t_sessionId target) \<le> 256 \<and>
     sessionStartTimestamp target \<noteq> 0 \<and> selectableClass (sessionClass target)"

fun no_duplicates :: "nat list \<Rightarrow> IncidentSessionTarget list \<Rightarrow> bool" where
  "no_duplicates seen [] \<longleftrightarrow> True"
| "no_duplicates seen (target # targets) \<longleftrightarrow>
     t_uid target \<notin> set seen \<and> no_duplicates (seen @ [t_uid target]) targets"

fun all_valid_targets :: "nat list \<Rightarrow> IncidentSessionTarget list \<Rightarrow> bool" where
  "all_valid_targets seen [] \<longleftrightarrow> True"
| "all_valid_targets seen (target # targets) \<longleftrightarrow>
     validTarget target \<and> t_uid target \<notin> set seen \<and> all_valid_targets (seen @ [t_uid target]) targets"

definition validWrite :: "string \<Rightarrow> nat \<Rightarrow> IncidentSessionTarget list \<Rightarrow> bool" where
  "validWrite bootId generation targets \<longleftrightarrow>
     validBootId bootId \<and> generation \<noteq> 0 \<and> length targets \<le> kMaxTargets \<and> all_valid_targets [] targets"

section \<open>The document\<close>

primrec obligation_token :: "RuntimeObligation \<Rightarrow> string" where
  "obligation_token Discharged = ''discharged''"
| "obligation_token Pending = ''pending''"

definition target_json :: "IncidentSessionTarget \<Rightarrow> json" where
  "target_json target = json_object
     [(''uid'', JUnsigned (t_uid target)), (''name'', JString (canonicalName target)),
      (''session_id'', JString (t_sessionId target)),
      (''session_start'', JUnsigned (sessionStartTimestamp target)),
      (''session_class'', JString (sessionClass target)),
      (''runtime_obligation'', JString (obligation_token (runtimeObligation target)))]"

definition targets_document :: "string \<Rightarrow> nat \<Rightarrow> IncidentSessionTarget list \<Rightarrow> json" where
  "targets_document bootId generation targets = json_object
     [(''schema_version'', JUnsigned kStoreSchemaVersion),
      (''lifecycle_marker'', JString ''fenced_before_severity''), (''boot_id'', JString bootId),
      (''incident_generation'', JUnsigned generation), (''targets'', JArray (map target_json targets))]"

definition serialize_targets ::
    "json_dump \<Rightarrow> string \<Rightarrow> nat \<Rightarrow> IncidentSessionTarget list \<Rightarrow> exn + string" where
  "serialize_targets dump bootId generation targets = dump (targets_document bootId generation targets)"

text \<open>Members of the expected kind; \<open>None\<close> is any refusal of the parser.\<close>

definition member_string :: "(string \<times> json) list \<Rightarrow> string \<Rightarrow> string option" where
  "member_string ms k = Option.bind (omap_find ms k) json_get_string"

definition member_unsigned :: "(string \<times> json) list \<Rightarrow> string \<Rightarrow> nat option" where
  "member_unsigned ms k = Option.bind (omap_find ms k) json_get_unsigned"

definition uid_max :: nat where
  "uid_max = 2 ^ 32 - 1"

definition parse_target :: "json \<Rightarrow> IncidentSessionTarget option" where
  "parse_target item =
     (case item of
        JObject ms \<Rightarrow>
          if length ms \<noteq> 6 then None
          else
            (case (member_unsigned ms ''uid'', member_string ms ''name'', member_string ms ''session_id'',
                   member_unsigned ms ''session_start'', member_string ms ''session_class'',
                   member_string ms ''runtime_obligation'') of
               (Some uid, Some name, Some sid, Some start, Some cls, Some obligation) \<Rightarrow>
                 if uid = 0 \<or> uid > uid_max \<or> name = '''' \<or> length name > 256 \<or> sid = '''' \<or>
                    length sid > 256 \<or> start = 0 \<or> \<not> selectableClass cls \<or>
                    (obligation \<noteq> ''pending'' \<and> obligation \<noteq> ''discharged'')
                 then None
                 else Some \<lparr> t_uid = uid, canonicalName = name, t_sessionId = sid,
                        sessionStartTimestamp = start, sessionClass = cls,
                        runtimeObligation = (if obligation = ''discharged'' then Discharged else Pending) \<rparr>
             | _ \<Rightarrow> None)
      | _ \<Rightarrow> None)"

fun parse_target_list :: "json list \<Rightarrow> IncidentSessionTarget list option" where
  "parse_target_list [] = Some []"
| "parse_target_list (item # items) =
     (case parse_target item of
        None \<Rightarrow> None
      | Some target \<Rightarrow> map_option (\<lambda>ts. target # ts) (parse_target_list items))"

definition parse_document ::
    "json \<Rightarrow> (string \<times> nat \<times> IncidentSessionTarget list) option" where
  "parse_document document =
     (case document of
        JObject ms \<Rightarrow>
          if length ms \<noteq> 5 then None
          else
            (case (member_unsigned ms ''schema_version'', member_string ms ''lifecycle_marker'',
                   member_string ms ''boot_id'', member_unsigned ms ''incident_generation'',
                   omap_find ms ''targets'') of
               (Some schema, Some marker, Some boot, Some generation, Some (JArray items)) \<Rightarrow>
                 if schema \<noteq> kStoreSchemaVersion \<or> marker \<noteq> ''fenced_before_severity'' \<or>
                    generation = 0 \<or> length items > kMaxTargets \<or> \<not> validBootId boot
                 then None
                 else
                   (case parse_target_list items of
                      None \<Rightarrow> None
                    | Some targets \<Rightarrow>
                        if no_duplicates [] targets then Some (boot, generation, targets) else None)
             | _ \<Rightarrow> None)
      | _ \<Rightarrow> None)"

definition parse_targets ::
    "json_parse \<Rightarrow> string \<Rightarrow> (string \<times> nat \<times> IncidentSessionTarget list) option" where
  "parse_targets parse content =
     (if length content > kStoreMaxBytes then None
      else (case parse content of Inl _ \<Rightarrow> None | Inr document \<Rightarrow> parse_document document))"

section \<open>Reading and writing\<close>

definition targets_group :: "target_store \<Rightarrow> int" where
  "targets_group ts = (case targets_fic_gid ts of None \<Rightarrow> no_gid | Some g \<Rightarrow> g)"

definition targets_expectation :: "target_store \<Rightarrow> SecureStateFileExpectation" where
  "targets_expectation ts =
     defaultExpectation\<lparr>x_owner := Some 0, x_group := Some (targets_group ts), exactMode := 416,
       maxSize := kStoreMaxBytes, requireSingleLink := True, parentOwner := Some 0,
       parentGroup := Some (targets_group ts), exactParentMode := 1512\<rparr>"

definition targets_read_result :: "json_parse \<Rightarrow> SecureStateReadResult \<Rightarrow> TargetReadResult" where
  "targets_read_result parse read =
     (case rr_status read of
        StateMissing \<Rightarrow> emptyTargetRead\<lparr>tr_provenance := TargetsAbsent\<rparr>
      | StateUnprovable \<Rightarrow> emptyTargetRead\<lparr>tr_detail :=
          (if rr_detail read = '''' then ''incident session target store is unprovable'' else rr_detail read)\<rparr>
      | StateProven \<Rightarrow>
          (case parse_targets parse (rr_content read) of
             None \<Rightarrow> emptyTargetRead\<lparr>tr_detail := ''incident session target store content is invalid''\<rparr>
           | Some (boot, generation, targets) \<Rightarrow>
               emptyTargetRead\<lparr>tr_provenance := TargetsProven, tr_bootId := boot,
                 incidentGeneration := generation, tr_targets := targets,
                 tr_provenState := Some (rr_targetState read)\<rparr>))"

definition targets_read :: "json_parse \<Rightarrow> target_store \<Rightarrow> TargetReadResult io" where
  "targets_read parse ts = do {
     read \<leftarrow> readSecureFileBounded (targets_path ts) (targets_expectation ts) kStoreMaxBytes;
     State_Monad.return (targets_read_result parse read)
   }"

text \<open>What both write operations do after \<open>writeWithResult\<close>.\<close>

definition finish_write ::
    "string \<Rightarrow> string \<Rightarrow> string \<Rightarrow> bool \<times> string \<times> AtomicWriteResult \<Rightarrow> TargetWriteResult io" where
  "finish_write path not_written unproven r =
     (case r of (written, error, res) \<Rightarrow>
        if \<not> installed res then State_Monad.return
          \<lparr> tw_durable = False, tw_detail = (if error = '''' then not_written else error) \<rparr>
        else if written \<and> durabilityConfirmed res then State_Monad.return
          \<lparr> tw_durable = True, tw_detail = '''' \<rparr>
        else
          (case installedTargetState res of
             None \<Rightarrow> State_Monad.return \<lparr> tw_durable = False, tw_detail = unproven \<rparr>
           | Some state \<Rightarrow> do {
               (ok, durabilityError) \<leftarrow> ensureTargetDurableIfCurrentState path state;
               State_Monad.return
                 (if ok then \<lparr> tw_durable = True, tw_detail = '''' \<rparr>
                  else \<lparr> tw_durable = False,
                         tw_detail = (if durabilityError = '''' then unproven else durabilityError) \<rparr>)
             }))"

definition target_write_options :: "target_store \<Rightarrow> AtomicWriteOptions" where
  "target_write_options ts =
     defaultWriteOptions\<lparr>createIfMissing := True, rejectSymlink := True, metadataPolicy := EnforceProvided,
       fileMode := Some 416, fileOwner := Some 0, fileGroup := Some (targets_group ts)\<rparr>"

definition targets_write ::
    "json_dump \<Rightarrow> target_store \<Rightarrow> string \<Rightarrow> nat \<Rightarrow> IncidentSessionTarget list \<Rightarrow>
     (exn + TargetWriteResult) io" where
  "targets_write dump ts bootId generation targets =
     (if \<not> validWrite bootId generation targets then State_Monad.return
        (Inr \<lparr> tw_durable = False, tw_detail = ''incident session target store write refused'' \<rparr>)
      else
        (case serialize_targets dump bootId generation targets of
           Inl x \<Rightarrow> State_Monad.return (Inl x)
         | Inr content \<Rightarrow>
             if length content > kStoreMaxBytes then State_Monad.return
               (Inr \<lparr> tw_durable = False, tw_detail = ''incident session target store exceeds size bound'' \<rparr>)
             else do {
               r \<leftarrow> writeWithResult (targets_path ts) content (target_write_options ts);
               res \<leftarrow> finish_write (targets_path ts)
                 ''incident session target store write failed before replacement''
                 ''incident session target store durability is unproven'' r;
               State_Monad.return (Inr res)
             }))"

definition conditional_options :: "target_store \<Rightarrow> TargetReadResult \<Rightarrow> AtomicWriteOptions" where
  "conditional_options ts expected =
     (target_write_options ts)\<lparr>createIfMissing := (tr_provenance expected = TargetsAbsent),
       exclusiveCreate := (tr_provenance expected = TargetsAbsent),
       expectedTargetState := tr_provenState expected\<rparr>"

definition writeIfCurrent ::
    "json_dump \<Rightarrow> target_store \<Rightarrow> TargetReadResult \<Rightarrow> string \<Rightarrow> nat \<Rightarrow> IncidentSessionTarget list \<Rightarrow>
     (exn + TargetWriteResult) io" where
  "writeIfCurrent dump ts expected bootId generation targets =
     (if tr_provenance expected = TargetsUnprovable \<or>
         tr_provenance expected = TargetsProven \<and> tr_provenState expected = None
      then State_Monad.return
        (Inr \<lparr> tw_durable = False, tw_detail = ''target store predecessor is unproven'' \<rparr>)
      else if \<not> validWrite bootId generation targets then State_Monad.return
        (Inr \<lparr> tw_durable = False, tw_detail = ''incident session target store write refused'' \<rparr>)
      else
        (case serialize_targets dump bootId generation targets of
           Inl x \<Rightarrow> State_Monad.return (Inl x)
         | Inr content \<Rightarrow>
             if length content > kStoreMaxBytes then State_Monad.return
               (Inr \<lparr> tw_durable = False, tw_detail = ''incident session target store exceeds size bound'' \<rparr>)
             else do {
               r \<leftarrow> writeWithResult (targets_path ts) content (conditional_options ts expected);
               res \<leftarrow> finish_write (targets_path ts) ''conditional target write failed''
                 ''target durability is unproven'' r;
               State_Monad.return (Inr res)
             }))"

section \<open>The document is read back\<close>

lemma target_json_form:
  "target_json t = JObject
     [(''name'', JString (canonicalName t)),
      (''runtime_obligation'', JString (obligation_token (runtimeObligation t))),
      (''session_class'', JString (sessionClass t)), (''session_id'', JString (t_sessionId t)),
      (''session_start'', JUnsigned (sessionStartTimestamp t)), (''uid'', JUnsigned (t_uid t))]"
  by (simp add: target_json_def json_object_def less_char_def)

lemma targets_document_form:
  "targets_document b g ts = JObject
     [(''boot_id'', JString b), (''incident_generation'', JUnsigned g),
      (''lifecycle_marker'', JString ''fenced_before_severity''),
      (''schema_version'', JUnsigned kStoreSchemaVersion), (''targets'', JArray (map target_json ts))]"
  by (simp add: targets_document_def json_object_def less_char_def)

text \<open>The values of the C++ types: a 32-bit user id and a 64-bit time.\<close>

definition target_in_range :: "IncidentSessionTarget \<Rightarrow> bool" where
  "target_in_range t \<longleftrightarrow> t_uid t \<le> uid_max \<and> sessionStartTimestamp t < 2 ^ 64"

lemma document_canonical:
  assumes "g < 2 ^ 64" "\<forall>t \<in> set ts. target_in_range t"
  shows "json_canonical (targets_document b g ts)"
  using assms
  by (auto simp: targets_document_form target_json_form kStoreSchemaVersion_def target_in_range_def
      uid_max_def less_char_def)

lemma parse_target_json:
  assumes "target_in_range t"
  shows "parse_target (target_json t) = (if validTarget t then Some t else None)"
  using assms
  by (cases "runtimeObligation t")
     (auto simp: parse_target_def target_json_form member_unsigned_def member_string_def omap_find_def
      validTarget_def target_in_range_def)

lemma parse_target_list_map:
  assumes "\<forall>t \<in> set ts. target_in_range t"
  shows "parse_target_list (map target_json ts) = (if \<forall>t \<in> set ts. validTarget t then Some ts else None)"
  using assms by (induction ts) (auto simp: parse_target_json)

lemma all_valid_targets_iff:
  "all_valid_targets seen ts \<longleftrightarrow> (\<forall>t \<in> set ts. validTarget t) \<and> no_duplicates seen ts"
  by (induction seen ts rule: all_valid_targets.induct) auto

lemma no_duplicates_distinct:
  "no_duplicates seen ts \<longleftrightarrow> distinct (map t_uid ts) \<and> set seen \<inter> t_uid ` set ts = {}"
  by (induction seen ts rule: no_duplicates.induct) auto

lemma parse_document_document:
  assumes "\<forall>t \<in> set ts. target_in_range t"
  shows "parse_document (targets_document b g ts) = (if validWrite b g ts then Some (b, g, ts) else None)"
  using assms
  by (simp add: parse_document_def targets_document_form member_unsigned_def member_string_def omap_find_def
      parse_target_list_map validWrite_def all_valid_targets_iff)

text \<open>
  C20. The target store reads back exactly what it may write: the text written for a boot, a
  generation and a set of targets parses to these values when they pass the validation of a write,
  and is refused when they do not. The numbers are those of the C++ types and the JSON library
  reads back what it prints.
\<close>

theorem targets_read_back:
  assumes "json_roundtrip dump parse" "serialize_targets dump b g ts = Inr content"
    and "length content \<le> kStoreMaxBytes" "g < 2 ^ 64" "\<forall>t \<in> set ts. target_in_range t"
  shows "parse_targets parse content = (if validWrite b g ts then Some (b, g, ts) else None)"
proof -
  have "parse content = Inr (targets_document b g ts)"
    using assms(1,2) document_canonical[OF assms(4,5)] unfolding json_roundtrip_def serialize_targets_def by blast
  then show ?thesis
    using assms(3) parse_document_document[OF assms(5)] by (simp add: parse_targets_def)
qed

definition sample_target :: IncidentSessionTarget where
  "sample_target =
     \<lparr> t_uid = 1000, canonicalName = ''ann'', t_sessionId = ''c2'', sessionStartTimestamp = 7,
       sessionClass = ''user'', runtimeObligation = Pending \<rparr>"

definition sample_boot :: string where
  "sample_boot = ''01234567-89ab-cdef-0123-456789abcdef''"

lemma sample_validWrite: "validWrite sample_boot 3 [sample_target]"
  by code_simp

text \<open>A library that knows the text of one document.\<close>

definition one_dump :: "json \<Rightarrow> json_dump" where
  "one_dump j = (\<lambda>k. if k = j then Inr ''{}'' else Inl (RuntimeError ''dump''))"

definition one_parse :: "json \<Rightarrow> json_parse" where
  "one_parse j = (\<lambda>s. if s = ''{}'' then Inr j else Inl (RuntimeError ''parse''))"

lemma one_roundtrip: "json_roundtrip (one_dump j) (one_parse j)"
  by (auto simp: json_roundtrip_def one_dump_def one_parse_def split: if_splits)

theorem targets_read_back_witness:
  "parse_targets (one_parse (targets_document sample_boot 3 [sample_target])) ''{}'' =
     Some (sample_boot, 3, [sample_target])"
proof -
  let ?j = "targets_document sample_boot 3 [sample_target]"
  have "serialize_targets (one_dump ?j) sample_boot 3 [sample_target] = Inr ''{}''"
    by (simp add: serialize_targets_def one_dump_def)
  moreover have "length ''{}'' \<le> kStoreMaxBytes" by (simp add: kStoreMaxBytes_def)
  moreover have "\<forall>t \<in> set [sample_target]. target_in_range t"
    by (simp add: target_in_range_def sample_target_def uid_max_def)
  ultimately show ?thesis
    using targets_read_back[OF one_roundtrip, of ?j sample_boot 3 "[sample_target]" "''{}''"]
      sample_validWrite by simp
qed

end
