(* ===== verification/SecurityAudit.thy ===== *)
theory SecurityAudit
  imports Json "HOL-Library.Word"
begin

text \<open>
  Records of the security audit trail (\<open>fic-core/logging/SecurityAudit\<close>): the limit on strings, on
  whole records, the fallback for oversized records and the one-line form. The serializer of the
  JSON library is a parameter; it is called with the handler that replaces invalid bytes and does
  not throw. Appending to the file is not modelled.
\<close>

unbundle bit_operations_syntax

definition MAX_STRING_BYTES :: nat where
  "MAX_STRING_BYTES = 240"

definition MAX_RECORD_BYTES :: nat where
  "MAX_RECORD_BYTES = 16 * 1024"

definition TRUNCATION_MARKER :: string where
  "TRUNCATION_MARKER = ''...[truncated]''"

record PeerCredentials =
  peer_available :: bool
  peer_uid :: int
  peer_gid :: int
  peer_pid :: int
  peer_error :: string

section \<open>Limits on strings\<close>

definition jsonPointerToken :: "string \<Rightarrow> string" where
  "jsonPointerToken value =
     concat (map (\<lambda>ch. if ch = CHR ''~'' then ''~0'' else if ch = CHR ''/'' then ''~1'' else [ch]) value)"

text \<open>Moving back over the continuation bytes of UTF-8.\<close>

fun prefix_bytes :: "string \<Rightarrow> nat \<Rightarrow> nat" where
  "prefix_bytes value 0 = 0"
| "prefix_bytes value (Suc n) =
     (if (of_char (value ! Suc n) :: 8 word) AND 0xC0 = 0x80 then prefix_bytes value n else Suc n)"

definition limitString :: "string \<Rightarrow> string" where
  "limitString value =
     (if length value \<le> MAX_STRING_BYTES then value
      else take (prefix_bytes value (MAX_STRING_BYTES - length TRUNCATION_MARKER)) value @ TRUNCATION_MARKER)"

text \<open>The value with its strings limited, and the paths of those that were cut.\<close>

fun limitStrings :: "json \<Rightarrow> string \<Rightarrow> json \<times> string list"
  and limit_elements :: "json list \<Rightarrow> nat \<Rightarrow> string \<Rightarrow> json list \<times> string list"
  and limit_members :: "(string \<times> json) list \<Rightarrow> string \<Rightarrow> (string \<times> json) list \<times> string list" where
  "limitStrings (JString s) path =
     (if length s > MAX_STRING_BYTES
      then (JString (limitString s), [if path = '''' then ''/'' else path]) else (JString s, []))"
| "limitStrings (JArray js) path = (case limit_elements js 0 path of (ks, lost) \<Rightarrow> (JArray ks, lost))"
| "limitStrings (JObject ms) path = (case limit_members ms path of (ns, lost) \<Rightarrow> (JObject ns, lost))"
| "limitStrings j path = (j, [])"
| "limit_elements [] index path = ([], [])"
| "limit_elements (j # js) index path =
     (case limitStrings j (path @ ''/'' @ digits_of_nat index) of (k, lost) \<Rightarrow>
      case limit_elements js (Suc index) path of (ks, losts) \<Rightarrow> (k # ks, lost @ losts))"
| "limit_members [] path = ([], [])"
| "limit_members ((key, j) # ms) path =
     (case limitStrings j (path @ ''/'' @ jsonPointerToken key) of (k, lost) \<Rightarrow>
      case limit_members ms path of (ns, losts) \<Rightarrow> ((key, k) # ns, lost @ losts))"

section \<open>Records\<close>

text \<open>\<open>event["k"] = v\<close> on an object.\<close>

definition json_put :: "string \<Rightarrow> json \<Rightarrow> json \<Rightarrow> json" where
  "json_put k v j = (case j of JObject ms \<Rightarrow> JObject (omap_assign k v ms) | _ \<Rightarrow> j)"

definition limitedStringField :: "json \<Rightarrow> string \<Rightarrow> string" where
  "limitedStringField event field =
     (case json_member field event of Some (JString s) \<Rightarrow> limitString s | _ \<Rightarrow> '''')"

definition copy_string :: "string \<Rightarrow> json \<Rightarrow> json \<Rightarrow> json" where
  "copy_string field event fallback =
     (case json_member field event of
        Some (JString s) \<Rightarrow> json_put field (JString (limitString s)) fallback
      | _ \<Rightarrow> fallback)"

definition oversizeFallback :: "json \<Rightarrow> nat \<Rightarrow> json" where
  "oversizeFallback event originalSize =
     copy_string ''event'' event (copy_string ''command'' event (json_object
       [(''timestamp'', JString (limitedStringField event ''timestamp'')),
        (''component'', JString (limitedStringField event ''component'')),
        (''record_truncated'', JBool True), (''original_size_bytes'', JUnsigned originalSize)]))"

definition stamped_event :: "string \<Rightarrow> json \<Rightarrow> string \<Rightarrow> json" where
  "stamped_event component auditFields timestamp =
     (let event = (case auditFields of JObject _ \<Rightarrow> auditFields
                   | _ \<Rightarrow> json_object [(''event'', JString ''invalid_audit_fields'')])
      in json_put ''component'' (JString component) (json_put ''timestamp'' (JString timestamp) event))"

definition makeEvent :: "(json \<Rightarrow> string) \<Rightarrow> string \<Rightarrow> json \<Rightarrow> string \<Rightarrow> json" where
  "makeEvent dump component auditFields timestamp =
     (case limitStrings (stamped_event component auditFields timestamp) '''' of (limited, truncatedFields) \<Rightarrow>
        let event = (if truncatedFields \<noteq> []
                     then json_put ''truncated_fields'' (JArray (map JString truncatedFields)) limited
                     else limited);
            serializedSize = length (dump event)
        in if serializedSize > MAX_RECORD_BYTES then oversizeFallback event serializedSize else event)"

definition peer_json :: "PeerCredentials \<Rightarrow> json" where
  "peer_json peer =
     (if peer_available peer
      then json_object [(''available'', JBool True), (''uid'', JInteger (peer_uid peer)),
        (''gid'', JInteger (peer_gid peer)), (''pid'', JInteger (peer_pid peer))]
      else json_object [(''available'', JBool False), (''error'', JString (peer_error peer))])"

definition makeIpcEvent ::
    "(json \<Rightarrow> string) \<Rightarrow> string \<Rightarrow> PeerCredentials \<Rightarrow> string \<Rightarrow> json \<Rightarrow> bool \<Rightarrow> string \<Rightarrow> string \<Rightarrow> json" where
  "makeIpcEvent dump component peer command requestFields ok message timestamp =
     makeEvent dump component (json_object
       [(''peer'', peer_json peer), (''command'', JString command),
        (''request'', (case requestFields of JObject _ \<Rightarrow> requestFields | _ \<Rightarrow> JObject [])),
        (''result'', json_object [(''ok'', JBool ok), (''message'', JString message)])]) timestamp"

definition serializeJsonLine :: "(json \<Rightarrow> string) \<Rightarrow> json \<Rightarrow> string" where
  "serializeJsonLine dump event =
     (let line = dump event in
      if length line > MAX_RECORD_BYTES then dump (oversizeFallback event (length line)) else line)"

section \<open>Records are bounded and say when they are incomplete\<close>

text \<open>
  The longest text the library prints for a value: a byte of a string takes at most six (a control
  character is written as an escape, an invalid byte as a replacement character).
\<close>

fun printed_size :: "json \<Rightarrow> nat" where
  "printed_size JNull = 4"
| "printed_size (JBool b) = 5"
| "printed_size (JUnsigned n) = length (digits_of_nat n)"
| "printed_size (JInteger i) = length (digits_of_int i)"
| "printed_size JFloat = 32"
| "printed_size (JString s) = 2 + 6 * length s"
| "printed_size (JArray js) = 2 + sum_list (map (\<lambda>j. printed_size j + 1) js)"
| "printed_size (JObject ms) = 2 + sum_list (map (\<lambda>m. 6 * length (fst m) + printed_size (snd m) + 4) ms)"

definition compact_dump :: "(json \<Rightarrow> string) \<Rightarrow> bool" where
  "compact_dump dump \<longleftrightarrow> (\<forall>j. length (dump j) \<le> printed_size j)"

lemma prefix_bytes_le: "prefix_bytes value n \<le> n"
  by (induction n) auto

lemma limitString_length: "length (limitString s) \<le> MAX_STRING_BYTES"
  using prefix_bytes_le[of s "MAX_STRING_BYTES - length TRUNCATION_MARKER"]
  by (auto simp: limitString_def MAX_STRING_BYTES_def TRUNCATION_MARKER_def)

lemma limitedStringField_length: "length (limitedStringField e k) \<le> MAX_STRING_BYTES"
  using limitString_length by (auto simp: limitedStringField_def split: option.splits json.splits)

lemma digits_of_nat_length: "n < 10 ^ k \<Longrightarrow> 0 < k \<Longrightarrow> length (digits_of_nat n) \<le> k"
proof (induction n arbitrary: k rule: digits_of_nat.induct)
  case (1 n)
  show ?case
  proof (cases "n < 10")
    case False
    then have "k \<noteq> 0" "k \<noteq> 1" using "1.prems" by (auto intro: notI)
    then obtain k' where k: "k = Suc k'" "0 < k'" by (cases k) auto
    have "n div 10 < 10 ^ k'" using "1.prems"(1) k(1) by (simp add: less_mult_imp_div_less mult.commute)
    then show ?thesis using "1.IH"[OF _ _ k(2)] False k(1) by (simp add: digits_of_nat.simps[of n])
  qed (use "1.prems" in \<open>simp add: digits_of_nat.simps[of n]\<close>)
qed

lemma put_size:
  "printed_size (json_put k v (JObject ms)) \<le> printed_size (JObject ms) + 6 * length k + printed_size v + 4"
proof -
  have "sum_list (map f (omap_assign k v ms)) \<le> sum_list (map f ms) + f (k, v)" for f :: "string \<times> json \<Rightarrow> nat"
    by (induction k v ms rule: omap_assign.induct) auto
  from this[of "\<lambda>m. 6 * length (fst m) + printed_size (snd m) + 4"] show ?thesis
    by (simp add: json_put_def)
qed

lemma copy_string_size:
  "\<exists>ns. copy_string k e (JObject ms) = JObject ns \<and>
        printed_size (JObject ns) \<le> printed_size (JObject ms) + 6 * length k + 6 * MAX_STRING_BYTES + 6"
proof (cases "\<exists>s. json_member k e = Some (JString s)")
  case True
  then obtain s where s: "json_member k e = Some (JString s)" by blast
  have "6 * length (limitString s) \<le> 6 * MAX_STRING_BYTES" using limitString_length[of s] by simp
  then show ?thesis
    using put_size[of k "JString (limitString s)" ms] s by (simp add: copy_string_def json_put_def)
next
  case False
  then have "copy_string k e (JObject ms) = JObject ms"
    by (auto simp: copy_string_def split: option.splits json.splits)
  then show ?thesis by simp
qed

lemma fallback_size:
  assumes "n < 2 ^ 64"
  shows "printed_size (oversizeFallback e n) \<le> MAX_RECORD_BYTES"
proof -
  let ?base = "[(''component'', JString (limitedStringField e ''component'')),
      (''original_size_bytes'', JUnsigned n), (''record_truncated'', JBool True),
      (''timestamp'', JString (limitedStringField e ''timestamp''))]"
  have form: "json_object [(''timestamp'', JString (limitedStringField e ''timestamp'')),
      (''component'', JString (limitedStringField e ''component'')), (''record_truncated'', JBool True),
      (''original_size_bytes'', JUnsigned n)] = JObject ?base"
    by (simp add: json_object_def less_char_def)
  have "length (digits_of_nat n) \<le> 20" using assms by (intro digits_of_nat_length) simp_all
  then have base: "printed_size (JObject ?base) \<le> 12 * MAX_STRING_BYTES + 400"
    using limitedStringField_length[of e "''component''"] limitedStringField_length[of e "''timestamp''"]
    by simp
  obtain ns where ns: "copy_string ''command'' e (JObject ?base) = JObject ns"
    "printed_size (JObject ns) \<le> printed_size (JObject ?base) + 6 * 7 + 6 * MAX_STRING_BYTES + 6"
    using copy_string_size[of "''command''" e ?base] by auto
  obtain os where os: "copy_string ''event'' e (JObject ns) = JObject os"
    "printed_size (JObject os) \<le> printed_size (JObject ns) + 6 * 5 + 6 * MAX_STRING_BYTES + 6"
    using copy_string_size[of "''event''" e ns] by auto
  have "printed_size (JObject os) \<le> 24 * MAX_STRING_BYTES + 500" using ns(2) os(2) base by linarith
  then show ?thesis
    by (simp only: oversizeFallback_def form ns(1) os(1)) (simp add: MAX_STRING_BYTES_def MAX_RECORD_BYTES_def)
qed

lemma line_bounded:
  assumes "compact_dump dump" "length (dump e) < 2 ^ 64"
  shows "length (serializeJsonLine dump e) \<le> MAX_RECORD_BYTES"
proof -
  have "length (dump (oversizeFallback e (length (dump e)))) \<le> MAX_RECORD_BYTES"
    using assms fallback_size[OF assms(2), of e] le_trans unfolding compact_dump_def by blast
  then show ?thesis by (simp add: serializeJsonLine_def Let_def)
qed

lemma limit_nothing_lost:
  "limitStrings j path = (k, []) \<Longrightarrow> k = j"
  "limit_elements js index path = (ks, []) \<Longrightarrow> ks = js"
  "limit_members ms path = (ns, []) \<Longrightarrow> ns = ms"
  by (induction j path and js index path and ms path arbitrary: k and ks and ns
      rule: limitStrings_limit_elements_limit_members.induct)
     (auto split: if_splits prod.splits)

lemma limitStrings_object: "\<exists>ns. fst (limitStrings (JObject ms) path) = JObject ns"
  by (auto split: prod.splits)

lemma stamped_object: "\<exists>ms. stamped_event component auditFields timestamp = JObject ms"
  by (auto simp: stamped_event_def Let_def json_put_def json_object_def split: json.split)

lemma member_put: "json_member k (json_put k v (JObject ms)) = Some v"
  by (simp add: json_member_def json_put_def omap_find_assign)

lemma member_put_other: "k \<noteq> l \<Longrightarrow> json_member k (json_put l v j) = json_member k j"
  by (simp add: json_member_def json_put_def omap_find_assign split: json.split)

lemma fallback_marked: "json_member ''record_truncated'' (oversizeFallback e n) = Some (JBool True)"
proof -
  have "json_member ''record_truncated'' (copy_string k e j) = json_member ''record_truncated'' j"
    if "k \<noteq> ''record_truncated''" for k j
    using that by (auto simp: copy_string_def member_put_other split: option.split json.split)
  then show ?thesis by (simp add: oversizeFallback_def json_member_object)
qed


text \<open>A printer for the values that occur in audit records.\<close>

definition escaped :: "char \<Rightarrow> string" where
  "escaped ch =
     (if of_char ch < (0x20 :: nat) then [CHR 0x5C] @ ''u00'' @ [''01'' ! (of_char ch div 16), ''0123456789abcdef'' ! (of_char ch mod 16)]
      else if ch = CHR 0x22 \<or> ch = CHR 0x5C then [CHR 0x5C, ch] else [ch])"

fun commas :: "string list \<Rightarrow> string" where
  "commas [] = ''''"
| "commas [s] = s"
| "commas (s # t # ss) = s @ '','' @ commas (t # ss)"

fun sample_print :: "json \<Rightarrow> string" where
  "sample_print JNull = ''null''"
| "sample_print (JBool b) = (if b then ''true'' else ''false'')"
| "sample_print (JUnsigned n) = digits_of_nat n"
| "sample_print (JInteger i) = digits_of_int i"
| "sample_print JFloat = ''0.0''"
| "sample_print (JString s) = [CHR 0x22] @ concat (map escaped s) @ [CHR 0x22]"
| "sample_print (JArray js) = ''['' @ commas (map sample_print js) @ '']''"
| "sample_print (JObject ms) = ''{'' @ commas (map (\<lambda>m.
     [CHR 0x22] @ concat (map escaped (fst m)) @ [CHR 0x22] @ '':'' @ sample_print (snd m)) ms) @ ''}''"

lemma escaped_length: "length (concat (map escaped s)) \<le> 6 * length s"
proof (induction s)
  case (Cons c s)
  have "length (escaped c) \<le> 6" by (simp add: escaped_def)
  with Cons show ?case by simp
qed simp

lemma commas_length: "length (commas ss) \<le> sum_list (map (\<lambda>s. length s + 1) ss)"
  by (induction ss rule: commas.induct) auto

lemma sample_print_compact: "length (sample_print j) \<le> printed_size j"
proof (induction j rule: printed_size.induct)
  case (7 js)
  have "sum_list (map (\<lambda>j. length (sample_print j) + 1) js) \<le> sum_list (map (\<lambda>j. printed_size j + 1) js)"
    by (rule sum_list_mono) (use 7 in simp)
  then show ?case using commas_length[of "map sample_print js"] by (simp add: comp_def)
next
  case (8 ms)
  let ?p = "\<lambda>m. [CHR 0x22] @ concat (map escaped (fst m)) @ [CHR 0x22] @ '':'' @ sample_print (snd m)"
  have "length (?p m) + 1 \<le> 6 * length (fst m) + printed_size (snd m) + 4" if "m \<in> set ms" for m
    using 8[OF that] escaped_length[of "fst m"] by simp
  then have "sum_list (map (\<lambda>m. length (?p m) + 1) ms) \<le>
      sum_list (map (\<lambda>m. 6 * length (fst m) + printed_size (snd m) + 4) ms)"
    by (intro sum_list_mono) blast
  then show ?case using commas_length[of "map ?p ms"] by (simp add: comp_def)
qed (use escaped_length in auto)


end
