(* ===== verification/IoLogic.thy ===== *)
theory IoLogic
  imports FileSystem
begin

text \<open>
  Reasoning about code that makes system calls: a weakest precondition for the state monad, the
  rules for its combinators, and one rule per system call for processes that are not interfered
  with. The rules are written for a postcondition that is a variable, so that they chain by
  resolution. A world of a schedule without interference is described by its file system alone;
  every call may still fail, transfer less than asked for, or be the last one of the process.
\<close>

named_theorems wp_simps \<open>weakest preconditions of the monad's combinators\<close>
named_theorems io_rules \<open>rules for system calls and for the operations built from them\<close>

section \<open>Weakest preconditions\<close>

definition wp :: "('s, 'a) state \<Rightarrow> ('a \<Rightarrow> 's \<Rightarrow> bool) \<Rightarrow> 's \<Rightarrow> bool" where
  "wp m Q s \<longleftrightarrow> (case run_state m s of (a, t) \<Rightarrow> Q a t)"

lemma wp_return [wp_simps]: "wp (State_Monad.return x) Q = Q x"
  by (simp add: wp_def fun_eq_iff State_Monad.return_def)

lemma wp_bind [wp_simps]: "wp (State_Monad.bind m f) Q = wp m (\<lambda>a. wp (f a) Q)"
  by (simp add: wp_def fun_eq_iff State_Monad.bind_def split: prod.splits)

lemma wp_if: "wp (if b then m else n) Q w \<longleftrightarrow> (if b then wp m Q w else wp n Q w)"
  by simp

lemma wp_get [wp_simps]: "wp State_Monad.get Q = (\<lambda>s. Q s s)"
  by (simp add: wp_def fun_eq_iff State_Monad.get_def)

lemma wp_State: "wp (State g) Q s \<longleftrightarrow> (case g s of (a, t) \<Rightarrow> Q a t)"
  by (simp add: wp_def)

lemma wp_mono: "wp m P s \<Longrightarrow> (\<And>a t. P a t \<Longrightarrow> Q a t) \<Longrightarrow> wp m Q s"
  by (auto simp: wp_def)

lemma wpD: "wp m Q s \<Longrightarrow> run_state m s = (a, t) \<Longrightarrow> Q a t"
  by (simp add: wp_def)

lemma wpI: "(\<And>a t. run_state m s = (a, t) \<Longrightarrow> Q a t) \<Longrightarrow> wp m Q s"
  by (auto simp: wp_def split: prod.splits)

section \<open>Worlds without interference\<close>

text \<open>
  No other process acts, and \<open>ENOENT\<close> is only reported for an object that is not there: the callers
  take this error as a proof of absence.
\<close>

definition quiet_event :: "event \<Rightarrow> bool" where
  "quiet_event ev \<longleftrightarrow> (\<forall>f. interference ev f = f) \<and> fault_of ev \<noteq> Err ENOENT"

definition quiet :: "world \<Rightarrow> bool" where
  "quiet w \<longleftrightarrow> (\<forall>ev \<in> set (sched w). quiet_event ev)"

text \<open>The parts of a world that no system call changes, and a quiet world over a file system.\<close>

definition ids :: "world \<Rightarrow> string \<times> int \<times> int" where
  "ids w = (cwd w, euid w, egid w)"

definition at :: "string \<times> int \<times> int \<Rightarrow> fsys \<Rightarrow> world \<Rightarrow> bool" where
  "at c f w \<longleftrightarrow> quiet w \<and> fs w = f \<and> ids w = c"

lemma at_start: "quiet w \<Longrightarrow> at (ids w) (fs w) w"
  by (simp add: at_def)

lemma atD: "at c f w \<Longrightarrow> quiet w" "at c f w \<Longrightarrow> fs w = f" "at c f w \<Longrightarrow> ids w = c"
  by (simp_all add: at_def)

lemma at_errno [simp]: "at c f (w\<lparr>last_errno := e\<rparr>) = at c f w"
  by (simp add: at_def quiet_def ids_def)

text \<open>The outcome of a call: an error that changes nothing, or the effect of the operation.\<close>

lemma call_cases:
  assumes "at c f w" "call op w = (r, w')"
  obtains e where "r = Inl e" "e \<noteq> ENOENT" "at c f w'"
  | lim where "r = fst (op lim f)" "at c (snd (op lim f)) w'"
proof -
  have perf: "\<exists>lim. r = fst (op lim f) \<and> at c (snd (op lim f)) w'"
    if "perform op lim v = (r, w')" "at c f v" for lim v
    using that
    by (intro exI[of _ lim])
       (auto simp: perform_def at_def quiet_def ids_def split: prod.splits sum.splits)
  show thesis
  proof (cases "alive w")
    case False
    then show thesis using assms that(1) by (auto simp: call_def)
  next
    case live: True
    show thesis
    proof (cases "sched w")
      case Nil
      then show thesis using assms live perf that(2) by (auto simp: call_def)
    next
      case (Cons ev evs)
      let ?v = "w\<lparr>fs := interference ev (fs w), sched := evs\<rparr>"
      have v: "at c f ?v" and ev: "fault_of ev \<noteq> Err ENOENT"
        using assms(1) Cons by (auto simp: at_def quiet_def quiet_event_def ids_def)
      have alive: "at c f (?v\<lparr>last_errno := e, alive := False\<rparr>)" for e
        using v by (simp add: at_def quiet_def ids_def)
      show thesis
        using assms(2) live Cons perf[OF _ v] v ev alive that
        by (cases "fault_of ev") (auto simp: call_def Let_def)
    qed
  qed
qed

lemma wp_call:
  assumes "at c f w"
    and "\<And>e w'. e \<noteq> ENOENT \<Longrightarrow> at c f w' \<Longrightarrow> Q (Inl e) w'"
    and "\<And>lim w'. at c (snd (op lim f)) w' \<Longrightarrow> Q (fst (op lim f)) w'"
  shows "case call op w of (r, w') \<Rightarrow> Q r w'"
  using assms by (cases "call op w") (auto elim: call_cases)

lemma wp_syscall:
  assumes "at c f w"
    and "\<And>e w'. e \<noteq> ENOENT \<Longrightarrow> at c f w' \<Longrightarrow> Q (Inl e) w'"
    and "\<And>lim w'. at c (snd (op lim f)) w' \<Longrightarrow> Q (fst (op lim f)) w'"
  shows "wp (syscall op) Q w"
proof -
  have "case call op w of (r, w') \<Rightarrow> Q r w'"
    by (rule wp_call[OF assms(1)]) (fact assms)+
  then show ?thesis by (simp add: syscall_def wp_State)
qed

lemma wp_read_only:
  assumes "at c f w"
    and "\<And>e w'. e \<noteq> ENOENT \<Longrightarrow> at c f w' \<Longrightarrow> Q (Inl e) w'"
    and "\<And>w'. at c f w' \<Longrightarrow> Q (g f) w'"
  shows "wp (syscall (read_only g)) Q w"
  by (rule wp_syscall[OF assms(1)]) (simp_all add: read_only_def assms)

lemma wp_errnoMessage [io_rules]:
  assumes "at c f w" "\<And>msg. at c f w \<Longrightarrow> Q msg w"
  shows "wp errnoMessage Q w"
  using assms by (simp add: errnoMessage_def wp_State)

section \<open>Rules for the system calls\<close>

lemma wp_lstat [io_rules]:
  assumes "at c f w"
    and "\<And>e w'. e \<noteq> ENOENT \<Longrightarrow> at c f w' \<Longrightarrow> Q (Inl e) w'"
    and "\<And>e w'. lookup f p = Inl e \<Longrightarrow> at c f w' \<Longrightarrow> Q (Inl e) w'"
    and "\<And>i w'. lookup f p = Inr i \<Longrightarrow> at c f w' \<Longrightarrow> Q (Inr (stat_of f i)) w'"
  shows "wp (sys_lstat p) Q w"
  unfolding sys_lstat_def using assms
  by (intro wp_read_only[OF assms(1)]) (auto split: sum.splits simp: and_then_def)

lemma wp_stat [io_rules]:
  assumes "at c f w"
    and "\<And>e w'. e \<noteq> ENOENT \<Longrightarrow> at c f w' \<Longrightarrow> Q (Inl e) w'"
    and "\<And>e w'. follow link_limit f p = Inl e \<Longrightarrow> at c f w' \<Longrightarrow> Q (Inl e) w'"
    and "\<And>q i w'. follow link_limit f p = Inr (q, i) \<Longrightarrow> at c f w' \<Longrightarrow> Q (Inr (stat_of f i)) w'"
  shows "wp (sys_stat p) Q w"
  unfolding sys_stat_def using assms
  by (intro wp_read_only[OF assms(1)]) (auto split: sum.splits simp: and_then_def)

lemma wp_fstat [io_rules]:
  assumes "at c f w"
    and "\<And>e w'. e \<noteq> ENOENT \<Longrightarrow> at c f w' \<Longrightarrow> Q (Inl e) w'"
    and "\<And>w'. at c f w' \<Longrightarrow> Q (Inr (stat_of f i)) w'"
  shows "wp (sys_fstat i) Q w"
  unfolding sys_fstat_def using assms by (intro wp_read_only[OF assms(1)])

lemma wp_fstatat [io_rules]:
  assumes "at c f w"
    and "\<And>e w'. e \<noteq> ENOENT \<Longrightarrow> at c f w' \<Longrightarrow> Q (Inl e) w'"
    and "\<And>w'. dirents f (d, n) = None \<Longrightarrow> at c f w' \<Longrightarrow> Q (Inl ENOENT) w'"
    and "\<And>i w'. dirents f (d, n) = Some i \<Longrightarrow> at c f w' \<Longrightarrow> Q (Inr (stat_of f i)) w'"
  shows "wp (sys_fstatat d n) Q w"
  unfolding sys_fstatat_def using assms
  by (intro wp_read_only[OF assms(1)]) (auto split: option.splits simp: lookup_at_def)

lemma wp_open_nofollow [io_rules]:
  assumes "at c f w"
    and "\<And>e w'. e \<noteq> ENOENT \<Longrightarrow> at c f w' \<Longrightarrow> Q (Inl e) w'"
    and "\<And>e w'. lookup f p = Inl e \<Longrightarrow> at c f w' \<Longrightarrow> Q (Inl e) w'"
    and "\<And>i w'. lookup f p = Inr i \<Longrightarrow> at c f w' \<Longrightarrow> Q (Inr i) w'"
  shows "wp (sys_open_nofollow p) Q w"
  unfolding sys_open_nofollow_def op_open_nofollow_def using assms
  by (intro wp_read_only[OF assms(1)]) (auto split: sum.splits file_kind.splits simp: and_then_def)

lemma wp_openat_nofollow [io_rules]:
  assumes "at c f w"
    and "\<And>e w'. e \<noteq> ENOENT \<Longrightarrow> at c f w' \<Longrightarrow> Q (Inl e) w'"
    and "\<And>w'. dirents f (d, n) = None \<Longrightarrow> at c f w' \<Longrightarrow> Q (Inl ENOENT) w'"
    and "\<And>i w'. dirents f (d, n) = Some i \<Longrightarrow> at c f w' \<Longrightarrow> Q (Inr i) w'"
  shows "wp (sys_openat_nofollow d n) Q w"
  unfolding sys_openat_nofollow_def op_open_nofollow_def using assms
  by (intro wp_read_only[OF assms(1)])
     (auto split: option.splits file_kind.splits simp: lookup_at_def)

lemma wp_open_dir [io_rules]:
  assumes "at c f w"
    and "\<And>e w'. at c f w' \<Longrightarrow> Q (Inl e) w'"
    and "\<And>d w'. dir_node f q = Inr d \<Longrightarrow> nofollow \<longrightarrow> dirs f q = DirNode d \<Longrightarrow> at c f w' \<Longrightarrow>
           Q (Inr d) w'"
  shows "wp (sys_open_dir nofollow q) Q w"
proof -
  have "Q (case dirs f q of DirLink _ \<Rightarrow> if nofollow then Inl ENOTDIR else dir_node f q
           | _ \<Rightarrow> dir_node f q) w'" if "at c f w'" for w'
    using assms(2,3) that
    by (cases "dir_node f q") (auto split: dir_lookup.splits simp: dir_node_def)
  then show ?thesis
    unfolding sys_open_dir_def op_open_dir_def using assms
    by (intro wp_read_only[OF assms(1)]) auto
qed

lemma wp_close [io_rules]:
  assumes "at c f w" "\<And>r w'. at c f w' \<Longrightarrow> Q r w'"
  shows "wp (sys_close i) Q w"
  unfolding sys_close_def using assms by (intro wp_read_only[OF assms(1)])

lemma wp_fs_absolute [io_rules]:
  assumes "at c f w"
    and "\<And>e w'. at c f w' \<Longrightarrow> Q (Inl e) w'"
    and "\<And>q w'. absolute_path (fst c) p = Inr q \<Longrightarrow> at c f w' \<Longrightarrow> Q (Inr q) w'"
  shows "wp (fs_absolute p) Q w"
proof -
  have "cwd w = fst c" using assms(1) by (auto simp: at_def ids_def)
  then have "case call (read_only (\<lambda>f. absolute_path (fst c) p)) w of (r, w') \<Rightarrow> Q r w'"
    using assms
    by (intro wp_call[OF assms(1)]; cases "absolute_path (fst c) p") (auto simp: read_only_def)
  then show ?thesis using \<open>cwd w = fst c\<close> by (simp add: fs_absolute_def wp_State)
qed

lemma wp_fs_canonical [io_rules]:
  assumes "at c f w"
    and "\<And>e w'. at c f w' \<Longrightarrow> Q (Inl e) w'"
    and "\<And>q w'. canonical_path (fst c) f p = Inr q \<Longrightarrow> at c f w' \<Longrightarrow> Q (Inr q) w'"
  shows "wp (fs_canonical p) Q w"
proof -
  have "cwd w = fst c" using assms(1) by (auto simp: at_def ids_def)
  then have "case call (read_only (\<lambda>f. canonical_path (fst c) f p)) w of (r, w') \<Rightarrow> Q r w'"
    using assms
    by (intro wp_call[OF assms(1)]; cases "canonical_path (fst c) f p") (auto simp: read_only_def)
  then show ?thesis using \<open>cwd w = fst c\<close> by (simp add: fs_canonical_def wp_State)
qed

lemma wp_effect:
  assumes "at c f w"
    and "\<And>e w'. at c f w' \<Longrightarrow> Q (Inl e) w'"
    and "\<And>lim. op lim f = (Inr x, g)"
    and "\<And>w'. at c g w' \<Longrightarrow> Q (Inr x) w'"
  shows "wp (syscall op) Q w"
  using assms by (intro wp_syscall[OF assms(1)]) auto

lemma wp_fsync [io_rules]:
  assumes "at c f w"
    and "\<And>e w'. at c f w' \<Longrightarrow> Q (Inl e) w'"
    and "\<And>w'. at c (snd (op_fsync i None f)) w' \<Longrightarrow> Q (Inr ()) w'"
  shows "wp (sys_fsync i) Q w"
  unfolding sys_fsync_def
  by (rule wp_effect[OF assms(1,2) _ assms(3)]) (simp_all add: op_fsync_def Let_def)

lemma wp_fchown [io_rules]:
  assumes "at c f w"
    and "\<And>e w'. at c f w' \<Longrightarrow> Q (Inl e) w'"
    and "\<And>w'. at c (snd (op_fchown i u g None f)) w' \<Longrightarrow> Q (Inr ()) w'"
  shows "wp (sys_fchown i u g) Q w"
  unfolding sys_fchown_def
  by (rule wp_effect[OF assms(1,2) _ assms(3)]) (simp_all add: op_fchown_def)

lemma wp_fchmod [io_rules]:
  assumes "at c f w"
    and "\<And>e w'. at c f w' \<Longrightarrow> Q (Inl e) w'"
    and "\<And>w'. at c (snd (op_fchmod i m None f)) w' \<Longrightarrow> Q (Inr ()) w'"
  shows "wp (sys_fchmod i m) Q w"
  unfolding sys_fchmod_def
  by (rule wp_effect[OF assms(1,2) _ assms(3)]) (simp_all add: op_fchmod_def)

section \<open>Updates of the file system\<close>

lemma set_inode_simps [simp]:
  "dirents (set_inode i n f) = dirents f" "durables (set_inode i n f) = durables f"
  "inodes (set_inode i n f) = (inodes f)(i := n)" "dirs (set_inode i n f) = dirs f"
  "next_ino (set_inode i n f) = next_ino f" "clock (set_inode i n f) = clock f"
  by (simp_all add: set_inode_def)

lemma set_dirent_simps [simp]:
  "dirents (set_dirent e v f) = (dirents f)(e := v)"
  "durables (set_dirent e v f) = (durables f)(e := insert v (durables f e))"
  "inodes (set_dirent e v f) = inodes f" "dirs (set_dirent e v f) = dirs f"
  "next_ino (set_dirent e v f) = next_ino f" "clock (set_dirent e v f) = clock f"
  by (simp_all add: set_dirent_def)

lemma set_inode_twice [simp]: "set_inode i m (set_inode i n f) = set_inode i m f"
  by (simp add: set_inode_def)

lemma dir_node_cong:
  assumes "dirs g = dirs f"
  shows "dir_node g q = dir_node f q"
  unfolding dir_node_def assms ..

lemma locate_cong: "dirs g = dirs f \<Longrightarrow> locate g p = locate f p"
  by (simp add: locate_def dir_node_cong[of g f])

definition with_temp :: "fsys \<Rightarrow> dirent \<Rightarrow> inode \<Rightarrow> fsys" where
  "with_temp f t n =
     set_dirent t (Some (next_ino f)) (set_inode (next_ino f) n (f\<lparr>next_ino := Suc (next_ino f)\<rparr>))"

lemma with_temp_simps [simp]:
  "dirents (with_temp f t n) = (dirents f)(t := Some (next_ino f))"
  "durables (with_temp f t n) = (durables f)(t := insert (Some (next_ino f)) (durables f t))"
  "inodes (with_temp f t n) = (inodes f)(next_ino f := n)" "dirs (with_temp f t n) = dirs f"
  "next_ino (with_temp f t n) = Suc (next_ino f)" "clock (with_temp f t n) = clock f"
  by (simp_all add: with_temp_def)

lemma set_inode_with_temp: "set_inode (next_ino f) m (with_temp f t n) = with_temp f t m"
  by (simp add: with_temp_def set_dirent_def set_inode_def)

lemma wp_mkstemp [io_rules]:
  assumes "at c f w"
    and "\<And>e w'. at c f w' \<Longrightarrow> Q (Inl e) w'"
    and "\<And>t n w'. locate f (temp_name tmpl (next_ino f)) = Inr t \<Longrightarrow> dirents f t = None \<Longrightarrow>
           i_kind n = Reg \<Longrightarrow> i_nlink n = 1 \<Longrightarrow> i_data n = '''' \<Longrightarrow> at c (with_temp f t n) w' \<Longrightarrow>
           Q (Inr (next_ino f, temp_name tmpl (next_ino f))) w'"
  shows "wp (sys_mkstemp tmpl) Q w"
proof -
  have "case call (op_mkstemp (euid w) (egid w) tmpl) w of (r, w') \<Rightarrow> Q r w'"
  proof (rule wp_call[OF assms(1)])
    fix lim w'
    let ?r = "op_mkstemp (euid w) (egid w) tmpl lim f"
    assume w': "at c (snd ?r) w'"
    show "Q (fst ?r) w'"
    proof (cases "locate f (temp_name tmpl (next_ino f))")
      case (Inl e)
      then show ?thesis using w' assms(2) by (simp add: op_mkstemp_def Let_def)
    next
      case (Inr t)
      show ?thesis
      proof (cases "dirents f t")
        case None
        then show ?thesis using Inr w'
          by (auto simp: op_mkstemp_def Let_def with_temp_def intro!: assms(3))
      qed (use Inr w' assms(2) in \<open>simp add: op_mkstemp_def Let_def\<close>)
    qed
  qed (use assms in blast)
  then show ?thesis by (simp add: sys_mkstemp_def wp_State)
qed

lemma wp_rename [io_rules]:
  assumes "at c f w"
    and "\<And>e w'. at c f w' \<Longrightarrow> Q (Inl e) w'"
    and "\<And>a b i w'. locate f old = Inr a \<Longrightarrow> locate f new = Inr b \<Longrightarrow> dirents f a = Some i \<Longrightarrow>
           noreplace \<longrightarrow> dirents f b = None \<Longrightarrow> at c (rename_entry a b i f) w' \<Longrightarrow> Q (Inr ()) w'"
  shows "wp (sys_rename noreplace old new) Q w"
  unfolding sys_rename_def
proof (rule wp_syscall[OF assms(1)])
  fix lim w'
  assume w': "at c (snd (op_rename noreplace old new lim f)) w'"
  show "Q (fst (op_rename noreplace old new lim f)) w'"
    using w' assms(2,3)
    by (auto simp: op_rename_def split: sum.splits option.splits if_splits)
qed (use assms in blast)

lemma wp_link [io_rules]:
  assumes "at c f w"
    and "\<And>e w'. at c f w' \<Longrightarrow> Q (Inl e) w'"
    and "\<And>a b i w'. locate f old = Inr a \<Longrightarrow> locate f new = Inr b \<Longrightarrow> dirents f a = Some i \<Longrightarrow>
           dirents f b = None \<Longrightarrow> at c (set_dirent b (Some i) (add_links i f)) w' \<Longrightarrow> Q (Inr ()) w'"
  shows "wp (sys_link old new) Q w"
  unfolding sys_link_def
proof (rule wp_syscall[OF assms(1)])
  fix lim w'
  assume w': "at c (snd (op_link old new lim f)) w'"
  show "Q (fst (op_link old new lim f)) w'"
    using w' assms(2,3)
    by (auto simp: op_link_def split: sum.splits option.splits if_splits)
qed (use assms in blast)

lemma wp_unlink [io_rules]:
  assumes "at c f w"
    and "\<And>e w'. at c f w' \<Longrightarrow> Q (Inl e) w'"
    and "\<And>t i w'. locate f p = Inr t \<Longrightarrow> dirents f t = Some i \<Longrightarrow>
           at c (set_dirent t None (drop_link (Some i) f)) w' \<Longrightarrow> Q (Inr ()) w'"
  shows "wp (sys_unlink p) Q w"
  unfolding sys_unlink_def
proof (rule wp_syscall[OF assms(1)])
  fix lim w'
  assume w': "at c (snd (op_unlink p lim f)) w'"
  show "Q (fst (op_unlink p lim f)) w'"
    using w' assms(2,3)
    by (auto simp: op_unlink_def op_unlink_at_def split: sum.splits option.splits if_splits)
qed (use assms in blast)

lemma wp_unlinkat [io_rules]:
  assumes "at c f w"
    and "\<And>e w'. at c f w' \<Longrightarrow> Q (Inl e) w'"
    and "\<And>i w'. dirents f (d, n) = Some i \<Longrightarrow>
           at c (set_dirent (d, n) None (drop_link (Some i) f)) w' \<Longrightarrow> Q (Inr ()) w'"
  shows "wp (sys_unlinkat d n) Q w"
  unfolding sys_unlinkat_def
proof (rule wp_syscall[OF assms(1)])
  fix lim w'
  assume w': "at c (snd (op_unlink_at (d, n) lim f)) w'"
  show "Q (fst (op_unlink_at (d, n) lim f)) w'"
    using w' assms(2,3)
    by (auto simp: op_unlink_at_def split: option.splits if_splits)
qed (use assms in blast)

section \<open>Well-formed file systems\<close>

text \<open>
  Every inode number in use, now or after a power loss, has been allocated; the current value of an
  entry is among the values it may have after a power loss; and directory lookups lead to
  directories.
\<close>

definition fs_wf :: "fsys \<Rightarrow> bool" where
  "fs_wf f \<longleftrightarrow>
     (\<forall>e i. Some i \<in> durables f e \<longrightarrow> i < next_ino f) \<and>
     (\<forall>e. dirents f e \<in> durables f e) \<and>
     (\<forall>q d. dirs f q = DirNode d \<longrightarrow> d < next_ino f \<and> i_kind (inodes f d) = Dir)"

lemma fs_wf_durable: "fs_wf f \<Longrightarrow> Some i \<in> durables f e \<Longrightarrow> i < next_ino f"
  unfolding fs_wf_def by blast

lemma fs_wf_current: "fs_wf f \<Longrightarrow> dirents f e \<in> durables f e"
  unfolding fs_wf_def by blast

lemma fs_wf_entry: "fs_wf f \<Longrightarrow> dirents f e = Some i \<Longrightarrow> i < next_ino f"
  by (metis fs_wf_current fs_wf_durable)

lemma fs_wf_node: "fs_wf f \<Longrightarrow> dirs f q = DirNode d \<Longrightarrow> d < next_ino f \<and> i_kind (inodes f d) = Dir"
  unfolding fs_wf_def by blast

lemma fs_wfI:
  assumes "\<And>e i. Some i \<in> durables f e \<Longrightarrow> i < next_ino f"
    and "\<And>e. dirents f e \<in> durables f e"
    and "\<And>q d. dirs f q = DirNode d \<Longrightarrow> d < next_ino f \<and> i_kind (inodes f d) = Dir"
  shows "fs_wf f"
  unfolding fs_wf_def using assms by blast

lemma fs_wf_dir: "fs_wf f \<Longrightarrow> dir_node f q = Inr d \<Longrightarrow> d < next_ino f \<and> i_kind (inodes f d) = Dir"
  by (auto simp: dir_node_def fs_wf_def split: dir_lookup.splits)

lemma fs_wf_with_temp: "fs_wf f \<Longrightarrow> fs_wf (with_temp f t n)"
  by (auto simp: fs_wf_def less_SucI)

lemma fs_wf_set_inode:
  assumes "fs_wf f" "i_kind n = i_kind (inodes f i)"
  shows "fs_wf (set_inode i n f)"
  using assms by (auto simp: fs_wf_def)

lemma fs_wf_set_dirent:
  assumes "fs_wf f" "\<And>i. v = Some i \<Longrightarrow> i < next_ino f"
  shows "fs_wf (set_dirent e v f)"
  using assms by (auto simp: fs_wf_def)

lemma fs_wf_drop_link: "fs_wf f \<Longrightarrow> fs_wf (drop_link v f)"
  by (cases v) (simp_all add: drop_link_def fs_wf_set_inode)

lemma fs_wf_add_links: "fs_wf f \<Longrightarrow> fs_wf (add_links i f)"
  by (simp add: add_links_def fs_wf_set_inode)

lemma fs_wf_fsync: "fs_wf f \<Longrightarrow> fs_wf (snd (op_fsync i lim f))"
  by (rule fs_wfI)
     (auto simp: op_fsync_def Let_def dest: fs_wf_durable fs_wf_node fs_wf_entry[OF _ sym]
       intro: fs_wf_current split: if_splits)

lemma fs_wf_rename:
  assumes "fs_wf f" "dirents f a = Some i"
  shows "fs_wf (rename_entry a b i f)"
proof -
  have "i < next_ino f" using assms by (rule fs_wf_entry)
  then show ?thesis
    using assms(1)
    by (auto simp: rename_entry_def drop_link_def split: option.splits
        intro!: fs_wf_set_dirent fs_wf_set_inode)
qed

end
