(* ===== verification/AtomicFileProps.thy ===== *)
theory AtomicFileProps
  imports AtomicFile IoLogic
begin

text \<open>
  What the atomic file writer guarantees when no other process interferes, whatever system calls
  fail and wherever the process or the machine stops: the loops move all data or report a failure, a
  refused replacement leaves the target as it was, a published one carries exactly the new content
  with its data already on the disk, a confirmed one survives a power loss, and the conditional
  removal removes nothing but the expected file.
\<close>

declare split_paired_All [simp del] split_paired_Ex [simp del]

section \<open>The loops\<close>

text \<open>The part of an inode that writing its data does not change.\<close>

definition same_meta :: "inode \<Rightarrow> inode \<Rightarrow> bool" where
  "same_meta m n \<longleftrightarrow>
     i_kind m = i_kind n \<and> i_dev m = i_dev n \<and> i_mode m = i_mode n \<and> i_uid m = i_uid n \<and>
     i_gid m = i_gid n \<and> i_nlink m = i_nlink n"

lemma same_meta_refl [simp]: "same_meta n n"
  by (simp add: same_meta_def)

lemma same_meta_trans: "same_meta a b \<Longrightarrow> same_meta b c \<Longrightarrow> same_meta a c"
  by (simp add: same_meta_def)

lemma set_inode_same: "set_inode i (inodes f i) f = f"
  by (simp add: set_inode_def)

lemma take_length_take: "take (length (take k xs)) xs = take k xs"
  by (simp add: min_def)

lemma writeAll_post:
  assumes "writeAll fd off s w = (r, w')" "at c f w" "length (i_data (inodes f fd)) = off"
  shows "\<exists>n. at c (set_inode fd n f) w' \<and> same_meta n (inodes f fd) \<and>
           (r \<longrightarrow> i_data n = i_data (inodes f fd) @ s)"
  using assms
proof (induction fd off s w arbitrary: f rule: writeAll.induct)
  case (1 fd off s w)
  obtain x v where x: "call (op_write fd off s) w = (x, v)" by force
  show ?case
  proof (cases "s = []")
    case True
    then show ?thesis using 1(3-5)
      by (intro exI[of _ "inodes f fd"]) (simp add: writeAll.simps set_inode_same)
  next
    case s: False
    from 1(4) x show ?thesis
    proof (cases rule: call_cases)
      case (1 e)
      then show ?thesis
      proof (cases "e = EINTR")
        case True
        then show ?thesis using "1.IH"(1)[OF s x[symmetric]] 1 "1.prems" s x
          by (auto simp: writeAll.simps[of fd off s w])
      next
        case False
        then show ?thesis using 1 "1.prems" s x
          by (intro exI[of _ "inodes f fd"]) (auto simp: writeAll.simps[of fd off s w] set_inode_same)
      qed
    next
      case (2 lim)
      define k where "k = (case lim of None \<Rightarrow> length s | Some n \<Rightarrow> n)"
      define j where "j = length (take k s)"
      have tk: "take j s = take k s" by (simp only: j_def take_length_take)
      define m where "m = (inodes f fd)\<lparr>i_data := i_data (inodes f fd) @ take j s,
        i_mtime := clock f, i_ctime := clock f, i_synced := False\<rparr>"
      have op: "op_write fd off s lim f = (Inr j, set_inode fd m f)"
        using "1.prems"(3) unfolding m_def tk unfolding j_def op_write_def Let_def k_def write_at_def
        by simp
      have m: "same_meta m (inodes f fd)" "i_data m = i_data (inodes f fd) @ take j s"
        by (simp_all add: m_def same_meta_def)
      have j: "length (take j s) = j" by (simp add: j_def)
      have xj: "x = Inr j" and v: "at c (set_inode fd m f) v" using 2 op by simp_all
      show ?thesis
      proof (cases "j = 0")
        case True
        then have "writeAll fd off s w = (False, v\<lparr>last_errno := EIO\<rparr>)"
          using s x xj by (simp add: writeAll.simps[of fd off s w])
        then show ?thesis using v m "1.prems"(1) by (intro exI[of _ m]) auto
      next
        case False
        have rec: "writeAll fd (off + j) (drop j s) v = (r, w')"
          using "1.prems"(1) s x xj False by (simp add: writeAll.simps[of fd off s w])
        have len: "length (i_data (inodes (set_inode fd m f) fd)) = off + j"
          using m j "1.prems"(3) by simp
        from "1.IH"(2)[OF s x[symmetric] xj False rec v len]
        obtain n where "at c (set_inode fd n f) w'" "same_meta n m"
          "r \<longrightarrow> i_data n = i_data m @ drop j s"
          by auto
        then show ?thesis
          using m same_meta_trans by (intro exI[of _ n]) auto
      qed
    qed
  qed
qed

lemma op_read_chunk:
  "\<exists>k. op_read fd off len lim f = (Inr (take k (drop off (i_data (inodes f fd)))), f) \<and> k \<le> len \<and>
       (0 < len \<longrightarrow> 0 < k)"
  by (cases lim) (auto simp: op_read_def)

text \<open>A read of a file that nobody changes returns a piece of its data, empty only at the end.\<close>

lemma call_read_cases:
  assumes "at c f w" "call (op_read fd off len) w = (r, w')"
  obtains e where "r = Inl e" "at c f w'"
  | k where "r = Inr (take k (drop off (i_data (inodes f fd))))" "at c f w'" "k \<le> len"
      "0 < len \<longrightarrow> 0 < k"
  using assms(1,2)
proof (cases rule: call_cases)
  case (2 lim)
  then show thesis using op_read_chunk[of fd off len lim f] that(2) by auto
qed (use that in blast)

lemma buffer_size_pos [simp]: "0 < buffer_size"
  by (simp add: buffer_size_def)

lemma compare_content_post:
  assumes "compare_content fd x off w = (r, w')" "at c f w"
    and "off \<le> length x" "take off x = take off (i_data (inodes f fd))" "off \<le> length (i_data (inodes f fd))"
  shows "at c f w' \<and> (r = Inr True \<longrightarrow> x = i_data (inodes f fd))"
  using assms
proof (induction fd x off w rule: compare_content.induct)
  case (1 fd x off w)
  let ?d = "i_data (inodes f fd)"
  obtain y v where y: "call (op_read fd off buffer_size) w = (y, v)" by force
  from "1.prems"(2) y show ?case
  proof (cases rule: call_read_cases)
    case (1 e)
    then show ?thesis using "1.prems" "1.IH"(1)[OF y[symmetric]] y
      by (auto simp: compare_content.simps[of fd x off w] split: if_splits)
  next
    case (2 k)
    let ?c = "take k (drop off ?d)"
    have k: "0 < k" using 2 by simp
    show ?thesis
    proof (cases "?c = []")
      case True
      then have "length ?d = off" using k "1.prems"(5) by auto
      then have "x = ?d" if "off = length x" using that "1.prems"(4) by simp
      then show ?thesis using "1.prems"(1) y 2 True
        by (auto simp: compare_content.simps[of fd x off w])
    next
      case c: False
      show ?thesis
      proof (cases "off + length ?c > length x \<or> take (length ?c) (drop off x) \<noteq> ?c")
        case True
        then show ?thesis using "1.prems"(1) y 2 c
          by (auto simp: compare_content.simps[of fd x off w])
      next
        case False
        have rec: "compare_content fd x (off + length ?c) v = (r, w')"
          using "1.prems"(1) y 2(1) c False by (simp add: compare_content.simps[of fd x off w])
        have "take (off + length ?c) x = take (off + length ?c) ?d"
          using "1.prems"(4) False unfolding take_add by (simp only: take_length_take) simp
        moreover have "off + length ?c \<le> length ?d" using "1.prems"(5) by simp
        ultimately show ?thesis
          using "1.IH"(2)[OF y[symmetric] 2(1) c False rec 2(2)] False by simp
      qed
    qed
  qed
qed

lemma read_all_post:
  assumes "read_all fd s w = (r, w')" "at c f w"
    and "s = take (length s) (i_data (inodes f fd))"
  shows "at c f w' \<and> (\<forall>x. r = Inr x \<longrightarrow> x = i_data (inodes f fd))"
  using assms
proof (induction fd s w rule: read_all.induct)
  case (1 fd s w)
  let ?d = "i_data (inodes f fd)"
  obtain y v where y: "call (op_read fd (length s) buffer_size) w = (y, v)" by force
  from "1.prems"(2) y show ?case
  proof (cases rule: call_read_cases)
    case (1 e)
    then show ?thesis using "1.prems" "1.IH"(1)[OF y[symmetric]] y
      by (auto simp: read_all.simps[of fd s w] split: if_splits)
  next
    case (2 k)
    let ?c = "take k (drop (length s) ?d)"
    show ?thesis
    proof (cases "?c = []")
      case True
      then have "length ?d \<le> length s" using 2 by auto
      then have "s = ?d" using "1.prems"(3) by simp
      moreover have "read_all fd s w = (Inr s, v)"
        using y 2(1) True by (simp add: read_all.simps[of fd s w])
      ultimately show ?thesis using "1.prems"(1) 2(2) by auto
    next
      case c: False
      have rec: "read_all fd (s @ ?c) v = (r, w')"
        using "1.prems"(1) y 2(1) c by (simp add: read_all.simps[of fd s w])
      have "s @ ?c = take (length (s @ ?c)) ?d"
        using "1.prems"(3) unfolding length_append take_add take_length_take by simp
      then show ?thesis by (rule "1.IH"(2)[OF y[symmetric] 2(1) c rec 2(2)])
    qed
  qed
qed

lemma wp_writeAll [io_rules]:
  assumes "at c f w" "i_data (inodes f fd) = ''''"
    and "\<And>r n w'. at c (set_inode fd n f) w' \<Longrightarrow> same_meta n (inodes f fd) \<Longrightarrow>
           r \<longrightarrow> i_data n = s \<Longrightarrow> Q r w'"
  shows "wp (State (writeAll fd 0 s)) Q w"
  using assms writeAll_post[of fd 0 s w _ _ c f] by (fastforce simp: wp_State split: prod.splits)

lemma wp_compare_content [io_rules]:
  assumes "at c f w"
    and "\<And>r w'. at c f w' \<Longrightarrow> r = Inr True \<longrightarrow> x = i_data (inodes f fd) \<Longrightarrow> Q r w'"
  shows "wp (State (compare_content fd x 0)) Q w"
  using assms compare_content_post[of fd x 0 w _ _ c f] by (fastforce simp: wp_State split: prod.splits)

lemma wp_read_all [io_rules]:
  assumes "at c f w"
    and "\<And>e w'. at c f w' \<Longrightarrow> Q (Inl e) w'"
    and "\<And>w'. at c f w' \<Longrightarrow> Q (Inr (i_data (inodes f fd))) w'"
  shows "wp (State (read_all fd [])) Q w"
proof -
  obtain r w' where run: "read_all fd [] w = (r, w')" by force
  then have "at c f w' \<and> (\<forall>x. r = Inr x \<longrightarrow> x = i_data (inodes f fd))"
    using read_all_post[of fd "[]" w r w' c f] assms(1) by simp
  then show ?thesis using run assms(2,3) by (cases r) (auto simp: wp_State)
qed

section \<open>The precondition\<close>

text \<open>What a passed check means: the path names the captured object, unchanged.\<close>

definition holds_state :: "fsys \<Rightarrow> nat \<Rightarrow> AtomicTargetState \<Rightarrow> bool" where
  "holds_state f i x \<longleftrightarrow> stat_matches x (stat_of f i) \<and> ts_content x = i_data (inodes f i)"

definition target_as_expected :: "fsys \<Rightarrow> string \<Rightarrow> AtomicWriteOptions \<Rightarrow> bool" where
  "target_as_expected f p opts \<longleftrightarrow>
     (\<forall>x. expectedTargetIdentity opts = Some x \<longrightarrow>
        (\<exists>i. lookup f p = Inr i \<and> i_kind (inodes f i) = Reg \<and> i_dev (inodes f i) = device x \<and>
             i = inode_no x)) \<and>
     (\<forall>x. expectedTargetState opts = Some x \<longrightarrow> (\<exists>i. lookup f p = Inr i \<and> holds_state f i x))"

lemma wp_closeFd [io_rules]:
  assumes "at c f w" "\<And>r w'. at c f w' \<Longrightarrow> Q r w'"
  shows "wp (closeFd fd) Q w"
proof (cases fd)
  case None
  then show ?thesis using assms by (simp add: closeFd_def wp_simps)
next
  case (Some i)
  show ?thesis unfolding Some closeFd_def option.case wp_simps
    by (rule wp_close[OF assms(1)]) (rule assms(2))
qed

lemma wp_matchesExpectedIdentity:
  assumes "at c f w"
    and "\<And>r w'. at c f w' \<Longrightarrow>
           r \<longrightarrow> (\<forall>x. expectedTargetIdentity opts = Some x \<longrightarrow>
             (\<exists>i. lookup f p = Inr i \<and> i_kind (inodes f i) = Reg \<and> i_dev (inodes f i) = device x \<and>
                  i = inode_no x)) \<Longrightarrow> Q r w'"
  shows "wp (matchesExpectedIdentity p opts) Q w"
proof (cases "expectedTargetIdentity opts")
  case None
  then show ?thesis using assms by (simp add: matchesExpectedIdentity_def wp_simps)
next
  case (Some x)
  show ?thesis
    unfolding matchesExpectedIdentity_def Some option.case wp_simps
    by (rule wp_lstat[OF assms(1)]) (auto intro!: assms(2) simp: Some)
qed

lemma wp_matchesExpectedState:
  assumes "at c f w"
    and "\<And>r w'. at c f w' \<Longrightarrow>
           r \<longrightarrow> (\<forall>x. expectedTargetState opts = Some x \<longrightarrow>
             (\<exists>i. lookup f p = Inr i \<and> holds_state f i x)) \<Longrightarrow> Q r w'"
  shows "wp (matchesExpectedState p opts) Q w"
proof (cases "expectedTargetState opts")
  case None
  then show ?thesis using assms by (simp add: matchesExpectedState_def wp_simps)
next
  case (Some x)
  have no: "Q False w'" if "at c f w'" for w' using that assms(2) by simp
  show ?thesis
    unfolding matchesExpectedState_def Some option.case wp_simps
    by (insert assms(1), (rule wp_open_nofollow wp_fstat wp_compare_content wp_closeFd, assumption
        | rule no, assumption | simp add: wp_simps no | intro conjI impI)+,
        auto split: sum.splits intro!: assms(2) simp: holds_state_def Some)
qed

lemma wp_matchesExpectedTarget [io_rules]:
  assumes "at c f w"
    and "\<And>w'. at c f w' \<Longrightarrow> Q False w'"
    and "\<And>w'. at c f w' \<Longrightarrow> target_as_expected f p opts \<Longrightarrow> Q True w'"
  shows "wp (matchesExpectedTarget p opts) Q w"
  unfolding matchesExpectedTarget_def wp_simps
proof (rule wp_matchesExpectedIdentity[OF assms(1)], goal_cases)
  case (1 r w')
  note identity = 1(2)
  show ?case
  proof (cases r)
    case True
    have "wp (matchesExpectedState p opts) Q w'"
    proof (rule wp_matchesExpectedState[OF 1(1)], goal_cases)
      case (1 r' w'')
      then show ?case using assms(2,3) \<open>r\<close> identity
        by (cases r') (auto simp: target_as_expected_def)
    qed
    with True show ?thesis by simp
  next
    case False
    then show ?thesis using 1 assms(2) by (simp add: wp_simps)
  qed
qed

section \<open>The stages of a replacement\<close>

lemma wp_proceed [wp_simps]:
  "wp (proceed m f) Q = wp m (\<lambda>r. case r of Inl e \<Rightarrow> Q (Inl e) | Inr a \<Rightarrow> wp (f a) Q)"
proof -
  have "(\<lambda>a. wp (case a of Inl e \<Rightarrow> State_Monad.return (Inl e) | Inr a \<Rightarrow> f a) Q) =
        (\<lambda>r. case r of Inl e \<Rightarrow> Q (Inl e) | Inr a \<Rightarrow> wp (f a) Q)"
    by (auto simp: fun_eq_iff wp_simps split: sum.splits)
  then show ?thesis by (simp add: proceed_def wp_simps)
qed

lemma wp_refuse [wp_simps]: "wp (refuse msg) Q = Q (Inl (msg, False))"
  by (simp add: refuse_def wp_simps)

lemma wp_precondition_failure [wp_simps]: "wp (precondition_failure msg) Q = Q (Inl (msg, True))"
  by (simp add: precondition_failure_def wp_simps)

lemma wp_check_request:
  assumes "at c f w"
    and "\<And>why w'. at c f w' \<Longrightarrow> Q (Inl why) w'"
    and "\<And>w'. at c f w' \<Longrightarrow> target_as_expected f path opts \<Longrightarrow> lookup f path = Inl ENOENT \<Longrightarrow>
           createIfMissing opts \<Longrightarrow> Q (Inr False) w'"
    and "\<And>i w'. at c f w' \<Longrightarrow> target_as_expected f path opts \<Longrightarrow> lookup f path = Inr i \<Longrightarrow>
           \<not> exclusiveCreate opts \<Longrightarrow> rejectSymlink opts \<longrightarrow> \<not> is_symlink (i_kind (inodes f i)) \<Longrightarrow>
           Q (Inr True) w'"
  shows "wp (check_request path opts) Q w"
proof -
  have current: "wp (check_current path opts ex) Q w'"
    if "at c f w'" "\<And>w'. at c f w' \<Longrightarrow> target_as_expected f path opts \<Longrightarrow> Q (Inr ex) w'" for ex w'
    unfolding check_current_def wp_simps
    by (rule wp_matchesExpectedTarget[OF that(1)]) (simp_all add: wp_simps assms(2) that(2))
  show ?thesis
    unfolding check_request_def wp_simps
    by (rule wp_lstat[OF assms(1)])
       (auto simp: wp_simps simp del: append_Cons intro!: assms current)
qed

text \<open>The target path: a canonical path, or the absolute form of the requested one.\<close>

definition resolves :: "string \<times> int \<times> int \<Rightarrow> fsys \<Rightarrow> string \<Rightarrow> AtomicWriteOptions \<Rightarrow> bool \<Rightarrow> string \<Rightarrow> bool" where
  "resolves c f path opts targetExists tp \<longleftrightarrow>
     (if targetExists \<and> \<not> rejectSymlink opts then canonical_path (fst c) f path = Inr tp
      else absolute_path (fst c) path = Inr tp)"

lemma wp_stat_target:
  assumes "at c f w"
    and "\<And>why w'. at c f w' \<Longrightarrow> Q (Inl why) w'"
    and "\<And>w'. at c f w' \<Longrightarrow> parent_path tp \<noteq> '''' \<Longrightarrow> follow link_limit f tp = Inl ENOENT \<Longrightarrow>
           createIfMissing opts \<Longrightarrow> Q (Inr None) w'"
    and "\<And>q i w'. at c f w' \<Longrightarrow> parent_path tp \<noteq> '''' \<Longrightarrow> follow link_limit f tp = Inr (q, i) \<Longrightarrow>
           i_kind (inodes f i) = Reg \<Longrightarrow> Q (Inr (Some (stat_of f i))) w'"
  shows "wp (stat_target opts path tp) Q w"
proof (cases "parent_path tp = ''''")
  case True
  then show ?thesis using assms(1,2) by (simp add: stat_target_def wp_simps)
next
  case False
  then show ?thesis
    unfolding stat_target_def
    by (simp only: if_False wp_simps, intro wp_stat[OF assms(1)])
       (auto simp: wp_simps simp del: append_Cons intro!: assms)
qed

lemma wp_resolve_target:
  assumes "at c f w"
    and "\<And>why w'. at c f w' \<Longrightarrow> Q (Inl why) w'"
    and "\<And>tp st w'. at c f w' \<Longrightarrow> resolves c f path opts ex tp \<Longrightarrow> parent_path tp \<noteq> '''' \<Longrightarrow>
           st = None \<longrightarrow> follow link_limit f tp = Inl ENOENT \<and> createIfMissing opts \<Longrightarrow>
           (\<forall>s. st = Some s \<longrightarrow> (\<exists>q i. follow link_limit f tp = Inr (q, i) \<and> s = stat_of f i \<and>
              i_kind (inodes f i) = Reg)) \<Longrightarrow> Q (Inr (tp, st)) w'"
  shows "wp (resolve_target path opts ex) Q w"
proof -
  have *: "wp (stat_target opts path tp)
      (\<lambda>r. case r of Inl e \<Rightarrow> Q (Inl e) | Inr st \<Rightarrow> Q (Inr (tp, st))) w'"
    if "at c f w'" "resolves c f path opts ex tp" for tp w'
    by (rule wp_stat_target[OF that(1)]) (auto intro!: assms(2,3) simp: that(2))
  show ?thesis
  proof (cases "ex \<and> \<not> rejectSymlink opts")
    case True
    then show ?thesis unfolding resolve_target_def
      by (simp only: wp_simps if_True simp_thms, intro wp_fs_canonical[OF assms(1)])
         (auto simp: wp_simps assms(2) intro!: * simp: resolves_def)
  next
    case False
    then show ?thesis unfolding resolve_target_def
      by (simp only: wp_simps if_False simp_thms, intro wp_fs_absolute[OF assms(1)])
         (auto simp: wp_simps assms(2) intro!: * simp: resolves_def)
  qed
qed

text \<open>The entry of the temporary file: in the directory of the target, under another name.\<close>

lemma temp_name_template:
  "temp_name (path_join q (''.'' @ n @ ''.tmp.XXXXXX'')) k =
     path_join q (''.'' @ n @ ''.tmp.'' @ temp_suffix k)"
proof -
  have "take (length (s @ ''.tmp.XXXXXX'') - 6) (s @ ''.tmp.XXXXXX'') = s @ ''.tmp.''" for s :: string
    by simp
  from this[of "q @ ''.'' @ n"] this[of "q @ ''/.'' @ n"] this[of "''.'' @ n"]
  show ?thesis by (simp add: temp_name_def path_join_def is_absolute_def is_slash_def)
qed

lemma temp_suffix_no_slash: "\<forall>ch \<in> set (temp_suffix k). \<not> is_slash ch"
proof -
  have "char_of (48 + m mod 10) \<noteq> CHR ''/''" for m :: nat
  proof
    assume "char_of (48 + m mod 10) = CHR ''/''"
    then have "(of_char (char_of (48 + m mod 10) :: char) :: nat) = of_char (CHR ''/'')" by simp
    moreover have "48 + m mod 10 < 256" using mod_less_divisor[of 10 m] by simp
    ultimately show False by (simp only: of_char_of mod_less) simp
  qed
  then show ?thesis by (auto simp: temp_suffix_def is_slash_def)
qed

definition temp_entry_name :: "string \<Rightarrow> nat \<Rightarrow> string" where
  "temp_entry_name tp k = ''.'' @ filename tp @ ''.tmp.'' @ temp_suffix k"

lemma temp_entry_name_differs: "temp_entry_name tp k \<noteq> filename tp"
proof
  assume "temp_entry_name tp k = filename tp"
  then have "length (temp_entry_name tp k) = length (filename tp)" by simp
  then show False by (simp add: temp_entry_name_def)
qed

lemma locate_temp:
  assumes "parent_path tp \<noteq> ''''"
  shows "locate f (temp_name (temp_template tp) k) =
           and_then (dir_node f (parent_path tp)) (\<lambda>d. Inr (d, temp_entry_name tp k))"
proof -
  let ?p = "path_join (parent_path tp) (temp_entry_name tp k)"
  have p: "temp_name (temp_template tp) k = ?p"
    by (simp only: temp_template_def temp_name_template temp_entry_name_def)
  have n: "\<forall>ch \<in> set (temp_entry_name tp k). \<not> is_slash ch"
    using filename_no_slash[of _ tp] temp_suffix_no_slash[of k]
    by (auto simp: temp_entry_name_def is_slash_def)
  have "parent_path tp = ''/'' \<or> parent_path tp \<noteq> '''' \<and> \<not> is_slash (last (parent_path tp))"
    using assms parent_path_form[of tp] by auto
  then have "parent_path ?p = parent_path tp" "filename ?p = temp_entry_name tp k"
    using n by (simp_all add: parent_path_join filename_join)
  moreover have "?p \<noteq> ''''"
    using \<open>filename ?p = temp_entry_name tp k\<close> by (auto simp: filename_def temp_entry_name_def)
  ultimately show ?thesis unfolding p by (simp add: locate_def)
qed

lemma locate_target:
  assumes "parent_path tp \<noteq> ''''"
  shows "locate f tp = and_then (dir_node f (parent_path tp)) (\<lambda>d. Inr (d, filename tp))"
proof -
  have "tp \<noteq> ''''" using assms by (auto simp: parent_path_def)
  then show ?thesis by (simp add: locate_def)
qed

text \<open>What is left of a temporary file that was given up: it is still there, or removed.\<close>

definition dropped :: "fsys \<Rightarrow> dirent \<Rightarrow> fsys \<Rightarrow> bool" where
  "dropped f t g \<longleftrightarrow> (\<exists>n. g = with_temp f t n \<or> g = set_dirent t None (with_temp f t n))"

lemma drop_link_with_temp:
  "drop_link (Some (next_ino f)) (with_temp f t n) =
     with_temp f t (n\<lparr>i_nlink := i_nlink n - 1, i_ctime := clock f\<rparr>)"
  by (simp add: drop_link_def set_inode_with_temp)

lemma wp_abandon_any:
  assumes "at c g w" "locate g tempPath = Inr t"
    and "\<And>w'. at c g w' \<Longrightarrow> Q (Inl why) w'"
    and "\<And>i w'. dirents g t = Some i \<Longrightarrow> at c (set_dirent t None (drop_link (Some i) g)) w' \<Longrightarrow>
           Q (Inl why) w'"
  shows "wp (abandon fd tempPath why) Q w"
  unfolding abandon_def cleanup_def wp_simps
  by (rule wp_closeFd[OF assms(1)], rule wp_unlink, assumption) (use assms in auto)

lemma wp_abandon:
  assumes "at c (with_temp f t n) w" "locate f tempPath = Inr t"
    and "\<And>g w'. at c g w' \<Longrightarrow> dropped f t g \<Longrightarrow> Q (Inl why) w'"
  shows "wp (abandon fd tempPath why) Q w"
proof (rule wp_abandon_any[OF assms(1)])
  show "locate (with_temp f t n) tempPath = Inr t"
    using assms(2) by (simp add: locate_cong[of "with_temp f t n" f])
next
  fix i w'
  assume "dirents (with_temp f t n) t = Some i"
    and "at c (set_dirent t None (drop_link (Some i) (with_temp f t n))) w'"
  then have "at c (set_dirent t None (drop_link (Some (next_ino f)) (with_temp f t n))) w'" by simp
  then show "Q (Inl why) w'" unfolding drop_link_with_temp
    by (rule assms(3)) (auto simp: dropped_def)
qed (rule assms(3), auto simp: dropped_def)

lemma wp_set_temp_metadata:
  assumes "at c (with_temp f t n) w" "locate f tempPath = Inr t"
    and "\<And>why g w'. at c g w' \<Longrightarrow> dropped f t g \<Longrightarrow> Q (Inl why) w'"
    and "\<And>m w'. at c (with_temp f t m) w' \<Longrightarrow> i_uid m = u \<Longrightarrow> i_gid m = gr \<Longrightarrow> i_mode m = md \<Longrightarrow>
           i_kind m = i_kind n \<Longrightarrow> i_nlink m = i_nlink n \<Longrightarrow> i_data m = i_data n \<Longrightarrow> Q (Inr ()) w'"
  shows "wp (set_temp_metadata (next_ino f) tempPath u gr md) Q w"
proof -
  have drop: "wp (abandon fd tempPath why) Q w'" if "at c (with_temp f t m) w'" for fd why m w'
    using that assms(2,3) by (rule wp_abandon)
  have chmod: "wp (sys_fchmod (next_ino f) md)
      (\<lambda>r. wp (case r of Inl e \<Rightarrow> abandon fd tempPath (g e) | Inr _ \<Rightarrow> State_Monad.return (Inr ())) Q) w'"
    if w': "at c (with_temp f t m) w'" and m: "i_uid m = u" "i_gid m = gr" "i_kind m = i_kind n"
      "i_nlink m = i_nlink n" "i_data m = i_data n" for m w' fd g
    by (rule wp_fchmod[OF w'])
       (auto simp: wp_simps op_fchmod_def set_inode_with_temp m intro!: drop assms(4))
  show ?thesis
    unfolding set_temp_metadata_def wp_simps
  proof (rule wp_fstat[OF assms(1)], goal_cases)
    case (1 e w')
    then show ?case using drop by (simp add: wp_simps)
  next
    case (2 w')
    let ?own = "st_uid (stat_of (with_temp f t n) (next_ino f)) \<noteq> u \<or>
                st_gid (stat_of (with_temp f t n) (next_ino f)) \<noteq> gr"
    show ?case
    proof (cases ?own)
      case True
      then show ?thesis
        by (simp only: sum.case if_True wp_simps, intro wp_fchown[OF 2])
           (auto simp: wp_simps op_fchown_def set_inode_with_temp intro!: drop chmod)
    next
      case False
      then show ?thesis using 2
        by (simp only: sum.case if_False wp_simps) (auto simp: wp_simps intro!: chmod)
    qed
  qed
qed

lemma wp_fill_temp:
  assumes "at c (with_temp f t n) w" "locate f tempPath = Inr t" "i_data n = ''''" "i_kind n = Reg"
    and "\<And>why g w'. at c g w' \<Longrightarrow> dropped f t g \<Longrightarrow> Q (Inl why) w'"
    and "\<And>m w'. at c (with_temp f t m) w' \<Longrightarrow> same_meta m n \<Longrightarrow> i_data m = content \<Longrightarrow> i_synced m \<Longrightarrow>
           Q (Inr (stat_of (with_temp f t m) (next_ino f))) w'"
  shows "wp (fill_temp (next_ino f) tempPath content) Q w"
proof -
  have drop: "wp (abandon fd tempPath why) Q w'" if "at c (with_temp f t m) w'" for fd why m w'
    using that assms(2,5) by (rule wp_abandon)
  have sync: "snd (op_fsync (next_ino f) None (with_temp f t m)) = with_temp f t (m\<lparr>i_synced := True\<rparr>)"
    if "i_kind m = Reg" for m
    using that by (simp add: op_fsync_def Let_def set_inode_with_temp)
  show ?thesis
    unfolding fill_temp_def wp_simps
  proof (rule wp_writeAll[OF assms(1)], goal_cases)
    case 1
    then show ?case using assms(3) by simp
  next
    case (2 r m w')
    then have w': "at c (with_temp f t m) w'" and m: "same_meta m n" "r \<longrightarrow> i_data m = content"
      by (simp_all add: set_inode_with_temp)
    then have reg: "i_kind m = Reg" using assms(4) by (simp add: same_meta_def)
    show ?case
    proof (cases r)
      case False
      then show ?thesis
        by (simp only: simp_thms if_True wp_simps, intro wp_errnoMessage[OF w'] drop)
    next
      case True
      have *: "same_meta (m\<lparr>i_synced := True\<rparr>) n" using m by (simp add: same_meta_def)
      show ?thesis using True m
        by (simp only: simp_thms if_False wp_simps, intro wp_fsync[OF w'])
           (auto simp: wp_simps sync[OF reg] * intro!: drop wp_fstat[of c "with_temp f t (m\<lparr>i_synced := True\<rparr>)"] assms(6))
    qed
  qed
qed

section \<open>Effects of a replacement on the file system\<close>

text \<open>The part of an inode that linking does not change.\<close>

definition same_file :: "inode \<Rightarrow> inode \<Rightarrow> bool" where
  "same_file m n \<longleftrightarrow>
     i_kind m = i_kind n \<and> i_dev m = i_dev n \<and> i_mode m = i_mode n \<and> i_uid m = i_uid n \<and>
     i_gid m = i_gid n \<and> i_data m = i_data n \<and> i_synced m = i_synced n"

lemma same_file_refl [simp]: "same_file n n"
  by (simp add: same_file_def)

lemma same_file_trans: "same_file a b \<Longrightarrow> same_file b c \<Longrightarrow> same_file a c"
  by (simp add: same_file_def)

lemma same_file_relinked [simp]: "same_file (n\<lparr>i_nlink := k, i_ctime := x\<rparr>) n"
  by (simp add: same_file_def)

text \<open>Nothing but the given entries changes, and no file that existed before changes.\<close>

definition frame :: "fsys \<Rightarrow> dirent set \<Rightarrow> fsys \<Rightarrow> bool" where
  "frame f X g \<longleftrightarrow>
     dirs g = dirs f \<and> next_ino f \<le> next_ino g \<and>
     (\<forall>e. e \<notin> X \<longrightarrow> dirents g e = dirents f e \<and> durables g e = durables f e) \<and>
     (\<forall>j < next_ino f. same_file (inodes g j) (inodes f j))"

lemma frame_refl [simp]: "frame f X f"
  by (simp add: frame_def)

lemma frame_mono: "frame f X g \<Longrightarrow> X \<subseteq> Y \<Longrightarrow> frame f Y g"
  unfolding frame_def by blast

lemma frame_trans:
  assumes "frame f X g" "frame g Y h"
  shows "frame f (X \<union> Y) h"
proof -
  have "same_file (inodes h j) (inodes f j)" if "j < next_ino f" for j
    using assms that unfolding frame_def by (meson le_less_trans less_le_trans same_file_trans)
  then show ?thesis using assms unfolding frame_def by auto
qed

lemma frame_entry: "frame f X g \<Longrightarrow> e \<notin> X \<Longrightarrow> dirents g e = dirents f e \<and> durables g e = durables f e"
  unfolding frame_def by blast

text \<open>The new file is at the target; its data is on the disk.\<close>

definition published :: "fsys \<Rightarrow> dirent \<Rightarrow> dirent \<Rightarrow> inode \<Rightarrow> fsys \<Rightarrow> bool" where
  "published f t tgt m g \<longleftrightarrow>
     frame f {t, tgt} g \<and> fs_wf g \<and> dirents g tgt = Some (next_ino f) \<and>
     durables g tgt = insert (Some (next_ino f)) (durables f tgt) \<and>
     same_file (inodes g (next_ino f)) m"

lemma frame_with_temp: "frame f {t} (with_temp f t n)"
  by (auto simp: frame_def)

lemma dropped_frame: "dropped f t g \<Longrightarrow> frame f {t} g"
  by (auto simp: dropped_def frame_def)

lemma dropped_wf: "fs_wf f \<Longrightarrow> dropped f t g \<Longrightarrow> fs_wf g"
  by (auto simp: dropped_def intro!: fs_wf_with_temp fs_wf_set_dirent)

lemma drop_link_simps [simp]:
  "dirents (drop_link v f) = dirents f" "durables (drop_link v f) = durables f"
  "dirs (drop_link v f) = dirs f" "next_ino (drop_link v f) = next_ino f"
  by (cases v; simp add: drop_link_def)+

lemma drop_link_inodes: "same_file (inodes (drop_link v f) j) (inodes f j)"
  by (cases v) (simp_all add: drop_link_def)

lemma drop_link_other: "v \<noteq> Some j \<Longrightarrow> inodes (drop_link v f) j = inodes f j"
  by (cases v) (auto simp: drop_link_def)

lemma add_links_simps [simp]:
  "dirents (add_links i f) = dirents f" "durables (add_links i f) = durables f"
  "dirs (add_links i f) = dirs f" "next_ino (add_links i f) = next_ino f"
  by (simp_all add: add_links_def)

lemma add_links_inodes: "same_file (inodes (add_links i f) j) (inodes f j)"
  by (simp add: add_links_def)

lemma published_rename:
  assumes "fs_wf f" "t \<noteq> tgt" "dirents f t = None"
  shows "published f t tgt m (rename_entry t tgt (next_ino f) (with_temp f t m))"
    (is "published f t tgt m ?g")
proof -
  have fresh: "dirents f tgt \<noteq> Some (next_ino f)" using assms(1) fs_wf_entry by blast
  then have g: "?g = set_dirent tgt (Some (next_ino f))
      (set_dirent t None (drop_link (dirents f tgt) (with_temp f t m)))"
    using assms(2) by (simp add: rename_entry_def)
  have "fs_wf ?g"
    using assms(1) by (intro fs_wf_rename) (simp_all add: fs_wf_with_temp)
  moreover have "same_file (inodes ?g j) (inodes f j)" if "j < next_ino f" for j
    using drop_link_inodes[of "dirents f tgt" "with_temp f t m" j] that by (simp add: g)
  ultimately show ?thesis
    using assms(2) fresh drop_link_inodes[of "dirents f tgt" "with_temp f t m" "next_ino f"]
    by (auto simp: published_def frame_def g)
qed

lemma published_link:
  assumes "fs_wf f" "t \<noteq> tgt"
  shows "published f t tgt m
    (set_dirent tgt (Some (next_ino f)) (add_links (next_ino f) (with_temp f t m)))"
    (is "published f t tgt m ?g")
proof -
  have "fs_wf ?g"
    using assms(1) by (intro fs_wf_set_dirent fs_wf_add_links fs_wf_with_temp) simp_all
  moreover have "same_file (inodes ?g j) (inodes f j)" if "j < next_ino f" for j
    using add_links_inodes[of "next_ino f" "with_temp f t m" j] that by simp
  ultimately show ?thesis
    using assms(2) add_links_inodes[of "next_ino f" "with_temp f t m" "next_ino f"]
    by (auto simp: published_def frame_def)
qed

lemma published_unlink_temp:
  assumes "published f t tgt m g" "t \<noteq> tgt"
  shows "published f t tgt m (set_dirent t None (drop_link v g))" (is "published f t tgt m ?h")
proof -
  have "fs_wf ?h"
    using assms(1) by (intro fs_wf_set_dirent fs_wf_drop_link) (auto simp: published_def)
  moreover have "same_file (inodes ?h j) (inodes f j)" if "j < next_ino f" for j
    using drop_link_inodes[of v g j] assms(1) that same_file_trans
    by (fastforce simp: published_def frame_def)
  moreover have "same_file (inodes ?h (next_ino f)) m"
    using drop_link_inodes[of v g "next_ino f"] assms(1) same_file_trans
    by (fastforce simp: published_def)
  ultimately show ?thesis using assms by (auto simp: published_def frame_def)
qed

section \<open>Publication\<close>

lemma wp_installTempFile:
  assumes w: "at c (with_temp f t m) w" and wf: "fs_wf f" and temp: "locate f tempPath = Inr t"
    and target: "locate f tp = Inr tgt" and t: "t \<noteq> tgt" "dirents f t = None"
    and not_installed: "\<And>e w'. at c (with_temp f t m) w' \<Longrightarrow> Q (Inl e) w'"
    and leaked: "\<And>e g w'. at c g w' \<Longrightarrow> exclusive \<Longrightarrow> dirents f tgt = None \<Longrightarrow> published f t tgt m g \<Longrightarrow>
           Q (Inl e) w'"
    and moved: "\<And>g w'. at c g w' \<Longrightarrow> exclusive \<longrightarrow> dirents f tgt = None \<Longrightarrow> published f t tgt m g \<Longrightarrow>
           dirents g t = None \<Longrightarrow> i_nlink (inodes g (next_ino f)) = i_nlink m \<Longrightarrow> Q (Inr ()) w'"
  shows "wp (installTempFile tempPath tp exclusive) Q w"
proof -
  let ?h = "with_temp f t m"
  let ?i = "next_ino f"
  have loc: "locate ?h tempPath = Inr t" "locate ?h tp = Inr tgt"
    using temp target by (simp_all add: locate_cong[of ?h f])
  have fresh: "dirents f tgt \<noteq> Some ?i" using wf fs_wf_entry by blast
  have ren: "Q (Inr ()) w'"
    if "at c (rename_entry t tgt ?i ?h) w'" "exclusive \<longrightarrow> dirents f tgt = None" for w'
  proof (rule moved[OF that])
    show "published f t tgt m (rename_entry t tgt ?i ?h)" using wf t by (rule published_rename)
    show "dirents (rename_entry t tgt ?i ?h) t = None"
      using t fresh by (simp add: rename_entry_def)
    show "i_nlink (inodes (rename_entry t tgt ?i ?h) ?i) = i_nlink m"
      using t fresh by (simp add: rename_entry_def drop_link_other)
  qed
  let ?l = "set_dirent tgt (Some ?i) (add_links ?i ?h)"
  have pub: "published f t tgt m ?l" using wf t(1) by (rule published_link)
  have link: "wp (sys_link tempPath tp)
      (\<lambda>l. wp (case l of Inl e' \<Rightarrow> State_Monad.return (Inl e') | Inr _ \<Rightarrow> sys_unlink tempPath) Q) w'"
    if w': "at c ?h w'" and ex: "exclusive" for w'
  proof (rule wp_link[OF w'], goal_cases)
    case (1 e w'')
    then show ?case using not_installed by (simp add: wp_simps)
  next
    case (2 a b i w'')
    then have w'': "at c ?l w''" and free: "dirents f tgt = None"
      using loc t by auto
    have locl: "locate ?l tempPath = Inr t" using temp by (simp add: locate_cong[of ?l f])
    have "wp (sys_unlink tempPath) Q w''"
    proof (rule wp_unlink[OF w''], goal_cases)
      case (1 e v)
      then show ?case using leaked ex free pub by blast
    next
      case (2 u j v)
      then have "at c (set_dirent t None (drop_link (Some ?i) ?l)) v" using locl t by auto
      moreover have "published f t tgt m (set_dirent t None (drop_link (Some ?i) ?l))"
        using pub t(1) by (rule published_unlink_temp)
      ultimately show ?case
        using free by (intro moved) (auto simp: drop_link_def add_links_def)
    qed
    then show ?case by simp
  qed
  show ?thesis
  proof (cases exclusive)
    case False
    have "wp (sys_rename False tempPath tp) Q w"
      by (rule wp_rename[OF w]) (use not_installed ren loc t False in auto)
    then show ?thesis using False unfolding installTempFile_def by simp
  next
    case True
    have "wp (sys_rename True tempPath tp) (\<lambda>r. wp (case r of Inr _ \<Rightarrow> State_Monad.return (Inr ())
        | Inl e \<Rightarrow> if e \<noteq> ENOSYS \<and> e \<noteq> EINVAL then State_Monad.return (Inl e)
          else do { l \<leftarrow> sys_link tempPath tp;
                    (case l of Inl e' \<Rightarrow> State_Monad.return (Inl e') | Inr _ \<Rightarrow> sys_unlink tempPath) }) Q) w"
    proof (rule wp_rename[OF w], goal_cases)
      case (1 e w')
      then show ?case using not_installed link True by (auto simp: wp_simps)
    next
      case (2 a b i w')
      then show ?case using ren loc t by (auto simp: wp_simps)
    qed
    then show ?thesis using True unfolding installTempFile_def by (simp add: wp_simps)
  qed
qed

text \<open>The outcome of a refused replacement: the target is as before.\<close>

definition is_temp :: "dirent \<Rightarrow> dirent \<Rightarrow> bool" where
  "is_temp tgt t \<longleftrightarrow> fst t = fst tgt \<and> (\<exists>s. snd t = ''.'' @ snd tgt @ ''.tmp.'' @ s)"

definition spared :: "fsys \<Rightarrow> dirent \<Rightarrow> fsys \<Rightarrow> bool" where
  "spared f tgt g \<longleftrightarrow>
     fs_wf g \<and> (\<exists>X. tgt \<notin> X \<and> (\<forall>e \<in> X. dirents f e = None \<and> is_temp tgt e) \<and> frame f X g)"

lemma wp_publish:
  assumes w: "at c (with_temp f t m) w" and wf: "fs_wf f" and temp: "locate f tempPath = Inr t"
    and target: "locate f tp = Inr tgt" and t: "t \<noteq> tgt" "dirents f t = None"
    and refused: "\<And>why g w'. at c g w' \<Longrightarrow> dropped f t g \<Longrightarrow> Q (Inl why) w'"
    and leaked: "\<And>why g w'. at c g w' \<Longrightarrow> exclusiveCreate opts \<Longrightarrow> dirents f tgt = None \<Longrightarrow>
           published f t tgt m g \<Longrightarrow> Q (Inl why) w'"
    and moved: "\<And>g w'. at c g w' \<Longrightarrow> exclusiveCreate opts \<longrightarrow> dirents f tgt = None \<Longrightarrow>
           target_as_expected (with_temp f t m) tp opts \<Longrightarrow> published f t tgt m g \<Longrightarrow>
           dirents g t = None \<Longrightarrow> i_nlink (inodes g (next_ino f)) = i_nlink m \<Longrightarrow> Q (Inr ()) w'"
  shows "wp (publish opts fd tempPath tp) Q w"
proof -
  let ?h = "with_temp f t m"
  have drop: "wp (abandon x tempPath why) Q w'" if "at c ?h w'" for x w' why
    using that temp refused by (rule wp_abandon)
  have leak: "wp (abandon x tempPath why) Q w'"
    if w': "at c g w'" and ex: "exclusiveCreate opts" and free: "dirents f tgt = None"
      and pub: "published f t tgt m g" for x w' why g
  proof (rule wp_abandon_any[OF w'])
    show "locate g tempPath = Inr t"
      using temp pub by (simp add: locate_cong[of g f] published_def frame_def)
    show "Q (Inl why) w''" if "at c g w''" for w'' using leaked[OF that ex free pub] .
    show "Q (Inl why) w''" if "at c (set_dirent t None (drop_link (Some i) g)) w''" for i w''
      using leaked[OF that ex free published_unlink_temp[OF pub t(1)]] .
  qed
  have install: "wp (installTempFile tempPath tp (exclusiveCreate opts)) (\<lambda>r. wp (case r of
        Inl e \<Rightarrow> abandon None tempPath (why e) | Inr _ \<Rightarrow> State_Monad.return (Inr ())) Q) w'"
    if w': "at c ?h w'" and seen: "target_as_expected ?h tp opts" for w' why
  proof (rule wp_installTempFile[OF w' wf temp target t], goal_cases)
    case (1 e v)
    then show ?case by (simp add: wp_simps drop)
  next
    case (2 e g v)
    then show ?case by (simp add: wp_simps leak)
  next
    case (3 g v)
    then show ?case by (simp add: wp_simps moved seen)
  qed
  have recheck: "wp (recheck_target opts tempPath tp)
      (\<lambda>r. case r of Inl e \<Rightarrow> Q (Inl e) | Inr a \<Rightarrow> R a) w'"
    if "at c ?h w'" "\<And>v. at c ?h v \<Longrightarrow> target_as_expected ?h tp opts \<Longrightarrow> R () v" for w' R
  proof -
    have "wp (abandon None tempPath why) (\<lambda>r. case r of Inl e \<Rightarrow> Q (Inl e) | Inr a \<Rightarrow> R a) v"
      if "at c ?h v" for v why
      using that temp by (rule wp_abandon) (simp add: refused)
    then show ?thesis
      unfolding recheck_target_def wp_simps
      by (intro wp_matchesExpectedTarget[OF that(1)]) (simp_all add: wp_simps that(2))
  qed
  show ?thesis
    unfolding publish_def wp_simps
  proof (rule wp_close[OF w], goal_cases)
    case (1 r w')
    then show ?case
      by (cases r) (auto simp: wp_simps intro!: drop recheck install)
  qed
qed

text \<open>An admission callback that makes no system call with an effect.\<close>

definition passive_callback :: "AtomicWriteOptions \<Rightarrow> bool" where
  "passive_callback opts \<longleftrightarrow>
     (\<forall>cb x c f w. beforePublish opts = Some cb \<longrightarrow> at c f w \<longrightarrow> wp (cb x) (\<lambda>v. at c f) w)"

lemma wp_admit:
  assumes w: "at c (with_temp f t m) w" and temp: "locate f tempPath = Inr t"
    and cb: "passive_callback opts"
    and refused: "\<And>why g w'. at c g w' \<Longrightarrow> dropped f t g \<Longrightarrow> Q (Inl why) w'"
    and go: "\<And>w'. at c (with_temp f t m) w' \<Longrightarrow> Q (Inr ()) w'"
  shows "wp (admit opts fd tempPath x) Q w"
proof (cases "beforePublish opts")
  case None
  then show ?thesis using go w by (simp add: admit_def wp_simps)
next
  case (Some call)
  have drop: "wp (abandon x tempPath why) Q w'" if "at c (with_temp f t m) w'" for x w' why
    using that temp refused by (rule wp_abandon)
  have "wp (call x) (\<lambda>v. at c (with_temp f t m)) w"
    using cb Some w unfolding passive_callback_def by blast
  then show ?thesis
    unfolding admit_def Some option.case wp_simps
    by (rule wp_mono) (auto simp: wp_simps go simp del: append_Cons split: publish_verdict.splits intro!: drop)
qed

section \<open>A whole replacement\<close>

text \<open>The path that is replaced, as a function of the file system.\<close>

definition write_target ::
    "string \<times> int \<times> int \<Rightarrow> fsys \<Rightarrow> string \<Rightarrow> AtomicWriteOptions \<Rightarrow> errno + string" where
  "write_target c f path opts =
     (if \<not> isl (lookup f path) \<and> \<not> rejectSymlink opts then canonical_path (fst c) f path
      else absolute_path (fst c) path)"

lemma lookup_with_temp:
  assumes "locate f tp = Inr tgt" "t \<noteq> tgt"
  shows "lookup (with_temp f t m) tp = lookup f tp"
  using assms by (simp add: lookup_def locate_cong[of "with_temp f t m" f])

lemma lookup_wf: "fs_wf f \<Longrightarrow> lookup f p = Inr i \<Longrightarrow> i < next_ino f"
  by (auto simp: lookup_def and_then_Inr dest: fs_wf_entry split: option.splits)

lemma target_as_expected_with_temp:
  assumes "fs_wf f" "locate f tp = Inr tgt" "t \<noteq> tgt" "target_as_expected (with_temp f t m) tp opts"
  shows "target_as_expected f tp opts"
proof -
  have look: "lookup (with_temp f t m) tp = lookup f tp"
    using assms(2,3) by (rule lookup_with_temp)
  show ?thesis
  proof (cases "lookup f tp")
    case (Inr i)
    have "inodes (with_temp f t m) i = inodes f i" using lookup_wf[OF assms(1) Inr] by simp
    then have "target_as_expected (with_temp f t m) tp opts = target_as_expected f tp opts"
      unfolding target_as_expected_def holds_state_def stat_matches_def look Inr
      by (simp del: with_temp_simps)
    then show ?thesis using assms(4) by blast
  qed (use assms(4) look in \<open>simp add: target_as_expected_def\<close>)
qed

lemma spared_refl: "fs_wf f \<Longrightarrow> spared f tgt f"
  unfolding spared_def by (metis empty_iff frame_refl)

lemma spared_dropped:
  assumes "fs_wf f" "t \<noteq> tgt" "dirents f t = None" "is_temp tgt t" "dropped f t g"
  shows "spared f tgt g"
  unfolding spared_def using assms
  by (intro conjI exI[of _ "{t}"]) (simp_all add: dropped_wf dropped_frame)

text \<open>The metadata of the target as the resolving stage reports it.\<close>

definition target_stat :: "fsys \<Rightarrow> string \<Rightarrow> AtomicWriteOptions \<Rightarrow> stat option \<Rightarrow> bool" where
  "target_stat f tp opts st \<longleftrightarrow>
     (st = None \<longrightarrow> follow link_limit f tp = Inl ENOENT \<and> createIfMissing opts) \<and>
     (\<forall>s. st = Some s \<longrightarrow> (\<exists>q i. follow link_limit f tp = Inr (q, i) \<and> s = stat_of f i \<and>
        i_kind (inodes f i) = Reg))"

text \<open>The complete new file: the content, on the disk, with the metadata the options ask for.\<close>

definition new_file ::
    "string \<times> int \<times> int \<Rightarrow> fsys \<Rightarrow> string \<Rightarrow> AtomicWriteOptions \<Rightarrow> string \<Rightarrow> inode \<Rightarrow> bool" where
  "new_file c f tp opts content m \<longleftrightarrow>
     i_kind m = Reg \<and> i_nlink m = 1 \<and> i_data m = content \<and> i_synced m \<and>
     (\<exists>st. target_stat f tp opts st \<and>
        i_uid m = chosen_metadata opts (fileOwner opts) st st_uid (fst (snd c)) \<and>
        i_gid m = chosen_metadata opts (fileGroup opts) st st_gid (snd (snd c)) \<and>
        i_mode m = chosen_metadata opts (fileMode opts) st st_mode 384)"

lemma wp_replace_resolved:
  assumes w: "at c f w" and wf: "fs_wf f" and cb: "passive_callback opts"
    and parent: "parent_path tp \<noteq> ''''" and target: "locate f tp = Inr tgt"
    and st: "target_stat f tp opts st"
    and refused: "\<And>why g w'. at c g w' \<Longrightarrow> spared f tgt g \<Longrightarrow> Q (Inl why) w'"
    and leaked: "\<And>why t m g w'. at c g w' \<Longrightarrow> exclusiveCreate opts \<Longrightarrow> dirents f tgt = None \<Longrightarrow>
           t \<noteq> tgt \<Longrightarrow> dirents f t = None \<Longrightarrow> is_temp tgt t \<Longrightarrow> new_file c f tp opts content m \<Longrightarrow>
           published f t tgt m g \<Longrightarrow> Q (Inl why) w'"
    and moved: "\<And>t m g w'. at c g w' \<Longrightarrow> exclusiveCreate opts \<longrightarrow> dirents f tgt = None \<Longrightarrow>
           t \<noteq> tgt \<Longrightarrow> dirents f t = None \<Longrightarrow> is_temp tgt t \<Longrightarrow> target_as_expected f tp opts \<Longrightarrow>
           new_file c f tp opts content m \<Longrightarrow> published f t tgt m g \<Longrightarrow> dirents g t = None \<Longrightarrow>
           i_nlink (inodes g (next_ino f)) = 1 \<Longrightarrow>
           Q (Inr (parent_path tp, state_of_stat (stat_of (with_temp f t m) (next_ino f)) content)) w'"
  shows "wp (replace_resolved content opts tp st) Q w"
  unfolding replace_resolved_def wp_bind
proof (rule wp_mkstemp[OF w], goal_cases)
  case (1 e w')
  then show ?case using refused spared_refl[OF wf] by (simp add: wp_simps)
next
  case (2 t n w')
  from 2(1) target have t: "t \<noteq> tgt" and it: "is_temp tgt t"
    using locate_temp[OF parent, of f "next_ino f"] locate_target[OF parent, of f]
      temp_entry_name_differs[of tp "next_ino f"]
    by (auto simp: and_then_Inr is_temp_def temp_entry_name_def)
  have ids: "euid w' = fst (snd c)" "egid w' = snd (snd c)"
    using 2(6) by (auto simp: at_def ids_def)
  note drop = refused[OF _ spared_dropped[OF wf t 2(2) it]]
  have new: "new_file c f tp opts content m'"
    if "i_uid m = chosen_metadata opts (fileOwner opts) st st_uid (fst (snd c))"
      "i_gid m = chosen_metadata opts (fileGroup opts) st st_gid (snd (snd c))"
      "i_mode m = chosen_metadata opts (fileMode opts) st st_mode 384" "i_kind m = i_kind n"
      "i_nlink m = i_nlink n" "same_meta m' m" "i_data m' = content" "i_synced m'" for m m'
    unfolding new_file_def using that st 2(3,4) by (auto simp: same_meta_def)
  show ?case
    unfolding sum.case prod.case wp_simps
    by (rule wp_set_temp_metadata[OF 2(6) 2(1)], simp add: drop, simp only: sum.case,
        rule wp_fill_temp[OF _ 2(1)], assumption, simp add: 2(5), simp add: 2(3), simp add: drop,
        simp only: sum.case,
        rule wp_admit[OF _ 2(1) cb], assumption, simp add: drop, simp only: sum.case,
        rule wp_publish[OF _ wf 2(1) target t 2(2)], assumption, simp add: drop,
        simp add: leaked[OF _ _ _ t 2(2) it new] ids,
        simp add: moved[OF _ _ t 2(2) it target_as_expected_with_temp[OF wf target t] new] ids
          2(4) same_meta_def)
qed

lemma wp_replace_file:
  assumes w: "at c f w" and wf: "fs_wf f" and cb: "passive_callback opts"
    and tp: "write_target c f path opts = Inr tp" and target: "locate f tp = Inr tgt"
    and refused: "\<And>why g w'. at c g w' \<Longrightarrow> spared f tgt g \<Longrightarrow> Q (Inl why) w'"
    and leaked: "\<And>why t m g w'. at c g w' \<Longrightarrow> exclusiveCreate opts \<Longrightarrow> dirents f tgt = None \<Longrightarrow>
           t \<noteq> tgt \<Longrightarrow> dirents f t = None \<Longrightarrow> is_temp tgt t \<Longrightarrow> new_file c f tp opts content m \<Longrightarrow>
           published f t tgt m g \<Longrightarrow> Q (Inl why) w'"
    and moved: "\<And>t m g w'. at c g w' \<Longrightarrow> exclusiveCreate opts \<longrightarrow> dirents f tgt = None \<Longrightarrow>
           t \<noteq> tgt \<Longrightarrow> dirents f t = None \<Longrightarrow> is_temp tgt t \<Longrightarrow> target_as_expected f tp opts \<Longrightarrow>
           new_file c f tp opts content m \<Longrightarrow> published f t tgt m g \<Longrightarrow> dirents g t = None \<Longrightarrow>
           i_nlink (inodes g (next_ino f)) = 1 \<Longrightarrow>
           Q (Inr (parent_path tp, state_of_stat (stat_of (with_temp f t m) (next_ino f)) content)) w'"
  shows "wp (replace_file path content opts) Q w"
proof -
  note same = refused[OF _ spared_refl[OF wf]]
  have resolved: "wp (resolve_target path opts ex) (\<lambda>r. case r of Inl e \<Rightarrow> Q (Inl e)
      | Inr a \<Rightarrow> wp (case a of (targetPath, targetStat) \<Rightarrow>
                      replace_resolved content opts targetPath targetStat) Q) w1"
    if w1: "at c f w1" and ex: "\<And>q. resolves c f path opts ex q \<Longrightarrow> q = tp" for w1 ex
  proof (rule wp_resolve_target[OF w1], goal_cases)
    case (1 why w')
    then show ?case by (simp add: same)
  next
    case (2 q st w')
    have q: "q = tp" using 2(2) by (rule ex)
    have "wp (replace_resolved content opts tp st) Q w'"
      by (rule wp_replace_resolved[OF 2(1) wf cb _ target])
         (use 2 q refused leaked moved in \<open>auto simp: target_stat_def\<close>)
    then show ?case by (simp add: q)
  qed
  show ?thesis
    unfolding replace_file_def wp_proceed
    by (rule wp_check_request[OF w])
       (use tp in \<open>auto simp: write_target_def resolves_def same split: if_splits intro!: resolved\<close>)
qed

section \<open>Durability\<close>

text \<open>A directory barrier leaves only the current values of the directory's entries.\<close>

definition settled_dir :: "nat \<Rightarrow> fsys \<Rightarrow> fsys" where
  "settled_dir d f = snd (op_fsync d None f)"

lemma settled_dir_simps:
  assumes "i_kind (inodes f d) = Dir"
  shows "dirents (settled_dir d f) = dirents f" "dirs (settled_dir d f) = dirs f"
    "next_ino (settled_dir d f) = next_ino f"
    "durables (settled_dir d f) e = (if fst e = d then {dirents f e} else durables f e)"
    "inodes (settled_dir d f) = (inodes f)(d := (inodes f d)\<lparr>i_synced := True\<rparr>)"
  using assms by (simp_all add: settled_dir_def op_fsync_def Let_def)

lemma settled_dir_wf: "fs_wf f \<Longrightarrow> fs_wf (settled_dir d f)"
  by (simp add: settled_dir_def fs_wf_fsync)

lemma wp_fsyncParentDirectory [io_rules]:
  assumes "at c f w"
    and "\<And>msg w'. at c f w' \<Longrightarrow> Q (False, msg) w'"
    and "\<And>d msg w'. dir_node f q = Inr d \<Longrightarrow> at c (settled_dir d f) w' \<Longrightarrow> Q (True, msg) w'"
  shows "wp (fsyncParentDirectory q) Q w"
  unfolding fsyncParentDirectory_def wp_simps
proof (rule wp_open_dir[OF assms(1)], goal_cases)
  case (1 e w')
  then show ?case using assms(2) by (simp add: wp_simps)
next
  case (2 d w')
  have "wp (sys_fsync d) (\<lambda>s. wp (case s of
      Inl e \<Rightarrow> do { closeFd (Some d); State_Monad.return (False, msg e) }
    | Inr _ \<Rightarrow> do { closed \<leftarrow> closeFd (Some d); m \<leftarrow> errnoMessage;
                  State_Monad.return (True, fin closed m) }) Q) w'" for msg fin
  proof (rule wp_fsync[OF 2(3)], goal_cases)
    case (1 e v)
    then show ?case by (auto simp: wp_simps intro!: wp_closeFd[of c f] assms(2))
  next
    case (2 v)
    then show ?case
      by (auto simp: wp_simps settled_dir_def[symmetric] intro!: wp_closeFd[of c "settled_dir d f"]
          wp_errnoMessage[of c "settled_dir d f"] assms(3)[OF \<open>dir_node f q = Inr d\<close>])
  qed
  then show ?case by (simp only: sum.case wp_bind)
qed

text \<open>What a replacement of the target may have done, by the flags of its result.\<close>

definition write_effect ::
    "string \<times> int \<times> int \<Rightarrow> fsys \<Rightarrow> string \<Rightarrow> dirent \<Rightarrow> AtomicWriteOptions \<Rightarrow> string \<Rightarrow>
     bool \<times> string \<times> AtomicWriteResult \<Rightarrow> fsys \<Rightarrow> bool" where
  "write_effect c f tp tgt opts content r g \<longleftrightarrow> (case r of (ok, msg, res) \<Rightarrow>
     fs_wf g \<and> ok = durabilityConfirmed res \<and> (durabilityConfirmed res \<longrightarrow> installed res) \<and>
     (\<not> installed res \<longrightarrow> installedTargetState res = None \<and>
        (spared f tgt g \<or>
         exclusiveCreate opts \<and> dirents f tgt = None \<and>
           (\<exists>t m. is_temp tgt t \<and> new_file c f tp opts content m \<and> published f t tgt m g))) \<and>
     (installed res \<longrightarrow> \<not> preconditionFailed res \<and>
        (exclusiveCreate opts \<longrightarrow> dirents f tgt = None) \<and> target_as_expected f tp opts \<and>
        (\<exists>t m h. is_temp tgt t \<and> new_file c f tp opts content m \<and> published f t tgt m h \<and>
           i_nlink (inodes h (next_ino f)) = 1 \<and>
           installedTargetState res = Some (state_of_stat (stat_of (with_temp f t m) (next_ino f)) content) \<and>
           g = (if durabilityConfirmed res then settled_dir (fst tgt) h else h))))"

lemma published_wf: "published f t tgt m g \<Longrightarrow> fs_wf g"
  by (simp add: published_def)

lemma published_dir_kind:
  assumes "published f t tgt m h" "fs_wf f" "dir_node f q = Inr d"
  shows "i_kind (inodes h d) = Dir"
proof -
  from fs_wf_dir[OF assms(2,3)] have "d < next_ino f" "i_kind (inodes f d) = Dir" by auto
  then show ?thesis using assms(1) by (auto simp: published_def frame_def same_file_def)
qed

lemma wp_writeWithResult:
  assumes w: "at c f w" and wf: "fs_wf f" and cb: "passive_callback opts"
    and tp: "write_target c f path opts = Inr tp" and target: "locate f tp = Inr tgt"
    and Q: "\<And>r g w'. at c g w' \<Longrightarrow> write_effect c f tp tgt opts content r g \<Longrightarrow> Q r w'"
  shows "wp (writeWithResult path content opts) Q w"
  unfolding writeWithResult_def wp_bind
proof (rule wp_replace_file[OF w wf cb tp target], goal_cases)
  case (1 why g w')
  have "write_effect c f tp tgt opts content
      (False, fst why, emptyWriteResult\<lparr>preconditionFailed := snd why\<rparr>) g"
    using 1(2) by (auto simp: write_effect_def emptyWriteResult_def spared_def)
  then show ?case using Q[OF 1(1)] by (cases why) (simp add: wp_simps)
next
  case (2 why t m g w')
  have "write_effect c f tp tgt opts content
      (False, fst why, emptyWriteResult\<lparr>preconditionFailed := snd why\<rparr>) g"
    using 2 published_wf[OF 2(8)] unfolding write_effect_def emptyWriteResult_def prod.case
    by simp blast
  then show ?case using Q[OF 2(1)] by (cases why) (simp add: wp_simps)
next
  case (3 t m h w')
  let ?st = "state_of_stat (stat_of (with_temp f t m) (next_ino f)) content"
  let ?res = "\<lambda>b. emptyWriteResult\<lparr>installed := True, installedTargetState := Some ?st,
                 durabilityConfirmed := b\<rparr>"
  have wfh: "fs_wf h" using 3 by (simp add: published_def)
  have eff: "write_effect c f tp tgt opts content (b, msg, ?res b) (if b then settled_dir (fst tgt) h else h)"
    for b msg
    using 3 wfh settled_dir_wf[OF wfh] unfolding write_effect_def emptyWriteResult_def prod.case
    by simp blast
  show ?case
    unfolding sum.case prod.case wp_bind
  proof (rule wp_fsyncParentDirectory[OF 3(1)], goal_cases)
    case (1 msg v)
    then show ?case using Q[OF _ eff[of False]] by (simp add: wp_simps)
  next
    case (2 d msg v)
    have "dir_node h (parent_path tp) = dir_node f (parent_path tp)"
      using 3 by (intro dir_node_cong) (simp add: published_def frame_def)
    then have "fst tgt = d" using 2(1) target by (auto simp: locate_def and_then_Inr split: if_splits)
    then show ?case using 2 Q[OF _ eff[of True]] by (simp add: wp_simps)
  qed
qed

section \<open>A sample state directory\<close>

text \<open>A directory \<open>/v\<close> with one file \<open>s\<close>, everything on the disk.\<close>

definition sample_inode :: "file_kind \<Rightarrow> int \<Rightarrow> string \<Rightarrow> inode" where
  "sample_inode k mode data =
     \<lparr> i_kind = k, i_dev = 1, i_mode = mode, i_uid = 0, i_gid = 7, i_nlink = 1, i_data = data,
       i_mtime = 0, i_ctime = 0, i_synced = True \<rparr>"

definition sample_fs :: "string option \<Rightarrow> fsys" where
  "sample_fs content =
     \<lparr> dirents = (\<lambda>e. if e = (5, ''s'') \<and> content \<noteq> None then Some 6 else None),
       durables = (\<lambda>e. {if e = (5, ''s'') \<and> content \<noteq> None then Some 6 else None}),
       inodes = (\<lambda>i. if i = 5 then sample_inode Dir 1512 ''''
                     else sample_inode Reg 416 (case content of None \<Rightarrow> '''' | Some s \<Rightarrow> s)),
       dirs = (\<lambda>q. if q = ''/v'' then DirNode 5 else DirError ENOENT),
       next_ino = 7, clock = 9 \<rparr>"

definition sample_world :: "string option \<Rightarrow> event list \<Rightarrow> world" where
  "sample_world content events =
     \<lparr> fs = sample_fs content, sched = events, alive = True, last_errno = EIO, euid = 0, egid = 7,
       cwd = ''/'' \<rparr>"

definition calm :: "fault \<Rightarrow> event" where
  "calm flt = Event (\<lambda>f. f) flt"

lemma quiet_calm [simp]: "quiet_event (calm flt) \<longleftrightarrow> flt \<noteq> Err ENOENT"
  by (simp add: quiet_event_def calm_def)

lemma sample_fs_wf: "fs_wf (sample_fs content)"
  by (rule fs_wfI) (auto simp: sample_fs_def sample_inode_def split: if_splits)

lemma sample_path:
  "parent_path ''/v/s'' = ''/v''" "filename ''/v/s'' = ''s''" "is_absolute ''/v/s''"
  by (simp_all add: parent_path_def filename_def is_slash_def is_absolute_def Let_def)

lemma sample_locate: "locate (sample_fs content) ''/v/s'' = Inr (5, ''s'')"
  by (simp add: locate_def sample_path dir_node_def sample_fs_def)

lemma sample_absolute: "absolute_path x ''/v/s'' = Inr ''/v/s''"
  by (simp add: absolute_path_def sample_path)

section \<open>Guarantees of the writer\<close>

text \<open>
  What a write leaves of the target, spelled out over the possible directory entries: a file it
  did not touch or the complete new file.
\<close>

lemma spared_target:
  assumes "spared f tgt g"
  shows "dirents g tgt = dirents f tgt \<and> durables g tgt = durables f tgt"
  using assms frame_entry unfolding spared_def by metis

lemma write_effect_durables:
  assumes eff: "write_effect c f tp tgt opts content (ok, msg, res) g" and wf: "fs_wf f"
    and tgt: "locate f tp = Inr tgt" and v: "v \<in> durables g tgt"
  shows "v \<in> durables f tgt \<and> (\<forall>i. v = Some i \<longrightarrow> i_data (inodes g i) = i_data (inodes f i) \<and>
             (i_synced (inodes f i) \<longrightarrow> i_synced (inodes g i))) \<or>
         (\<exists>i. v = Some i \<and> i \<ge> next_ino f \<and> i_kind (inodes g i) = Reg \<and>
             i_data (inodes g i) = content \<and> i_synced (inodes g i))"
proof -
  have old: "v \<in> durables f tgt \<and> (\<forall>i. v = Some i \<longrightarrow> i_data (inodes h i) = i_data (inodes f i) \<and>
             (i_synced (inodes f i) \<longrightarrow> i_synced (inodes h i)))"
    if "v \<in> durables f tgt" "frame f X h" for h X
    using that fs_wf_durable[OF wf, of _ tgt] by (auto simp: frame_def same_file_def)
  have dir: "fst tgt < next_ino f \<and> i_kind (inodes f (fst tgt)) = Dir"
    using tgt fs_wf_dir[OF wf] by (auto simp: locate_def and_then_Inr split: if_splits)
  have pub: "?thesis" if p: "published f t tgt m h" and n: "new_file c f tp opts content m"
    and g: "g = h \<or> g = settled_dir (fst tgt) h" for t m h
  proof -
    have hd: "i_kind (inodes h (fst tgt)) = Dir"
      using p dir by (auto simp: published_def frame_def same_file_def)
    have alt: "inodes g i = inodes h i \<or> inodes g i = (inodes h i)\<lparr>i_synced := True\<rparr>" for i
      using g settled_dir_simps(5)[OF hd] by auto
    have data: "i_data (inodes g i) = i_data (inodes h i)" "i_kind (inodes g i) = i_kind (inodes h i)"
      "i_synced (inodes h i) \<longrightarrow> i_synced (inodes g i)" for i
      using alt[of i] by auto
    have "v \<in> insert (Some (next_ino f)) (durables f tgt)"
    proof (cases "g = h")
      case True
      then show ?thesis using v p by (simp add: published_def)
    next
      case False
      then have "v = dirents h tgt" using v g settled_dir_simps(4)[OF hd, of tgt] by simp
      then show ?thesis using p by (simp add: published_def)
    qed
    then show ?thesis
    proof
      assume "v = Some (next_ino f)"
      then show ?thesis using p n data[of "next_ino f"]
        by (auto simp: published_def new_file_def same_file_def)
    next
      assume "v \<in> durables f tgt"
      then show ?thesis using old[of "{t, tgt}" h] p data by (auto simp: published_def)
    qed
  qed
  show ?thesis
  proof (cases "installed res")
    case True
    then obtain t m h where "new_file c f tp opts content m" "published f t tgt m h"
      "g = h \<or> g = settled_dir (fst tgt) h"
      using eff by (auto simp: write_effect_def)
    then show ?thesis using pub by blast
  next
    case False
    then consider "spared f tgt g" | t m where "new_file c f tp opts content m" "published f t tgt m g"
      using eff by (auto simp: write_effect_def)
    then show ?thesis
    proof cases
      case 1
      then obtain X where X: "tgt \<notin> X" "frame f X g" unfolding spared_def by blast
      then have "v \<in> durables f tgt" using v frame_entry by metis
      then show ?thesis using old X(2) by blast
    qed (use pub in blast)
  qed
qed

lemma write_run:
  assumes "quiet w" "fs_wf (fs w)" "beforePublish opts = None"
    and "write_target (ids w) (fs w) path opts = Inr tp" "locate (fs w) tp = Inr tgt"
    and "run_state (writeWithResult path content opts) w = (r, w')"
  shows "write_effect (ids w) (fs w) tp tgt opts content r (fs w')"
proof -
  have "passive_callback opts" using assms(3) by (simp add: passive_callback_def)
  then have "wp (writeWithResult path content opts)
      (\<lambda>r w'. write_effect (ids w) (fs w) tp tgt opts content r (fs w')) w"
    by (intro wp_writeWithResult[OF at_start[OF assms(1)] assms(2) _ assms(4,5)]) (auto simp: atD)
  then show ?thesis using assms(6) by (rule wpD)
qed

text \<open>
  C2. Crash atomicity of \<open>AtomicFileWriter::writeWithResult\<close>: whatever system calls fail, and
  wherever the process dies or the machine loses power, the target path afterwards holds either
  what it could hold before, with the file's data unchanged, or the complete new content with its
  data on the disk. No reader ever finds a partly written file.
\<close>

theorem write_crash_atomic:
  assumes "quiet w" "fs_wf (fs w)" "beforePublish opts = None"
    and "write_target (ids w) (fs w) path opts = Inr tp" "locate (fs w) tp = Inr tgt"
    and "run_state (writeWithResult path content opts) w = (r, w')"
    and "v \<in> durables (fs w') tgt"
  shows "v \<in> durables (fs w) tgt \<and>
           (\<forall>i. v = Some i \<longrightarrow> i_data (inodes (fs w') i) = i_data (inodes (fs w) i) \<and>
              (i_synced (inodes (fs w) i) \<longrightarrow> i_synced (inodes (fs w') i))) \<or>
         (\<exists>i. v = Some i \<and> i \<ge> next_ino (fs w) \<and> i_kind (inodes (fs w') i) = Reg \<and>
            i_data (inodes (fs w') i) = content \<and> i_synced (inodes (fs w') i))"
proof -
  obtain ok msg res where r: "r = (ok, msg, res)" by (cases r)
  from write_run[OF assms(1-6)] show ?thesis
    unfolding r using assms(2,5,7) by (rule write_effect_durables)
qed

definition sample_options :: AtomicWriteOptions where
  "sample_options = defaultWriteOptions\<lparr>createIfMissing := True, rejectSymlink := True\<rparr>"

lemma sample_target:
  "write_target c (sample_fs x) ''/v/s'' sample_options = Inr ''/v/s''"
  by (simp add: write_target_def sample_options_def defaultWriteOptions_def sample_absolute)

lemma sample_ready:
  "fs_wf (fs (sample_world x evs))" "locate (fs (sample_world x evs)) ''/v/s'' = Inr (5, ''s'')"
  "write_target c (fs (sample_world x evs)) ''/v/s'' sample_options = Inr ''/v/s''"
  "beforePublish sample_options = None"
  by (simp_all add: sample_world_def sample_fs_wf sample_locate sample_target)
     (simp add: sample_options_def defaultWriteOptions_def)

lemma sample_file:
  "durables (fs (sample_world (Some s) evs)) (5, ''s'') = {Some 6}"
  "dirents (fs (sample_world (Some s) evs)) (5, ''s'') = Some 6"
  "inodes (fs (sample_world (Some s) evs)) 6 = sample_inode Reg 416 s"
  by (simp_all add: sample_world_def sample_fs_def)

theorem write_crash_atomic_witness:
  "\<exists>r w'. run_state (writeWithResult ''/v/s'' ''new'' sample_options)
              (sample_world (Some ''old'') [calm Normal, calm (Short 2), calm (Err EIO)]) = (r, w') \<and>
     (\<forall>v \<in> durables (fs w') (5, ''s''). v = Some 6 \<and> i_data (inodes (fs w') 6) = ''old'' \<or>
        (\<exists>i. v = Some i \<and> i_data (inodes (fs w') i) = ''new'' \<and> i_synced (inodes (fs w') i)))"
proof -
  let ?w = "sample_world (Some ''old'') [calm Normal, calm (Short 2), calm (Err EIO)]"
  obtain r w' where run: "run_state (writeWithResult ''/v/s'' ''new'' sample_options) ?w = (r, w')"
    by (rule prod.exhaust)
  have "quiet ?w" by (simp add: quiet_def sample_world_def)
  note at_sample = write_crash_atomic[OF this sample_ready(1) sample_ready(4) sample_ready(3)
      sample_ready(2) run]
  have "v = Some 6 \<and> i_data (inodes (fs w') 6) = ''old'' \<or>
        (\<exists>i. v = Some i \<and> i_data (inodes (fs w') i) = ''new'' \<and> i_synced (inodes (fs w') i))"
    if "v \<in> durables (fs w') (5, ''s'')" for v
    using at_sample[OF that] by (elim disjE conjE) (auto simp: sample_file sample_inode_def)
  then show ?thesis using run by blast
qed

text \<open>
  C16. The flags of an \<open>AtomicWriteResult\<close> are honest: success is a confirmed installation; a
  confirmed installation leaves the complete new file as the only content the target can have after
  a power loss; an installation puts the complete new file at the target and reports its identity;
  and without an installation, unless an exclusive creation fell back to \<open>link\<close>, the target entry and
  what it can be after a power loss are as before.
\<close>

theorem write_result_honest:
  assumes "quiet w" "fs_wf (fs w)" "beforePublish opts = None"
    and "write_target (ids w) (fs w) path opts = Inr tp" "locate (fs w) tp = Inr tgt"
    and "run_state (writeWithResult path content opts) w = ((ok, msg, res), w')"
  shows "ok = (installed res \<and> durabilityConfirmed res) \<and>
    (installed res \<longrightarrow> (\<exists>i st. dirents (fs w') tgt = Some i \<and>
       i_data (inodes (fs w') i) = content \<and> i_synced (inodes (fs w') i) \<and>
       installedTargetState res = Some st \<and> holds_state (fs w') i st)) \<and>
    (durabilityConfirmed res \<longrightarrow> durables (fs w') tgt = {dirents (fs w') tgt}) \<and>
    (\<not> installed res \<and> \<not> exclusiveCreate opts \<longrightarrow>
       dirents (fs w') tgt = dirents (fs w) tgt \<and> durables (fs w') tgt = durables (fs w) tgt)"
proof (intro conjI impI)
  note eff = write_run[OF assms]
  let ?f = "fs w"
  let ?g = "fs w'"
  have dir: "fst tgt < next_ino ?f \<and> i_kind (inodes ?f (fst tgt)) = Dir"
    using assms(5) fs_wf_dir[OF assms(2)] by (auto simp: locate_def and_then_Inr split: if_splits)
  have inst: "(\<exists>i st. dirents ?g tgt = Some i \<and> i_data (inodes ?g i) = content \<and>
       i_synced (inodes ?g i) \<and> installedTargetState res = Some st \<and> holds_state ?g i st) \<and>
     (durabilityConfirmed res \<longrightarrow> durables ?g tgt = {dirents ?g tgt})" if done_so: "installed res"
  proof -
    obtain t m h where n: "new_file (ids w) ?f tp opts content m" and p: "published ?f t tgt m h"
      and st: "installedTargetState res =
                 Some (state_of_stat (stat_of (with_temp ?f t m) (next_ino ?f)) content)"
      and g: "?g = (if durabilityConfirmed res then settled_dir (fst tgt) h else h)"
      using eff done_so by (auto simp: write_effect_def)
    have hd: "i_kind (inodes h (fst tgt)) = Dir"
      using p dir by (auto simp: published_def frame_def same_file_def)
    have i: "inodes ?g (next_ino ?f) = inodes h (next_ino ?f)" and e: "dirents ?g tgt = Some (next_ino ?f)"
      using g dir p settled_dir_simps[OF hd] by (auto simp: published_def)
    have "holds_state ?g (next_ino ?f) (state_of_stat (stat_of (with_temp ?f t m) (next_ino ?f)) content)"
      "i_data (inodes ?g (next_ino ?f)) = content \<and> i_synced (inodes ?g (next_ino ?f))"
      using i n p
      by (simp_all add: holds_state_def stat_matches_def state_of_stat_def published_def new_file_def
          same_file_def)
    then show ?thesis using e st g settled_dir_simps[OF hd] by auto
  qed
  show "ok = (installed res \<and> durabilityConfirmed res)"
    using eff by (auto simp: write_effect_def)
  show "\<exists>i st. dirents ?g tgt = Some i \<and> i_data (inodes ?g i) = content \<and> i_synced (inodes ?g i) \<and>
      installedTargetState res = Some st \<and> holds_state ?g i st" if "installed res"
    using inst[OF that] by blast
  show "durables ?g tgt = {dirents ?g tgt}" if "durabilityConfirmed res"
    using inst that eff by (auto simp: write_effect_def)
  show "dirents ?g tgt = dirents ?f tgt" "durables ?g tgt = durables ?f tgt"
    if "\<not> installed res \<and> \<not> exclusiveCreate opts"
    using eff that spared_target by (auto simp: write_effect_def)
qed

theorem write_result_honest_witness:
  "\<exists>ok msg res w'. run_state (writeWithResult ''/v/s'' ''new'' sample_options)
              (sample_world (Some ''old'') [calm Normal, calm (Err EIO)]) = ((ok, msg, res), w') \<and>
     ok = (installed res \<and> durabilityConfirmed res) \<and>
     (\<not> installed res \<longrightarrow> dirents (fs w') (5, ''s'') = Some 6 \<and> durables (fs w') (5, ''s'') = {Some 6})"
proof -
  let ?w = "sample_world (Some ''old'') [calm Normal, calm (Err EIO)]"
  obtain ok msg res w' where
    run: "run_state (writeWithResult ''/v/s'' ''new'' sample_options) ?w = ((ok, msg, res), w')"
    by (metis prod.exhaust)
  have "quiet ?w" by (simp add: quiet_def sample_world_def)
  note at_sample = write_result_honest[OF this sample_ready(1) sample_ready(4) sample_ready(3)
      sample_ready(2) run]
  have "\<not> exclusiveCreate sample_options"
    by (simp add: sample_options_def defaultWriteOptions_def)
  then show ?thesis using run at_sample by (auto simp: sample_file)
qed

end
