(* ===== verification/AtomicRemoval.thy ===== *)
theory AtomicRemoval
  imports AtomicFileProps
begin

text \<open>
  The durability barriers of the atomic file writer and its conditional removal, when no other
  process interferes: a barrier that reports success leaves only the current values of the
  directory's entries after a power loss, and the conditional removal removes the entry only
  while it names exactly the expected object.
\<close>

section \<open>Barriers and conditional removal\<close>

lemma wp_closing:
  assumes "at c f w" "\<And>w'. at c f w' \<Longrightarrow> Q x w'"
  shows "wp (closing fds x) Q w"
  using assms
proof (induction fds arbitrary: w)
  case Nil
  then show ?case by (simp add: wp_simps)
next
  case (Cons fd fds)
  show ?case
    unfolding closing.simps wp_simps by (rule wp_closeFd[OF Cons(2)]) (rule Cons.IH[OF _ Cons(3)])
qed

declare closing.simps [simp del]

lemma wp_prove_entry:
  assumes "at c f w"
    and "\<And>ok msg pre w'. at c f w' \<Longrightarrow> Q (Inl (ok, msg, pre)) w'"
    and "\<And>i w'. at c f w' \<Longrightarrow> dirents f (d, filename p) = Some i \<Longrightarrow> stat_matches x (stat_of f i) \<Longrightarrow>
           Q (Inr ()) w'"
  shows "wp (prove_entry p x d) Q w"
proof -
  have stop: "wp (closing fds (Inl r)) Q v" if "at c f v" for fds r v
    using that by (rule wp_closing) (cases r, simp add: assms(2))
  show ?thesis
    unfolding prove_entry_def wp_bind
    by (rule wp_fstatat[OF assms(1)])
       (auto simp: wp_simps stat_matches_def simp del: append_Cons intro!: stop assms(3))
qed

lemma wp_prove_opened:
  assumes "at c f w"
    and "\<And>ok msg pre w'. at c f w' \<Longrightarrow> Q (Inl (ok, msg, pre)) w'"
    and "\<And>i w'. at c f w' \<Longrightarrow> dirents f (d, filename p) = Some i \<Longrightarrow> stat_matches x (stat_of f i) \<Longrightarrow>
           Q (Inr (i, stat_of f i)) w'"
  shows "wp (prove_opened p x d) Q w"
proof -
  have stop: "wp (closing fds (Inl r)) Q v" if "at c f v" for fds r v
    using that by (rule wp_closing) (cases r, simp add: assms(2))
  have "wp (sys_fstat i) (\<lambda>s. wp (case s of
        Inl e \<Rightarrow> closing fds (Inl (g e))
      | Inr info \<Rightarrow> if \<not> stat_matches x info then closing fds (Inl h)
          else State_Monad.return (Inr (i, info))) Q) v"
    if "at c f v" "dirents f (d, filename p) = Some i" for i v fds g h
    by (rule wp_fstat[OF that(1)]) (use that(2) in \<open>auto simp: wp_simps intro!: stop assms(3)\<close>)
  then show ?thesis
    unfolding prove_opened_def wp_bind
    by (intro wp_openat_nofollow[OF assms(1)])
       (simp_all add: wp_simps stop del: append_Cons)
qed

lemma wp_prove_content:
  assumes "at c f w"
    and "\<And>ok msg pre w'. at c f w' \<Longrightarrow> Q (Inl (ok, msg, pre)) w'"
    and "\<And>w'. at c f w' \<Longrightarrow> i_data (inodes f i) = ts_content x \<Longrightarrow> Q (Inr ()) w'"
  shows "wp (prove_content p x d i) Q w"
proof -
  have stop: "wp (closing fds (Inl r)) Q v" if "at c f v" for fds r v
    using that by (rule wp_closing) (cases r, simp add: assms(2))
  show ?thesis
    unfolding prove_content_def wp_bind
    by (rule wp_read_all[OF assms(1)])
       (auto simp: wp_simps simp del: append_Cons intro!: stop assms(3))
qed

lemma wp_prove_final:
  assumes "at c f w"
    and "\<And>ok msg pre w'. at c f w' \<Longrightarrow> Q (Inl (ok, msg, pre)) w'"
    and "\<And>w'. at c f w' \<Longrightarrow> Q (Inr ()) w'"
  shows "wp (prove_final p d i info) Q w"
proof -
  have stop: "wp (closing fds (Inl r)) Q v" if "at c f v" for fds r v
    using that by (rule wp_closing) (cases r, simp add: assms(2))
  show ?thesis
    unfolding prove_final_def wp_bind
    by (rule wp_fstatat[OF assms(1)])
       (auto simp: wp_simps simp del: append_Cons intro!: stop assms(3))
qed

definition unlinked :: "dirent \<Rightarrow> nat \<Rightarrow> fsys \<Rightarrow> fsys" where
  "unlinked e i f = set_dirent e None (drop_link (Some i) f)"

lemma wp_remove_proven:
  assumes w: "at c f w"
    and kept: "\<And>ok msg pre w'. at c f w' \<Longrightarrow> Q (Inl (ok, msg, pre)) w'"
    and removed: "\<And>d i w'. dir_node f (parent_path p) = Inr d \<Longrightarrow> dirents f (d, filename p) = Some i \<Longrightarrow>
           holds_state f i x \<Longrightarrow> at c (unlinked (d, filename p) i f) w' \<Longrightarrow> Q (Inr ()) w'"
  shows "wp (remove_proven p x) Q w"
proof (cases "remove_path_valid p")
  case False
  then show ?thesis using w kept by (simp add: remove_proven_def wp_simps)
next
  case True
  have unlink: "wp (unlink_proven p d i) Q v"
    if v: "at c f v" and d: "dir_node f (parent_path p) = Inr d" "dirents f (d, filename p) = Some i"
      "holds_state f i x" for d i v
    unfolding unlink_proven_def wp_bind
  proof (rule wp_unlinkat[OF v], goal_cases)
    case (1 e w')
    then show ?case by (auto simp del: append_Cons intro!: wp_closing[of c f] kept)
  next
    case (2 j w')
    then have gone: "at c (unlinked (d, filename p) i f) w'" using d by (simp add: unlinked_def)
    show ?case unfolding sum.case by (rule wp_closing[OF gone]) (rule removed[OF d])
  qed
  have steps: "wp (proceed (prove_entry p x d) (\<lambda>_.
      proceed (prove_opened p x d) (\<lambda>(fileFd, openedInfo).
      proceed (prove_content p x d fileFd) (\<lambda>_.
      proceed (prove_final p d fileFd openedInfo) (\<lambda>_.
        unlink_proven p d fileFd))))) Q v"
    if v: "at c f v" and d: "dir_node f (parent_path p) = Inr d" for d v
    unfolding wp_proceed
  proof (rule wp_prove_entry[OF v], simp add: kept, simp only: sum.case, rule wp_prove_opened,
      assumption, simp add: kept, simp only: sum.case prod.case wp_proceed, goal_cases)
    case (1 j v1 i v2)
    show ?case
      by (rule wp_prove_content[OF 1(4)], simp add: kept, simp only: sum.case, rule wp_prove_final,
          assumption, simp add: kept, simp only: sum.case)
         (use 1 d in \<open>auto simp: holds_state_def intro!: unlink\<close>)
  qed
  show ?thesis using True
    unfolding remove_proven_def
    by (simp only: simp_thms if_False wp_bind, intro wp_open_dir[OF w])
       (simp_all add: wp_return kept steps del: append_Cons)
qed

text \<open>The effect of a conditional removal, by the flags of its result.\<close>

definition remove_effect ::
    "fsys \<Rightarrow> string \<Rightarrow> AtomicTargetState \<Rightarrow> bool \<times> string \<times> AtomicRemoveResult \<Rightarrow> fsys \<Rightarrow> bool" where
  "remove_effect f p x r g \<longleftrightarrow> (case r of (ok, msg, res) \<Rightarrow>
     (\<not> rm_removed res \<longrightarrow> \<not> rm_durabilityConfirmed res \<and> g = f) \<and>
     (rm_removed res \<longrightarrow> \<not> rm_preconditionFailed res \<and> ok = rm_durabilityConfirmed res \<and>
        (\<exists>d i. dir_node f (parent_path p) = Inr d \<and> dirents f (d, filename p) = Some i \<and>
           holds_state f i x \<and>
           g = (if rm_durabilityConfirmed res then settled_dir d (unlinked (d, filename p) i f)
                else unlinked (d, filename p) i f))))"

lemma unlinked_simps [simp]:
  "dirs (unlinked e i f) = dirs f" "next_ino (unlinked e i f) = next_ino f"
  "dirents (unlinked e i f) = (dirents f)(e := None)"
  "durables (unlinked e i f) = (durables f)(e := insert None (durables f e))"
  by (simp_all add: unlinked_def)

lemma unlinked_inodes: "same_file (inodes (unlinked e i f) j) (inodes f j)"
  by (simp add: unlinked_def drop_link_inodes)

lemma unlinked_wf: "fs_wf f \<Longrightarrow> fs_wf (unlinked e i f)"
  by (auto simp: unlinked_def intro!: fs_wf_set_dirent fs_wf_drop_link)

lemma wp_removeIfCurrentState:
  assumes w: "at c f w"
    and Q: "\<And>r g w'. at c g w' \<Longrightarrow> remove_effect f p x r g \<Longrightarrow> Q r w'"
  shows "wp (removeIfCurrentState p x) Q w"
  unfolding removeIfCurrentState_def wp_bind
proof (rule wp_remove_proven[OF w], goal_cases)
  case (1 ok msg pre w')
  then show ?case
    by (auto simp: wp_simps remove_effect_def emptyRemoveResult_def intro!: Q)
next
  case (2 d i w')
  let ?g = "unlinked (d, filename p) i f"
  have node: "dir_node ?g (parent_path p) = dir_node f (parent_path p)"
    by (rule dir_node_cong) simp
  show ?case
    unfolding sum.case wp_bind fsyncParentDirectoryForPath_def
  proof (rule wp_fsyncParentDirectory[OF 2(4)], goal_cases)
    case (1 msg v)
    then show ?case using 2
      by (auto simp: wp_simps remove_effect_def emptyRemoveResult_def simp del: append_Cons intro!: Q)
  next
    case (2 d' msg v)
    then have "d' = d" using node \<open>dir_node f (parent_path p) = Inr d\<close> by simp
    then show ?case using 2 \<open>dir_node f (parent_path p) = Inr d\<close> \<open>holds_state f i x\<close>
        \<open>dirents f (d, filename p) = Some i\<close>
      by (auto simp: wp_simps remove_effect_def emptyRemoveResult_def simp del: append_Cons intro!: Q)
  qed
qed

lemma absolute_parent: "is_absolute p \<Longrightarrow> parent_path p \<noteq> ''''"
proof -
  assume "is_absolute p"
  then have "\<exists>ch \<in> set (rev p). is_slash ch"
    by (cases p) (auto simp: is_absolute_def)
  then have "dropWhile (\<lambda>ch. \<not> is_slash ch) (rev p) \<noteq> []" by simp
  then show ?thesis
    by (auto simp: parent_path_def Let_def split: list.splits)
qed

lemma locate_absolute:
  assumes "is_absolute p" "dirs f (parent_path p) = DirNode d"
  shows "locate f p = Inr (d, filename p)"
  using assms by (auto simp: locate_def is_absolute_def dir_node_def)

lemma canonical_regular:
  assumes "is_absolute p" "dirs f (parent_path p) = DirNode d"
    and "lookup f p = Inr i" "i_kind (inodes f i) = Reg" "canonical_path here f p = Inr q"
  shows "parent_path q = parent_path p"
proof -
  have "follow link_limit f p = Inr (p, i)"
    using assms(3,4) by (simp add: link_limit_def numeral_eq_Suc)
  then have q: "q = path_join (parent_path p) (filename p)"
    using assms(1,2,5) by (auto simp: canonical_path_def absolute_path_def is_absolute_def)
  have "parent_path p = ''/'' \<or> parent_path p \<noteq> '''' \<and> \<not> is_slash (last (parent_path p))"
    using absolute_parent[OF assms(1)] parent_path_form[of p] by auto
  moreover have "\<forall>ch \<in> set (filename p). \<not> is_slash ch" using filename_no_slash[of _ p] by auto
  ultimately show ?thesis unfolding q by (simp add: parent_path_join)
qed

lemma wp_ensureTargetDurable:
  assumes w: "at c f w" and p: "is_absolute p" "dirs f (parent_path p) = DirNode d"
    and no: "\<And>msg w'. at c f w' \<Longrightarrow> Q (False, msg) w'"
    and yes: "\<And>msg w'. at c (settled_dir d f) w' \<Longrightarrow> Q (True, msg) w'"
  shows "wp (ensureTargetDurable p) Q w"
proof -
  have fail: "wp errnoMessage (\<lambda>msg. Q (False, g msg)) v" if "at c f v" for v g
    using that no by (rule wp_errnoMessage)
  have go: "wp (fs_canonical p) (\<lambda>r. wp (case r of
      Inl e \<Rightarrow> State_Monad.return (False, g e)
    | Inr q \<Rightarrow> fsyncParentDirectory (parent_path q)) Q) v"
    if v: "at c f v" and i: "lookup f p = Inr i" "i_kind (inodes f i) = Reg" for v i g
  proof (rule wp_fs_canonical[OF v], goal_cases)
    case (1 e v')
    then show ?case using no by (simp add: wp_simps)
  next
    case (2 q v')
    have "parent_path q = parent_path p" using canonical_regular[OF p i 2(1)] .
    then have "wp (fsyncParentDirectory (parent_path q)) Q v'"
      using p(2) no yes
      by (intro wp_fsyncParentDirectory[OF 2(2)]) (auto simp: dir_node_def)
    then show ?case by simp
  qed
  show ?thesis
    unfolding ensureTargetDurable_def wp_bind
    by (rule wp_lstat[OF w]) (auto simp: wp_simps simp del: append_Cons intro!: fail go)
qed

lemma wp_targetStateMatches:
  assumes "at c f w"
    and "\<And>msg w'. at c f w' \<Longrightarrow> Q (False, msg) w'"
    and "\<And>i w'. at c f w' \<Longrightarrow> lookup f p = Inr i \<Longrightarrow> holds_state f i x \<Longrightarrow> Q (True, '''') w'"
  shows "wp (targetStateMatches p x) Q w"
  unfolding targetStateMatches_def wp_simps
  by (rule wp_matchesExpectedTarget[OF assms(1)])
     (auto simp: target_as_expected_def simp del: append_Cons intro!: assms(2,3))

lemma wp_ensureTargetDurableIfCurrentState:
  assumes w: "at c f w" and p: "is_absolute p" "dirs f (parent_path p) = DirNode d"
    and no: "\<And>msg w'. at c f w' \<Longrightarrow> Q (False, msg) w'"
    and yes: "\<And>i msg w'. lookup f p = Inr i \<Longrightarrow> holds_state f i x \<Longrightarrow> at c (settled_dir d f) w' \<Longrightarrow>
           Q (True, msg) w'"
  shows "wp (ensureTargetDurableIfCurrentState p x) Q w"
  unfolding ensureTargetDurableIfCurrentState_def wp_bind
  by (rule wp_targetStateMatches[OF w])
     (auto simp: wp_simps simp del: append_Cons intro!: no yes wp_ensureTargetDurable[OF _ p])

lemma wp_prove_absent:
  assumes "at c f w"
    and "\<And>msg w'. at c f w' \<Longrightarrow> Q (Inl msg) w'"
    and "\<And>w'. at c f w' \<Longrightarrow> lookup f p = Inl ENOENT \<Longrightarrow> Q (Inr ()) w'"
  shows "wp (prove_absent p a b) Q w"
  unfolding prove_absent_def wp_simps
  by (rule wp_lstat[OF assms(1)]) (auto intro!: assms(2,3))

lemma wp_ensureTargetAbsentDurable:
  assumes w: "at c f w"
    and no: "\<And>msg w'. at c f w' \<Longrightarrow> Q (False, msg) w'"
    and maybe: "\<And>d msg w'. dir_node f (parent_path p) = Inr d \<Longrightarrow> lookup f p = Inl ENOENT \<Longrightarrow>
           at c (settled_dir d f) w' \<Longrightarrow> Q (False, msg) w'"
    and yes: "\<And>d msg w'. dir_node f (parent_path p) = Inr d \<Longrightarrow> lookup f p = Inl ENOENT \<Longrightarrow>
           at c (settled_dir d f) w' \<Longrightarrow> Q (True, msg) w'"
  shows "wp (ensureTargetAbsentDurableIfCurrentState p) Q w"
  unfolding ensureTargetAbsentDurableIfCurrentState_def wp_bind
proof (rule wp_prove_absent[OF w], goal_cases)
  case (1 msg w')
  then show ?case using no by (simp add: wp_simps)
next
  case (2 w')
  have again: "wp (prove_absent p a b) (\<lambda>r. Q (case r of Inl msg \<Rightarrow> (False, msg) | Inr _ \<Rightarrow> (True, ''''))) v"
    if "dir_node f (parent_path p) = Inr d" "at c (settled_dir d f) v" for d v a b
    by (rule wp_prove_absent[OF that(2)])
       (use that 2 in \<open>auto intro!: maybe yes\<close>)
  show ?case
    unfolding sum.case fsyncParentDirectoryForPath_def wp_bind
    by (rule wp_fsyncParentDirectory[OF 2(1)])
       (auto simp: wp_simps no simp del: append_Cons intro!: again)
qed

section \<open>The contract of the conditional removal\<close>

lemma removeIfCurrentState_run:
  assumes "quiet w" "run_state (removeIfCurrentState p x) w = (r, w')"
  shows "remove_effect (fs w) p x r (fs w')"
proof -
  have "wp (removeIfCurrentState p x) (\<lambda>r w'. remove_effect (fs w) p x r (fs w')) w"
    by (rule wp_removeIfCurrentState[OF at_start[OF assms(1)]]) (simp add: atD)
  then show ?thesis using assms(2) by (rule wpD)
qed



end
