(* ===== verification/SecureStateProps.thy ===== *)
theory SecureStateProps
  imports SecureState AtomicRemoval
begin

text \<open>
  What a secure read establishes when no other process interferes: a proven result carries the
  exact content of a file that passed every check, a missing result means that the entry does not
  exist in a proven directory, and every failure in between is reported as unprovable. The read
  itself changes nothing.
\<close>

lemma read_bounded_post:
  assumes "read_bounded fd acc s w = (r, w')" "at c f w"
    and "s = take (length s) (i_data (inodes f fd))"
  shows "at c f w' \<and> (\<forall>x. r = Inr x \<longrightarrow> length x \<le> acc \<longrightarrow> x = i_data (inodes f fd))"
  using assms
proof (induction fd acc s w rule: read_bounded.induct)
  case (1 fd acc s w)
  let ?d = "i_data (inodes f fd)"
  show ?case
  proof (cases "length s > acc")
    case True
    then show ?thesis using "1.prems" by (auto simp: read_bounded.simps[of fd acc s w])
  next
    case more: False
    obtain y v where y: "call (op_read fd (length s) buffer_size) w = (y, v)" by force
    from "1.prems"(2) y show ?thesis
    proof (cases rule: call_read_cases)
      case (1 e)
      then show ?thesis using "1.prems" "1.IH"(1)[OF more y[symmetric]] y more
        by (auto simp: read_bounded.simps[of fd acc s w] split: if_splits)
    next
      case (2 k)
      let ?c = "take k (drop (length s) ?d)"
      show ?thesis
      proof (cases "?c = []")
        case True
        then have "length ?d \<le> length s" using 2 by auto
        then have "s = ?d" using "1.prems"(3) by simp
        moreover have "read_bounded fd acc s w = (Inr s, v)"
          using y 2(1) True more by (simp add: read_bounded.simps[of fd acc s w])
        ultimately show ?thesis using "1.prems"(1) 2(2) by auto
      next
        case c: False
        have rec: "read_bounded fd acc (s @ ?c) v = (r, w')"
          using "1.prems"(1) y 2(1) c more by (simp add: read_bounded.simps[of fd acc s w])
        have "s @ ?c = take (length (s @ ?c)) ?d"
          using "1.prems"(3) unfolding length_append take_add take_length_take by simp
        then show ?thesis by (rule "1.IH"(2)[OF more y[symmetric] 2(1) c rec 2(2)])
      qed
    qed
  qed
qed

lemma pread_again_post:
  assumes "pread_again fd cap s w = (r, w')" "at c f w"
  shows "at c f w'"
  using assms
proof (induction fd cap s w rule: pread_again.induct)
  case (1 fd cap s w)
  show ?case
  proof (cases "length s \<ge> cap")
    case True
    then show ?thesis using "1.prems" by (auto simp: pread_again.simps[of fd cap s w])
  next
    case more: False
    obtain y v where y: "call (op_read fd (length s) (cap - length s)) w = (y, v)" by force
    from "1.prems"(2) y show ?thesis
    proof (cases rule: call_read_cases)
      case (1 e)
      then show ?thesis using "1.prems" "1.IH"(1)[OF more y[symmetric]] y more
        by (auto simp: pread_again.simps[of fd cap s w] split: if_splits)
    next
      case (2 k)
      then show ?thesis using "1.prems" "1.IH"(2)[OF more y[symmetric]] y more
        by (auto simp: pread_again.simps[of fd cap s w] split: if_splits)
    qed
  qed
qed

lemma wp_read_bounded [io_rules]:
  assumes "at c f w"
    and "\<And>r w'. at c f w' \<Longrightarrow> \<forall>x. r = Inr x \<longrightarrow> length x \<le> acc \<longrightarrow> x = i_data (inodes f fd) \<Longrightarrow> Q r w'"
  shows "wp (State (read_bounded fd acc [])) Q w"
proof -
  obtain r w' where run: "read_bounded fd acc [] w = (r, w')" by force
  then show ?thesis
    using read_bounded_post[of fd acc "[]" w r w' c f] assms by (simp add: wp_State)
qed

lemma wp_pread_again [io_rules]:
  assumes "at c f w" "\<And>r w'. at c f w' \<Longrightarrow> Q r w'"
  shows "wp (State (pread_again fd cap [])) Q w"
proof -
  obtain r w' where run: "pread_again fd cap [] w = (r, w')" by force
  then show ?thesis
    using pread_again_post[of fd cap "[]" w r w' c f] assms by (simp add: wp_State)
qed

lemma wp_closed_with:
  assumes "at c f w" "\<And>w'. at c f w' \<Longrightarrow> Q res w'"
  shows "wp (closed_with fd res) Q w"
  unfolding closed_with_def wp_simps by (rule wp_close[OF assms(1)]) (rule assms(2))

lemma wp_proveSafeParentDirectory:
  assumes "at c f w"
    and "\<And>msg w'. at c f w' \<Longrightarrow> Q (Inl msg) w'"
    and "\<And>d w'. at c f w' \<Longrightarrow> dirs f q = DirNode d \<Longrightarrow> parent_complaint x q (stat_of f d) = None \<Longrightarrow>
           Q (Inr ()) w'"
  shows "wp (proveSafeParentDirectory q x) Q w"
proof (cases "q = ''''")
  case True
  then show ?thesis using assms(1,2) by (simp add: proveSafeParentDirectory_def wp_simps)
next
  case False
  have "wp (sys_fstat d) (\<lambda>s. wp (sys_close d) (\<lambda>_. Q (case s of
            Inl e \<Rightarrow> Inl (g e)
          | Inr info \<Rightarrow> (case parent_complaint x q info of Some msg \<Rightarrow> Inl msg | None \<Rightarrow> Inr ())))) w'"
    if "at c f w'" "dirs f q = DirNode d" for d w' and g :: "errno \<Rightarrow> string"
    by (rule wp_fstat[OF that(1)])
       (auto intro!: wp_close[of c f] assms(2,3) simp: that(2) split: option.splits)
  then show ?thesis
    using False unfolding proveSafeParentDirectory_def
    by (simp only: if_False wp_simps, intro wp_open_dir[OF assms(1)])
       (simp_all add: wp_simps assms(2))
qed

lemma wp_prove_unchanged:
  assumes "at c f w"
    and "\<And>msg w'. at c f w' \<Longrightarrow> Q (unprovable msg) w'"
    and "\<And>w'. at c f w' \<Longrightarrow> Q (proven_state before s) w'"
  shows "wp (prove_unchanged path fd before s) Q w"
proof -
  have no: "wp (closed_with fd (unprovable msg)) Q v" if "at c f v" for fd msg v
    using that assms(2) by (rule wp_closed_with)
  have last: "wp (sys_fstat fd) (\<lambda>r. wp (case r of
        Inl e \<Rightarrow> closed_with fd (unprovable (g e))
      | Inr finalInfo \<Rightarrow> if \<not> same_times finalInfo after then closed_with fd (unprovable (h finalInfo))
          else closed_with fd (proven_state before s)) Q) w'"
    if "at c f w'" for w' after g h
    by (rule wp_fstat[OF that]) (auto intro!: no wp_closed_with[of c f] assms(3))
  show ?thesis
    unfolding prove_unchanged_def wp_simps
  proof (rule wp_fstat[OF assms(1)], goal_cases)
    case (1 e w')
    then show ?case by (simp add: no)
  next
    case (2 w')
    show ?case
    proof (cases "same_object (stat_of f fd) before")
      case True
      have "wp (State (pread_again fd (length s + 1) [])) (\<lambda>second. wp (if second \<noteq> Some s
            then closed_with fd (unprovable m)
            else do { r \<leftarrow> sys_fstat fd; (case r of
                Inl e \<Rightarrow> closed_with fd (unprovable (g e))
              | Inr finalInfo \<Rightarrow> if \<not> same_times finalInfo (stat_of f fd)
                  then closed_with fd (unprovable (h finalInfo))
                  else closed_with fd (proven_state before s)) }) Q) w'" for m g h
        by (rule wp_pread_again[OF 2]) (auto simp: wp_bind intro!: no last)
      then show ?thesis using True
        by (simp only: sum.case simp_thms if_False wp_bind)
    next
      case False
      then show ?thesis using 2 by (simp add: no)
    qed
  qed
qed

text \<open>The checks of an accepted file.\<close>

definition proven_at :: "SecureStateFileExpectation \<Rightarrow> nat \<Rightarrow> fsys \<Rightarrow> string \<Rightarrow> nat \<Rightarrow> bool" where
  "proven_at x acc f p i \<longleftrightarrow>
     lookup f p = Inr i \<and> file_complaint x acc p (stat_of f i) = None"

lemma wp_readSecureFileBounded:
  assumes "at c f w"
    and "\<And>msg w'. at c f w' \<Longrightarrow> Q (unprovable msg) w'"
    and "\<And>d w'. at c f w' \<Longrightarrow> dirs f (parent_path p) = DirNode d \<Longrightarrow> lookup f p = Inl ENOENT \<Longrightarrow>
           Q missing_state w'"
    and "\<And>d i w'. at c f w' \<Longrightarrow> dirs f (parent_path p) = DirNode d \<Longrightarrow>
           parent_complaint x (parent_path p) (stat_of f d) = None \<Longrightarrow>
           proven_at x (accepted_size x hard) f p i \<Longrightarrow>
           Q (proven_state (stat_of f i) (i_data (inodes f i))) w'"
  shows "wp (readSecureFileBounded p x hard) Q w"
proof (cases "hard = 0")
  case True
  then show ?thesis using assms(1,2) by (simp add: readSecureFileBounded_def wp_simps)
next
  case False
  have no: "wp (closed_with fd (unprovable msg)) Q v" if "at c f v" for fd msg v
    using that assms(2) by (rule wp_closed_with)
  let ?acc = "accepted_size x hard"
  have opened: "wp (read_opened p x ?acc i) Q w'"
    if w': "at c f w'" and d: "dirs f (parent_path p) = DirNode d"
      "parent_complaint x (parent_path p) (stat_of f d) = None" and i: "lookup f p = Inr i" for d i w'
    unfolding read_opened_def wp_bind
  proof (rule wp_fstat[OF w'], goal_cases)
    case (1 e v)
    then show ?case by (simp add: no)
  next
    case (2 v)
    show ?case
    proof (cases "file_complaint x ?acc p (stat_of f i)")
      case (Some msg)
      then show ?thesis using 2 by (simp add: no)
    next
      case None
      have "wp (State (read_bounded i ?acc [])) (\<lambda>r. wp (case r of
            Inl e \<Rightarrow> closed_with i (unprovable (g e))
          | Inr content \<Rightarrow> if length content > ?acc then closed_with i (unprovable (h content))
              else prove_unchanged p i (stat_of f i) content) Q) v" for g h
        by (rule wp_read_bounded[OF 2])
           (use None d i in \<open>auto split: sum.splits intro!: no wp_prove_unchanged[of c f] assms(2,4)
              simp: proven_at_def\<close>)
      then show ?thesis using None by (simp only: sum.case option.case wp_bind)
    qed
  qed
  have "wp (sys_open_nofollow p) (\<lambda>r. wp (case r of
          Inl e \<Rightarrow> State_Monad.return
            (if e = ENOENT then missing_state else if e = ELOOP then unprovable m else unprovable (g e))
        | Inr descriptor \<Rightarrow> read_opened p x ?acc descriptor) Q) w'"
    if "at c f w'" "dirs f (parent_path p) = DirNode d"
      "parent_complaint x (parent_path p) (stat_of f d) = None" for d w' m g
    by (rule wp_open_nofollow[OF that(1)])
       (use that in \<open>auto simp: wp_simps intro!: assms(2,3) opened\<close>)
  then show ?thesis
    using False unfolding readSecureFileBounded_def
    by (simp only: if_False wp_bind, intro wp_proveSafeParentDirectory[OF assms(1)])
       (simp_all add: wp_simps assms(2))
qed

end
