(* ===== verification/IncidentStateProps.thy ===== *)
theory IncidentStateProps
  imports IncidentStateStore SecureStateProps
begin

text \<open>
  The guarantees of the incident state store. The severities that the state file can stand for
  after a power loss are read off the possible directory entries: an absent, malformed or
  unacceptable file stands for \<open>ISOLATE\<close>. The lemmas show that a raise never lowers this set,
  that a durable raise leaves exactly the reported severity, that a successful clear leaves exactly
  \<open>UNLOCKED\<close>, and that a read reports a severity only for a file that carries it.
\<close>

section \<open>The content format\<close>

lemma serialize_token: "serialize s = severity_token s @ [CHR 0x0A]"
  by (simp add: serialize_def incidentSeverityToken_total)

lemma parse_serialize [simp]: "parseStrictSeverity (serialize s) = Inr s"
  using severity_token_plain[of s]
  by (simp add: serialize_token parseStrictSeverity_def Let_def)

lemma serialize_length: "length (serialize s) \<le> 64"
  by (cases s) (simp_all add: serialize_token)

lemma parse_strict_iff: "parseStrictSeverity content = Inr s \<longleftrightarrow> content = serialize s"
proof
  assume p: "parseStrictSeverity content = Inr s"
  then have "content \<noteq> []" "last content = CHR 0x0A" "parseIncidentSeverityToken (butlast content) = Some s"
    by (auto simp: parseStrictSeverity_def Let_def split: if_splits option.splits)
  then show "content = serialize s"
    unfolding serialize_token by (metis append_butlast_last_id parseIncidentSeverityToken_iff)
qed simp

section \<open>Severities after a power loss\<close>

definition acceptable_file :: "state_store \<Rightarrow> inode \<Rightarrow> bool" where
  "acceptable_file st n \<longleftrightarrow>
     i_kind n = Reg \<and> i_uid n = 0 \<and> i_gid n = state_group st \<and> i_mode n = 416 \<and> length (i_data n) \<le> 64"

definition decoded :: "state_store \<Rightarrow> inode \<Rightarrow> incident_severity" where
  "decoded st n =
     (if acceptable_file st n
      then (case parseStrictSeverity (i_data n) of Inl _ \<Rightarrow> Isolate | Inr s \<Rightarrow> s) else Isolate)"

text \<open>An inode whose data is not on the disk may hold anything after a power loss.\<close>

definition persisted :: "state_store \<Rightarrow> fsys \<Rightarrow> nat option \<Rightarrow> incident_severity set" where
  "persisted st f v =
     (case v of None \<Rightarrow> {Isolate}
      | Some i \<Rightarrow> if i_synced (inodes f i) then {decoded st (inodes f i)} else UNIV)"

definition crash_severities :: "state_store \<Rightarrow> fsys \<Rightarrow> dirent \<Rightarrow> incident_severity set" where
  "crash_severities st f e = (\<Union>v \<in> durables f e. persisted st f v)"

definition settled :: "fsys \<Rightarrow> dirent \<Rightarrow> bool" where
  "settled f e \<longleftrightarrow>
     durables f e = {dirents f e} \<and> (\<forall>i. dirents f e = Some i \<longrightarrow> i_synced (inodes f i))"

lemma decoded_same: "same_file m n \<Longrightarrow> decoded st m = decoded st n"
  by (simp add: decoded_def acceptable_file_def same_file_def)

lemma decoded_serialized:
  "acceptable_file st n \<Longrightarrow> i_data n = serialize s \<Longrightarrow> decoded st n = s"
  by (simp add: decoded_def)

lemma persisted_same:
  assumes "\<And>i. v = Some i \<Longrightarrow> same_file (inodes g i) (inodes f i)"
  shows "persisted st g v = persisted st f v"
proof (cases v)
  case (Some i)
  then show ?thesis using assms[of i] decoded_same[of "inodes g i" "inodes f i" st]
    by (simp add: persisted_def same_file_def)
qed (simp add: persisted_def)

lemma persisted_frame:
  assumes "fs_wf f" "frame f X g" "v \<in> durables f e"
  shows "persisted st g v = persisted st f v"
  using assms fs_wf_durable[OF assms(1), of _ e]
  by (intro persisted_same) (auto simp: frame_def)

lemma crash_spared:
  assumes "fs_wf f" "spared f e g"
  shows "crash_severities st g e = crash_severities st f e"
proof -
  obtain X where X: "e \<notin> X" "frame f X g" using assms(2) unfolding spared_def by blast
  then have "durables g e = durables f e" using frame_entry by metis
  then show ?thesis
    using persisted_frame[OF assms(1) X(2)] by (simp add: crash_severities_def)
qed

lemma crash_published:
  assumes "fs_wf f" "published f t e m g" "i_synced m"
  shows "crash_severities st g e = insert (decoded st m) (crash_severities st f e)"
proof -
  have fr: "frame f {t, e} g" and d: "durables g e = insert (Some (next_ino f)) (durables f e)"
    and n: "same_file (inodes g (next_ino f)) m"
    using assms(2) by (simp_all add: published_def)
  have "persisted st g (Some (next_ino f)) = {decoded st m}"
    using n assms(3) decoded_same[OF n] by (simp add: persisted_def same_file_def)
  then show ?thesis
    using persisted_frame[OF assms(1) fr, of _ e st] by (simp add: crash_severities_def d)
qed

lemma crash_unlinked:
  "crash_severities st (unlinked e i f) e = insert Isolate (crash_severities st f e)"
proof -
  have "persisted st (unlinked e i f) v = persisted st f v" for v
    by (rule persisted_same) (rule unlinked_inodes)
  then show ?thesis by (simp add: crash_severities_def persisted_def[of st f None])
qed

text \<open>A directory barrier leaves the current entry; it can only sync the directory itself.\<close>

lemma crash_settled:
  assumes "fs_wf f" "i_kind (inodes f (fst e)) = Dir"
  shows "crash_severities st (settled_dir (fst e) f) e = persisted st (settled_dir (fst e) f) (dirents f e)"
    and "persisted st (settled_dir (fst e) f) (dirents f e) \<subseteq> crash_severities st f e"
proof -
  let ?g = "settled_dir (fst e) f"
  show "crash_severities st ?g e = persisted st ?g (dirents f e)"
    by (simp add: crash_severities_def settled_dir_simps[OF assms(2)])
  have "persisted st ?g (dirents f e) \<subseteq> persisted st f (dirents f e)"
    by (cases "dirents f e")
       (auto simp: persisted_def settled_dir_simps[OF assms(2)] decoded_def acceptable_file_def)
  then show "persisted st ?g (dirents f e) \<subseteq> crash_severities st f e"
    using fs_wf_current[OF assms(1), of e] unfolding crash_severities_def by blast
qed

lemma crash_of_settled:
  assumes "settled f e"
  shows "crash_severities st f e =
    {case dirents f e of None \<Rightarrow> Isolate | Some i \<Rightarrow> decoded st (inodes f i)}"
  using assms by (cases "dirents f e") (auto simp: settled_def crash_severities_def persisted_def)

lemma settled_spared:
  assumes "fs_wf f" "spared f e g" "settled f e"
  shows "settled g e"
proof -
  have same: "dirents g e = dirents f e" "durables g e = durables f e"
    using spared_target[OF assms(2)] by simp_all
  obtain X where "frame f X g" using assms(2) unfolding spared_def by blast
  then have "i_synced (inodes g i) = i_synced (inodes f i)" if "dirents f e = Some i" for i
    using fs_wf_entry[OF assms(1) that] by (simp add: frame_def same_file_def)
  then show ?thesis using assms(3) same by (auto simp: settled_def)
qed
section \<open>The operations of the store\<close>

text \<open>The store's file lies in a real directory; its entry.\<close>

definition store_at :: "state_store \<Rightarrow> nat \<Rightarrow> fsys \<Rightarrow> bool" where
  "store_at st d f \<longleftrightarrow>
     fs_wf f \<and> is_absolute (store_path st) \<and> dirs f (parent_path (store_path st)) = DirNode d"

definition store_entry :: "state_store \<Rightarrow> nat \<Rightarrow> dirent" where
  "store_entry st d = (d, filename (store_path st))"

definition file_state :: "fsys \<Rightarrow> nat \<Rightarrow> AtomicTargetState" where
  "file_state f i = state_of_stat (stat_of f i) (i_data (inodes f i))"

lemma store_locate: "store_at st d f \<Longrightarrow> locate f (store_path st) = Inr (store_entry st d)"
  by (simp add: store_at_def store_entry_def locate_absolute)

lemma store_lookup:
  "store_at st d f \<Longrightarrow> lookup f (store_path st) =
     (case dirents f (store_entry st d) of None \<Rightarrow> Inl ENOENT | Some i \<Rightarrow> Inr i)"
  by (simp add: lookup_def store_locate)

lemma store_dir: "store_at st d f \<Longrightarrow> i_kind (inodes f (fst (store_entry st d))) = Dir"
  using fs_wf_node by (auto simp: store_at_def store_entry_def)

lemma store_dir_node: "store_at st d f \<Longrightarrow> dir_node f (parent_path (store_path st)) = Inr d"
  by (simp add: store_at_def dir_node_def)

lemma store_at_frame: "store_at st d f \<Longrightarrow> frame f X g \<Longrightarrow> fs_wf g \<Longrightarrow> store_at st d g"
  by (simp add: store_at_def frame_def)

lemma file_state_acceptable:
  "acceptable_file st (inodes f i) \<Longrightarrow> ts_mode (file_state f i) = 416 \<and>
     ts_owner (file_state f i) = 0 \<and> ts_group (file_state f i) = state_group st"
  by (simp add: file_state_def state_of_stat_def acceptable_file_def)

lemma file_complaint_None:
  assumes "file_complaint (lockedStateExpectation st) (accepted_size (lockedStateExpectation st)
             SECURE_STATE_READ_HARD_MAX_BYTES) p (stat_of f i) = None"
  shows "acceptable_file st (inodes f i)"
  using assms
  by (simp add: file_complaint_def lockedStateExpectation_def defaultExpectation_def allowed_def
      expectedStateOwner_def accepted_size_def SECURE_STATE_READ_HARD_MAX_BYTES_def
      acceptable_file_def split: if_splits)

lemma wp_store_read:
  assumes w: "at c f w" and st: "store_at st d f"
    and broken: "\<And>msg w'. at c f w' \<Longrightarrow>
      Q \<lparr> provenance = Broken, read_severity = Unlocked, read_detail = msg, provenState = None \<rparr> w'"
    and absent: "\<And>w'. at c f w' \<Longrightarrow> dirents f (store_entry st d) = None \<Longrightarrow>
      Q \<lparr> provenance = Absent, read_severity = Unlocked, read_detail = '''', provenState = None \<rparr> w'"
    and invalid: "\<And>i msg w'. at c f w' \<Longrightarrow> dirents f (store_entry st d) = Some i \<Longrightarrow>
      acceptable_file st (inodes f i) \<Longrightarrow> \<forall>s. i_data (inodes f i) \<noteq> serialize s \<Longrightarrow>
      Q \<lparr> provenance = InvalidContent, read_severity = Unlocked, read_detail = msg,
          provenState = Some (file_state f i) \<rparr> w'"
    and proven: "\<And>i s w'. at c f w' \<Longrightarrow> dirents f (store_entry st d) = Some i \<Longrightarrow>
      acceptable_file st (inodes f i) \<Longrightarrow> i_data (inodes f i) = serialize s \<Longrightarrow>
      Q \<lparr> provenance = Proven, read_severity = s, read_detail = '''',
          provenState = Some (file_state f i) \<rparr> w'"
  shows "wp (store_read st) Q w"
  unfolding store_read_def readSecureStateFile_def wp_simps
proof (rule wp_readSecureFileBounded[OF w], goal_cases)
  case (1 msg w')
  then show ?case using broken by (simp add: read_result_of_def unprovable_def)
next
  case (2 d' w')
  then show ?case using absent store_lookup[OF st]
    by (simp add: read_result_of_def missing_state_def split: option.splits)
next
  case (3 d' i w')
  then have i: "dirents f (store_entry st d) = Some i" "acceptable_file st (inodes f i)"
    using store_lookup[OF st] file_complaint_None
    by (auto simp: proven_at_def split: option.splits)
  show ?case
  proof (cases "parseStrictSeverity (i_data (inodes f i))")
    case (Inl reason)
    then have "\<forall>s. i_data (inodes f i) \<noteq> serialize s" by auto
    then show ?thesis using invalid[OF 3(1) i] Inl
      by (simp add: read_result_of_def proven_state_def file_state_def)
  next
    case (Inr s)
    then show ?thesis using proven[OF 3(1) i] parse_strict_iff
      by (simp add: read_result_of_def proven_state_def file_state_def)
  qed
qed

text \<open>A published state file that carries the given severity.\<close>

definition fresh_state ::
    "state_store \<Rightarrow> fsys \<Rightarrow> dirent \<Rightarrow> incident_severity \<Rightarrow> fsys \<Rightarrow> bool" where
  "fresh_state st f e s h \<longleftrightarrow>
     (\<exists>t m. published f t e m h \<and> acceptable_file st m \<and> i_data m = serialize s \<and> i_synced m)"

lemma chosen_provided:
  "metadataPolicy opts = EnforceProvided \<Longrightarrow> chosen_metadata opts (Some v) st field other = v"
  by (simp add: chosen_metadata_def preserves_existing_def split: option.splits)

lemma new_file_acceptable:
  assumes "new_file c f tp (locked_write_options st pre create) (serialize s) m"
    and "ts_mode pre = 416" "ts_owner pre = 0" "\<not> create \<Longrightarrow> ts_group pre = state_group st"
  shows "acceptable_file st m \<and> i_data m = serialize s \<and> i_synced m"
  using assms serialize_length[of s]
  by (auto simp: new_file_def acceptable_file_def locked_write_options_def defaultWriteOptions_def
      chosen_provided lockedStateExpectation_def defaultExpectation_def split: if_splits)

lemma locked_target:
  "store_at st d f \<Longrightarrow> write_target c f (store_path st) (locked_write_options st pre create) = Inr (store_path st)"
  by (auto simp: write_target_def locked_write_options_def defaultWriteOptions_def absolute_path_def
      store_at_def is_absolute_def)

lemma wp_writeLocked:
  assumes w: "at c f w" and st: "store_at st d f"
    and pre: "ts_mode pre = 416" "ts_owner pre = 0" "\<not> create \<Longrightarrow> ts_group pre = state_group st"
    and refused: "\<And>r g w'. at c g w' \<Longrightarrow> spared f (store_entry st d) g \<Longrightarrow> \<not> durable r \<Longrightarrow>
      persistence r = NotInstalled \<or> persistence r = PersistFailed \<Longrightarrow> installedState r = None \<Longrightarrow> Q r w'"
    and leaked: "\<And>r g w'. at c g w' \<Longrightarrow> create \<Longrightarrow> dirents f (store_entry st d) = None \<Longrightarrow>
      fresh_state st f (store_entry st d) target g \<Longrightarrow> \<not> durable r \<Longrightarrow>
      persistence r = NotInstalled \<or> persistence r = PersistFailed \<Longrightarrow> installedState r = None \<Longrightarrow> Q r w'"
    and confirmed: "\<And>r h w'. at c (settled_dir d h) w' \<Longrightarrow> fresh_state st f (store_entry st d) target h \<Longrightarrow>
      durable r \<Longrightarrow> persistence r = DurableConfirmed \<Longrightarrow> effectiveSeverity r = target \<Longrightarrow> Q r w'"
    and unconfirmed: "\<And>r h x w'. at c h w' \<Longrightarrow> fresh_state st f (store_entry st d) target h \<Longrightarrow>
      \<not> durable r \<Longrightarrow> persistence r = InstalledNotDurable \<Longrightarrow> effectiveSeverity r = target \<Longrightarrow>
      installedState r = Some x \<Longrightarrow> holds_state h (next_ino f) x \<Longrightarrow> Q r w'"
  shows "wp (writeLocked st pre target create) Q w"
proof -
  let ?o = "locked_write_options st pre create"
  let ?e = "store_entry st d"
  have wf: "fs_wf f" using st by (simp add: store_at_def)
  have opts: "passive_callback ?o" "exclusiveCreate ?o = create" "beforePublish ?o = None"
    by (simp_all add: passive_callback_def locked_write_options_def defaultWriteOptions_def)
  have fresh: "fresh_state st f ?e target h"
    if "new_file c f (store_path st) ?o (serialize target) m" "published f t ?e m h" for t m h
    using new_file_acceptable[OF that(1) pre] that(2) unfolding fresh_state_def by blast
  show ?thesis
    unfolding writeLocked_def wp_simps
  proof (rule wp_writeWithResult[OF w wf opts(1) locked_target[OF st] store_locate[OF st]], goal_cases)
    case (1 r g w')
    obtain ok msg res where r: "r = (ok, msg, res)" by (cases r)
    note eff = 1(2)[unfolded r write_effect_def prod.case opts(2)]
    show ?case
    proof (cases "installed res")
      case False
      then have out: "\<not> durable (write_outcome target r)" "installedState (write_outcome target r) = None"
        "persistence (write_outcome target r) = NotInstalled \<or>
         persistence (write_outcome target r) = PersistFailed"
        by (auto simp: write_outcome_def r emptyRaiseResult_def)
      from eff False consider "spared f ?e g"
        | t m where "create" "dirents f ?e = None" "new_file c f (store_path st) ?o (serialize target) m"
            "published f t ?e m g"
        by blast
      then show ?thesis
      proof cases
        case 1
        then show ?thesis using refused[OF \<open>at c g w'\<close>] out by blast
      next
        case 2
        then show ?thesis using leaked[OF \<open>at c g w'\<close>] fresh out by blast
      qed
    next
      case True
      then obtain t m h where h: "new_file c f (store_path st) ?o (serialize target) m"
        "published f t ?e m h"
        "installedTargetState res =
           Some (state_of_stat (stat_of (with_temp f t m) (next_ino f)) (serialize target))"
        "g = (if durabilityConfirmed res then settled_dir (fst ?e) h else h)"
        using eff by blast
      have holds: "holds_state h (next_ino f)
          (state_of_stat (stat_of (with_temp f t m) (next_ino f)) (serialize target))"
        using h(1,2) by (simp add: holds_state_def stat_matches_def state_of_stat_def published_def
            new_file_def same_file_def)
      have ok: "ok = durabilityConfirmed res" using eff by blast
      show ?thesis
      proof (cases "durabilityConfirmed res")
        case dur: True
        then have "at c (settled_dir d h) w'" using h(4) 1(1) by (simp add: store_entry_def)
        then show ?thesis
          by (rule confirmed[OF _ fresh[OF h(1,2)]])
             (simp_all add: write_outcome_def r emptyRaiseResult_def dur ok True)
      next
        case dur: False
        then have "at c h w'" using h(4) 1(1) by simp
        then show ?thesis
          by (rule unconfirmed[OF _ fresh[OF h(1,2)] _ _ _ _ holds])
             (simp_all add: write_outcome_def r emptyRaiseResult_def dur ok True h(3))
      qed
    qed
  qed
qed

section \<open>Never lowering\<close>

text \<open>A lower bound on what the store stands for after a power loss.\<close>

definition floor_at :: "state_store \<Rightarrow> nat \<Rightarrow> fsys \<Rightarrow> incident_severity \<Rightarrow> bool" where
  "floor_at st d f s \<longleftrightarrow> (\<forall>x \<in> crash_severities st f (store_entry st d). s \<le> x)"

definition keeps :: "state_store \<Rightarrow> nat \<Rightarrow> fsys \<Rightarrow> fsys \<Rightarrow> bool" where
  "keeps st d f g \<longleftrightarrow> store_at st d g \<and> (\<forall>s. floor_at st d f s \<longrightarrow> floor_at st d g s)"

lemma keeps_refl: "store_at st d f \<Longrightarrow> keeps st d f f"
  by (simp add: keeps_def)

lemma keeps_trans: "keeps st d f g \<Longrightarrow> keeps st d g h \<Longrightarrow> keeps st d f h"
  by (simp add: keeps_def)

lemma keeps_store: "keeps st d f g \<Longrightarrow> store_at st d g"
  by (simp add: keeps_def)

lemma keeps_spared:
  assumes "store_at st d f" "spared f (store_entry st d) g"
  shows "keeps st d f g"
proof -
  have wf: "fs_wf f" "fs_wf g" using assms by (simp_all add: store_at_def spared_def)
  obtain X where "frame f X g" using assms(2) unfolding spared_def by blast
  then have "store_at st d g" using assms(1) wf(2) store_at_frame by blast
  then show ?thesis
    using crash_spared[OF wf(1) assms(2), of st] by (simp add: keeps_def floor_at_def)
qed

lemma store_at_settled: "store_at st d f \<Longrightarrow> store_at st d (settled_dir d f)"
  using store_dir[of st d f] settled_dir_wf[of f d]
  by (simp add: store_at_def store_entry_def settled_dir_simps(2))

lemma store_at_unlinked: "store_at st d f \<Longrightarrow> store_at st d (unlinked e i f)"
  by (simp add: store_at_def unlinked_wf)

lemma keeps_settled:
  assumes "store_at st d f"
  shows "keeps st d f (settled_dir d f)"
proof -
  have "fs_wf f" using assms by (simp add: store_at_def)
  from crash_settled[OF this store_dir[OF assms], of st]
  have "crash_severities st (settled_dir d f) (store_entry st d) \<subseteq>
        crash_severities st f (store_entry st d)"
    by (simp add: store_entry_def)
  then show ?thesis
    using store_at_settled[OF assms] by (auto simp: keeps_def floor_at_def)
qed

lemma keeps_unlinked: "store_at st d f \<Longrightarrow> keeps st d f (unlinked (store_entry st d) i f)"
  by (auto simp: keeps_def floor_at_def store_at_unlinked crash_unlinked)

lemma store_at_fresh:
  assumes "store_at st d f" "fresh_state st f e s g"
  shows "store_at st d g"
  using assms store_at_frame unfolding fresh_state_def published_def by blast

lemma crash_fresh:
  assumes "store_at st d f" "fresh_state st f e s g"
  shows "crash_severities st g e = insert s (crash_severities st f e)"
proof -
  obtain t m where m: "published f t e m g" "acceptable_file st m" "i_data m = serialize s" "i_synced m"
    using assms(2) unfolding fresh_state_def by blast
  have "fs_wf f" using assms(1) by (simp add: store_at_def)
  from crash_published[OF this m(1,4), of st] decoded_serialized[OF m(2,3)] show ?thesis by simp
qed

lemma keeps_fresh:
  assumes "store_at st d f" "fresh_state st f (store_entry st d) s g"
    and "\<And>x. floor_at st d f x \<Longrightarrow> x \<le> s"
  shows "keeps st d f g"
  using assms(3) store_at_fresh[OF assms(1,2)] crash_fresh[OF assms(1,2)]
  by (simp add: keeps_def floor_at_def)

text \<open>The severity that a read proves bounds every lower bound.\<close>

lemma floor_current:
  assumes "store_at st d f" "dirents f (store_entry st d) = Some i"
    and "acceptable_file st (inodes f i)" "i_data (inodes f i) = serialize s" "floor_at st d f x"
  shows "x \<le> s"
proof -
  have "Some i \<in> durables f (store_entry st d)"
    using assms(1,2) fs_wf_current[of f "store_entry st d"] by (simp add: store_at_def)
  moreover have "s \<in> persisted st f (Some i)"
    using decoded_serialized[OF assms(3,4)] by (simp add: persisted_def)
  ultimately show ?thesis using assms(5) unfolding floor_at_def crash_severities_def by blast
qed

text \<open>
  What a reader finds now, and that this is all that a power loss can leave. A barrier over a freshly
  published state establishes it for the new severity.
\<close>

definition current :: "state_store \<Rightarrow> nat \<Rightarrow> fsys \<Rightarrow> incident_severity" where
  "current st d f =
     (case dirents f (store_entry st d) of None \<Rightarrow> Isolate | Some i \<Rightarrow> decoded st (inodes f i))"

definition stands :: "state_store \<Rightarrow> nat \<Rightarrow> fsys \<Rightarrow> incident_severity \<Rightarrow> bool" where
  "stands st d f s \<longleftrightarrow> settled f (store_entry st d) \<and> current st d f = s"

lemma stands_crash: "stands st d f s \<Longrightarrow> crash_severities st f (store_entry st d) = {s}"
  by (simp add: stands_def current_def crash_of_settled)

lemma current_crash:
  assumes "store_at st d f"
  shows "current st d f \<in> crash_severities st f (store_entry st d)"
proof -
  have "dirents f (store_entry st d) \<in> durables f (store_entry st d)"
    using assms by (simp add: store_at_def fs_wf_current)
  moreover have "current st d f \<in> persisted st f (dirents f (store_entry st d))"
    by (simp add: current_def persisted_def split: option.split)
  ultimately show ?thesis unfolding crash_severities_def by blast
qed

lemma current_spared:
  assumes "store_at st d f" "spared f (store_entry st d) g"
  shows "current st d g = current st d f"
proof (cases "dirents f (store_entry st d)")
  case None
  then show ?thesis using spared_target[OF assms(2)] by (simp add: current_def)
next
  case (Some i)
  have "fs_wf f" using assms(1) by (simp add: store_at_def)
  obtain X where "frame f X g" using assms(2) unfolding spared_def by blast
  then have "same_file (inodes g i) (inodes f i)"
    using fs_wf_entry[OF \<open>fs_wf f\<close> Some] by (simp add: frame_def)
  then show ?thesis
    using Some spared_target[OF assms(2)] decoded_same by (simp add: current_def)
qed

lemma settled_fresh:
  assumes "store_at st d f" "fresh_state st f (store_entry st d) s h"
  shows "stands st d (settled_dir d h) s"
proof -
  let ?e = "store_entry st d"
  obtain t m where m: "published f t ?e m h" "acceptable_file st m" "i_data m = serialize s" "i_synced m"
    using assms(2) unfolding fresh_state_def by blast
  have d: "i_kind (inodes h d) = Dir"
    using store_dir[OF store_at_fresh[OF assms]] by (simp add: store_entry_def)
  have new: "dirents h ?e = Some (next_ino f)" "same_file (inodes h (next_ino f)) m"
    using m(1) by (simp_all add: published_def)
  then have "i_synced (inodes h (next_ino f))" "decoded st (inodes h (next_ino f)) = s"
    using m decoded_same[OF new(2)] decoded_serialized[OF m(2,3)] by (simp_all add: same_file_def)
  then show ?thesis
    using d new(1)
    by (auto simp: stands_def settled_def current_def settled_dir_simps[OF d] store_entry_def decoded_def
        acceptable_file_def)
qed

lemma settled_absent:
  assumes "store_at st d f" "dirents f (store_entry st d) = None"
  shows "stands st d (settled_dir d f) Isolate"
proof -
  have "i_kind (inodes f d) = Dir" using store_dir[OF assms(1)] by (simp add: store_entry_def)
  then show ?thesis
    using assms(2) by (simp add: stands_def settled_def current_def settled_dir_simps store_entry_def)
qed

section \<open>The durable BROKEN state\<close>

text \<open>What every operation that ends in a \<open>RaiseResult\<close> keeps.\<close>

definition broken_post :: "state_store \<Rightarrow> nat \<Rightarrow> fsys \<Rightarrow> RaiseResult \<Rightarrow> fsys \<Rightarrow> bool" where
  "broken_post st d f r g \<longleftrightarrow>
     keeps st d f g \<and> effectiveSeverity r = Isolate \<and>
     (persistence r = DurableConfirmed \<longleftrightarrow> durable r) \<and>
     (durable r \<longrightarrow> stands st d g Isolate)"

lemma absent_lookup:
  "store_at st d f \<Longrightarrow> lookup f (store_path st) = Inl ENOENT \<Longrightarrow> dirents f (store_entry st d) = None"
  by (simp add: store_lookup split: option.splits)

lemma wp_absence_barrier:
  assumes w: "at c f w" and st: "store_at st d f"
    and Q: "\<And>b msg g w'. at c g w' \<Longrightarrow> keeps st d f g \<Longrightarrow>
      b \<longrightarrow> stands st d g Isolate \<Longrightarrow> Q (b, msg) w'"
  shows "wp (ensureTargetAbsentDurableIfCurrentState (store_path st)) Q w"
proof -
  have done_with: "Q (b, msg) w'" if "dir_node f (parent_path (store_path st)) = Inr d'"
    "lookup f (store_path st) = Inl ENOENT" "at c (settled_dir d' f) w'" for b msg d' w'
    using that keeps_settled[OF st] settled_absent[OF st absent_lookup[OF st]] store_dir_node[OF st]
    by (intro Q) auto
  show ?thesis
    using Q[OF _ keeps_refl[OF st]] done_with by (intro wp_ensureTargetAbsentDurable[OF w]) auto
qed

lemma broken_post_failure: "keeps st d f g \<Longrightarrow> broken_post st d f (broken_failure m) g"
  by (simp add: broken_post_def broken_failure_def emptyRaiseResult_def)

lemma broken_post_success:
  "keeps st d f g \<Longrightarrow> stands st d g Isolate \<Longrightarrow>
   broken_post st d f (broken_success m) g"
  by (simp add: broken_post_def broken_success_def emptyRaiseResult_def)

text \<open>The barrier that ends every encoding of the BROKEN state.\<close>

lemma wp_broken_barrier:
  assumes w: "at c g w" and g: "keeps st d f g"
    and Q: "\<And>r h w'. at c h w' \<Longrightarrow> broken_post st d f r h \<Longrightarrow> Q r w'"
  shows "wp (ensureTargetAbsentDurableIfCurrentState (store_path st))
           (\<lambda>x. Q (if \<not> fst x then broken_failure (m (snd x)) else broken_success m')) w"
proof (rule wp_absence_barrier[OF w keeps_store[OF g]], goal_cases)
  case (1 b msg h w')
  have "keeps st d f h" using g 1(2) by (rule keeps_trans)
  then show ?case
    using 1(1,3) broken_post_failure broken_post_success by (cases b) (auto intro: Q)
qed

lemma wp_remove_witness:
  assumes w: "at c f w" and st: "store_at st d f"
    and Q: "\<And>r g w'. at c g w' \<Longrightarrow> broken_post st d f r g \<Longrightarrow> Q r w'"
  shows "wp (remove_witness st actual) Q w"
  unfolding remove_witness_def wp_bind
proof (rule wp_removeIfCurrentState[OF w], goal_cases)
  case (1 r g w')
  obtain ok msg res where r: "r = (ok, msg, res)" by (cases r)
  note eff = 1(2)[unfolded r remove_effect_def prod.case]
  have g: "keeps st d f g"
  proof (cases "rm_removed res")
    case True
    then obtain i where "g = (if rm_durabilityConfirmed res
        then settled_dir d (unlinked (store_entry st d) i f) else unlinked (store_entry st d) i f)"
      using eff store_dir_node[OF st] by (auto simp: store_entry_def)
    then show ?thesis
      using keeps_unlinked[OF st, of i] keeps_settled[OF store_at_unlinked[OF st]] keeps_trans
      by (auto split: if_splits)
  qed (use eff keeps_refl[OF st] in auto)
  have fail: "Q (broken_failure m) w'" for m
    using 1(1) broken_post_failure[OF g] by (rule Q)
  have barrier: "wp (ensureTargetAbsentDurableIfCurrentState (store_path st))
      (\<lambda>x. Q (if \<not> fst x then broken_failure (m (snd x)) else broken_success m')) w'" for m m'
    by (rule wp_broken_barrier[OF 1(1) g Q])
  show ?case
    unfolding r prod.case
    by (simp only: wp_if wp_return wp_bind case_prod_beta' fail barrier simp_thms if_cancel if_True)
qed

lemma wp_encodeDurableBrokenStateLocked:
  assumes w: "at c f w" and st: "store_at st d f"
    and Q: "\<And>r g w'. at c g w' \<Longrightarrow> broken_post st d f r g \<Longrightarrow> Q r w'"
  shows "wp (encodeDurableBrokenStateLocked st expected) Q w"
proof -
  note refl = keeps_refl[OF st]
  have fail: "Q (broken_failure m) w'" if "at c f w'" for m w'
    using that broken_post_failure[OF refl] by (rule Q)
  have barrier: "wp (ensureTargetAbsentDurableIfCurrentState (store_path st))
      (\<lambda>x. Q (if \<not> fst x then broken_failure (m (snd x)) else broken_success m')) w'"
    if "at c f w'" for m m' w'
    by (rule wp_broken_barrier[OF that refl Q])
  have remove: "wp (remove_witness st actual) Q w'" if "at c f w'" for actual w'
    by (rule wp_remove_witness[OF that st Q])
  show ?thesis
    unfolding encodeDurableBrokenStateLocked_def wp_bind
    by (rule wp_store_read[OF w st])
       (auto simp: wp_if wp_return wp_bind case_prod_beta' fail barrier remove
          simp del: append_Cons split: Provenance.splits option.splits)
qed

section \<open>Raising\<close>

definition raise_post ::
    "state_store \<Rightarrow> nat \<Rightarrow> incident_severity \<Rightarrow> fsys \<Rightarrow> RaiseResult \<Rightarrow> fsys \<Rightarrow> bool" where
  "raise_post st d q f r g \<longleftrightarrow>
     keeps st d f g \<and> effectiveSeverity r \<in> {max (current st d f) q, Isolate} \<and>
     (\<not> durable r \<longrightarrow> effectiveSeverity r = Isolate) \<and>
     (settled f (store_entry st d) \<and> durable r \<longrightarrow>
        stands st d g (effectiveSeverity r))"

lemma raise_post_broken: "broken_post st d h r g \<Longrightarrow> keeps st d f h \<Longrightarrow> raise_post st d q f r g"
  using keeps_trans by (auto simp: raise_post_def broken_post_def)

lemma raise_post_failure: "store_at st d f \<Longrightarrow> raise_post st d q f (raise_failure m) f"
  by (simp add: raise_post_def raise_failure_def emptyRaiseResult_def keeps_refl)

lemma wp_confirmInstalledDurability:
  assumes w: "at c h w" and st: "store_at st d h" and x: "installedState r = Some x"
    and no: "\<And>msg w'. at c h w' \<Longrightarrow> Q (r\<lparr>durable := False, effectiveSeverity := Isolate,
        brokenStatePersisted := False, raise_detail := msg\<rparr>) w'"
    and yes: "\<And>w'. at c (settled_dir d h) w' \<Longrightarrow>
        Q (r\<lparr>durable := True, persistence := DurableConfirmed, raise_detail := ''''\<rparr>) w'"
  shows "wp (confirmInstalledDurability st r) Q w"
proof -
  have p: "is_absolute (store_path st)" "dirs h (parent_path (store_path st)) = DirNode d"
    using st by (simp_all add: store_at_def)
  show ?thesis
    unfolding confirmInstalledDurability_def x option.case wp_bind
    by (rule wp_ensureTargetDurableIfCurrentState[OF w p])
       (auto simp: wp_return simp del: append_Cons intro: no yes)
qed

text \<open>The store after a write of a severity that bounds what it held.\<close>

lemma wp_after_unconfirmed:
  assumes w: "at c h w" and f: "store_at st d f" and fr: "fresh_state st f (store_entry st d) t h"
    and up: "\<And>x. floor_at st d f x \<Longrightarrow> x \<le> t" and q: "t = max (current st d f) q"
    and r: "persistence r = InstalledNotDurable" "effectiveSeverity r = t" "installedState r = Some x"
    and Q: "\<And>r g w'. at c g w' \<Longrightarrow> raise_post st d q f r g \<Longrightarrow> Q (Some r) w'"
  shows "wp (after_write st r) Q w"
proof -
  have st: "store_at st d h" using store_at_fresh[OF f fr] .
  have h: "keeps st d f h" using keeps_fresh[OF f fr up] .
  have enc: "wp (encodeDurableBrokenStateLocked st (Some x)) (\<lambda>b. Q (Some b)) w'" if "at c h w'" for w'
    by (rule wp_encodeDurableBrokenStateLocked[OF that st]) (rule Q, assumption, rule raise_post_broken[OF _ h])
  have "keeps st d f (settled_dir d h)" using keeps_trans[OF h keeps_settled[OF st]] .
  then have ok: "Q (Some (r\<lparr>durable := True, persistence := DurableConfirmed, raise_detail := ''''\<rparr>)) w'"
    if "at c (settled_dir d h) w'" for w'
    using settled_fresh[OF f fr] that q r(2) by (intro Q[OF that]) (simp add: raise_post_def)
  show ?thesis
    unfolding after_write_def r(1) PersistenceResult.case wp_bind
    by (rule wp_confirmInstalledDurability[OF w st r(3)])
       (simp_all add: wp_if wp_bind wp_return r(3) enc ok)
qed

lemma wp_raise_write:
  assumes w: "at c f w" and st: "store_at st d f"
    and i: "dirents f (store_entry st d) = Some i" "acceptable_file st (inodes f i)"
    and up: "\<And>x. floor_at st d f x \<Longrightarrow> x \<le> t" and q: "t = max (current st d f) q"
    and again: "\<And>g w'. at c g w' \<Longrightarrow> spared f (store_entry st d) g \<Longrightarrow> Q None w'"
    and Q: "\<And>r g w'. at c g w' \<Longrightarrow> raise_post st d q f r g \<Longrightarrow> Q (Some r) w'"
  shows "wp (State_Monad.bind (writeLocked st (file_state f i) t False) (after_write st)) Q w"
proof -
  note pre = file_state_acceptable[OF i(2), THEN conjunct1]
    file_state_acceptable[OF i(2), THEN conjunct2, THEN conjunct1]
    file_state_acceptable[OF i(2), THEN conjunct2, THEN conjunct2]
  show ?thesis
    unfolding wp_bind
  proof (rule wp_writeLocked[OF w st pre], goal_cases)
    case (1 r g w')
    have g: "keeps st d f g" using keeps_spared[OF st 1(2)] .
    have "wp (encodeDurableBrokenStateLocked st None) (\<lambda>b. Q (Some b)) w'"
      by (rule wp_encodeDurableBrokenStateLocked[OF 1(1) keeps_store[OF g]])
         (rule Q, assumption, rule raise_post_broken[OF _ g])
    then show ?case
      using 1(4) again[OF 1(1,2)] by (auto simp: after_write_def wp_simps)
  next
    case (2 r g w')
    then show ?case by simp
  next
    case (3 r h w')
    have "keeps st d f (settled_dir d h)"
      using keeps_trans[OF keeps_fresh[OF st 3(2) up] keeps_settled[OF store_at_fresh[OF st 3(2)]]] .
    then have "raise_post st d q f r (settled_dir d h)"
      using settled_fresh[OF st 3(2)] 3(3,5) q by (simp add: raise_post_def)
    then show ?case using Q[OF 3(1)] 3(4) by (simp add: after_write_def wp_simps)
  next
    case (4 r h y w')
    show ?case by (rule wp_after_unconfirmed[OF 4(1) st 4(2) up q 4(4,5,6)]) (assumption, rule Q)
  qed
qed

lemma wp_raise_attempt:
  assumes w: "at c f w" and st: "store_at st d f"
    and again: "\<And>g w'. at c g w' \<Longrightarrow> spared f (store_entry st d) g \<Longrightarrow> Q None w'"
    and Q: "\<And>r g w'. at c g w' \<Longrightarrow> raise_post st d q f r g \<Longrightarrow> Q (Some r) w'"
  shows "wp (raise_attempt st q) Q w"
  unfolding raise_attempt_def wp_bind
proof (rule wp_store_read[OF w st], goal_cases)
  case (1 msg w')
  then show ?case using Q raise_post_failure[OF st] by (simp add: wp_return)
next
  case (2 w')
  have "wp (encodeDurableBrokenStateLocked st None) (\<lambda>b. Q (Some b)) w'"
    by (rule wp_encodeDurableBrokenStateLocked[OF 2(1) st])
       (rule Q, assumption, rule raise_post_broken[OF _ keeps_refl[OF st]])
  then show ?case by (simp add: wp_simps)
next
  case (3 i msg w')
  then show ?case using Q raise_post_failure[OF st] by (simp add: wp_return)
next
  case (4 i s w')
  let ?t = "maxIncidentSeverity s q"
  have up: "x \<le> ?t" if "floor_at st d f x" for x
    using floor_current[OF st 4(2-4) that] by (simp add: maxIncidentSeverity_max le_max_iff_disj)
  have cur: "current st d f = s" using 4(2) decoded_serialized[OF 4(3,4)] by (simp add: current_def)
  have q: "?t = max (current st d f) q" by (simp add: maxIncidentSeverity_max cur)
  have same: "Q (Some (raise_idempotent s)) w'" if "?t = s"
    using that q cur
    by (intro Q[OF 4(1)])
       (simp add: raise_post_def raise_idempotent_def emptyRaiseResult_def keeps_refl[OF st] stands_def)
  have "wp (State_Monad.bind (writeLocked st (file_state f i) ?t False) (after_write st)) Q w'"
    by (rule wp_raise_write[OF 4(1) st 4(2,3) up q]) (assumption, erule again, assumption, rule Q)
  then show ?case using same by (simp add: wp_if wp_return Let_def)
qed

lemma raise_post_spared:
  assumes "store_at st d f" "spared f (store_entry st d) g" "raise_post st d q g r h"
  shows "raise_post st d q f r h"
proof -
  have "keeps st d f h"
    using keeps_trans[OF keeps_spared[OF assms(1,2)]] assms(3) by (simp add: raise_post_def)
  moreover have "settled f (store_entry st d) \<Longrightarrow> settled g (store_entry st d)"
    using assms(1) settled_spared[OF _ assms(2)] by (simp add: store_at_def)
  ultimately show ?thesis
    using assms(3) current_spared[OF assms(1,2)] by (simp add: raise_post_def)
qed

lemma wp_raise_loop:
  assumes "at c f w" "store_at st d f"
    and "\<And>r g w'. at c g w' \<Longrightarrow> raise_post st d q f r g \<Longrightarrow> Q r w'"
  shows "wp (raise_loop n st q) Q w"
  using assms
proof (induction n arbitrary: f w)
  case 0
  show ?case using 0(3)[OF 0(1) raise_post_failure[OF 0(2)]] by (simp add: wp_return)
next
  case (Suc n)
  show ?case
    unfolding raise_loop.simps wp_bind
  proof (rule wp_raise_attempt[OF Suc.prems(1,2)], goal_cases)
    case (1 g w')
    have "wp (raise_loop n st q) Q w'"
      by (rule Suc.IH[OF 1(1) keeps_store[OF keeps_spared[OF Suc.prems(2) 1(2)]]])
         (rule Suc.prems(3), assumption, rule raise_post_spared[OF Suc.prems(2) 1(2)])
    then show ?case by simp
  next
    case (2 r g w')
    then show ?case using Suc.prems(3) by (simp add: wp_return)
  qed
qed

section \<open>Clearing\<close>

text \<open>
  A clear whose result is confirmed leaves the reported severity and nothing else on the disk, and a
  successful one has confirmed \<open>UNLOCKED\<close>. The idempotent success rests on the state already
  being there.
\<close>

definition clear_post :: "state_store \<Rightarrow> nat \<Rightarrow> fsys \<Rightarrow> ClearResult \<Rightarrow> fsys \<Rightarrow> bool" where
  "clear_post st d f r g \<longleftrightarrow>
     store_at st d g \<and>
     (clear_ok r \<longrightarrow> clear_severity r = Unlocked \<and> clear_persistence r = DurableConfirmed) \<and>
     (\<not> clear_ok r \<and> clear_persistence r = DurableConfirmed \<longrightarrow>
        clear_severity r \<in> {current st d f, Isolate}) \<and>
     (clear_persistence r = DurableConfirmed \<and> settled f (store_entry st d) \<longrightarrow>
        stands st d g (clear_severity r))"

lemma wp_confirm_if_needed:
  assumes w: "at c h w" and st: "store_at st d h"
    and r: "persistence r = InstalledNotDurable" "installedState r = Some x"
    and no: "\<And>r' w'. at c h w' \<Longrightarrow> \<not> durable r' \<Longrightarrow> installedState r' = Some x \<Longrightarrow> Q r' w'"
    and yes: "\<And>r' w'. at c (settled_dir d h) w' \<Longrightarrow> durable r' \<Longrightarrow> persistence r' = DurableConfirmed \<Longrightarrow> Q r' w'"
  shows "wp (confirm_if_needed st r) Q w"
  unfolding confirm_if_needed_def r(1) simp_thms if_True
  by (rule wp_confirmInstalledDurability[OF w st r(2)]) (erule no yes; simp add: r)+

text \<open>One write followed by its confirmation.\<close>

lemma wp_confirmed_write:
  assumes w: "at c f w" and st: "store_at st d f"
    and pre: "ts_mode pre = 416" "ts_owner pre = 0" "\<not> create \<Longrightarrow> ts_group pre = state_group st"
    and refused: "\<And>r g w'. at c g w' \<Longrightarrow> store_at st d g \<Longrightarrow> \<not> durable r \<Longrightarrow>
      persistence r \<noteq> DurableConfirmed \<Longrightarrow> installedState r = None \<Longrightarrow> Q r w'"
    and no: "\<And>r x h w'. at c h w' \<Longrightarrow> store_at st d h \<Longrightarrow> \<not> durable r \<Longrightarrow> installedState r = Some x \<Longrightarrow>
      ts_mode x = 416 \<Longrightarrow> ts_owner x = 0 \<Longrightarrow> ts_group x = state_group st \<Longrightarrow> Q r w'"
    and yes: "\<And>r g w'. at c g w' \<Longrightarrow> store_at st d g \<Longrightarrow> durable r \<Longrightarrow> persistence r = DurableConfirmed \<Longrightarrow>
      stands st d g target \<Longrightarrow> Q r w'"
  shows "wp (State_Monad.bind (writeLocked st pre target create) (confirm_if_needed st)) Q w"
  unfolding wp_bind
proof (rule wp_writeLocked[OF w st pre], goal_cases)
  case 1
  then show ?case by simp
next
  case (2 r g w')
  then show ?case
    using refused[OF 2(1) keeps_store[OF keeps_spared[OF st 2(2)]] 2(3) _ 2(5)]
    by (auto simp: confirm_if_needed_def wp_return)
next
  case (3 r g w')
  then show ?case
    using refused[OF 3(1) store_at_fresh[OF st 3(4)] 3(5) _ 3(7)]
    by (auto simp: confirm_if_needed_def wp_return)
next
  case (4 r h w')
  then show ?case
    using yes[OF 4(1) store_at_settled[OF store_at_fresh[OF st 4(2)]] 4(3,4) settled_fresh[OF st 4(2)]]
    by (simp add: confirm_if_needed_def wp_return)
next
  case (5 r h x w')
  have h: "store_at st d h" using store_at_fresh[OF st 5(2)] .
  have x: "ts_mode x = 416" "ts_owner x = 0" "ts_group x = state_group st"
    using 5(2,7) unfolding fresh_state_def published_def
    by (auto simp: holds_state_def stat_matches_def same_file_def acceptable_file_def)
  show ?case
    by (rule wp_confirm_if_needed[OF 5(1) h 5(4,6)])
       (erule no[OF _ h _ _ x] yes[OF _ store_at_settled[OF h] _ _ settled_fresh[OF st 5(2)]]; assumption)+
qed

lemma wp_encode_clear:
  assumes w: "at c h w" and st: "store_at st d h"
    and Q: "\<And>r g w'. at c g w' \<Longrightarrow> clear_post st d f r g \<Longrightarrow> \<not> clear_ok r \<Longrightarrow> Q r w'"
  shows "wp (encodeDurableBrokenStateLocked st e) (\<lambda>b. Q (clear_broken b)) w"
  by (rule wp_encodeDurableBrokenStateLocked[OF w st], erule Q)
     (auto simp: clear_post_def clear_broken_def emptyClearResult_def broken_post_def dest: keeps_store)

lemma wp_undo_clear:
  assumes w: "at c h w" and st: "store_at st d h"
    and x: "ts_mode x = 416" "ts_owner x = 0" "ts_group x = state_group st"
    and cur: "provenance cur = Proven \<Longrightarrow> read_severity cur = current st d f"
    and Q: "\<And>r g w'. at c g w' \<Longrightarrow> clear_post st d f r g \<Longrightarrow> \<not> clear_ok r \<Longrightarrow> Q r w'"
  shows "wp (undo_clear st cur x) Q w"
proof -
  have enc: "wp (encodeDurableBrokenStateLocked st e) (\<lambda>b. Q (clear_broken b)) w'"
    if "at c g w'" "store_at st d g" for e g w'
    using that Q by (rule wp_encode_clear)
  have ok: "Q (emptyClearResult\<lparr>clear_severity := read_severity cur, clear_persistence := p,
      clear_detail := m\<rparr>) w'"
    if "at c g w'" "store_at st d g" "stands st d g (read_severity cur)" "provenance cur = Proven"
    for p m g w'
    using that cur by (intro Q[OF that(1)]) (simp_all add: clear_post_def emptyClearResult_def)
  have "wp (writeLocked st x (read_severity cur) False) (\<lambda>a. wp (confirm_if_needed st a)
    (\<lambda>r. if durable r then Q (emptyClearResult\<lparr>clear_severity := read_severity cur,
        clear_persistence := persistence r,
        clear_detail := ''clear failed; previous incident restored durably''\<rparr>)
      else wp (encodeDurableBrokenStateLocked st
        (Some (case installedState r of None \<Rightarrow> x | Some s \<Rightarrow> s))) (\<lambda>b. Q (clear_broken b)))) w" if "provenance cur = Proven"
    by (rule wp_confirmed_write[unfolded wp_bind, OF w st x]) (simp_all add: enc ok that del: append_Cons)
  then show ?thesis
    unfolding undo_clear_def using enc[OF w st]
    by (auto simp: wp_simps if_distrib[of "\<lambda>m. wp m Q"] cong: if_cong simp del: append_Cons)
qed

lemma wp_clear_write:
  assumes w: "at c f w" and st: "store_at st d f"
    and pre: "ts_mode (clear_precondition cur) = 416" "ts_owner (clear_precondition cur) = 0"
      "provenance cur \<noteq> Absent \<Longrightarrow> ts_group (clear_precondition cur) = state_group st"
    and cur: "provenance cur = Proven \<Longrightarrow> read_severity cur = current st d f"
    and Q: "\<And>r g w'. at c g w' \<Longrightarrow> clear_post st d f r g \<Longrightarrow> Q r w'"
  shows "wp (clear_write st cur) Q w"
  unfolding clear_write_def wp_bind
proof (rule wp_confirmed_write[unfolded wp_bind, OF w st pre], goal_cases)
  case 1
  then show ?case by simp
next
  case (2 r g w')
  have "Q (emptyClearResult\<lparr>clear_severity := s, brokenState := b, clear_persistence := persistence r,
      clear_detail := m\<rparr>) w''" if "at c g w''" for s b m w''
    using 2 by (intro Q[OF that]) (simp add: clear_post_def emptyClearResult_def)
  then have "wp (store_read st) (\<lambda>after. Q (emptyClearResult\<lparr>
      clear_severity := (if provenance after = Proven then read_severity after else Isolate),
      brokenState := (provenance after \<noteq> Proven), clear_persistence := persistence r,
      clear_detail := raise_detail r\<rparr>)) w'"
    by (intro wp_store_read[OF 2(1,2)])
  then show ?case using 2(3,5) by (simp add: wp_simps)
next
  case (3 r x h w')
  have "wp (undo_clear st cur x) Q w'" by (rule wp_undo_clear[OF 3(1,2,5-7) cur]) (assumption, rule Q)
  then show ?case using 3(3,4) by simp
next
  case (4 r g w')
  then show ?case using Q[OF 4(1)] by (simp add: wp_return clear_post_def emptyClearResult_def)
qed

lemma wp_clear:
  assumes w: "at c f w" and st: "store_at st d f"
    and Q: "\<And>r g w'. at c g w' \<Longrightarrow> clear_post st d f r g \<Longrightarrow> Q r w'"
  shows "wp (clear st) Q w"
  unfolding clear_def wp_bind
proof (rule wp_store_read[OF w st], goal_cases)
  case (1 msg w')
  then show ?case
    using Q[OF 1] st by (simp add: wp_return clear_post_def emptyClearResult_def del: append_Cons)
next
  case (2 w')
  have "wp (clear_write st \<lparr> provenance = Absent, read_severity = Unlocked, read_detail = '''',
      provenState = None \<rparr>) Q w'"
    by (rule wp_clear_write[OF 2(1) st])
       (simp_all add: clear_precondition_def expectedStateOwner_def Q)
  then show ?case by simp
next
  case (3 i msg w')
  have "wp (clear_write st \<lparr> provenance = InvalidContent, read_severity = Unlocked, read_detail = msg,
      provenState = Some (file_state f i) \<rparr>) Q w'"
    using file_state_acceptable[OF 3(3)]
    by (intro wp_clear_write[OF 3(1) st]) (simp_all add: clear_precondition_def Q)
  then show ?case by simp
next
  case (4 i s w')
  have "clear_post st d f (emptyClearResult\<lparr>clear_ok := True, clear_persistence := DurableConfirmed,
      clear_severity := Unlocked\<rparr>) f" if "s = Unlocked"
    using that st 4(2) decoded_serialized[OF 4(3,4)]
    by (simp add: clear_post_def emptyClearResult_def stands_def current_def)
  moreover have "wp (clear_write st \<lparr> provenance = Proven, read_severity = s, read_detail = '''',
      provenState = Some (file_state f i) \<rparr>) Q w'"
    using file_state_acceptable[OF 4(3)] 4(2) decoded_serialized[OF 4(3,4)]
    by (intro wp_clear_write[OF 4(1) st]) (simp_all add: clear_precondition_def current_def Q)
  ultimately show ?case using Q[OF 4(1)] by (simp add: wp_return)
qed

section \<open>The contract of the store\<close>

lemma raise_run:
  assumes "quiet w" "store_at st d (fs w)" "run_state (raiseToAtLeast st q) w = (r, w')"
  shows "raise_post st d q (fs w) r (fs w')"
proof -
  have "wp (raiseToAtLeast st q) (\<lambda>r w'. raise_post st d q (fs w) r (fs w')) w"
    unfolding raiseToAtLeast_def
    by (rule wp_raise_loop[OF at_start[OF assms(1)] assms(2)]) (simp add: atD)
  then show ?thesis using assms(3) by (rule wpD)
qed

lemma clear_run:
  assumes "quiet w" "store_at st d (fs w)" "run_state (clear st) w = (r, w')"
  shows "clear_post st d (fs w) r (fs w')"
proof -
  have "wp (clear st) (\<lambda>r w'. clear_post st d (fs w) r (fs w')) w"
    by (rule wp_clear[OF at_start[OF assms(1)] assms(2)]) (simp add: atD)
  then show ?thesis using assms(3) by (rule wpD)
qed

text \<open>
  \<open>IncidentStateStore::raiseToAtLeast\<close> never lowers the incident: whatever system calls fail and
  wherever the process dies, every severity that bounded from below what the state file stood for
  after a power loss still bounds it, an absent or unreadable file standing for \<open>ISOLATE\<close>.
\<close>

theorem raise_never_lowers:
  assumes "quiet w" "store_at st d (fs w)" "run_state (raiseToAtLeast st q) w = (r, w')"
    and "\<forall>x \<in> crash_severities st (fs w) (store_entry st d). s \<le> x"
  shows "\<forall>x \<in> crash_severities st (fs w') (store_entry st d). s \<le> x"
  using raise_run[OF assms(1-3)] assms(4) by (simp add: raise_post_def keeps_def floor_at_def)

definition sample_store :: state_store where
  "sample_store = \<lparr> store_path = ''/v/s'', fic_gid = Some 7 \<rparr>"

lemma sample_store_entry: "store_entry sample_store 5 = (5, ''s'')"
  by (simp add: store_entry_def sample_store_def sample_path)

lemma sample_store_at: "store_at sample_store 5 (fs (sample_world x evs))"
  by (simp add: store_at_def sample_store_def sample_path sample_world_def sample_fs_wf)
     (simp add: sample_fs_def)

lemma sample_settled: "settled (fs (sample_world x evs)) (5, ''s'')"
  by (simp add: settled_def sample_world_def sample_fs_def sample_inode_def)

lemma sample_crash:
  "crash_severities sample_store (fs (sample_world (Some (serialize s)) evs)) (5, ''s'') = {s}"
  using serialize_length[of s]
  by (simp add: crash_of_settled[OF sample_settled] sample_file decoded_def acceptable_file_def
      sample_inode_def state_group_def sample_store_def)

theorem raise_never_lowers_witness:
  "\<exists>r w'. run_state (raiseToAtLeast sample_store Isolate)
       (sample_world (Some (serialize Hard)) [calm Normal, calm (Err EIO), calm Kill]) = (r, w') \<and>
     Unlocked \<notin> crash_severities sample_store (fs w') (5, ''s'')"
proof -
  let ?w = "sample_world (Some (serialize Hard)) [calm Normal, calm (Err EIO), calm Kill]"
  obtain r w' where run: "run_state (raiseToAtLeast sample_store Isolate) ?w = (r, w')"
    by (rule prod.exhaust)
  have "quiet ?w" by (simp add: quiet_def sample_world_def)
  then have "\<forall>x \<in> crash_severities sample_store (fs w') (store_entry sample_store 5). Hard \<le> x"
    by (rule raise_never_lowers[OF _ sample_store_at run]) (simp add: sample_store_entry sample_crash)
  then have "Unlocked \<notin> crash_severities sample_store (fs w') (5, ''s'')"
    by (fastforce simp: sample_store_entry less_eq_incident_severity_def)
  then show ?thesis using run by blast
qed





text \<open>
  C18. A read of the state is fail-closed and changes nothing: it proves a severity only when the
  state file is a regular file of the expected owner, group and mode whose whole content is that
  severity's token, and reports absence only when there is no file.
\<close>

theorem store_read_fail_closed:
  assumes "quiet w" "store_at st d (fs w)" "run_state (store_read st) w = (r, w')"
  shows "fs w' = fs w \<and>
    (provenance r = Proven \<longrightarrow> (\<exists>i. dirents (fs w) (store_entry st d) = Some i \<and>
       acceptable_file st (inodes (fs w) i) \<and> i_data (inodes (fs w) i) = serialize (read_severity r) \<and>
       provenState r = Some (file_state (fs w) i))) \<and>
    (provenance r = Absent \<longrightarrow> dirents (fs w) (store_entry st d) = None)"
proof -
  let ?Q = "\<lambda>r w'. fs w' = fs w \<and>
    (provenance r = Proven \<longrightarrow> (\<exists>i. dirents (fs w) (store_entry st d) = Some i \<and>
       acceptable_file st (inodes (fs w) i) \<and> i_data (inodes (fs w) i) = serialize (read_severity r) \<and>
       provenState r = Some (file_state (fs w) i))) \<and>
    (provenance r = Absent \<longrightarrow> dirents (fs w) (store_entry st d) = None)"
  have "wp (store_read st) ?Q w"
    by (rule wp_store_read[OF at_start[OF assms(1)] assms(2)]) (simp_all add: atD)
  then show ?thesis using assms(3) by (rule wpD)
qed

theorem store_read_fail_closed_witness:
  "\<exists>r w'. run_state (store_read sample_store) (sample_world (Some ''unlocked'') [calm (Err EINTR)]) = (r, w') \<and>
     provenance r \<noteq> Proven \<and> provenance r \<noteq> Absent"
proof -
  let ?w = "sample_world (Some ''unlocked'') [calm (Err EINTR)]"
  obtain r w' where run: "run_state (store_read sample_store) ?w = (r, w')"
    by (rule prod.exhaust)
  have "quiet ?w" by (simp add: quiet_def sample_world_def)
  note closed = store_read_fail_closed[OF this sample_store_at run]
  have no: "''unlocked'' \<noteq> serialize s" for s
    by (cases s) (simp_all add: serialize_token)
  show ?thesis
    using closed run no by (auto simp: sample_store_entry sample_file sample_inode_def)
qed

text \<open>
  The content format of the state file is exact: \<open>parseStrictSeverity\<close> accepts a content as a
  severity if and only if it is what \<open>serialize\<close> writes for it, so nothing else decodes to a severity
  and every written state reads back.
\<close>

theorem state_format_exact:
  "parseStrictSeverity content = Inr s \<longleftrightarrow> content = serialize s"
  by (rule parse_strict_iff)

end
