(* ===== verification/IncidentLatch.thy ===== *)
theory IncidentLatch
  imports IncidentStateProps
begin

text \<open>
  The incident state over many operations, process deaths and power losses. An interface
  (\<open>crash_latch\<close>) gives what one step of a store owes: its invariant, and never lowering the
  values that a power loss can leave. Its instance for the incident state store takes raises,
  reads, encodings of the BROKEN state and power losses in any order.
\<close>

section \<open>The interface\<close>

locale crash_latch =
  fixes inv :: "'f \<Rightarrow> bool" and views :: "'f \<Rightarrow> 's::linorder set" and step :: "'f \<Rightarrow> 'f \<Rightarrow> bool"
  assumes step_inv: "inv f \<Longrightarrow> step f g \<Longrightarrow> inv g"
    and step_floor: "inv f \<Longrightarrow> step f g \<Longrightarrow> \<forall>x \<in> views f. s \<le> x \<Longrightarrow> \<forall>x \<in> views g. s \<le> x"
begin

lemma run_inv: "step\<^sup>*\<^sup>* f g \<Longrightarrow> inv f \<Longrightarrow> inv g"
  by (induction rule: rtranclp_induct) (auto intro: step_inv)

lemma run_floor: "step\<^sup>*\<^sup>* f g \<Longrightarrow> inv f \<Longrightarrow> \<forall>x \<in> views f. s \<le> x \<Longrightarrow> \<forall>x \<in> views g. s \<le> x"
proof (induction rule: rtranclp_induct)
  case (step g h)
  have "inv g" using step.hyps(1) step.prems(1) by (rule run_inv)
  then show ?case using step.hyps(2) step.IH[OF step.prems] by (rule step_floor)
qed

end

section \<open>Power loss\<close>

text \<open>
  After a power loss each entry is one of those that can be on the disk, and an inode that was not
  written back holds anything; directories stay directories.
\<close>

definition power_loss :: "(dirent \<Rightarrow> nat option) \<Rightarrow> (nat \<Rightarrow> inode) \<Rightarrow> fsys \<Rightarrow> fsys" where
  "power_loss pick junk f =
     f\<lparr>dirents := pick, durables := (\<lambda>e. {pick e}),
       inodes := (\<lambda>i. (if i_synced (inodes f i) \<or> i_kind (inodes f i) = Dir then inodes f i else junk i)
          \<lparr>i_synced := True\<rparr>)\<rparr>"

lemma store_at_power_loss:
  assumes "store_at st d f" "\<And>e. pick e \<in> durables f e"
  shows "store_at st d (power_loss pick junk f)"
proof -
  have wf: "fs_wf f" using assms(1) by (simp add: store_at_def)
  have "fs_wf (power_loss pick junk f)"
  proof (rule fs_wfI)
    fix e i assume "Some i \<in> durables (power_loss pick junk f) e"
    then have "Some i \<in> durables f e" using assms(2)[of e] by (simp add: power_loss_def)
    then show "i < next_ino (power_loss pick junk f)"
      using fs_wf_durable[OF wf] by (simp add: power_loss_def)
  qed (use fs_wf_node[OF wf] in \<open>auto simp: power_loss_def\<close>)
  then show ?thesis using assms(1) by (simp add: store_at_def power_loss_def)
qed

lemma persisted_power_loss: "persisted st (power_loss pick junk f) v \<subseteq> persisted st f v"
  by (cases v) (auto simp: persisted_def power_loss_def decoded_def acceptable_file_def)

lemma crash_power_loss:
  assumes "\<And>e. pick e \<in> durables f e"
  shows "crash_severities st (power_loss pick junk f) e \<subseteq> crash_severities st f e"
proof -
  have "crash_severities st (power_loss pick junk f) e = persisted st (power_loss pick junk f) (pick e)"
    by (simp add: crash_severities_def power_loss_def)
  then show ?thesis
    using persisted_power_loss[of st pick junk f "pick e"] assms[of e] unfolding crash_severities_def by blast
qed

lemma settled_power_loss: "settled (power_loss pick junk f) e"
  by (simp add: settled_def power_loss_def)

lemma keeps_power_loss:
  assumes "store_at st d f" "\<And>e. pick e \<in> durables f e"
  shows "keeps st d f (power_loss pick junk f)"
  using store_at_power_loss[OF assms, of junk] crash_power_loss[OF assms(2), of st junk "store_entry st d"]
  unfolding keeps_def floor_at_def by blast

section \<open>The latch\<close>

text \<open>The steps that must never lower the incident; each runs under its own fault schedule.\<close>

inductive store_step :: "state_store \<Rightarrow> fsys \<Rightarrow> fsys \<Rightarrow> bool" for st where
  raised: "quiet w \<Longrightarrow> fs w = f \<Longrightarrow> run_state (raiseToAtLeast st q) w = (r, w') \<Longrightarrow> store_step st f (fs w')"
| encoded: "quiet w \<Longrightarrow> fs w = f \<Longrightarrow> run_state (encodeDurableBrokenState st) w = (r, w') \<Longrightarrow>
    store_step st f (fs w')"
| looked: "quiet w \<Longrightarrow> fs w = f \<Longrightarrow> run_state (store_read st) w = (x, w') \<Longrightarrow> store_step st f (fs w')"
| power_lost: "(\<And>e. pick e \<in> durables f e) \<Longrightarrow> store_step st f (power_loss pick junk f)"

lemma encode_run:
  assumes "quiet w" "store_at st d (fs w)" "run_state (encodeDurableBrokenState st) w = (r, w')"
  shows "broken_post st d (fs w) r (fs w')"
proof -
  have "wp (encodeDurableBrokenState st) (\<lambda>r w'. broken_post st d (fs w) r (fs w')) w"
    unfolding encodeDurableBrokenState_def
    by (rule wp_encodeDurableBrokenStateLocked[OF at_start[OF assms(1)] assms(2)]) (simp add: atD)
  then show ?thesis using assms(3) by (rule wpD)
qed

lemma read_run:
  assumes "quiet w" "store_at st d (fs w)" "run_state (store_read st) w = (r, w')"
  shows "fs w' = fs w \<and> (provenance r = Proven \<longrightarrow> read_severity r = current st d (fs w)) \<and>
         (provenance r = Absent \<longrightarrow> current st d (fs w) = Isolate)"
proof -
  have "wp (store_read st) (\<lambda>r w'. fs w' = fs w \<and>
      (provenance r = Proven \<longrightarrow> read_severity r = current st d (fs w)) \<and>
      (provenance r = Absent \<longrightarrow> current st d (fs w) = Isolate)) w"
    by (rule wp_store_read[OF at_start[OF assms(1)] assms(2)])
       (simp_all add: atD current_def decoded_serialized)
  then show ?thesis using assms(3) by (rule wpD)
qed

lemma store_step_keeps:
  assumes "store_step st f g" "store_at st d f"
  shows "keeps st d f g"
  using assms
proof cases
  case (raised w q r w')
  then show ?thesis using raise_run[of w st d q r w'] assms(2) by (simp add: raise_post_def)
next
  case (encoded w r w')
  then show ?thesis using encode_run[of w st d r w'] assms(2) by (simp add: broken_post_def)
next
  case (looked w x w')
  then show ?thesis using read_run[of w st d x w'] assms(2) keeps_refl by auto
next
  case (power_lost pick junk)
  then show ?thesis using keeps_power_loss[OF assms(2)] by blast
qed

interpretation store_latch: crash_latch "store_at st d" "\<lambda>f. crash_severities st f (store_entry st d)"
    "store_step st" for st d
  by unfold_locales (auto dest!: store_step_keeps simp: keeps_def floor_at_def)

text \<open>
  C1. The incident latch holds across crashes: once everything that the state file can stand for is
  at least some severity, it stays so through every sequence of raises, reads, encodings of the BROKEN
  state, process deaths and power losses; only a clear lowers it. A later read that proves a
  severity proves one that is at least as severe.
\<close>

theorem incident_latched:
  assumes "store_at st d f" "\<forall>x \<in> crash_severities st f (store_entry st d). s \<le> x"
    and "(store_step st)\<^sup>*\<^sup>* f (fs w)" "quiet w" "run_state (store_read st) w = (r, w')"
  shows "(\<forall>x \<in> crash_severities st (fs w) (store_entry st d). s \<le> x) \<and>
         (provenance r = Proven \<longrightarrow> s \<le> read_severity r)"
proof -
  have at: "store_at st d (fs w)" using store_latch.run_inv[OF assms(3,1)] .
  have low: "\<forall>x \<in> crash_severities st (fs w) (store_entry st d). s \<le> x"
    using store_latch.run_floor[OF assms(3,1,2)] .
  have "current st d (fs w) \<in> crash_severities st (fs w) (store_entry st d)" by (rule current_crash[OF at])
  then show ?thesis using low read_run[OF assms(4) at assms(5)] by auto
qed

theorem incident_latched_witness:
  "\<exists>r1 w1 r2 w2.
     run_state (raiseToAtLeast sample_store Isolate)
       (sample_world (Some (serialize Hard)) [calm Normal, calm (Err EIO), calm Normal, calm Kill]) = (r1, w1) \<and>
     run_state (store_read sample_store)
       ((sample_world None [])\<lparr>fs := power_loss (dirents (fs w1)) (\<lambda>i. sample_inode Reg 0 '''') (fs w1)\<rparr>)
       = (r2, w2) \<and>
     \<not> (provenance r2 = Proven \<and> read_severity r2 < Hard)"
proof -
  let ?w = "sample_world (Some (serialize Hard)) [calm Normal, calm (Err EIO), calm Normal, calm Kill]"
  let ?loss = "\<lambda>f. power_loss (dirents f) (\<lambda>i. sample_inode Reg 0 '''') f"
  obtain r1 w1 where run1: "run_state (raiseToAtLeast sample_store Isolate) ?w = (r1, w1)"
    by (rule prod.exhaust)
  let ?v = "(sample_world None [])\<lparr>fs := ?loss (fs w1)\<rparr>"
  obtain r2 w2 where run2: "run_state (store_read sample_store) ?v = (r2, w2)"
    by (rule prod.exhaust)
  have q: "quiet ?w" "quiet ?v" by (simp_all add: quiet_def sample_world_def)
  have raise: "store_step sample_store (fs ?w) (fs w1)" using raised[OF q(1) refl run1] .
  have "fs_wf (fs w1)"
    using store_step_keeps[OF raise sample_store_at] by (simp add: keeps_def store_at_def)
  then have "store_step sample_store (fs w1) (?loss (fs w1))"
    by (intro power_lost fs_wf_current)
  with raise have steps: "(store_step sample_store)\<^sup>*\<^sup>* (fs ?w) (fs ?v)"
    by (simp add: converse_rtranclp_into_rtranclp)
  have low: "\<forall>x \<in> crash_severities sample_store (fs ?w) (store_entry sample_store 5). Hard \<le> x"
    by (simp add: sample_store_entry sample_crash)
  from incident_latched[OF sample_store_at low steps q(2) run2]
  have "\<not> (provenance r2 = Proven \<and> read_severity r2 < Hard)" by auto
  then show ?thesis using run1 run2 by blast
qed

end
