(* ===== verification/FaultFree.thy ===== *)
theory FaultFree
  imports IncidentLatch
begin

text \<open>
  Runs in which no system call fails, no other process acts and the process lives: the operations
  then do succeed. The rules are the deterministic counterparts of those for faulty worlds; the
  lemmas show that an admissible write is installed and confirmed, that a well-formed state file is
  proven by a read, and that a raise establishes the maximum of the old and the requested severity.
\<close>

section \<open>Worlds without faults\<close>

definition still :: "string \<times> int \<times> int \<Rightarrow> fsys \<Rightarrow> world \<Rightarrow> bool" where
  "still c f w \<longleftrightarrow> sched w = [] \<and> alive w \<and> fs w = f \<and> ids w = c"

lemma still_at: "still c f w \<Longrightarrow> at c f w"
  by (simp add: still_def at_def quiet_def)

lemma still_call:
  assumes "still c f w"
  obtains w' where "call op w = (fst (op None f), w')" "still c (snd (op None f)) w'"
proof -
  obtain r g where "op None f = (r, g)" by force
  with assms that show thesis
    by (cases r) (auto simp: call_def perform_def still_def ids_def)
qed

lemma ff_syscall:
  assumes "still c f w" "\<And>w'. still c (snd (op None f)) w' \<Longrightarrow> Q (fst (op None f)) w'"
  shows "wp (syscall op) Q w"
proof -
  obtain w' where "call op w = (fst (op None f), w')" "still c (snd (op None f)) w'"
    using assms(1) by (rule still_call)
  then show ?thesis using assms(2) by (simp add: syscall_def wp_State)
qed

lemma ff_read_only:
  assumes "still c f w" "\<And>w'. still c f w' \<Longrightarrow> Q (g f) w'"
  shows "wp (syscall (read_only g)) Q w"
  by (rule ff_syscall[OF assms(1)]) (simp add: read_only_def assms(2))

named_theorems ff_rules \<open>rules for system calls that do not fail\<close>

lemma ff_lstat [ff_rules]:
  assumes "still c f w" "\<And>w'. still c f w' \<Longrightarrow> Q (and_then (lookup f p) (\<lambda>i. Inr (stat_of f i))) w'"
  shows "wp (sys_lstat p) Q w"
  unfolding sys_lstat_def by (rule ff_read_only[OF assms(1)]) (rule assms(2))

lemma ff_stat [ff_rules]:
  assumes "still c f w"
    "\<And>w'. still c f w' \<Longrightarrow> Q (and_then (follow link_limit f p) (\<lambda>(q, i). Inr (stat_of f i))) w'"
  shows "wp (sys_stat p) Q w"
  unfolding sys_stat_def by (rule ff_read_only[OF assms(1)]) (rule assms(2))

lemma ff_fstat [ff_rules]:
  assumes "still c f w" "\<And>w'. still c f w' \<Longrightarrow> Q (Inr (stat_of f i)) w'"
  shows "wp (sys_fstat i) Q w"
  unfolding sys_fstat_def by (rule ff_read_only[OF assms(1)]) (rule assms(2))

lemma ff_close [ff_rules]:
  assumes "still c f w" "\<And>w'. still c f w' \<Longrightarrow> Q (Inr ()) w'"
  shows "wp (sys_close i) Q w"
  unfolding sys_close_def by (rule ff_read_only[OF assms(1)]) (rule assms(2))

lemma ff_open_nofollow [ff_rules]:
  assumes "still c f w" "\<And>w'. still c f w' \<Longrightarrow> Q (and_then (lookup f p)
      (\<lambda>i. case i_kind (inodes f i) of Symlink _ \<Rightarrow> Inl ELOOP | _ \<Rightarrow> Inr i)) w'"
  shows "wp (sys_open_nofollow p) Q w"
  unfolding sys_open_nofollow_def op_open_nofollow_def by (rule ff_read_only[OF assms(1)]) (rule assms(2))

lemma ff_open_dir [ff_rules]:
  assumes "still c f w" "dirs f q = DirNode d" "\<And>w'. still c f w' \<Longrightarrow> Q (Inr d) w'"
  shows "wp (sys_open_dir nofollow q) Q w"
  unfolding sys_open_dir_def op_open_dir_def
  by (rule ff_read_only[OF assms(1)]) (simp add: assms(2,3) dir_node_def)

lemma ff_closeFd [ff_rules]:
  assumes "still c f w" "\<And>w'. still c f w' \<Longrightarrow> Q True w'"
  shows "wp (closeFd fd) Q w"
proof (cases fd)
  case None
  then show ?thesis using assms by (simp add: closeFd_def wp_simps)
next
  case (Some i)
  show ?thesis unfolding Some closeFd_def option.case wp_simps
    by (rule ff_close[OF assms(1)]) (simp add: assms(2))
qed

lemma ff_errnoMessage [ff_rules]:
  assumes "still c f w" "\<And>msg. still c f w \<Longrightarrow> Q msg w"
  shows "wp errnoMessage Q w"
  using assms by (simp add: errnoMessage_def wp_State)

section \<open>The loops\<close>

lemma buffer_size_nonzero [simp]: "buffer_size \<noteq> 0"
  using buffer_size_pos by simp

lemma op_write_end:
  assumes "length (i_data (inodes f fd)) = off"
  shows "op_write fd off s None f = (Inr (length s), set_inode fd ((inodes f fd)\<lparr>
    i_data := i_data (inodes f fd) @ s, i_mtime := clock f, i_ctime := clock f, i_synced := False\<rparr>) f)"
  using assms by (simp add: op_write_def Let_def write_at_def)

lemma ff_writeAll:
  assumes "still c f w" "i_data (inodes f fd) = ''''"
    and "\<And>n w'. still c (set_inode fd n f) w' \<Longrightarrow> same_meta n (inodes f fd) \<Longrightarrow> i_data n = s \<Longrightarrow> Q True w'"
  shows "wp (State (writeAll fd 0 s)) Q w"
proof (cases "s = []")
  case True
  then show ?thesis
    using assms(1,2) assms(3)[of "inodes f fd" w]
    by (simp add: wp_State writeAll.simps[of fd 0 "[]"] set_inode_same)
next
  case False
  define n where "n = (inodes f fd)\<lparr>i_data := s, i_mtime := clock f, i_ctime := clock f, i_synced := False\<rparr>"
  have op: "op_write fd 0 s None f = (Inr (length s), set_inode fd n f)"
    using op_write_end[of f fd 0 s] assms(2) by (simp add: n_def)
  obtain w' where w': "call (op_write fd 0 s) w = (Inr (length s), w')" "still c (set_inode fd n f) w'"
    using still_call[OF assms(1), of "op_write fd 0 s"] op by auto
  have "writeAll fd 0 s w = (True, w')"
    using False w'(1) by (simp add: writeAll.simps[of fd 0 s w] writeAll.simps[of fd "length s" "[]"])
  then show ?thesis
    using assms(3)[OF w'(2)] by (simp add: wp_State n_def same_meta_def)
qed

lemma still_read:
  assumes "still c f w"
  obtains w' where "call (op_read fd off n) w = (Inr (take n (drop off (i_data (inodes f fd)))), w')"
    "still c f w'"
  using still_call[OF assms, of "op_read fd off n"] by (auto simp: op_read_def)

lemma compare_content_still:
  assumes "still c f w" "off \<le> length (i_data (inodes f fd))"
  shows "\<exists>w'. compare_content fd (i_data (inodes f fd)) off w = (Inr True, w') \<and> still c f w'"
  using assms
proof (induction fd "i_data (inodes f fd)" off w rule: compare_content.induct)
  case (1 fd off w)
  let ?d = "i_data (inodes f fd)"
  let ?chunk = "take buffer_size (drop off ?d)"
  obtain v where v: "call (op_read fd off buffer_size) w = (Inr ?chunk, v)" "still c f v"
    using 1(3) by (rule still_read)
  show ?case
  proof (cases "?chunk = []")
    case True
    then have "off = length ?d" using 1(4) buffer_size_pos by auto
    then have "compare_content fd ?d off w = (Inr True, v)"
      using v(1) True by (subst compare_content.simps) simp
    then show ?thesis using v(2) by simp
  next
    case False
    have fits: "\<not> (off + length ?chunk > length ?d \<or> take (length ?chunk) (drop off ?d) \<noteq> ?chunk)"
      using 1(4) by (auto simp: take_length_take min_def)
    have "\<exists>w'. compare_content fd ?d (off + length ?chunk) v = (Inr True, w') \<and> still c f w'"
      using "1.hyps"(2)[OF v(1)[symmetric] refl False fits v(2)] fits by auto
    moreover have "compare_content fd ?d off w = compare_content fd ?d (off + length ?chunk) v"
      using v(1) False fits by (subst compare_content.simps) simp
    ultimately show ?thesis by simp
  qed
qed
lemma ff_compare_content:
  assumes "still c f w" "x = i_data (inodes f fd)" "\<And>w'. still c f w' \<Longrightarrow> Q (Inr True) w'"
  shows "wp (State (compare_content fd x 0)) Q w"
  using compare_content_still[OF assms(1), of 0 fd] assms(2,3) by (auto simp: wp_State)

lemma read_bounded_still:
  assumes "still c f w" "length (i_data (inodes f fd)) \<le> accepted"
    and "content = take (length content) (i_data (inodes f fd))"
  shows "\<exists>w'. read_bounded fd accepted content w = (Inr (i_data (inodes f fd)), w') \<and> still c f w'"
  using assms
proof (induction fd accepted content w rule: read_bounded.induct)
  case (1 fd accepted content w)
  let ?d = "i_data (inodes f fd)"
  let ?chunk = "take buffer_size (drop (length content) ?d)"
  obtain v where v: "call (op_read fd (length content) buffer_size) w = (Inr ?chunk, v)" "still c f v"
    using 1(3) by (rule still_read)
  have len: "length content \<le> length ?d" using 1(5) by (metis length_take min.cobounded1)
  then have fits: "\<not> accepted < length content" using 1(4) by simp
  show ?case
  proof (cases "?chunk = []")
    case True
    then have "length content = length ?d" using len buffer_size_pos by auto
    then have "content = ?d" using 1(5) by simp
    then show ?thesis using v fits True by (subst read_bounded.simps) simp
  next
    case False
    have "content @ ?chunk = take (length (content @ ?chunk)) ?d"
      using 1(5) by (metis append_eq_conv_conj take_add length_append take_length_take)
    from "1.IH"(2)[OF fits v(1)[symmetric] refl False v(2) 1(4) this]
    show ?thesis using v(1) False fits by (subst read_bounded.simps) simp
  qed
qed

lemma pread_again_still:
  assumes "still c f w" "cap = Suc (length (i_data (inodes f fd)))"
    and "second = take (length second) (i_data (inodes f fd))"
  shows "\<exists>w'. pread_again fd cap second w = (Some (i_data (inodes f fd)), w') \<and> still c f w'"
  using assms
proof (induction fd cap second w rule: pread_again.induct)
  case (1 fd cap second w)
  let ?d = "i_data (inodes f fd)"
  let ?chunk = "take (cap - length second) (drop (length second) ?d)"
  obtain v where v: "call (op_read fd (length second) (cap - length second)) w = (Inr ?chunk, v)" "still c f v"
    using 1(3) by (rule still_read)
  have len: "length second \<le> length ?d" using 1(5) by (metis length_take min.cobounded1)
  then have fits: "\<not> cap \<le> length second" using 1(4) by simp
  show ?case
  proof (cases "?chunk = []")
    case True
    then have "length second = length ?d" using len fits by auto
    then have "second = ?d" using 1(5) by simp
    then show ?thesis using v fits True by (subst pread_again.simps) simp
  next
    case False
    have "second @ ?chunk = take (length (second @ ?chunk)) ?d"
      using 1(5) by (metis append_eq_conv_conj take_add length_append take_length_take)
    from "1.IH"(2)[OF fits v(1)[symmetric] refl False v(2) 1(4) this]
    show ?thesis using v(1) False fits by (subst pread_again.simps) simp
  qed
qed

section \<open>A replacement succeeds\<close>

lemma ff_matchesExpectedTarget:
  assumes "still c f w" "target_as_expected f p opts" "\<And>w'. still c f w' \<Longrightarrow> Q True w'"
  shows "wp (matchesExpectedTarget p opts) Q w"
proof -
  have state: "wp (matchesExpectedState p opts) Q w'" if w': "still c f w'" for w'
  proof (cases "expectedTargetState opts")
    case None
    then show ?thesis using w' assms(3) by (simp add: matchesExpectedState_def wp_simps)
  next
    case (Some x)
    then obtain i where i: "lookup f p = Inr i" "holds_state f i x"
      using assms(2) by (auto simp: target_as_expected_def)
    have reg: "i_kind (inodes f i) = Reg" "stat_matches x (stat_of f i)" "ts_content x = i_data (inodes f i)"
      using i(2) by (auto simp: holds_state_def stat_matches_def)
    show ?thesis
      unfolding matchesExpectedState_def Some option.case wp_simps
      by (rule ff_open_nofollow[OF w'])
         (auto simp: i reg and_then_def wp_simps intro!: assms(3) ff_fstat ff_compare_content ff_closeFd)
  qed
  show ?thesis
  proof (cases "expectedTargetIdentity opts")
    case None
    then show ?thesis using state[OF assms(1)]
      by (simp add: matchesExpectedTarget_def matchesExpectedIdentity_def wp_simps)
  next
    case (Some x)
    then obtain i where "lookup f p = Inr i" "i_kind (inodes f i) = Reg" "i_dev (inodes f i) = device x"
      "i = inode_no x"
      using assms(2) by (auto simp: target_as_expected_def)
    then show ?thesis
      unfolding matchesExpectedTarget_def matchesExpectedIdentity_def Some option.case wp_simps
      by (intro ff_lstat[OF assms(1)]) (simp add: and_then_def state)
  qed
qed

lemma ff_fs_absolute:
  assumes "still c f w" "is_absolute p" "\<And>w'. still c f w' \<Longrightarrow> Q (Inr p) w'"
  shows "wp (fs_absolute p) Q w"
proof -
  have "absolute_path (cwd w) p = Inr p" using assms(2) by (auto simp: absolute_path_def is_absolute_def)
  moreover obtain w' where "call (read_only (\<lambda>f. absolute_path (cwd w) p)) w =
      (absolute_path (cwd w) p, w')" "still c f w'"
    using still_call[OF assms(1), of "read_only (\<lambda>f. absolute_path (cwd w) p)"] by (auto simp: read_only_def)
  ultimately show ?thesis using assms(3) by (simp add: fs_absolute_def wp_State)
qed

text \<open>A request that the checks admit: the target lies in a real directory, is replaceable as the
  options say, and the name for the temporary file is free.\<close>

definition writable :: "fsys \<Rightarrow> string \<Rightarrow> AtomicWriteOptions \<Rightarrow> nat \<Rightarrow> bool" where
  "writable f p opts d \<longleftrightarrow>
     fs_wf f \<and> is_absolute p \<and> dirs f (parent_path p) = DirNode d \<and> rejectSymlink opts \<and>
     beforePublish opts = None \<and> dirents f (d, temp_entry_name p (next_ino f)) = None \<and>
     target_as_expected f p opts \<and>
     (case dirents f (d, filename p) of
        None \<Rightarrow> createIfMissing opts
      | Some i \<Rightarrow> \<not> exclusiveCreate opts \<and> i_kind (inodes f i) = Reg)"

lemma writable_lookup:
  assumes "writable f p opts d"
  shows "lookup f p = (case dirents f (d, filename p) of None \<Rightarrow> Inl ENOENT | Some i \<Rightarrow> Inr i)"
  using assms locate_absolute[of p f d] by (simp add: writable_def lookup_def)

lemma writable_follow:
  assumes "writable f p opts d"
  shows "follow link_limit f p = (case dirents f (d, filename p) of None \<Rightarrow> Inl ENOENT | Some i \<Rightarrow> Inr (p, i))"
  using assms writable_lookup[OF assms]
  by (auto simp: writable_def link_limit_def numeral_eq_Suc and_then_def split: option.splits)

lemma ff_check_request:
  assumes w: "still c f w" and ok: "writable f p opts d"
    and Q: "\<And>ex w'. still c f w' \<Longrightarrow> Q (Inr ex) w'"
  shows "wp (check_request p opts) Q w"
proof -
  have current: "wp (check_current p opts ex) Q w'" if "still c f w'" for ex w'
    unfolding check_current_def wp_simps using ok Q
    by (intro ff_matchesExpectedTarget[OF that]) (auto simp: writable_def wp_simps)
  show ?thesis
    unfolding check_request_def wp_simps using ok current
    by (intro ff_lstat[OF w])
       (auto simp: writable_lookup[OF ok] writable_def and_then_def wp_simps split: option.splits)
qed

lemma ff_resolve_target:
  assumes w: "still c f w" and ok: "writable f p opts d"
    and Q: "\<And>st w'. still c f w' \<Longrightarrow> Q (Inr (p, st)) w'"
  shows "wp (resolve_target p opts ex) Q w"
proof -
  have parent: "parent_path p \<noteq> ''''" using ok by (simp add: writable_def absolute_parent)
  have stat: "wp (stat_target opts p p) (\<lambda>r. case r of Inl e \<Rightarrow> Q (Inl e)
      | Inr st \<Rightarrow> wp (State_Monad.return (Inr (p, st))) Q) w'"
    if "still c f w'" for w'
    unfolding stat_target_def if_not_P[OF parent] wp_simps using ok Q
    by (intro ff_stat[OF that])
       (auto simp: writable_follow[OF ok] writable_def and_then_def wp_simps split: option.splits)
  show ?thesis
    unfolding resolve_target_def using ok stat
    by (auto simp: writable_def wp_simps intro!: ff_fs_absolute[OF w])
qed

lemma ff_mkstemp:
  assumes w: "still c f w" and ok: "writable f p opts d"
    and Q: "\<And>n w'. i_kind n = Reg \<Longrightarrow> i_data n = '''' \<Longrightarrow>
      still c (with_temp f (d, temp_entry_name p (next_ino f)) n) w' \<Longrightarrow>
      Q (Inr (next_ino f, temp_name (temp_template p) (next_ino f))) w'"
  shows "wp (sys_mkstemp (temp_template p)) Q w"
proof -
  let ?t = "(d, temp_entry_name p (next_ino f))"
  define n where "n = \<lparr> i_kind = Reg, i_dev = i_dev (inodes f d), i_mode = 384, i_uid = euid w,
      i_gid = egid w, i_nlink = 1, i_data = '''', i_mtime = clock f, i_ctime = clock f, i_synced = False \<rparr>"
  have "locate f (temp_name (temp_template p) (next_ino f)) = Inr ?t"
    using ok by (simp add: writable_def locate_temp absolute_parent dir_node_def)
  then have op: "op_mkstemp (euid w) (egid w) (temp_template p) None f =
      (Inr (next_ino f, temp_name (temp_template p) (next_ino f)), with_temp f ?t n)"
    using ok by (simp add: writable_def op_mkstemp_def Let_def with_temp_def n_def)
  obtain w' where "call (op_mkstemp (euid w) (egid w) (temp_template p)) w =
      (Inr (next_ino f, temp_name (temp_template p) (next_ino f)), w')" "still c (with_temp f ?t n) w'"
    using still_call[OF w, of "op_mkstemp (euid w) (egid w) (temp_template p)"] op by auto
  then show ?thesis using Q[of n w'] by (simp add: sys_mkstemp_def wp_State n_def)
qed

lemma ff_set_temp_metadata:
  assumes w: "still c (with_temp f t n) w"
    and Q: "\<And>m w'. still c (with_temp f t m) w' \<Longrightarrow> i_kind m = i_kind n \<Longrightarrow> i_data m = i_data n \<Longrightarrow> Q (Inr ()) w'"
  shows "wp (set_temp_metadata (next_ino f) tempPath u gr md) Q w"
proof -
  have chmod: "wp (sys_fchmod (next_ino f) md)
      (\<lambda>r. wp (case r of Inl e \<Rightarrow> abandon fd tempPath (g e) | Inr _ \<Rightarrow> State_Monad.return (Inr ())) Q) w'"
    if "still c (with_temp f t m) w'" "i_kind m = i_kind n" "i_data m = i_data n" for m w' fd g
    unfolding sys_fchmod_def using that(2,3)
    by (intro ff_syscall[OF that(1)]) (auto simp: wp_simps op_fchmod_def set_inode_with_temp intro!: Q)
  have chown: "wp (sys_fchown (next_ino f) u gr)
      (\<lambda>r. wp (case r of Inl e \<Rightarrow> abandon fd tempPath (g e)
        | Inr _ \<Rightarrow> State_Monad.bind (sys_fchmod (next_ino f) md)
            (\<lambda>r. case r of Inl e \<Rightarrow> abandon fd tempPath (h e) | Inr _ \<Rightarrow> State_Monad.return (Inr ()))) Q) w'"
    if "still c (with_temp f t n) w'" for w' fd g h
    unfolding sys_fchown_def
    by (rule ff_syscall[OF that]) (auto simp: wp_simps op_fchown_def set_inode_with_temp intro!: chmod)
  show ?thesis
    unfolding set_temp_metadata_def wp_simps
  proof (rule ff_fstat[OF w], goal_cases)
    case (1 w')
    then show ?case using chown chmod[of n] by (simp add: wp_simps wp_if)
  qed
qed

lemma ff_fill_temp:
  assumes w: "still c (with_temp f t n) w" and n: "i_data n = ''''" "i_kind n = Reg"
    and Q: "\<And>m w'. still c (with_temp f t m) w' \<Longrightarrow> i_kind m = Reg \<Longrightarrow>
      Q (Inr (stat_of (with_temp f t m) (next_ino f))) w'"
  shows "wp (fill_temp (next_ino f) tempPath content) Q w"
  unfolding fill_temp_def wp_simps
proof (rule ff_writeAll[OF w], goal_cases)
  case 1
  then show ?case using n by simp
next
  case (2 m w')
  have m: "still c (with_temp f t m) w'" "i_kind m = Reg"
    using 2 n(2) by (simp_all add: set_inode_with_temp same_meta_def)
  have "wp (sys_fsync (next_ino f)) (\<lambda>s. wp (case s of Inl e \<Rightarrow> abandon fd tempPath (g e)
      | Inr _ \<Rightarrow> State_Monad.bind (sys_fstat (next_ino f))
          (\<lambda>i. case i of Inl e \<Rightarrow> abandon fd tempPath (h e) | Inr x \<Rightarrow> State_Monad.return (Inr x))) Q) w'" for fd g h
    unfolding sys_fsync_def using m(2)
    by (intro ff_syscall[OF m(1)])
       (auto simp: wp_simps op_fsync_def Let_def set_inode_with_temp
          intro!: ff_fstat[of c "with_temp f t (m\<lparr>i_synced := True\<rparr>)"] Q)
  then show ?case by (simp add: wp_simps)
qed

lemma writable_temp_differs: "(d, temp_entry_name p k) \<noteq> (d, filename p)"
  using temp_entry_name_differs[of p k] by simp

lemma target_as_expected_temp:
  assumes "writable f p opts d"
  shows "target_as_expected (with_temp f (d, temp_entry_name p k) m) p opts"
proof -
  let ?g = "with_temp f (d, temp_entry_name p k) m"
  have wf: "fs_wf f" and exp: "target_as_expected f p opts" using assms by (simp_all add: writable_def)
  have "locate f p = Inr (d, filename p)" using assms by (simp add: writable_def locate_absolute)
  then have look: "lookup ?g p = lookup f p" using writable_temp_differs by (rule lookup_with_temp)
  show ?thesis
  proof (cases "lookup f p")
    case (Inr i)
    have "inodes ?g i = inodes f i" using lookup_wf[OF wf Inr] by simp
    then have "target_as_expected ?g p opts = target_as_expected f p opts"
      unfolding target_as_expected_def holds_state_def stat_matches_def look Inr
      by (simp del: with_temp_simps)
    then show ?thesis using exp by blast
  qed (use exp look in \<open>simp add: target_as_expected_def\<close>)
qed

lemma ff_rename:
  assumes ok: "writable f p opts d" and m: "i_kind m = Reg"
    and w: "still c (with_temp f (d, temp_entry_name p (next_ino f)) m) w"
    and Q: "\<And>g w'. still c g w' \<Longrightarrow> dirs g = dirs f \<Longrightarrow> Q (Inr ()) w'"
  shows "wp (sys_rename (exclusiveCreate opts) (temp_name (temp_template p) (next_ino f)) p) Q w"
proof -
  let ?t = "(d, temp_entry_name p (next_ino f))"
  let ?g = "with_temp f ?t m"
  have wf: "fs_wf f" and old: "\<And>i. dirents f (d, filename p) = Some i \<Longrightarrow> i < next_ino f"
    using ok fs_wf_entry by (auto simp: writable_def)
  have loc: "locate ?g (temp_name (temp_template p) (next_ino f)) = Inr ?t"
      "locate ?g p = Inr (d, filename p)"
    using ok by (simp_all add: writable_def locate_temp locate_absolute absolute_parent dir_node_def)
  have "op_rename (exclusiveCreate opts) (temp_name (temp_template p) (next_ino f)) p None ?g =
      (Inr (), rename_entry ?t (d, filename p) (next_ino f) ?g)"
    using ok old m temp_entry_name_differs[of p "next_ino f", symmetric]
    by (auto simp: op_rename_def loc is_dir_at_def writable_def split: option.splits)
  moreover have "dirs (rename_entry ?t (d, filename p) (next_ino f) ?g) = dirs f"
    by (simp add: rename_entry_def)
  ultimately show ?thesis
    unfolding sys_rename_def using Q by (intro ff_syscall[OF w]) simp
qed

lemma ff_publish:
  assumes ok: "writable f p opts d" and m: "i_kind m = Reg"
    and w: "still c (with_temp f (d, temp_entry_name p (next_ino f)) m) w"
    and Q: "\<And>g w'. still c g w' \<Longrightarrow> dirs g = dirs f \<Longrightarrow> Q (Inr ()) w'"
  shows "wp (publish opts fd (temp_name (temp_template p) (next_ino f)) p) Q w"
proof -
  let ?tp = "temp_name (temp_template p) (next_ino f)"
  let ?g = "with_temp f (d, temp_entry_name p (next_ino f)) m"
  have recheck: "wp (recheck_target opts ?tp p) R w'"
    if "still c ?g w'" "\<And>w'. still c ?g w' \<Longrightarrow> R (Inr ()) w'" for R w'
    unfolding recheck_target_def wp_simps
    by (rule ff_matchesExpectedTarget[OF that(1) target_as_expected_temp[OF ok]]) (simp add: wp_simps that(2))
  have move: "wp (installTempFile ?tp p (exclusiveCreate opts)) R w'"
    if "still c ?g w'" "\<And>g w'. still c g w' \<Longrightarrow> dirs g = dirs f \<Longrightarrow> R (Inr ()) w'" for R w'
    using ff_rename[OF ok m that(1), of R] ff_rename[OF ok m that(1), of "\<lambda>r. wp (case r of
        Inr _ \<Rightarrow> State_Monad.return (Inr ())
      | Inl e \<Rightarrow> if e \<noteq> ENOSYS \<and> e \<noteq> EINVAL then State_Monad.return (Inl e)
          else State_Monad.bind (sys_link ?tp p)
            (case_sum (\<lambda>e'. State_Monad.return (Inl e')) (\<lambda>_. sys_unlink ?tp))) R"] that(2)
    by (cases "exclusiveCreate opts") (simp_all add: installTempFile_def wp_simps)
  show ?thesis
    unfolding publish_def wp_simps
    by (rule ff_close[OF w]) (auto simp: wp_simps intro!: recheck move Q)
qed

lemma ff_replace_file:
  assumes w: "still c f w" and ok: "writable f p opts d"
    and Q: "\<And>st g w'. still c g w' \<Longrightarrow> dirs g = dirs f \<Longrightarrow> Q (Inr (parent_path p, st)) w'"
  shows "wp (replace_file p content opts) Q w"
proof -
  have cb: "beforePublish opts = None" using ok by (simp add: writable_def)
  have resolved: "wp (replace_resolved content opts p st) Q w'" if "still c f w'" for st w'
    unfolding replace_resolved_def wp_bind
  proof (rule ff_mkstemp[OF that ok], goal_cases)
    case (1 n w')
    show ?case
      unfolding sum.case prod.case wp_simps admit_def cb option.case
      by (rule ff_set_temp_metadata[OF 1(3)], simp only: sum.case, rule ff_fill_temp, assumption,
          simp add: 1, simp add: 1, simp only: sum.case, rule ff_publish[OF ok], assumption, assumption,
          simp add: wp_simps Q)
  qed
  show ?thesis
    unfolding replace_file_def wp_proceed
    by (rule ff_check_request[OF w ok], simp only: sum.case, rule ff_resolve_target[OF _ ok], assumption)
       (simp add: resolved)
qed

lemma ff_fsyncParentDirectory:
  assumes w: "still c f w" and d: "dirs f q = DirNode d"
    and Q: "\<And>g w'. still c g w' \<Longrightarrow> Q (True, '''') w'"
  shows "wp (fsyncParentDirectory q) Q w"
proof -
  have "wp (sys_fsync d) (\<lambda>s. wp (case s of Inl e \<Rightarrow> m e | Inr _ \<Rightarrow>
      State_Monad.bind (closeFd (Some d)) (\<lambda>closed. State_Monad.bind errnoMessage (\<lambda>msg.
        State_Monad.return (True, if closed then '''' else h msg)))) Q) w'" if "still c f w'" for w' m h
    unfolding sys_fsync_def
    by (rule ff_syscall[OF that])
       (auto simp: op_fsync_def Let_def wp_simps intro!: ff_closeFd ff_errnoMessage Q)
  then show ?thesis
    unfolding fsyncParentDirectory_def wp_simps
    by (intro ff_open_dir[OF w d]) (simp add: wp_simps)
qed

lemma ff_writeWithResult:
  assumes w: "still c f w" and ok: "writable f p opts d"
    and Q: "\<And>r g w'. still c g w' \<Longrightarrow> installed r \<Longrightarrow> durabilityConfirmed r \<Longrightarrow> Q (True, '''', r) w'"
  shows "wp (writeWithResult p content opts) Q w"
proof -
  have d: "dirs f (parent_path p) = DirNode d" using ok by (simp add: writable_def)
  show ?thesis
    unfolding writeWithResult_def wp_bind
    by (rule ff_replace_file[OF w ok])
       (auto simp: wp_simps d intro!: ff_fsyncParentDirectory[where d = d] Q)
qed

text \<open>
  C14. Liveness of \<open>AtomicFileWriter::writeWithResult\<close>: when no system call fails and nobody
  interferes, an admissible request (a target in a real directory that the options allow to replace
  or create, with the state the caller expects) is carried out: the call reports success, and the
  target holds exactly the new content, now and after a power loss.
\<close>

theorem write_succeeds:
  assumes "sched w = []" "alive w" "writable (fs w) p opts d"
    and "run_state (writeWithResult p content opts) w = ((ok, msg, res), w')"
  shows "ok \<and> installed res \<and> durabilityConfirmed res \<and>
    (\<exists>i. dirents (fs w') (d, filename p) = Some i \<and> durables (fs w') (d, filename p) = {Some i} \<and>
         i_data (inodes (fs w') i) = content)"
proof -
  have w: "still (ids w) (fs w) w" using assms(1,2) by (simp add: still_def)
  have "wp (writeWithResult p content opts)
      (\<lambda>(ok, msg, res) w'. ok \<and> installed res \<and> durabilityConfirmed res) w"
    by (rule ff_writeWithResult[OF w assms(3)]) simp
  from wpD[OF this assms(4)] have ok: "ok" "installed res" "durabilityConfirmed res" by simp_all
  have ready: "fs_wf (fs w)" "beforePublish opts = None" "write_target (ids w) (fs w) p opts = Inr p"
    "locate (fs w) p = Inr (d, filename p)"
    using assms(3) by (auto simp: writable_def write_target_def absolute_path_def locate_absolute is_absolute_def)
  from write_run[OF atD(1)[OF still_at[OF w]] ready assms(4)] ok
  obtain t m h where h: "new_file (ids w) (fs w) p opts content m"
    "published (fs w) t (d, filename p) m h" "fs w' = settled_dir d h"
    by (auto simp: write_effect_def)
  have "i_kind (inodes (fs w) d) = Dir" "d < next_ino (fs w)"
    using assms(3) fs_wf_node by (auto simp: writable_def)
  then have dir: "i_kind (inodes h d) = Dir"
    using h(2) by (auto simp: published_def frame_def same_file_def)
  have "dirents h (d, filename p) = Some (next_ino (fs w))" "i_data (inodes h (next_ino (fs w))) = content"
    using h(1,2) by (simp_all add: published_def new_file_def same_file_def)
  then show ?thesis
    using ok by (auto simp: h(3) settled_dir_simps[OF dir])
qed

theorem write_succeeds_witness:
  "\<exists>r w'. run_state (writeWithResult ''/v/s'' ''new'' sample_options) (sample_world (Some ''old'') []) = (r, w') \<and>
     fst r \<and> (\<exists>i. durables (fs w') (5, ''s'') = {Some i} \<and> i_data (inodes (fs w') i) = ''new'')"
proof -
  let ?w = "sample_world (Some ''old'') []"
  obtain ok msg res w' where
    run: "run_state (writeWithResult ''/v/s'' ''new'' sample_options) ?w = ((ok, msg, res), w')"
    by (metis prod.exhaust)
  have "temp_entry_name ''/v/s'' k \<noteq> ''s''" for k
    using temp_entry_name_differs[of "''/v/s''" k] by (simp add: sample_path)
  then have "writable (fs ?w) ''/v/s'' sample_options 5"
    using sample_fs_wf[of "Some ''old''"]
    by (simp add: writable_def sample_path sample_options_def defaultWriteOptions_def target_as_expected_def
        sample_world_def) (simp add: sample_fs_def sample_inode_def)
  with run show ?thesis
    using write_succeeds[OF _ _ _ run, of 5] by (auto simp: sample_path sample_world_def)
qed

section \<open>The incident state\<close>

text \<open>The store is in order: a well-formed state file with one link, in a directory as expected.\<close>

definition store_ready :: "state_store \<Rightarrow> nat \<Rightarrow> fsys \<Rightarrow> incident_severity \<Rightarrow> bool" where
  "store_ready st d f s \<longleftrightarrow>
     store_at st d f \<and> i_uid (inodes f d) = 0 \<and> i_gid (inodes f d) = state_group st \<and>
     i_mode (inodes f d) = 1512 \<and> dirents f (d, temp_entry_name (store_path st) (next_ino f)) = None \<and>
     (\<exists>i. dirents f (store_entry st d) = Some i \<and> acceptable_file st (inodes f i) \<and>
          i_nlink (inodes f i) = 1 \<and> i_data (inodes f i) = serialize s)"

lemma ff_read_bounded:
  assumes "still c f w" "length (i_data (inodes f fd)) \<le> accepted"
    and "\<And>w'. still c f w' \<Longrightarrow> Q (Inr (i_data (inodes f fd))) w'"
  shows "wp (State (read_bounded fd accepted [])) Q w"
  using read_bounded_still[OF assms(1,2), of "[]"] assms(3) by (auto simp: wp_State)

lemma ff_pread_again:
  assumes "still c f w" "cap = Suc (length (i_data (inodes f fd)))"
    and "\<And>w'. still c f w' \<Longrightarrow> Q (Some (i_data (inodes f fd))) w'"
  shows "wp (State (pread_again fd cap [])) Q w"
  using pread_again_still[OF assms(1,2), of "[]"] assms(3) by (auto simp: wp_State)

lemma ff_closed_with:
  assumes "still c f w" "\<And>w'. still c f w' \<Longrightarrow> Q r w'"
  shows "wp (closed_with fd r) Q w"
  unfolding closed_with_def wp_simps by (rule ff_close[OF assms(1)]) (rule assms(2))

lemma same_refl: "same_times a a" "same_object a a"
  by (simp_all add: same_times_def same_object_def)

lemma ff_prove_unchanged:
  assumes w: "still c f w" and Q: "\<And>w'. still c f w' \<Longrightarrow> Q (proven_state (stat_of f i) (i_data (inodes f i))) w'"
  shows "wp (prove_unchanged path i (stat_of f i) (i_data (inodes f i))) Q w"
proof -
  have final: "wp (sys_fstat i) (\<lambda>r. wp (case r of Inl e \<Rightarrow> closed_with i (g e)
      | Inr finalInfo \<Rightarrow> if \<not> same_times finalInfo (stat_of f i) then closed_with i h
          else closed_with i (proven_state (stat_of f i) (i_data (inodes f i)))) Q) w'"
    if "still c f w'" for w' g h
    by (rule ff_fstat[OF that]) (simp add: same_refl ff_closed_with Q)
  show ?thesis
    unfolding prove_unchanged_def wp_bind
    by (rule ff_fstat[OF w])
       (auto simp: same_refl wp_simps simp del: append_Cons intro!: ff_pread_again final)
qed

lemma ff_proveSafeParentDirectory:
  assumes "still c f w" "q \<noteq> ''''" "dirs f q = DirNode d" "parent_complaint x q (stat_of f d) = None"
    and "\<And>w'. still c f w' \<Longrightarrow> Q (Inr ()) w'"
  shows "wp (proveSafeParentDirectory q x) Q w"
  unfolding proveSafeParentDirectory_def if_not_P[OF assms(2)] wp_bind
  by (rule ff_open_dir[OF assms(1,3)])
     (auto simp: wp_simps assms(4,5) simp del: append_Cons intro!: ff_fstat ff_close)

lemma ff_readSecureFileBounded:
  assumes w: "still c f w" and hard: "hard \<noteq> 0"
    and d: "parent_path p \<noteq> ''''" "dirs f (parent_path p) = DirNode d"
      "parent_complaint x (parent_path p) (stat_of f d) = None"
    and i: "proven_at x (accepted_size x hard) f p i"
    and Q: "\<And>w'. still c f w' \<Longrightarrow> Q (proven_state (stat_of f i) (i_data (inodes f i))) w'"
  shows "wp (readSecureFileBounded p x hard) Q w"
proof -
  let ?acc = "accepted_size x hard"
  have look: "lookup f p = Inr i" and fine: "file_complaint x ?acc p (stat_of f i) = None"
    using i by (simp_all add: proven_at_def)
  then have reg: "i_kind (inodes f i) = Reg" and len: "length (i_data (inodes f i)) \<le> ?acc"
    by (auto simp: file_complaint_def split: if_splits)
  have opened: "wp (read_opened p x ?acc i) Q w'" if "still c f w'" for w'
    unfolding read_opened_def wp_bind
    by (rule ff_fstat[OF that])
       (use len in \<open>auto simp: fine wp_simps simp del: append_Cons
          intro!: ff_read_bounded[where f = f] ff_prove_unchanged Q\<close>)
  have "wp (sys_open_nofollow p) (\<lambda>r. wp (case r of Inl e \<Rightarrow> g e
      | Inr fd \<Rightarrow> read_opened p x ?acc fd) Q) w'" if "still c f w'" for w' g
    by (rule ff_open_nofollow[OF that]) (use reg opened in \<open>simp add: look and_then_def\<close>)
  then have "wp (proveSafeParentDirectory (parent_path p) x)
      (\<lambda>q. wp (case q of Inl detail \<Rightarrow> g detail | Inr _ \<Rightarrow> State_Monad.bind (sys_open_nofollow p)
        (\<lambda>r. case r of Inl e \<Rightarrow> h e | Inr fd \<Rightarrow> read_opened p x ?acc fd)) Q) w" for g h
    by (intro ff_proveSafeParentDirectory[OF w d]) (simp add: wp_simps)
  then show ?thesis
    using hard by (simp add: readSecureFileBounded_def wp_simps del: append_Cons)
qed

lemma ff_store_read:
  assumes w: "still c f w" and ok: "store_ready st d f s" and i: "dirents f (store_entry st d) = Some i"
    and Q: "\<And>w'. still c f w' \<Longrightarrow> Q \<lparr> provenance = Proven, read_severity = s, read_detail = '''',
        provenState = Some (file_state f i) \<rparr> w'"
  shows "wp (store_read st) Q w"
proof -
  let ?x = "lockedStateExpectation st"
  have st: "store_at st d f" and dir: "i_uid (inodes f d) = 0" "i_gid (inodes f d) = state_group st"
    "i_mode (inodes f d) = 1512" and fl: "acceptable_file st (inodes f i)" "i_nlink (inodes f i) = 1"
    "i_data (inodes f i) = serialize s"
    using ok i by (auto simp: store_ready_def)
  have d: "parent_path (store_path st) \<noteq> ''''" "dirs f (parent_path (store_path st)) = DirNode d"
    using st by (simp_all add: store_at_def absolute_parent)
  have parent: "parent_complaint ?x q (stat_of f d) = None" for q
    using dir by (simp add: parent_complaint_def allowed_def lockedStateExpectation_def defaultExpectation_def)
  have "proven_at ?x (accepted_size ?x SECURE_STATE_READ_HARD_MAX_BYTES) f (store_path st) i"
    using fl store_lookup[OF st] i
    by (simp add: proven_at_def file_complaint_def allowed_def lockedStateExpectation_def accepted_size_def
        defaultExpectation_def expectedStateOwner_def acceptable_file_def SECURE_STATE_READ_HARD_MAX_BYTES_def)
  moreover have "read_result_of (proven_state (stat_of f i) (i_data (inodes f i))) =
      \<lparr> provenance = Proven, read_severity = s, read_detail = '''', provenState = Some (file_state f i) \<rparr>"
    by (simp add: read_result_of_def proven_state_def fl(3) file_state_def)
  ultimately show ?thesis
    unfolding store_read_def readSecureStateFile_def wp_simps
    by (intro ff_readSecureFileBounded[OF w _ d parent])
       (auto simp: SECURE_STATE_READ_HARD_MAX_BYTES_def Q)
qed

lemma ff_writeLocked:
  assumes w: "still c f w" and ok: "store_ready st d f s" and i: "dirents f (store_entry st d) = Some i"
    and Q: "\<And>r g w'. still c g w' \<Longrightarrow> durable r \<Longrightarrow> persistence r = DurableConfirmed \<Longrightarrow>
      effectiveSeverity r = t \<Longrightarrow> Q r w'"
  shows "wp (writeLocked st (file_state f i) t False) Q w"
proof -
  have st: "store_at st d f" and reg: "i_kind (inodes f i) = Reg"
    using ok i by (auto simp: store_ready_def acceptable_file_def)
  have "lookup f (store_path st) = Inr i" using store_lookup[OF st] i by simp
  then have "target_as_expected f (store_path st) (locked_write_options st (file_state f i) False)"
    using reg by (simp add: target_as_expected_def locked_write_options_def defaultWriteOptions_def
        holds_state_def stat_matches_def file_state_def state_of_stat_def)
  then have ready: "writable f (store_path st) (locked_write_options st (file_state f i) False) d"
    using st ok i reg by (simp add: writable_def store_at_def store_ready_def store_entry_def
        locked_write_options_def defaultWriteOptions_def)
  show ?thesis
    unfolding writeLocked_def wp_simps
    by (rule ff_writeWithResult[OF w ready]) (auto simp: write_outcome_def emptyRaiseResult_def intro!: Q)
qed

lemma ff_raise:
  assumes w: "still c f w" and ok: "store_ready st d f s"
    and Q: "\<And>r g w'. still c g w' \<Longrightarrow> durable r \<Longrightarrow> effectiveSeverity r = max s q \<Longrightarrow> Q r w'"
  shows "wp (raiseToAtLeast st q) Q w"
proof -
  obtain i where i: "dirents f (store_entry st d) = Some i" using ok by (auto simp: store_ready_def)
  have wr: "wp (writeLocked st (file_state f i) (max s q) False)
      (\<lambda>x. wp (after_write st x) (\<lambda>r. wp (case r of None \<Rightarrow> m | Some r \<Rightarrow> State_Monad.return r) Q)) w'"
    if "still c f w'" for w' m
    by (rule ff_writeLocked[OF that ok i]) (simp add: after_write_def wp_simps Q)
  have "wp (raise_attempt st q) (\<lambda>r. wp (case r of None \<Rightarrow> m | Some r \<Rightarrow> State_Monad.return r) Q) w" for m
    unfolding raise_attempt_def wp_bind
    by (rule ff_store_read[OF w ok i])
       (auto simp: Let_def wp_simps maxIncidentSeverity_max raise_idempotent_def emptyRaiseResult_def
          intro!: Q wr)
  then show ?thesis
    by (simp add: raiseToAtLeast_def MAX_RAISE_ATTEMPTS_def numeral_eq_Suc wp_bind)
qed

text \<open>
  C15. Liveness of the incident latch: when no system call fails and nobody interferes, raising a
  store that is in order is durable in the first attempt and establishes exactly the maximum of the
  old and the requested severity, on the disk.
\<close>

theorem raise_succeeds:
  assumes "sched w = []" "alive w" "store_ready st d (fs w) s" "settled (fs w) (store_entry st d)"
    and "run_state (raiseToAtLeast st q) w = (r, w')"
  shows "durable r \<and> effectiveSeverity r = max s q \<and>
         crash_severities st (fs w') (store_entry st d) = {max s q}"
proof -
  have w: "still (ids w) (fs w) w" using assms(1,2) by (simp add: still_def)
  have "wp (raiseToAtLeast st q) (\<lambda>r w'. durable r \<and> effectiveSeverity r = max s q) w"
    by (rule ff_raise[OF w assms(3)]) simp
  from wpD[OF this assms(5)] have r: "durable r" "effectiveSeverity r = max s q" by simp_all
  have "store_at st d (fs w)" using assms(3) by (simp add: store_ready_def)
  from raise_run[OF atD(1)[OF still_at[OF w]] this assms(5)] r assms(4)
  have "stands st d (fs w') (max s q)" by (simp add: raise_post_def)
  then show ?thesis using r stands_crash by blast
qed

lemma sample_store_ready:
  "store_ready sample_store 5 (fs (sample_world (Some (serialize s)) evs)) s"
proof -
  have "temp_entry_name ''/v/s'' k \<noteq> ''s''" for k
    using temp_entry_name_differs[of "''/v/s''" k] by (simp add: sample_path)
  then show ?thesis
    using sample_store_at[of "Some (serialize s)" evs] serialize_length[of s]
    by (simp add: store_ready_def sample_store_entry sample_file)
       (simp add: sample_world_def sample_fs_def sample_inode_def sample_store_def state_group_def
          acceptable_file_def)
qed

theorem raise_succeeds_witness:
  "\<exists>r w'. run_state (raiseToAtLeast sample_store Standard) (sample_world (Some (serialize Soft)) []) = (r, w') \<and>
     durable r \<and> crash_severities sample_store (fs w') (5, ''s'') = {Standard}"
proof -
  let ?w = "sample_world (Some (serialize Soft)) []"
  obtain r w' where run: "run_state (raiseToAtLeast sample_store Standard) ?w = (r, w')"
    by (rule prod.exhaust)
  have "sched ?w = []" "alive ?w" by (simp_all add: sample_world_def)
  from raise_succeeds[OF this sample_store_ready _ run] run show ?thesis
    by (auto simp: sample_store_entry sample_settled max_def less_eq_incident_severity_def)
qed

section \<open>Where a report says more than was done\<close>

lemma ff_raise_idempotent:
  assumes w: "still c f w" and ok: "store_ready st d f s" and q: "q \<le> s"
    and Q: "\<And>w'. still c f w' \<Longrightarrow> Q (raise_idempotent s) w'"
  shows "wp (raiseToAtLeast st q) Q w"
proof -
  obtain i where i: "dirents f (store_entry st d) = Some i" using ok by (auto simp: store_ready_def)
  have "maxIncidentSeverity s q = s" using q by (simp add: maxIncidentSeverity_max max_def)
  then have "wp (raise_attempt st q) (\<lambda>r. wp (case r of None \<Rightarrow> m | Some r \<Rightarrow> State_Monad.return r) Q) w" for m
    unfolding raise_attempt_def wp_bind
    by (intro ff_store_read[OF w ok i]) (auto simp: Let_def wp_simps intro!: Q)
  then show ?thesis
    by (simp add: raiseToAtLeast_def MAX_RAISE_ATTEMPTS_def numeral_eq_Suc wp_bind)
qed

text \<open>
  C35. The idempotent branch of \<open>raiseToAtLeast\<close> passes no durability barrier: when the state file
  already shows at least the requested severity the result is reported as durable and confirmed and
  the file system is as before. So a severity that an interrupted earlier raise installed without
  its barrier is reported as durable while a power loss can still bring the older one back.
\<close>

theorem raise_idempotent_without_barrier:
  assumes "sched w = []" "alive w" "store_ready st d (fs w) s" "q \<le> s"
    and "run_state (raiseToAtLeast st q) w = (r, w')"
  shows "durable r \<and> persistence r = DurableConfirmed \<and> effectiveSeverity r = s \<and>
         crash_severities st (fs w') (store_entry st d) = crash_severities st (fs w) (store_entry st d)"
proof -
  have w: "still (ids w) (fs w) w" using assms(1,2) by (simp add: still_def)
  have "wp (raiseToAtLeast st q) (\<lambda>r w'. r = raise_idempotent s \<and> fs w' = fs w) w"
    by (rule ff_raise_idempotent[OF w assms(3,4)]) (simp add: still_def)
  from wpD[OF this assms(5)] show ?thesis by (simp add: raise_idempotent_def emptyRaiseResult_def)
qed

text \<open>\<open>HARD\<close> was renamed into place, the directory was not synced, and \<open>UNLOCKED\<close> is still on the disk.\<close>

definition unsettled_world :: world where
  "unsettled_world = (sample_world (Some (serialize Hard)) [])\<lparr>fs := (sample_fs (Some (serialize Hard)))\<lparr>
     durables := (\<lambda>e. {if e = (5, ''s'') then Some 6 else None} \<union> (if e = (5, ''s'') then {Some 8} else {})),
     inodes := (inodes (sample_fs (Some (serialize Hard))))(8 := sample_inode Reg 416 (serialize Unlocked)),
     next_ino := 9\<rparr>\<rparr>"

lemma unsettled_ready: "store_ready sample_store 5 (fs unsettled_world) Hard"
proof -
  have "fs_wf (fs unsettled_world)"
    by (rule fs_wfI)
       (auto simp: unsettled_world_def sample_world_def sample_fs_def sample_inode_def split: if_splits)
  then have at: "store_at sample_store 5 (fs unsettled_world)"
    by (simp add: store_at_def sample_store_def sample_path)
       (simp add: unsettled_world_def sample_fs_def sample_world_def)
  have "temp_entry_name ''/v/s'' k \<noteq> ''s''" for k
    using temp_entry_name_differs[of "''/v/s''" k] by (simp add: sample_path)
  then show ?thesis
    using at serialize_length[of Hard]
    by (simp add: store_ready_def sample_store_entry)
       (simp add: unsettled_world_def sample_world_def sample_fs_def sample_inode_def sample_store_def
          state_group_def acceptable_file_def)
qed

theorem raise_idempotent_without_barrier_witness:
  "\<exists>r w'. run_state (raiseToAtLeast sample_store Soft) unsettled_world = (r, w') \<and>
     durable r \<and> effectiveSeverity r = Hard \<and>
     Unlocked \<in> crash_severities sample_store (fs w') (5, ''s'')"
proof -
  obtain r w' where run: "run_state (raiseToAtLeast sample_store Soft) unsettled_world = (r, w')"
    by (rule prod.exhaust)
  have ready: "sched unsettled_world = []" "alive unsettled_world"
    by (simp_all add: unsettled_world_def sample_world_def)
  have "Soft \<le> Hard" by (simp add: less_eq_incident_severity_def)
  note raised = raise_idempotent_without_barrier[OF ready unsettled_ready this run]
  have "acceptable_file sample_store (sample_inode Reg 416 (serialize Unlocked))"
    using serialize_length[of Unlocked]
    by (simp add: acceptable_file_def sample_inode_def sample_store_def state_group_def)
  then have "decoded sample_store (sample_inode Reg 416 (serialize Unlocked)) = Unlocked"
    by (rule decoded_serialized) (simp add: sample_inode_def)
  then have "Unlocked \<in> persisted sample_store (fs unsettled_world) (Some 8)"
    by (simp add: persisted_def unsettled_world_def sample_world_def)
  moreover have "Some 8 \<in> durables (fs unsettled_world) (5, ''s'')"
    by (simp add: unsettled_world_def sample_world_def)
  ultimately have "Unlocked \<in> crash_severities sample_store (fs unsettled_world) (5, ''s'')"
    unfolding crash_severities_def by blast
  then show ?thesis using raised run by (auto simp: sample_store_entry)
qed

text \<open>
  C36. The fallback of an exclusive installation can publish and report a failure: where the kernel
  has no \<open>RENAME_NOREPLACE\<close>, \<open>installTempFile\<close> links the temporary file to the target and then
  removes its old name; when that removal fails the result is an error although the target is there.
\<close>

theorem exclusive_fallback_publishes:
  assumes "alive w" "sched w = [calm (Err ENOSYS), calm Normal, calm (Err EIO)]"
    and "locate (fs w) tmp = Inr t" "dirents (fs w) t = Some i"
    and "locate (fs w) target = Inr e" "dirents (fs w) e = None"
  shows "\<exists>w'. run_state (installTempFile tmp target True) w = (Inl EIO, w') \<and> dirents (fs w') e = Some i"
  using assms
  by (simp add: installTempFile_def sys_rename_def sys_link_def sys_unlink_def syscall_def State_Monad.bind_def
      State_Monad.return_def call_def Let_def calm_def perform_def op_link_def)

theorem exclusive_fallback_publishes_witness:
  "\<exists>w'. run_state (installTempFile ''/v/s'' ''/v/new'' True)
      (sample_world (Some ''x'') [calm (Err ENOSYS), calm Normal, calm (Err EIO)]) = (Inl EIO, w') \<and>
     dirents (fs w') (5, ''new'') = Some 6"
proof -
  let ?w = "sample_world (Some ''x'') [calm (Err ENOSYS), calm Normal, calm (Err EIO)]"
  have "parent_path ''/v/new'' = ''/v''" "filename ''/v/new'' = ''new''"
    by (simp_all add: parent_path_def filename_def is_slash_def Let_def)
  then have "locate (fs ?w) ''/v/new'' = Inr (5, ''new'')" "dirents (fs ?w) (5, ''new'') = None"
    by (simp_all add: locate_def dir_node_def sample_world_def sample_fs_def)
  with exclusive_fallback_publishes[of ?w "''/v/s''" "(5, ''s'')" 6 "''/v/new''" "(5, ''new'')"]
  show ?thesis
    by (simp add: sample_file sample_ready(2)) (simp add: sample_world_def)
qed

end
