(* ===== verification/IncidentModes.thy ===== *)
theory IncidentModes
  imports ModuleConfig FaultFree
begin

text \<open>
  What the incident components read from \<open>GLOBAL.conf\<close>: the authority over the configuration
  (\<open>fic-core/config/ConfigAuthority\<close>), the response mode (\<open>incident/IncidentResponseMode\<close>) and the
  recovery switch of the access gate (\<open>incident/IncidentRecoveryConfigReader\<close>). Both readers accept
  only a file whose origin is proven and fall back to the strict choice for everything else. The
  group database and the configuration directory chosen at build time are parameters.
\<close>

section \<open>Authority over the configuration\<close>

definition MAX_WORKING_CONFIG_BYTES :: nat where
  "MAX_WORKING_CONFIG_BYTES = 1024 * 1024"

record ConfigAuthorityIdentity =
  ca_owner :: int
  ca_group :: int

text \<open>The outcomes of \<open>getgrnam_r\<close> for a buffer of the given size.\<close>

datatype group_reply = BufferTooSmall | GroupError | GroupMissing | GroupFound int

fun authority_attempts :: "(nat \<Rightarrow> group_reply) \<Rightarrow> nat \<Rightarrow> nat \<Rightarrow> string + ConfigAuthorityIdentity" where
  "authority_attempts getgrnam 0 buffer = Inl ''fic group lookup exceeded the size limit''"
| "authority_attempts getgrnam (Suc attempts) buffer =
     (case getgrnam buffer of
        BufferTooSmall \<Rightarrow> authority_attempts getgrnam attempts (buffer * 2)
      | GroupFound gid \<Rightarrow> Inr \<lparr> ca_owner = 0, ca_group = gid \<rparr>
      | _ \<Rightarrow> Inl ''fic group cannot be proven'')"

definition productionConfigAuthority :: "(nat \<Rightarrow> group_reply) \<Rightarrow> string + ConfigAuthorityIdentity" where
  "productionConfigAuthority getgrnam = authority_attempts getgrnam 8 16384"

definition configAuthorityExpectation :: "ConfigAuthorityIdentity \<Rightarrow> SecureStateFileExpectation" where
  "configAuthorityExpectation identity =
     defaultExpectation\<lparr>x_owner := Some (ca_owner identity), x_group := Some (ca_group identity),
       exactMode := 416, maxSize := MAX_WORKING_CONFIG_BYTES, requireSingleLink := True,
       parentOwner := Some (ca_owner identity), parentGroup := Some (ca_group identity),
       exactParentMode := 1512\<rparr>"

definition proveConfigDirectory ::
    "string \<Rightarrow> ConfigAuthorityIdentity \<Rightarrow> (string + unit) io" where
  "proveConfigDirectory directory identity =
     (let x = configAuthorityExpectation identity in do {
        p \<leftarrow> proveSafeParentDirectory (parent_path directory) x;
        (case p of
           Inl e \<Rightarrow> State_Monad.return (Inl e)
         | Inr _ \<Rightarrow> proveSafeParentDirectory directory x)
      })"

definition canonicalConfigFileMetadata ::
    "stat \<Rightarrow> ConfigAuthorityIdentity \<Rightarrow> string \<Rightarrow> string + unit" where
  "canonicalConfigFileMetadata info identity path =
     (if st_kind info \<noteq> Reg \<or> st_uid info \<noteq> ca_owner identity \<or> st_gid info \<noteq> ca_group identity \<or>
         st_mode info \<noteq> 416 \<or> st_nlink info \<noteq> 1
      then Inl (''working configuration has unsafe metadata: '' @ path)
      else Inr ())"

section \<open>The response mode\<close>

datatype IncidentResponseMode = ModeOff | ModePassive | ModeActive

record IncidentResponseModeResult =
  rm_mode :: IncidentResponseMode
  rm_proven :: bool
  rm_diagnostic :: string
  configuredValue :: string

definition defaultModeResult :: IncidentResponseModeResult where
  "defaultModeResult =
     \<lparr> rm_mode = ModeActive, rm_proven = False, rm_diagnostic = '''', configuredValue = '''' \<rparr>"

primrec incidentResponseModeToken :: "IncidentResponseMode \<Rightarrow> string" where
  "incidentResponseModeToken ModeOff = ''OFF''"
| "incidentResponseModeToken ModePassive = ''PASSIVE''"
| "incidentResponseModeToken ModeActive = ''ACTIVE''"

definition unproven_mode :: "string \<Rightarrow> IncidentResponseModeResult" where
  "unproven_mode reason = defaultModeResult\<lparr>rm_diagnostic := ''fallback ACTIVE: '' @ reason\<rparr>"

record mode_scan =
  scan_status :: string
  scan_value :: string
  scan_seen :: "string list"

definition schema_key :: string where "schema_key = ''_schema_version''"
definition mode_status_key :: string where "mode_status_key = ''incident_response_mode.status''"
definition mode_value_key :: string where "mode_value_key = ''incident_response_mode.value''"

text \<open>One turn of the loop over the lines; \<open>Inl\<close> leaves the function with that reason.\<close>

definition mode_assignment :: "string \<Rightarrow> string \<Rightarrow> mode_scan \<Rightarrow> string + mode_scan" where
  "mode_assignment key item s =
     (let normalizedKey = filter (\<lambda>ch. \<not> is_space ch) key in
      if normalizedKey \<noteq> key \<and>
         (normalizedKey = schema_key \<or> normalizedKey = mode_status_key \<or> normalizedKey = mode_value_key)
      then Inl ''ambiguous GLOBAL.conf response mode key''
      else if key \<in> set (scan_seen s) then Inl ''duplicate GLOBAL.conf assignment''
      else let s' = s\<lparr>scan_seen := key # scan_seen s\<rparr> in
        if key = schema_key \<and> item \<noteq> ''1'' then Inl ''unsupported GLOBAL.conf schema version''
        else if key = mode_status_key then
          (if scan_status s' \<noteq> '''' then Inl ''duplicate response mode status''
           else Inr (s'\<lparr>scan_status := item\<rparr>))
        else if key = mode_value_key then
          (if scan_value s' \<noteq> '''' then Inl ''duplicate response mode value''
           else Inr (s'\<lparr>scan_value := item\<rparr>))
        else Inr s')"

definition mode_line :: "string \<Rightarrow> mode_scan \<Rightarrow> string + mode_scan" where
  "mode_line line s =
     (if line = '''' \<or> hd line = CHR ''#'' then Inr s
      else if CHR 0x0D \<in> set line \<or> CHR 0x00 \<in> set line
      then Inl ''malformed GLOBAL.conf control character''
      else
        (case find_char (CHR ''='') line of
           None \<Rightarrow> Inl ''malformed GLOBAL.conf assignment''
         | Some (key, item) \<Rightarrow>
             if key = '''' \<or> CHR ''='' \<in> set item then Inl ''malformed GLOBAL.conf assignment''
             else mode_assignment key item s))"

fun mode_lines :: "string list \<Rightarrow> mode_scan \<Rightarrow> string + mode_scan" where
  "mode_lines [] s = Inr s"
| "mode_lines (line # lines) s = and_then (mode_line line s) (mode_lines lines)"

definition mode_of_scan :: "mode_scan \<Rightarrow> IncidentResponseModeResult" where
  "mode_of_scan s =
     (if schema_key \<notin> set (scan_seen s) then unproven_mode ''GLOBAL.conf schema version is missing''
      else if scan_status s \<noteq> ''ENABLE'' \<and> scan_status s \<noteq> ''DISABLE''
      then unproven_mode ''missing or invalid response mode status''
      else if scan_value s \<noteq> ''PASSIVE'' \<and> scan_value s \<noteq> ''ACTIVE''
      then unproven_mode ''missing or invalid response mode value''
      else let mode = (if scan_status s = ''DISABLE'' then ModeOff
                       else if scan_value s = ''PASSIVE'' then ModePassive else ModeActive)
        in \<lparr> rm_mode = mode, rm_proven = True,
             rm_diagnostic = ''configured '' @ incidentResponseModeToken mode,
             configuredValue = scan_value s \<rparr>)"

definition mode_of_content :: "string \<Rightarrow> IncidentResponseModeResult" where
  "mode_of_content content =
     (case mode_lines (getlines content) \<lparr> scan_status = '''', scan_value = '''', scan_seen = [] \<rparr> of
        Inl reason \<Rightarrow> unproven_mode reason
      | Inr s \<Rightarrow> mode_of_scan s)"

definition mode_read ::
    "string \<Rightarrow> SecureStateFileExpectation \<Rightarrow> IncidentResponseModeResult io" where
  "mode_read path x = do {
     p \<leftarrow> proveSafeParentDirectory (parent_path (parent_path path)) x;
     (case p of
        Inl error \<Rightarrow> State_Monad.return (unproven_mode error)
      | Inr _ \<Rightarrow> do {
          config \<leftarrow> readSecureFileBounded path x MAX_WORKING_CONFIG_BYTES;
          State_Monad.return
            (if rr_status config \<noteq> StateProven
             then unproven_mode
               (if rr_detail config = '''' then ''GLOBAL.conf is not proven'' else rr_detail config)
             else mode_of_content (rr_content config))
        })
   }"

definition mode_production ::
    "(nat \<Rightarrow> group_reply) \<Rightarrow> string \<Rightarrow> IncidentResponseModeResult io" where
  "mode_production getgrnam config_dir =
     (case productionConfigAuthority getgrnam of
        Inl error \<Rightarrow> State_Monad.return (unproven_mode error)
      | Inr identity \<Rightarrow>
          mode_read (path_join config_dir ''GLOBAL.conf'') (configAuthorityExpectation identity))"

section \<open>The recovery switch\<close>

definition is_recovery_blank :: "char \<Rightarrow> bool" where
  "is_recovery_blank c \<longleftrightarrow> c \<in> {CHR '' '', CHR 0x09, CHR 0x0D}"

definition recovery_trim :: "string \<Rightarrow> string" where
  "recovery_trim value = strip is_recovery_blank value"

definition recovery_key :: string where
  "recovery_key = ''lock_exempt_fic_members.status''"

text \<open>One line: the value found so far (\<open>None\<close> before the key was seen).\<close>

definition recovery_line :: "string \<Rightarrow> bool option \<Rightarrow> string + bool option" where
  "recovery_line raw found =
     (let line = recovery_trim raw in
      if line = '''' \<or> hd line = CHR ''#'' then Inr found
      else
        let key = recovery_trim (case find_char (CHR ''='') line of None \<Rightarrow> line | Some (a, _) \<Rightarrow> a) in
        if key \<noteq> recovery_key then
          (if find_sub recovery_key line \<noteq> None then Inl ''malformed recovery key'' else Inr found)
        else
          (case find_char (CHR ''='') line of
             None \<Rightarrow> Inl ''duplicate or malformed recovery key''
           | Some (_, rest) \<Rightarrow>
               if found \<noteq> None \<or> CHR ''='' \<in> set rest then Inl ''duplicate or malformed recovery key''
               else
                 let value = recovery_trim rest in
                 if value \<noteq> ''ENABLE'' \<and> value \<noteq> ''DISABLE'' then Inl ''invalid recovery value''
                 else Inr (Some (value = ''ENABLE''))))"

fun recovery_lines :: "string list \<Rightarrow> bool option \<Rightarrow> string + bool option" where
  "recovery_lines [] found = Inr found"
| "recovery_lines (line # lines) found = and_then (recovery_line line found) (recovery_lines lines)"

text \<open>The status (\<open>None\<close> is \<open>std::nullopt\<close>) and the diagnostic.\<close>

definition recovery_of_content :: "string \<Rightarrow> bool option \<times> string" where
  "recovery_of_content content =
     (case recovery_lines (getlines content) None of
        Inl diagnostic \<Rightarrow> (None, diagnostic)
      | Inr None \<Rightarrow> (None, ''recovery key is missing'')
      | Inr (Some enabled) \<Rightarrow>
          (Some enabled, if enabled then ''recovery enabled'' else ''recovery disabled''))"

definition readStatus ::
    "string \<Rightarrow> SecureStateFileExpectation \<Rightarrow> (bool option \<times> string) io" where
  "readStatus path x = do {
     p \<leftarrow> proveSafeParentDirectory (parent_path (parent_path path)) x;
     (case p of
        Inl diagnostic \<Rightarrow> State_Monad.return (None, diagnostic)
      | Inr _ \<Rightarrow> do {
          secure \<leftarrow> readSecureFileBounded path x MAX_WORKING_CONFIG_BYTES;
          State_Monad.return
            (if rr_status secure \<noteq> StateProven
             then (None, if rr_detail secure = '''' then ''GLOBAL.conf is not proven'' else rr_detail secure)
             else recovery_of_content (rr_content secure))
        })
   }"

definition recovery_read ::
    "string \<Rightarrow> SecureStateFileExpectation \<Rightarrow> (bool \<times> string) io" where
  "recovery_read path x = do {
     (status, diagnostic) \<leftarrow> readStatus path x;
     State_Monad.return (status = Some True, diagnostic)
   }"

definition ficMemberExemptionStatus ::
    "(nat \<Rightarrow> group_reply) \<Rightarrow> string \<Rightarrow> (bool option \<times> string) io" where
  "ficMemberExemptionStatus getgrnam config_dir =
     (case productionConfigAuthority getgrnam of
        Inl diagnostic \<Rightarrow> State_Monad.return (None, diagnostic)
      | Inr identity \<Rightarrow>
          readStatus (path_join config_dir ''GLOBAL.conf'') (configAuthorityExpectation identity))"

definition ficMemberExemptionEnabled ::
    "(nat \<Rightarrow> group_reply) \<Rightarrow> string \<Rightarrow> (bool \<times> string) io" where
  "ficMemberExemptionEnabled getgrnam config_dir = do {
     (status, diagnostic) \<leftarrow> ficMemberExemptionStatus getgrnam config_dir;
     State_Monad.return (status = Some True, diagnostic)
   }"

section \<open>Agreement with the module configuration\<close>

lemma squeeze_filter: "filter (\<lambda>c. \<not> is_space c) (squeeze b s) = filter (\<lambda>c. \<not> is_space c) s"
  by (induction b s rule: squeeze.induct) auto

lemma filter_dropWhile_space:
  assumes "\<And>c. P c \<Longrightarrow> is_space c"
  shows "filter (\<lambda>c. \<not> is_space c) (dropWhile P s) = filter (\<lambda>c. \<not> is_space c) s"
  using assms by (induction s) auto

lemma filter_strip:
  assumes "\<And>c. P c \<Longrightarrow> is_space c"
  shows "filter (\<lambda>c. \<not> is_space c) (strip P s) = filter (\<lambda>c. \<not> is_space c) s"
proof -
  have "filter (\<lambda>c. \<not> is_space c) (strip P s) =
      rev (filter (\<lambda>c. \<not> is_space c) (dropWhile P (rev (dropWhile P s))))"
    by (simp add: strip_def flip: rev_filter)
  also have "\<dots> = filter (\<lambda>c. \<not> is_space c) s"
    using filter_dropWhile_space[OF assms, of P] by (simp add: flip: rev_filter)
  finally show ?thesis .
qed

lemma filter_trim: "filter (\<lambda>c. \<not> is_space c) (trim b s) = filter (\<lambda>c. \<not> is_space c) s"
  by (simp add: trim_def Let_def squeeze_filter filter_strip is_blank_space)

text \<open>A text without white space is the trimmed form of nothing but itself with white space added.\<close>

definition spaceless :: "string \<Rightarrow> bool" where
  "spaceless s \<longleftrightarrow> (\<forall>c \<in> set s. \<not> is_space c)"

lemma spaceless_filter: "spaceless s \<Longrightarrow> filter (\<lambda>c. \<not> is_space c) s = s"
  by (simp add: spaceless_def)

lemma spaceless_strip: "spaceless s \<Longrightarrow> strip is_blank s = s"
  by (intro strip_id) (auto simp: spaceless_def dest!: is_blank_space)

lemma squeeze_spaceless: "spaceless s \<Longrightarrow> squeeze b s = s"
  by (induction b s rule: squeeze.induct) (auto simp: spaceless_def)

lemma trim_spaceless: "spaceless s \<Longrightarrow> trim b s = s"
  by (simp add: trim_def Let_def spaceless_strip squeeze_spaceless)

lemma trimmed_filter: "trim b s = k \<Longrightarrow> spaceless k \<Longrightarrow> filter (\<lambda>c. \<not> is_space c) s = k"
  using filter_trim[of b s] spaceless_filter[of k] by simp

lemma line_entry_key:
  assumes "line_entry (key @ CHR ''='' # item) = Some (p, v)" "CHR ''='' \<notin> set key"
  shows "filter (\<lambda>c. \<not> is_space c) p = filter (\<lambda>c. \<not> is_space c) key"
proof -
  let ?F = "filter (\<lambda>c. \<not> is_space c)"
  let ?l = "trim False (key @ CHR ''='' # item)"
  obtain a b where ab: "find_char (CHR ''='') ?l = Some (a, b)" "p = trim True a"
    using assms(1) by (auto simp: line_entry_def Let_def split: if_splits option.splits)
  then have l: "?l = a @ CHR ''='' # b" "CHR ''='' \<notin> set a" by (simp_all add: find_char_Some)
  have eq: "\<not> is_space (CHR ''='')" by (simp add: is_space_def)
  have "?F (key @ CHR ''='' # item) = ?F (a @ CHR ''='' # b)"
    using filter_trim[of False "key @ CHR ''='' # item"] l(1) by simp
  then have "?F key @ CHR ''='' # ?F item = ?F a @ CHR ''='' # ?F b" using eq by simp
  then have "find_char (CHR ''='') (?F key @ CHR ''='' # ?F item) =
      find_char (CHR ''='') (?F a @ CHR ''='' # ?F b)" by simp
  then have "?F key = ?F a"
    using assms(2) l(2) by (simp del: find_char.simps)
  then show ?thesis using ab(2) by (simp add: filter_trim)
qed

lemma line_entry_plain:
  assumes "spaceless key" "spaceless item" "key \<noteq> []" "CHR ''='' \<notin> set key" "CHR ''#'' \<notin> set (key @ item)"
  shows "line_entry (key @ CHR ''='' # item) = Some (key, item)"
proof -
  have "spaceless (key @ CHR ''='' # item)" using assms(1,2) by (auto simp: spaceless_def is_space_def)
  then show ?thesis using assms by (simp add: line_entry_def Let_def trim_spaceless)
qed

text \<open>The two keys the resolver reads, and what its scan holds for them.\<close>

definition scan_item :: "string \<Rightarrow> mode_scan \<Rightarrow> string" where
  "scan_item k s = (if k = mode_status_key then scan_status s else scan_value s)"

definition mode_key :: "string \<Rightarrow> bool" where
  "mode_key k \<longleftrightarrow> k = mode_status_key \<or> k = mode_value_key"

lemma mode_key_text: "mode_key k \<Longrightarrow> spaceless k \<and> k \<noteq> [] \<and> CHR ''='' \<notin> set k \<and> CHR ''#'' \<notin> set k"
  by (auto simp: mode_key_def mode_status_key_def mode_value_key_def spaceless_def is_space_def)

lemma mode_keys_distinct [simp]:
  "mode_status_key \<noteq> mode_value_key" "mode_value_key \<noteq> mode_status_key"
  by (simp_all add: mode_status_key_def mode_value_key_def)

lemma mode_assignment_form:
  assumes "mode_assignment key item s = Inr s'"
  shows "key \<notin> set (scan_seen s)"
    and "s' = s\<lparr>scan_seen := key # scan_seen s,
      scan_status := (if key = mode_status_key then item else scan_status s),
      scan_value := (if key = mode_value_key then item else scan_value s)\<rparr>"
    and "filter (\<lambda>c. \<not> is_space c) key = key \<or> \<not> mode_key (filter (\<lambda>c. \<not> is_space c) key)"
  using assms unfolding mode_assignment_def Let_def mode_key_def
  by (simp_all split: if_splits) blast+

lemma mode_assignment_step:
  assumes "mode_assignment key item s = Inr s'" "mode_key k"
  shows "key \<notin> set (scan_seen s)" "set (scan_seen s') = insert key (set (scan_seen s))"
    "scan_item k s' = (if key = k then item else scan_item k s)"
    "filter (\<lambda>c. \<not> is_space c) key = k \<Longrightarrow> key = k"
  using mode_assignment_form[OF assms(1)] assms(2) by (auto simp: scan_item_def mode_key_def)

lemma mode_line_cases:
  assumes "mode_line line s = Inr s'"
  obtains "s' = s" "line_entry line = None"
  | key item where "line = key @ CHR ''='' # item" "CHR ''='' \<notin> set key" "mode_assignment key item s = Inr s'"
proof (cases "line = '''' \<or> hd line = CHR ''#''")
  case True
  have "CHR ''#'' \<in> set (trim False line)" if "hd line = CHR ''#''" "line \<noteq> []"
  proof -
    have "CHR ''#'' \<in> set (filter (\<lambda>c. \<not> is_space c) line)"
      using that hd_in_set[of line] by (auto simp: is_space_def)
    then have "CHR ''#'' \<in> set (filter (\<lambda>c. \<not> is_space c) (trim False line))"
      by (simp only: filter_trim)
    then show ?thesis by simp
  qed
  then have "line_entry line = None" using True by (cases "line = []") (auto simp: line_entry_def Let_def)
  then show thesis using that(1) assms True by (auto simp: mode_line_def)
next
  case False
  then show thesis
    using assms that(2) by (auto simp: mode_line_def find_char_Some split: if_splits option.splits)
qed

lemma mode_lines_keep:
  assumes "mode_lines ls s = Inr s'" "mode_key k" "k \<in> set (scan_seen s)"
  shows "scan_item k s' = scan_item k s"
  using assms
proof (induction ls arbitrary: s)
  case (Cons l ls)
  then obtain s1 where s1: "mode_line l s = Inr s1" "mode_lines ls s1 = Inr s'"
    by (auto simp: and_then_Inr)
  from s1(1) have "k \<in> set (scan_seen s1) \<and> scan_item k s1 = scan_item k s"
  proof (cases rule: mode_line_cases)
    case (2 key item)
    then show ?thesis using mode_assignment_step[OF 2(3) Cons.prems(2)] Cons.prems(3) by auto
  qed (use Cons.prems(3) in simp)
  then show ?case using Cons.IH[OF s1(2) Cons.prems(2)] by simp
qed simp

lemma mode_lines_module:
  assumes "mode_lines ls s = Inr s'" "mode_key k" "k \<notin> set (scan_seen s)" "scan_item k s = ''''"
    and "scan_item k s' = v" "v \<noteq> ''''" "spaceless v" "CHR ''#'' \<notin> set v"
  shows "text_entries ls k = Some v"
  using assms(1,3,4)
proof (induction ls arbitrary: s)
  case Nil
  then show ?case using assms(5,6) by simp
next
  case (Cons l ls)
  then obtain s1 where s1: "mode_line l s = Inr s1" "mode_lines ls s1 = Inr s'"
    by (auto simp: and_then_Inr)
  from s1(1) show ?case
  proof (cases rule: mode_line_cases)
    case 1
    then show ?thesis using Cons.IH[of s] s1(2) Cons.prems(2,3) by simp
  next
    case (2 key item)
    note step = mode_assignment_step[OF 2(3) assms(2)]
    show ?thesis
    proof (cases "key = k")
      case True
      then have "item = v"
        using mode_lines_keep[OF s1(2) assms(2)] step(2,3) assms(5) by simp
      then have "line_entry l = Some (k, v)"
        using line_entry_plain[of k v] mode_key_text[OF assms(2)] assms(7,8) 2(1) True by simp
      then show ?thesis by simp
    next
      case False
      then have rest: "text_entries ls k = Some v"
        using Cons.IH[OF s1(2)] step(2,3) Cons.prems(2,3) by simp
      have "p \<noteq> k" if "line_entry l = Some (p, x)" for p x
      proof
        assume "p = k"
        then have "filter (\<lambda>c. \<not> is_space c) key = k"
          using line_entry_key[OF that[unfolded 2(1)] 2(2)] spaceless_filter[of k] mode_key_text[OF assms(2)]
          by simp
        then show False using step(4) False by simp
      qed
      then show ?thesis using rest by (auto split: option.splits)
    qed
  qed
qed

lemma loaded_entries:
  "entries (loadConfig content ModuleConfigFileHandler) = text_entries (getlines content)"
proof -
  have "snd (load_lines ''='' Normalize Map.empty (getlines content)) = text_entries (getlines content)"
    by (simp add: load_lines_entries)
  then show ?thesis
    by (auto simp: loadConfig_def ModuleConfigFileHandler_def ConfigFileHandler_def split: prod.splits)
qed

text \<open>What the module configuration makes of the same text.\<close>

definition mode_policy :: string where
  "mode_policy = ''incident_response_mode''"

lemma mode_of_content_module:
  assumes "rm_proven (mode_of_content content)"
  defines "c \<equiv> loadConfig content ModuleConfigFileHandler" and "r \<equiv> mode_of_content content"
  shows "getEnabledValue c mode_policy =
           (if rm_mode r = ModeOff then None else Some (incidentResponseModeToken (rm_mode r)))"
    and "getPolicyValue c mode_policy = configuredValue r" and "conf_hasConfiguredValue c mode_policy"
    and "hasPolicyStatus c mode_policy"
proof -
  let ?s0 = "\<lparr> scan_status = '''', scan_value = '''', scan_seen = [] \<rparr>"
  obtain s where s: "mode_lines (getlines content) ?s0 = Inr s" "r = mode_of_scan s"
    using assms(1)
    by (auto simp: r_def mode_of_content_def unproven_mode_def defaultModeResult_def split: sum.splits)
  have ok: "scan_status s = ''ENABLE'' \<or> scan_status s = ''DISABLE''"
    "scan_value s = ''PASSIVE'' \<or> scan_value s = ''ACTIVE''"
    using assms(1) s(2) unfolding r_def[symmetric]
    by (auto simp: mode_of_scan_def unproven_mode_def defaultModeResult_def split: if_splits)
  have keys: "mode_key mode_status_key" "mode_key mode_value_key" by (simp_all add: mode_key_def)
  have "text_entries (getlines content) mode_status_key = Some (scan_status s)"
    by (rule mode_lines_module[OF s(1) keys(1)])
       (use ok in \<open>auto simp: scan_item_def spaceless_def is_space_def\<close>)
  moreover have "text_entries (getlines content) mode_value_key = Some (scan_value s)"
    by (rule mode_lines_module[OF s(1) keys(2)])
       (use ok in \<open>auto simp: scan_item_def spaceless_def is_space_def\<close>)
  moreover have "statusKey mode_policy = mode_status_key" "valueKey mode_policy = mode_value_key"
    by (simp_all add: statusKey_def valueKey_def mode_policy_def mode_status_key_def mode_value_key_def)
  ultimately have e: "entries c (statusKey mode_policy) = Some (scan_status s)"
    "entries c (valueKey mode_policy) = Some (scan_value s)"
    by (simp_all add: c_def loaded_entries)
  have r: "rm_mode r = (if scan_status s = ''DISABLE'' then ModeOff
      else if scan_value s = ''PASSIVE'' then ModePassive else ModeActive)" "configuredValue r = scan_value s"
    using assms(1) s(2) unfolding r_def[symmetric]
    by (auto simp: mode_of_scan_def unproven_mode_def defaultModeResult_def Let_def split: if_splits)
  note defs = getPolicyValue_def conf_hasConfiguredValue_def hasPolicyStatus_def config_getValue_def
    isParameterExists_def getPolicyStatus_def ENABLED_STATUS_def DISABLED_STATUS_def
  show "getEnabledValue c mode_policy =
      (if rm_mode r = ModeOff then None else Some (incidentResponseModeToken (rm_mode r)))"
    using ok by (auto simp: getEnabledValue_def defs e r)
  show "getPolicyValue c mode_policy = configuredValue r" "conf_hasConfiguredValue c mode_policy"
    "hasPolicyStatus c mode_policy"
    by (simp_all add: defs e r)
qed

section \<open>Reading the response mode\<close>

lemma wp_mode_read:
  assumes w: "at c f w"
    and fallback: "\<And>reason w'. at c f w' \<Longrightarrow> Q (unproven_mode reason) w'"
    and configured: "\<And>i w'. at c f w' \<Longrightarrow>
      proven_at x (accepted_size x MAX_WORKING_CONFIG_BYTES) f path i \<Longrightarrow>
      Q (mode_of_content (i_data (inodes f i))) w'"
  shows "wp (mode_read path x) Q w"
proof -
  have "wp (readSecureFileBounded path x MAX_WORKING_CONFIG_BYTES)
      (\<lambda>r. Q (if rr_status r \<noteq> StateProven then unproven_mode (g r) else mode_of_content (rr_content r))) w'"
    if "at c f w'" for w' g
    by (rule wp_readSecureFileBounded[OF that])
       (auto simp: unprovable_def missing_state_def proven_state_def intro: fallback configured)
  then have "wp (proveSafeParentDirectory (parent_path (parent_path path)) x) (\<lambda>p. wp (case p of
        Inl error \<Rightarrow> State_Monad.return (unproven_mode error)
      | Inr _ \<Rightarrow> State_Monad.bind (readSecureFileBounded path x MAX_WORKING_CONFIG_BYTES) (\<lambda>r.
          State_Monad.return (if rr_status r \<noteq> StateProven then unproven_mode (g r)
            else mode_of_content (rr_content r)))) Q) w" for g
    by (intro wp_proveSafeParentDirectory[OF w]) (simp_all add: wp_simps fallback)
  then show ?thesis unfolding mode_read_def wp_bind .
qed

text \<open>
  C21. The response mode is weaker than \<open>ACTIVE\<close> only when it is proven, and a proven mode comes from
  a file that passed every check of the authority over the configuration. The policy layer, which
  parses the same file with another parser, then sees exactly this mode: the policy
  \<open>incident_response_mode\<close> is disabled for \<open>OFF\<close> and enabled with the value \<open>PASSIVE\<close> or \<open>ACTIVE\<close>
  otherwise. Reading changes nothing, whatever system calls fail.
\<close>

theorem mode_only_from_proven_config:
  assumes "quiet w" "run_state (mode_read path x) w = (r, w')"
  shows "fs w' = fs w \<and> (rm_mode r \<noteq> ModeActive \<longrightarrow> rm_proven r) \<and>
    (rm_proven r \<longrightarrow> (\<exists>i. proven_at x (accepted_size x MAX_WORKING_CONFIG_BYTES) (fs w) path i \<and>
       (let c = loadConfig (i_data (inodes (fs w) i)) ModuleConfigFileHandler in
        getPolicyValue c mode_policy = configuredValue r \<and>
        getEnabledValue c mode_policy =
          (if rm_mode r = ModeOff then None else Some (incidentResponseModeToken (rm_mode r))))))"
proof -
  have proven: "rm_mode m \<noteq> ModeActive \<longrightarrow> rm_proven m" if "m = mode_of_content s" for m s
    unfolding that mode_of_content_def mode_of_scan_def unproven_mode_def defaultModeResult_def Let_def
    by (simp split: sum.split)
  have "wp (mode_read path x) (\<lambda>r w'. fs w' = fs w \<and> (rm_mode r \<noteq> ModeActive \<longrightarrow> rm_proven r) \<and>
      (rm_proven r \<longrightarrow> (\<exists>i. proven_at x (accepted_size x MAX_WORKING_CONFIG_BYTES) (fs w) path i \<and>
        r = mode_of_content (i_data (inodes (fs w) i))))) w"
    by (rule wp_mode_read[OF at_start[OF assms(1)]])
       (auto dest!: atD(2) simp: proven[OF refl, rule_format] unproven_mode_def defaultModeResult_def)
  from wpD[OF this assms(2)] show ?thesis
    using mode_of_content_module by (auto simp: Let_def simp del: split_paired_Ex)
qed

definition sample_config :: string where
  "sample_config = ''_schema_version=1'' @ [CHR 0x0A] @ ''incident_response_mode.status=ENABLE'' @ [CHR 0x0A]
     @ ''incident_response_mode.value=PASSIVE'' @ [CHR 0x0A]"

lemma sample_config_mode:
  "mode_of_content sample_config =
     \<lparr> rm_mode = ModePassive, rm_proven = True, rm_diagnostic = ''configured PASSIVE'',
       configuredValue = ''PASSIVE'' \<rparr>"
  by code_simp

definition config_world :: world where
  "config_world = (sample_world (Some sample_config) [])\<lparr>fs := (sample_fs (Some sample_config))
     \<lparr>dirs := (\<lambda>q. if q = ''/v'' \<or> q = ''/'' then DirNode 5 else DirError ENOENT)\<rparr>\<rparr>"

lemma config_world_read:
  assumes "x = configAuthorityExpectation \<lparr> ca_owner = 0, ca_group = 7 \<rparr>"
  shows "wp (mode_read ''/v/s'' x) (\<lambda>r w'. rm_mode r = ModePassive \<and> rm_proven r) config_world"
proof -
  let ?f = "fs config_world"
  have w: "still (ids config_world) ?f config_world"
    by (simp add: still_def config_world_def sample_world_def)
  have root: "parent_path ''/v'' = ''/''" by (simp add: parent_path_def is_slash_def Let_def)
  have dirs: "dirs ?f ''/v'' = DirNode 5" "dirs ?f ''/'' = DirNode 5"
    by (simp_all add: config_world_def)
  have conf: "lookup ?f ''/v/s'' = Inr 6" "inodes ?f 6 = sample_inode Reg 416 sample_config"
    by (simp_all add: lookup_def locate_def sample_path dir_node_def config_world_def sample_fs_def)
  have parent: "parent_complaint x q (stat_of ?f 5) = None" for q
    by (simp add: parent_complaint_def allowed_def assms configAuthorityExpectation_def
        defaultExpectation_def config_world_def sample_fs_def sample_inode_def)
  have hard: "MAX_WORKING_CONFIG_BYTES \<noteq> 0" by (simp add: MAX_WORKING_CONFIG_BYTES_def)
  have "length sample_config \<le> MAX_WORKING_CONFIG_BYTES"
    by (simp add: sample_config_def MAX_WORKING_CONFIG_BYTES_def)
  then have i: "proven_at x (accepted_size x MAX_WORKING_CONFIG_BYTES) ?f ''/v/s'' 6"
    by (simp add: proven_at_def conf file_complaint_def allowed_def assms configAuthorityExpectation_def
        defaultExpectation_def accepted_size_def sample_inode_def hard)
  have "wp (readSecureFileBounded ''/v/s'' x MAX_WORKING_CONFIG_BYTES)
      (\<lambda>r. wp (State_Monad.return (if rr_status r \<noteq> StateProven then g r
        else mode_of_content (rr_content r))) (\<lambda>r w'. rm_mode r = ModePassive \<and> rm_proven r)) w'"
    if "still (ids config_world) ?f w'" for w' g
    by (rule ff_readSecureFileBounded[OF that hard _ _ parent i])
       (simp_all add: sample_path dirs wp_simps proven_state_def conf sample_inode_def sample_config_mode)
  then show ?thesis
    unfolding mode_read_def wp_bind sample_path(1) root
    by (intro ff_proveSafeParentDirectory[OF w _ dirs(2) parent])
       (simp_all add: wp_simps del: append_Cons)
qed

theorem mode_only_from_proven_config_witness:
  "\<exists>r w'. run_state (mode_read ''/v/s'' (configAuthorityExpectation \<lparr> ca_owner = 0, ca_group = 7 \<rparr>))
       config_world = (r, w') \<and> rm_proven r \<and> rm_mode r = ModePassive \<and>
     getEnabledValue (loadConfig sample_config ModuleConfigFileHandler) mode_policy = Some ''PASSIVE''"
proof -
  let ?x = "configAuthorityExpectation \<lparr> ca_owner = 0, ca_group = 7 \<rparr>"
  obtain r w' where run: "run_state (mode_read ''/v/s'' ?x) config_world = (r, w')" by (rule prod.exhaust)
  have q: "quiet config_world" by (simp add: quiet_def config_world_def sample_world_def)
  have ok: "rm_mode r = ModePassive \<and> rm_proven r" using wpD[OF config_world_read[OF refl] run] .
  have "i_data (inodes (fs config_world) i) = sample_config"
    if "proven_at ?x n (fs config_world) ''/v/s'' i" for i n
    using that by (simp add: proven_at_def lookup_def locate_def sample_path dir_node_def config_world_def
        sample_fs_def sample_inode_def split: if_splits)
  then show ?thesis
    using mode_only_from_proven_config[OF q run] ok run by (auto simp: Let_def)
qed

end
