(* ===== verification/IncidentController.thy ===== *)
theory IncidentController
  imports TargetStore SecurityAudit IncidentModes
begin

text \<open>
  The runtime owner of the incident (\<open>incident/IncidentController\<close>): the raise, clear, status and
  reconcile operations, the containment of sessions, user runtimes and the network, the durable
  registration of session targets and the audit and notification sinks. The controller's collaborators
  (the session backend of \<open>session/SessionContainmentBackend.h\<close>, the network backend, the sinks, the
  PAM gate verifier, the boot id) are interfaces in the code and functions over an arbitrary
  environment here; each may throw. The two stores and the mode resolver act on the file system.
  The locks serialize the operations, so an operation is one run of its definition.
\<close>

section \<open>The session backend\<close>

datatype SessionKind = Graphical | Terminal | UnknownKind

record LoginSession =
  s_id :: string
  s_uid :: nat
  s_user :: string
  s_type :: string
  s_kind :: SessionKind
  s_recovery :: bool
  className :: string
  s_state :: string
  s_remote :: bool
  s_ordinary :: bool
  s_serviceAccount :: bool
  s_objectPath :: string
  s_logindOwner :: string
  startTimestamp :: nat

record LoginUser =
  u_uid :: nat
  u_name :: string
  u_serviceAccount :: bool
  u_recovery :: bool
  userManagerRunning :: bool
  u_ordinary :: bool
  u_objectPath :: string
  u_logindOwner :: string

definition emptyLoginUser :: LoginUser where
  "emptyLoginUser =
     \<lparr> u_uid = 0, u_name = '''', u_serviceAccount = False, u_recovery = False, userManagerRunning = False,
       u_ordinary = False, u_objectPath = '''', u_logindOwner = '''' \<rparr>"

record SessionInventoryResult =
  inv_proven :: bool
  inv_sessions :: "LoginSession list"
  inv_diagnostic :: string

record UserInventoryResult =
  users_proven :: bool
  users_found :: "LoginUser list"
  users_diagnostic :: string

record ContainmentOutcome =
  performed :: bool
  outcome_diagnostic :: string

datatype LookupStatus = UserFound | UserAbsent | UserUnproven

record RegisteredUserLookup =
  lookup_status :: LookupStatus
  lookup_user :: LoginUser
  lookup_diagnostic :: string

text \<open>A call of a collaborator: an exception or a value, and its environment afterwards.\<close>

type_synonym ('e, 'a) effect = "'e \<Rightarrow> (exn + 'a) \<times> 'e"

record 'e SessionContainmentBackend =
  listSessions :: "('e, SessionInventoryResult) effect"
  listUsers :: "('e, UserInventoryResult) effect"
  classifySession :: "LoginSession \<Rightarrow> ('e, SessionKind) effect"
  lockSession :: "LoginSession \<Rightarrow> ('e, ContainmentOutcome) effect"
  verifySessionLocked :: "LoginSession \<Rightarrow> ('e, bool \<times> string) effect"
  terminateSession :: "LoginSession \<Rightarrow> ('e, ContainmentOutcome) effect"
  terminateUser :: "LoginUser \<Rightarrow> ('e, ContainmentOutcome) effect"
  verifySessionsGone :: "LoginSession list \<Rightarrow> ('e, bool \<times> string) effect"
  verifyUserRuntimeGone :: "LoginUser \<Rightarrow> ('e, bool \<times> string) effect"
  lookupProvenUser :: "nat \<Rightarrow> string \<Rightarrow> ('e, RegisteredUserLookup) effect"

section \<open>The controller and its state\<close>

datatype RuntimeState = Inactive | Applying | Active | Degraded | Clearing

primrec runtimeStateToString :: "RuntimeState \<Rightarrow> string" where
  "runtimeStateToString Inactive = ''inactive''"
| "runtimeStateToString Applying = ''applying''"
| "runtimeStateToString Active = ''active''"
| "runtimeStateToString Degraded = ''degraded''"
| "runtimeStateToString Clearing = ''clearing''"

record ContainmentStatus =
  pamGateActive :: bool
  sessionsContained :: bool
  userRuntimeContained :: bool
  networkQuarantined :: bool

definition noContainment :: ContainmentStatus where
  "noContainment =
     \<lparr> pamGateActive = False, sessionsContained = False, userRuntimeContained = False,
       networkQuarantined = False \<rparr>"

record IncidentStatus =
  responseMode :: IncidentResponseModeResult
  status_severity :: incident_severity
  stateProven :: bool
  status_provenance :: Provenance
  status_runtime :: RuntimeState
  status_containment :: ContainmentStatus
  status_detail :: string

record IncidentSource =
  source_name :: string
  policyModule :: string
  policySubmodule :: string
  source_policyName :: string
  deviceId :: string
  source_failureOrigin :: string

record IncidentResult =
  ir_ok :: bool
  ignoredByMode :: bool
  previousSeverity :: incident_severity
  ir_effectiveSeverity :: incident_severity
  ir_escalated :: bool
  persistenceConfirmed :: bool
  persistentStateBroken :: bool
  ir_runtime :: RuntimeState
  ir_detail :: string

definition emptyIncidentResult :: IncidentResult where
  "emptyIncidentResult =
     \<lparr> ir_ok = False, ignoredByMode = False, previousSeverity = Unlocked, ir_effectiveSeverity = Isolate,
       ir_escalated = False, persistenceConfirmed = False, persistentStateBroken = False,
       ir_runtime = Inactive, ir_detail = '''' \<rparr>"

text \<open>The collaborators; the two stores lie in the file system, the JSON text functions are the library's.\<close>

record 'e IncidentController =
  stateStore :: state_store
  targetStore :: target_store
  sessions :: "'e SessionContainmentBackend option"
  applyQuarantine :: "bool \<Rightarrow> ('e, bool \<times> string) effect"
  accessGateVerifier :: "('e, bool \<times> string) effect option"
  modeResolver :: "(exn + IncidentResponseModeResult) io option"
  bootIdProvider :: "('e, string) effect"
  auditSink :: "(string \<Rightarrow> ('e, unit) effect) option"
  notifySink :: "(incident_severity \<Rightarrow> string \<Rightarrow> ('e, unit) effect) option"
  current_time :: "('e, string) effect"
  lib_dump :: json_dump
  lib_parse :: json_parse
  lib_replace_dump :: "json \<Rightarrow> string"

text \<open>\<open>NullIncidentNetworkBackend\<close>, which the constructor takes when it gets no network backend.\<close>

definition null_applyQuarantine :: "bool \<Rightarrow> ('e, bool \<times> string) effect" where
  "null_applyQuarantine enabled e =
     (Inr (if enabled then (False, ''incident network backend is unavailable'') else (True, '''')), e)"

text \<open>The mutable members, with the process-wide flag of \<open>IncidentProfileSynchronization.h\<close>.\<close>

record 'e machine =
  m_world :: world
  m_env :: 'e
  m_incidentGeneration :: "nat option"
  lastNotified :: "incident_severity option"
  runtime :: RuntimeState
  containment :: ContainmentStatus
  lastMode :: "IncidentResponseMode option"
  forcedNetworkQuarantine :: bool

section \<open>Sequencing with exceptions\<close>

type_synonym ('e, 'a) ctl = "('e machine, exn + 'a) state"

definition done_with :: "'a \<Rightarrow> ('e, 'a) ctl" where
  "done_with a = State_Monad.return (Inr a)"

definition ebind :: "('e, 'a) ctl \<Rightarrow> ('a \<Rightarrow> ('e, 'b) ctl) \<Rightarrow> ('e, 'b) ctl" where
  "ebind m k = State_Monad.bind m (\<lambda>r. case r of Inl x \<Rightarrow> State_Monad.return (Inl x) | Inr a \<Rightarrow> k a)"

text \<open>\<open>try\<close> with a handler for every exception.\<close>

definition catching :: "('e, 'a) ctl \<Rightarrow> 'a \<Rightarrow> ('e, 'a) ctl" where
  "catching m a = State_Monad.bind m (\<lambda>r. case r of Inl x \<Rightarrow> done_with a | Inr b \<Rightarrow> done_with b)"

definition on_files :: "(exn + 'a) io \<Rightarrow> ('e, 'a) ctl" where
  "on_files io = State (\<lambda>m. case run_state io (m_world m) of (r, w) \<Rightarrow> (r, m\<lparr>m_world := w\<rparr>))"

definition in_files :: "'a io \<Rightarrow> ('e, 'a) ctl" where
  "in_files io = State (\<lambda>m. case run_state io (m_world m) of (a, w) \<Rightarrow> (Inr a, m\<lparr>m_world := w\<rparr>))"

text \<open>A process that died makes no more calls.\<close>

definition outside :: "('e, 'a) effect \<Rightarrow> ('e, 'a) ctl" where
  "outside f = State (\<lambda>m.
     if alive (m_world m) then (case f (m_env m) of (r, e) \<Rightarrow> (r, m\<lparr>m_env := e\<rparr>))
     else (Inl UnknownException, m))"

definition update :: "('e machine \<Rightarrow> 'e machine) \<Rightarrow> ('e, unit) ctl" where
  "update f = State (\<lambda>m. (Inr (), f m))"

definition inspect :: "('e machine \<Rightarrow> 'a) \<Rightarrow> ('e, 'a) ctl" where
  "inspect f = State (\<lambda>m. (Inr (f m), m))"

section \<open>Mode, sinks and boot id\<close>

definition resolve_mode :: "'e IncidentController \<Rightarrow> ('e, IncidentResponseModeResult) ctl" where
  "resolve_mode c =
     catching
       (case modeResolver c of Some r \<Rightarrow> on_files r | None \<Rightarrow> done_with defaultModeResult)
       (unproven_mode ''mode resolver failed'')"

definition currentIncidentBootId :: "'e IncidentController \<Rightarrow> ('e, string) ctl" where
  "currentIncidentBootId c = outside (bootIdProvider c)"

definition audit_fields :: "string \<Rightarrow> IncidentResult \<Rightarrow> IncidentSource \<Rightarrow> string \<Rightarrow> exn + json" where
  "audit_fields event result source reason =
     and_then (incidentSeverityToken (previousSeverity result)) (\<lambda>previous.
     and_then (incidentSeverityToken (ir_effectiveSeverity result)) (\<lambda>effective.
       Inr (json_object
         [(''event'', JString event), (''previous_severity'', JString previous),
          (''effective_severity'', JString effective), (''escalated'', JBool (ir_escalated result)),
          (''persistent_state_broken'', JBool (persistentStateBroken result)),
          (''runtime_state'', JString (runtimeStateToString (ir_runtime result))),
          (''source'', JString (source_name source)), (''reason'', JString reason),
          (''detail'', JString (ir_detail result)),
          (''policy'', json_object
            [(''module'', JString (policyModule source)), (''submodule'', JString (policySubmodule source)),
             (''policy'', JString (source_policyName source))]),
          (''device_id'', JString (deviceId source)),
          (''failure_origin'', JString (source_failureOrigin source))])))"

definition recordAudit ::
    "'e IncidentController \<Rightarrow> string \<Rightarrow> IncidentResult \<Rightarrow> IncidentSource \<Rightarrow> string \<Rightarrow> ('e, unit) ctl" where
  "recordAudit c event result source reason =
     (case auditSink c of
        None \<Rightarrow> done_with ()
      | Some sink \<Rightarrow>
          catching
            (case audit_fields event result source reason of
               Inl x \<Rightarrow> State_Monad.return (Inl x)
             | Inr payload \<Rightarrow>
                 ebind (outside (current_time c)) (\<lambda>timestamp.
                   outside (sink (serializeJsonLine (lib_replace_dump c)
                     (makeEvent (lib_replace_dump c) ''fic'' payload timestamp)))))
            ())"

definition announce_severity ::
    "'e IncidentController \<Rightarrow> incident_severity \<Rightarrow> string \<Rightarrow> ('e, unit) ctl" where
  "announce_severity c severity reason =
     ebind (update (\<lambda>m. m\<lparr>lastNotified := Some severity\<rparr>)) (\<lambda>_.
       case notifySink c of
         None \<Rightarrow> done_with ()
       | Some sink \<Rightarrow> catching (outside (sink severity reason)) ())"

definition notifySeverity ::
    "'e IncidentController \<Rightarrow> incident_severity \<Rightarrow> string \<Rightarrow> ('e, unit) ctl" where
  "notifySeverity c severity reason =
     ebind (inspect lastNotified) (\<lambda>announced.
       case announced of
         Some s \<Rightarrow>
           if \<not> incidentSeverityLess s severity then done_with ()
           else announce_severity c severity reason
       | None \<Rightarrow> announce_severity c severity reason)"

section \<open>The durable session targets\<close>

record TargetRegistration =
  reg_ok :: bool
  reg_detail :: string

definition registration :: "bool \<Rightarrow> string \<Rightarrow> TargetRegistration" where
  "registration b detail = \<lparr> reg_ok = b, reg_detail = detail \<rparr>"

definition read_targets :: "'e IncidentController \<Rightarrow> ('e, TargetReadResult) ctl" where
  "read_targets c = in_files (targets_read (lib_parse c) (targetStore c))"

definition write_targets ::
    "'e IncidentController \<Rightarrow> TargetReadResult \<Rightarrow> string \<Rightarrow> nat \<Rightarrow> IncidentSessionTarget list \<Rightarrow>
     ('e, TargetWriteResult) ctl" where
  "write_targets c expected bootId generation targets =
     on_files (writeIfCurrent (lib_dump c) (targetStore c) expected bootId generation targets)"

definition generation_max :: nat where
  "generation_max = 2 ^ 64 - 1"

definition next_generation :: "TargetReadResult \<Rightarrow> nat" where
  "next_generation store = (if tr_provenance store = TargetsProven then incidentGeneration store + 1 else 1)"

definition fenceNewIncident :: "'e IncidentController \<Rightarrow> ('e, TargetRegistration) ctl" where
  "fenceNewIncident c =
     ebind (currentIncidentBootId c) (\<lambda>bootId.
       if bootId = '''' then done_with (registration False ''kernel boot id is unprovable'')
       else ebind (read_targets c) (\<lambda>store.
         if tr_provenance store = TargetsUnprovable
         then done_with (registration False (''target store is unprovable: '' @ tr_detail store))
         else if tr_provenance store = TargetsProven \<and> incidentGeneration store = generation_max
         then done_with (registration False ''incident generation overflow'')
         else ebind (write_targets c store bootId (next_generation store) []) (\<lambda>written.
           if \<not> tw_durable written then done_with (registration False (tw_detail written))
           else ebind (update (\<lambda>m. m\<lparr>m_incidentGeneration := Some (next_generation store)\<rparr>)) (\<lambda>_.
             done_with (registration True '''')))))"

definition adopt_generation :: "nat \<Rightarrow> ('e, TargetRegistration) ctl" where
  "adopt_generation generation =
     ebind (update (\<lambda>m. m\<lparr>m_incidentGeneration := Some generation\<rparr>)) (\<lambda>_.
       done_with (registration True ''''))"

definition prepareActiveTargetStore :: "'e IncidentController \<Rightarrow> ('e, TargetRegistration) ctl" where
  "prepareActiveTargetStore c =
     ebind (in_files (store_read (stateStore c))) (\<lambda>state.
       if provenance state \<noteq> Proven \<or> incidentSeverityIsUnlocked (read_severity state)
       then done_with (registration False ''active lockstatus is not proven'')
       else ebind (currentIncidentBootId c) (\<lambda>bootId.
         if bootId = '''' then done_with (registration False ''kernel boot id is unprovable'')
         else ebind (read_targets c) (\<lambda>store.
           if tr_provenance store \<noteq> TargetsProven
           then done_with (registration False
             (if tr_provenance store = TargetsAbsent then ''target store is absent during an active incident''
              else ''target store is unprovable: '' @ tr_detail store))
           else ebind (inspect m_incidentGeneration) (\<lambda>known.
             if known \<noteq> None \<and> known \<noteq> Some (incidentGeneration store)
             then done_with (registration False ''target generation differs from current incident'')
             else if tr_bootId store \<noteq> bootId then
               ebind (write_targets c store bootId (incidentGeneration store) []) (\<lambda>rebased.
                 if \<not> tw_durable rebased
                 then done_with (registration False (''previous-boot target rebase failed: '' @ tw_detail rebased))
                 else adopt_generation (incidentGeneration store))
             else adopt_generation (incidentGeneration store)))))"

text \<open>
  Merging a target into the registered ones: \<open>None\<close> is a changed identity; the flag says whether the
  set changed. A discharged target takes over the evidence of the new session.
\<close>

fun merge_target ::
    "IncidentSessionTarget \<Rightarrow> IncidentSessionTarget list \<Rightarrow> (IncidentSessionTarget list \<times> bool) option" where
  "merge_target target [] = Some ([target], True)"
| "merge_target target (item # merged) =
     (if t_uid item = t_uid target then
        (if canonicalName item \<noteq> canonicalName target then None
         else if runtimeObligation item = Discharged
         then Some (item\<lparr>t_sessionId := t_sessionId target,
                sessionStartTimestamp := sessionStartTimestamp target,
                sessionClass := sessionClass target, runtimeObligation := Pending\<rparr> # merged, True)
         else Some (item # merged, False))
      else map_option (\<lambda>(ts, changed). (item # ts, changed)) (merge_target target merged))"

fun merge_targets ::
    "IncidentSessionTarget list \<Rightarrow> IncidentSessionTarget list \<Rightarrow> (IncidentSessionTarget list \<times> bool) option" where
  "merge_targets [] merged = Some (merged, False)"
| "merge_targets (target # targets) merged =
     (case merge_target target merged of
        None \<Rightarrow> None
      | Some (merged', changed) \<Rightarrow>
          map_option (\<lambda>(ts, later). (ts, changed \<or> later)) (merge_targets targets merged'))"

definition registerSessionTargets ::
    "'e IncidentController \<Rightarrow> IncidentSessionTarget list \<Rightarrow> ('e, TargetRegistration) ctl" where
  "registerSessionTargets c newTargets =
     ebind (currentIncidentBootId c) (\<lambda>bootId.
       if bootId = '''' then done_with (registration False ''kernel boot id is unprovable'')
       else ebind (read_targets c) (\<lambda>store.
         ebind (inspect m_incidentGeneration) (\<lambda>known.
           if tr_provenance store \<noteq> TargetsProven \<or> tr_bootId store \<noteq> bootId \<or>
              known \<noteq> Some (incidentGeneration store)
           then done_with (registration False ''current incident target store is unproven'')
           else
             (case merge_targets newTargets (tr_targets store) of
                None \<Rightarrow> done_with (registration False ''target UID identity changed during incident'')
              | Some (merged, changed) \<Rightarrow>
                  if \<not> changed then done_with (registration True '''')
                  else ebind (write_targets c store bootId (incidentGeneration store) merged) (\<lambda>written.
                    done_with (registration (tw_durable written) (tw_detail written)))))))"

section \<open>Containment of sessions\<close>

definition isOrdinaryTarget :: "LoginSession \<Rightarrow> bool" where
  "isOrdinaryTarget session \<longleftrightarrow> s_ordinary session \<and> \<not> s_recovery session \<and> s_uid session \<noteq> 0"

definition target_of_session :: "LoginSession \<Rightarrow> IncidentSessionTarget" where
  "target_of_session session =
     \<lparr> t_uid = s_uid session, canonicalName = s_user session, t_sessionId = s_id session,
       sessionStartTimestamp = startTimestamp session, sessionClass = className session,
       runtimeObligation = Pending \<rparr>"

text \<open>A lock counts only when it was requested and verified.\<close>

definition lock_verified ::
    "'e SessionContainmentBackend \<Rightarrow> LoginSession \<Rightarrow> ('e, bool) ctl" where
  "lock_verified backend session =
     ebind (outside (lockSession backend session)) (\<lambda>lockOutcome.
       if performed lockOutcome
       then ebind (outside (verifySessionLocked backend session)) (\<lambda>(locked, _). done_with locked)
       else done_with False)"

definition must_terminate ::
    "'e SessionContainmentBackend \<Rightarrow> incident_severity \<Rightarrow> LoginSession \<Rightarrow> ('e, bool) ctl" where
  "must_terminate backend severity session =
     ebind (outside (classifySession backend session)) (\<lambda>kind.
       if severity = Standard \<and> kind = Graphical
       then ebind (lock_verified backend session) (\<lambda>locked. done_with (\<not> locked))
       else done_with True)"

text \<open>The loop over the inventory: the new targets and the sessions to terminate.\<close>

fun select_sessions ::
    "'e SessionContainmentBackend \<Rightarrow> incident_severity \<Rightarrow> LoginSession list \<Rightarrow>
     ('e, IncidentSessionTarget list \<times> LoginSession list) ctl" where
  "select_sessions backend severity [] = done_with ([], [])"
| "select_sessions backend severity (session # rest) =
     (if \<not> isOrdinaryTarget session then select_sessions backend severity rest
      else ebind (must_terminate backend severity session) (\<lambda>terminate.
        ebind (select_sessions backend severity rest) (\<lambda>(newTargets, toTerminate).
          done_with (target_of_session session # newTargets,
            if terminate then session # toTerminate else toTerminate))))"

fun terminate_sessions ::
    "'e SessionContainmentBackend \<Rightarrow> LoginSession list \<Rightarrow> ('e, string list) ctl" where
  "terminate_sessions backend [] = done_with []"
| "terminate_sessions backend (session # rest) =
     ebind (outside (terminateSession backend session)) (\<lambda>outcome.
       ebind (terminate_sessions backend rest) (\<lambda>failures.
         done_with (if \<not> performed outcome
           then (''session termination request failed for '' @ s_id session @ '': '' @
                 outcome_diagnostic outcome) # failures
           else failures)))"

text \<open>
  What follows the registration; \<open>usable\<close> says that the targets are registered. The result is
  whether the sessions are contained, and the failures.
\<close>

definition remove_sessions ::
    "'e SessionContainmentBackend \<Rightarrow> SessionInventoryResult \<Rightarrow> bool \<Rightarrow> LoginSession list \<Rightarrow>
     ('e, bool \<times> string list) ctl" where
  "remove_sessions backend inventory usable selected =
     (let toTerminate = (if usable then selected else []) in
      ebind (terminate_sessions backend toTerminate) (\<lambda>failures.
        ebind (if inv_proven inventory \<and> usable then
                 (if toTerminate = [] then done_with (True, '''')
                  else outside (verifySessionsGone backend toTerminate))
               else done_with (False, if inv_proven inventory then '''' else inv_diagnostic inventory))
          (\<lambda>(sessionsGone, goneDiagnostic).
            done_with (sessionsGone, failures @
              (if \<not> sessionsGone then [''session containment could not be proven: '' @ goneDiagnostic]
               else [])))))"

text \<open>The result of the session phase: contained, targets usable, failures.\<close>

definition contain_sessions ::
    "'e IncidentController \<Rightarrow> 'e SessionContainmentBackend \<Rightarrow> incident_severity \<Rightarrow>
     ('e, bool \<times> bool \<times> string list) ctl" where
  "contain_sessions c backend severity =
     ebind (outside (listSessions backend)) (\<lambda>inventory.
       if \<not> inv_proven inventory then
         ebind (remove_sessions backend inventory False []) (\<lambda>(contained, failures).
           done_with (contained, False,
             (''session inventory is unproven: '' @ inv_diagnostic inventory) # failures))
       else
         ebind (select_sessions backend severity (inv_sessions inventory)) (\<lambda>(newTargets, toTerminate).
           ebind (registerSessionTargets c newTargets) (\<lambda>reg.
             ebind (remove_sessions backend inventory (reg_ok reg) toTerminate) (\<lambda>(contained, failures).
               done_with (contained, reg_ok reg,
                 (if \<not> reg_ok reg then [''durable session target registration failed: '' @ reg_detail reg]
                  else []) @ failures)))))"

definition session_phase ::
    "'e IncidentController \<Rightarrow> incident_severity \<Rightarrow> bool \<Rightarrow> ('e, bool \<times> bool \<times> string list) ctl" where
  "session_phase c severity lifecycleOk =
     (if severity \<ge> Standard then
        (case sessions c of
           None \<Rightarrow> done_with (False, False, [''session containment backend is unavailable''])
         | Some backend \<Rightarrow>
             if lifecycleOk then contain_sessions c backend severity
             else done_with (False, False, []))
      else done_with (True, False, []))"

section \<open>Containment of user runtimes\<close>

definition user_of_target :: "LoginUser \<Rightarrow> IncidentSessionTarget \<Rightarrow> LoginUser" where
  "user_of_target user target = user\<lparr>u_uid := t_uid target, u_name := canonicalName target\<rparr>"

text \<open>
  One discharged target: the target, whether it was re-armed, whether its runtime is proven, and the
  failures.
\<close>

definition rearm_target ::
    "'e SessionContainmentBackend \<Rightarrow> IncidentSessionTarget \<Rightarrow>
     ('e, IncidentSessionTarget \<times> bool \<times> bool \<times> string list) ctl" where
  "rearm_target backend target =
     (if runtimeObligation target \<noteq> Discharged then done_with (target, False, True, [])
      else ebind (outside (lookupProvenUser backend (t_uid target) (canonicalName target))) (\<lambda>found.
        case lookup_status found of
          UserUnproven \<Rightarrow> done_with (target, False, False,
            [''discharged user target is unproven for uid '' @ digits_of_nat (t_uid target) @ '': '' @
              lookup_diagnostic found])
        | UserFound \<Rightarrow> done_with (target\<lparr>runtimeObligation := Pending\<rparr>, True, True, [])
        | UserAbsent \<Rightarrow>
            ebind (outside (verifyUserRuntimeGone backend (user_of_target emptyLoginUser target)))
              (\<lambda>(gone, diagnostic).
                done_with (target, False, gone,
                  if gone then []
                  else [''discharged user runtime absence is unproven for uid '' @
                          digits_of_nat (t_uid target) @ '': '' @ diagnostic]))))"

fun rearm_targets ::
    "'e SessionContainmentBackend \<Rightarrow> IncidentSessionTarget list \<Rightarrow>
     ('e, IncidentSessionTarget list \<times> bool \<times> bool \<times> string list) ctl" where
  "rearm_targets backend [] = done_with ([], False, True, [])"
| "rearm_targets backend (target # rest) =
     ebind (rearm_target backend target) (\<lambda>(target', changed, proven, failures).
       ebind (rearm_targets backend rest) (\<lambda>(rest', changed', proven', failures').
         done_with (target' # rest', changed \<or> changed', proven \<and> proven', failures @ failures')))"

text \<open>
  The durable snapshot of the re-armed targets, read back: the store to continue with, whether the
  snapshot is durable, and the failures. The read-back compares every field of every target.
\<close>

definition persist_rearm ::
    "'e IncidentController \<Rightarrow> TargetReadResult \<Rightarrow> IncidentSessionTarget list \<Rightarrow>
     ('e, TargetReadResult \<times> bool \<times> string list) ctl" where
  "persist_rearm c store obligations =
     ebind (write_targets c store (tr_bootId store) (incidentGeneration store) obligations) (\<lambda>written.
       if \<not> tw_durable written then
         done_with (store, False,
           [''re-arming user-runtime obligations could not be made durable: '' @ tw_detail written])
       else ebind (read_targets c) (\<lambda>store'.
         ebind (if tr_provenance store' = TargetsProven
                then ebind (currentIncidentBootId c) (\<lambda>bootId.
                  ebind (inspect m_incidentGeneration) (\<lambda>known.
                    done_with (tr_bootId store' = bootId \<and> known = Some (incidentGeneration store') \<and>
                      tr_targets store' = obligations)))
                else done_with False)
           (\<lambda>rearmDurable.
             done_with (store', rearmDurable,
               if rearmDurable then [] else [''target store changed after durable re-arm'']))))"

text \<open>One pending target: the target, whether it was discharged, whether it is proven, the failures.\<close>

definition discharge_target ::
    "'e SessionContainmentBackend \<Rightarrow> IncidentSessionTarget \<Rightarrow>
     ('e, IncidentSessionTarget \<times> bool \<times> bool \<times> string list) ctl" where
  "discharge_target backend target =
     (if runtimeObligation target = Discharged then done_with (target, False, True, [])
      else ebind (outside (lookupProvenUser backend (t_uid target) (canonicalName target))) (\<lambda>found.
        if lookup_status found = UserUnproven then
          done_with (target, False, False,
            [''registered user target is unproven for uid '' @ digits_of_nat (t_uid target) @ '': '' @
              lookup_diagnostic found])
        else
          let user = user_of_target
            (if lookup_status found = UserFound then lookup_user found else emptyLoginUser) target in
          ebind (outside (terminateUser backend user)) (\<lambda>outcome.
            let failures = (if \<not> performed outcome \<and> lookup_status found = UserFound
              then [''user runtime termination failed for uid '' @ digits_of_nat (t_uid target) @ '': '' @
                      outcome_diagnostic outcome] else []) in
            ebind (outside (verifyUserRuntimeGone backend user)) (\<lambda>(gone, diagnostic).
              if gone then done_with (target\<lparr>runtimeObligation := Discharged\<rparr>, True, True, failures)
              else done_with (target, False, False, failures @
                [''user runtime containment could not be proven for uid '' @ digits_of_nat (t_uid target) @
                  '': '' @ diagnostic])))))"

fun discharge_targets ::
    "'e SessionContainmentBackend \<Rightarrow> IncidentSessionTarget list \<Rightarrow>
     ('e, IncidentSessionTarget list \<times> bool \<times> bool \<times> string list) ctl" where
  "discharge_targets backend [] = done_with ([], False, True, [])"
| "discharge_targets backend (target # rest) =
     ebind (discharge_target backend target) (\<lambda>(target', changed, proven, failures).
       ebind (discharge_targets backend rest) (\<lambda>(rest', changed', proven', failures').
         done_with (target' # rest', changed \<or> changed', proven \<and> proven', failures @ failures')))"

text \<open>Discharging the obligations and writing them back; the result is whether all is proven.\<close>

definition discharge_phase ::
    "'e IncidentController \<Rightarrow> 'e SessionContainmentBackend \<Rightarrow> TargetReadResult \<Rightarrow>
     IncidentSessionTarget list \<Rightarrow> ('e, bool \<times> string list) ctl" where
  "discharge_phase c backend store obligations =
     ebind (discharge_targets backend obligations) (\<lambda>(obligations', changed, proven, failures).
       if \<not> changed then done_with (proven, failures)
       else ebind (currentIncidentBootId c) (\<lambda>bootId.
         ebind (write_targets c store bootId (incidentGeneration store) obligations') (\<lambda>persisted.
           if tw_durable persisted then done_with (proven, failures)
           else done_with (False, failures @
             [''discharging user-runtime obligations could not be made durable: '' @ tw_detail persisted]))))"

definition contain_users ::
    "'e IncidentController \<Rightarrow> 'e SessionContainmentBackend \<Rightarrow> TargetReadResult \<Rightarrow> ('e, bool \<times> string list) ctl" where
  "contain_users c backend store =
     ebind (rearm_targets backend (tr_targets store)) (\<lambda>(obligations, rearmChanged, proven, failures).
       ebind (if rearmChanged then persist_rearm c store obligations else done_with (store, True, []))
         (\<lambda>(store', rearmDurable, rearmFailures).
           if \<not> rearmDurable then done_with (False, failures @ rearmFailures)
           else ebind (discharge_phase c backend store' obligations) (\<lambda>(proven', failures').
             done_with (proven \<and> proven', failures @ rearmFailures @ failures'))))"

text \<open>Whether the store that was read again belongs to this incident, and the failures otherwise.\<close>

definition store_usable ::
    "'e IncidentController \<Rightarrow> TargetReadResult \<Rightarrow> ('e, bool \<times> string list) ctl" where
  "store_usable c store =
     (case tr_provenance store of
        TargetsProven \<Rightarrow>
          ebind (currentIncidentBootId c) (\<lambda>bootId.
            ebind (inspect m_incidentGeneration) (\<lambda>known.
              if bootId \<noteq> '''' \<and> tr_bootId store = bootId \<and> known = Some (incidentGeneration store)
              then done_with (True, [])
              else done_with (False, [''incident target store changed during containment''])))
      | TargetsAbsent \<Rightarrow> done_with (False,
          [''incident session target store is absent while the incident is unresolved''])
      | TargetsUnprovable \<Rightarrow> done_with (False,
          [''incident session target store is unprovable: '' @ tr_detail store]))"

definition isolate_users ::
    "'e IncidentController \<Rightarrow> 'e SessionContainmentBackend \<Rightarrow> bool \<Rightarrow> ('e, bool \<times> string list) ctl" where
  "isolate_users c backend targetsUsable =
     ebind (read_targets c) (\<lambda>store.
       ebind (store_usable c store) (\<lambda>(usable, failures).
         if \<not> usable \<or> \<not> targetsUsable then
           done_with (False, failures @
             (if \<not> targetsUsable then [''session target registration is unproven''] else []))
         else ebind (contain_users c backend store) (\<lambda>(proven, failures').
           done_with (proven, failures @ failures'))))"

definition user_phase ::
    "'e IncidentController \<Rightarrow> incident_severity \<Rightarrow> bool \<Rightarrow> bool \<Rightarrow> ('e, bool \<times> string list) ctl" where
  "user_phase c severity lifecycleOk targetsUsable =
     (if severity = Isolate then
        (case sessions c of
           None \<Rightarrow> done_with (False, [''user runtime containment backend is unavailable''])
         | Some backend \<Rightarrow>
             if lifecycleOk then isolate_users c backend targetsUsable else done_with (False, []))
      else done_with (True, []))"

section \<open>Containment\<close>

definition set_forced :: "bool \<Rightarrow> ('e, unit) ctl" where
  "set_forced b = update (\<lambda>m. m\<lparr>forcedNetworkQuarantine := b\<rparr>)"

definition set_runtime :: "RuntimeState \<Rightarrow> ('e, unit) ctl" where
  "set_runtime r = update (\<lambda>m. m\<lparr>runtime := r\<rparr>)"

definition settleNonActiveMode ::
    "'e IncidentController \<Rightarrow> IncidentResponseMode \<Rightarrow> incident_severity \<Rightarrow> ('e, IncidentResult) ctl" where
  "settleNonActiveMode c mode severity =
     ebind (set_forced False) (\<lambda>_.
       ebind (outside (applyQuarantine c False)) (\<lambda>(removed, error).
         let r = (if removed then Inactive else Degraded);
             result = emptyIncidentResult\<lparr>ir_ok := removed, ir_effectiveSeverity := severity,
               ir_runtime := r,
               ir_detail := (if removed then '''' else ''reversible containment cleanup failed: '' @ error)\<rparr>
         in ebind (update (\<lambda>m. m\<lparr>containment := noContainment, runtime := r, lastMode := Some mode\<rparr>)) (\<lambda>_.
           done_with result)))"

text \<open>The proof of the PAM gate: whether it is active, and the failures.\<close>

definition gate_phase ::
    "'e IncidentController \<Rightarrow> incident_severity \<Rightarrow> ('e, bool \<times> string list) ctl" where
  "gate_phase c severity =
     (if severity \<ge> Standard then
        ebind (case accessGateVerifier c of
                 None \<Rightarrow> done_with (False, '''')
               | Some verifier \<Rightarrow> catching (outside verifier) (False, ''PAM gate verifier failed''))
          (\<lambda>(gate, gateDiagnostic).
            done_with (gate,
              if gate then [] else [''PAM incident access gate is unproven: '' @ gateDiagnostic]))
      else done_with (False, []))"

definition network_phase ::
    "'e IncidentController \<Rightarrow> incident_severity \<Rightarrow> ('e, bool \<times> string list) ctl" where
  "network_phase c severity =
     (if severity = Isolate then
        ebind (set_forced True) (\<lambda>_.
          ebind (outside (applyQuarantine c True)) (\<lambda>(applied, diagnostic).
            done_with (applied, if applied then [] else [''network quarantine failed: '' @ diagnostic])))
      else
        ebind (set_forced False) (\<lambda>_.
          ebind (outside (applyQuarantine c False)) (\<lambda>(restored, diagnostic).
            done_with (False,
              if restored then [] else [''normal firewall restoration failed: '' @ diagnostic]))))"

definition release_containment :: "'e IncidentController \<Rightarrow> incident_severity \<Rightarrow> ('e, IncidentResult) ctl" where
  "release_containment c severity =
     ebind (set_forced False) (\<lambda>_.
       ebind (outside (applyQuarantine c False)) (\<lambda>(networkOk, diagnostic).
         let status = noContainment\<lparr>sessionsContained := True, userRuntimeContained := True\<rparr>;
             r = (if networkOk then Inactive else Degraded);
             result = emptyIncidentResult\<lparr>ir_effectiveSeverity := severity, ir_runtime := r, ir_ok := networkOk,
               ir_detail := (if networkOk then ''incident cleared''
                 else ''incident cleared but network quarantine removal failed: '' @ diagnostic)\<rparr>
         in ebind (update (\<lambda>m. m\<lparr>containment := status, runtime := r\<rparr>)) (\<lambda>_. done_with result)))"

definition joined_detail :: "string \<Rightarrow> string list \<Rightarrow> string" where
  "joined_detail reason failures = reason @ concat (map (\<lambda>f. ''; '' @ f) failures)"

definition containment_complete ::
    "incident_severity \<Rightarrow> ContainmentStatus \<Rightarrow> string list \<Rightarrow> bool" where
  "containment_complete severity status failures \<longleftrightarrow>
     failures = [] \<and>
     (severity < Standard \<or> pamGateActive status \<and> sessionsContained status) \<and>
     (severity \<noteq> Isolate \<or> networkQuarantined status \<and> userRuntimeContained status)"

definition finish_containment ::
    "incident_severity \<Rightarrow> string \<Rightarrow> ContainmentStatus \<Rightarrow> string list \<Rightarrow> ('e, IncidentResult) ctl" where
  "finish_containment severity reason status failures =
     (let complete = containment_complete severity status failures;
          r = (if complete then Active else Degraded);
          result = emptyIncidentResult\<lparr>ir_effectiveSeverity := severity, ir_runtime := r, ir_ok := complete,
            ir_detail := joined_detail reason failures\<rparr>
      in ebind (update (\<lambda>m. m\<lparr>containment := status, runtime := r\<rparr>)) (\<lambda>_. done_with result))"

text \<open>The phases that follow the gate for an active severity.\<close>

definition apply_phases ::
    "'e IncidentController \<Rightarrow> incident_severity \<Rightarrow> string \<Rightarrow> bool \<Rightarrow> bool \<Rightarrow> string list \<Rightarrow>
     ('e, IncidentResult) ctl" where
  "apply_phases c severity reason allowTargetMutation gate gateFailures =
     ebind (network_phase c severity) (\<lambda>(quarantined, networkFailures).
     ebind (if allowTargetMutation then prepareActiveTargetStore c
            else done_with (registration False ''incident lifecycle is unproven'')) (\<lambda>lifecycle.
     ebind (session_phase c severity (reg_ok lifecycle)) (\<lambda>(sessionsOk, targetsUsable, sessionFailures).
     ebind (user_phase c severity (reg_ok lifecycle) targetsUsable) (\<lambda>(usersOk, userFailures).
       finish_containment severity reason
         \<lparr> pamGateActive = gate, sessionsContained = sessionsOk, userRuntimeContained = usersOk,
           networkQuarantined = quarantined \<rparr>
         (gateFailures @ networkFailures @
          (if reg_ok lifecycle then []
           else [''incident target lifecycle is unproven: '' @ reg_detail lifecycle]) @
          sessionFailures @ userFailures)))))"

definition applyContainment ::
    "'e IncidentController \<Rightarrow> incident_severity \<Rightarrow> string \<Rightarrow> bool \<Rightarrow> ('e, IncidentResult) ctl" where
  "applyContainment c severity reason allowTargetMutation =
     ebind (set_runtime Applying) (\<lambda>_.
       ebind (gate_phase c severity) (\<lambda>(gate, gateFailures).
         if incidentSeverityIsUnlocked severity then release_containment c severity
         else apply_phases c severity reason allowTargetMutation gate gateFailures))"

text \<open>Containment or its release, as the response mode asks for.\<close>

definition contain_by_mode ::
    "'e IncidentController \<Rightarrow> IncidentResponseMode \<Rightarrow> incident_severity \<Rightarrow> string \<Rightarrow> bool \<Rightarrow>
     ('e, IncidentResult) ctl" where
  "contain_by_mode c mode severity reason allowTargetMutation =
     (if mode = ModeActive then applyContainment c severity reason allowTargetMutation
      else settleNonActiveMode c mode severity)"

section \<open>The public operations\<close>

definition proven_or_isolate :: "ReadResult \<Rightarrow> incident_severity" where
  "proven_or_isolate read = (if provenance read = Proven then read_severity read else Isolate)"

definition state_broken :: "'e IncidentController \<Rightarrow> ('e, bool) ctl" where
  "state_broken c =
     ebind (in_files (store_read (stateStore c))) (\<lambda>read. done_with (provenance read \<noteq> Proven))"

text \<open>Response mode \<open>OFF\<close>: nothing is written.\<close>

definition raise_ignored ::
    "'e IncidentController \<Rightarrow> IncidentResponseMode \<Rightarrow> ('e, IncidentResult) ctl" where
  "raise_ignored c mode =
     ebind (in_files (store_read (stateStore c))) (\<lambda>current.
       ebind (settleNonActiveMode c mode (proven_or_isolate current)) (\<lambda>ignored.
         done_with (ignored\<lparr>previousSeverity := ir_effectiveSeverity ignored,
           persistentStateBroken := (provenance current \<noteq> Proven), ignoredByMode := True,
           ir_detail := ''incident ignored in OFF mode'', persistenceConfirmed := False\<rparr>)))"

definition raise_unfenced ::
    "'e IncidentController \<Rightarrow> IncidentResponseMode \<Rightarrow> IncidentResult \<Rightarrow> string \<Rightarrow> IncidentSource \<Rightarrow> string \<Rightarrow>
     ('e, IncidentResult) ctl" where
  "raise_unfenced c mode result fenceDetail source reason =
     ebind (in_files (encodeDurableBrokenState (stateStore c))) (\<lambda>broken.
       ebind (contain_by_mode c mode Isolate ''incident generation fencing failed'' False) (\<lambda>contained.
         let result = result\<lparr>ir_ok := False, ir_effectiveSeverity := Isolate, persistenceConfirmed := False,
               persistentStateBroken := True, ir_runtime := Degraded,
               ir_detail := ''new incident generation could not be fenced: '' @ fenceDetail @
                 ''; BROKEN_STATE fallback: '' @ raise_detail broken @ ''; '' @ ir_detail contained\<rparr>
         in ebind (set_runtime Degraded) (\<lambda>_.
            ebind (recordAudit c ''incident_persistence_failed'' result source reason) (\<lambda>_.
            ebind (notifySeverity c Isolate reason) (\<lambda>_. done_with result)))))"

text \<open>A raise that could not be persisted, in mode \<open>PASSIVE\<close> and in mode \<open>ACTIVE\<close>.\<close>

definition raise_not_durable ::
    "'e IncidentController \<Rightarrow> IncidentResponseMode \<Rightarrow> IncidentResult \<Rightarrow> IncidentSource \<Rightarrow> string \<Rightarrow>
     ('e, IncidentResult) ctl" where
  "raise_not_durable c mode result source reason =
     (if mode = ModePassive then
        ebind (settleNonActiveMode c mode Isolate) (\<lambda>passive.
          let passive = passive\<lparr>ir_ok := False, previousSeverity := previousSeverity result,
                ir_escalated := ir_escalated result, persistentStateBroken := True,
                ir_detail := ''incident state could not be persisted in PASSIVE mode''\<rparr>
          in ebind (recordAudit c ''incident_persistence_failed'' passive source reason) (\<lambda>_.
             ebind (notifySeverity c Isolate reason) (\<lambda>_. done_with passive)))
      else
        ebind (applyContainment c Isolate ''incident state could not be persisted; containing at ISOLATE'' False)
          (\<lambda>contained.
            let contained = contained\<lparr>previousSeverity := previousSeverity result,
                  ir_escalated := ir_escalated result, persistentStateBroken := persistentStateBroken result,
                  ir_ok := False, ir_runtime := Degraded, ir_effectiveSeverity := Isolate\<rparr>
            in ebind (set_runtime Degraded) (\<lambda>_.
               ebind (recordAudit c ''incident_persistence_failed'' contained source reason) (\<lambda>_.
               ebind (recordAudit c ''incident_action_failed'' contained source reason) (\<lambda>_.
               ebind (notifySeverity c Isolate reason) (\<lambda>_. done_with contained))))))"

definition notify_escalation :: "'e IncidentController \<Rightarrow> IncidentResult \<Rightarrow> string \<Rightarrow> ('e, unit) ctl" where
  "notify_escalation c result reason =
     (if ir_escalated result then notifySeverity c (ir_effectiveSeverity result) reason else done_with ())"

definition raise_durable ::
    "'e IncidentController \<Rightarrow> IncidentResponseMode \<Rightarrow> IncidentResult \<Rightarrow> RaiseResult \<Rightarrow> IncidentSource \<Rightarrow> string \<Rightarrow>
     ('e, IncidentResult) ctl" where
  "raise_durable c mode result raised source reason =
     (if mode = ModePassive then
        ebind (settleNonActiveMode c mode (ir_effectiveSeverity result)) (\<lambda>passive.
          let result = result\<lparr>ir_ok := (ir_ok result \<and> ir_ok passive), ir_runtime := ir_runtime passive,
                ir_detail := (if ir_detail passive = '''' then raise_detail raised else ir_detail passive)\<rparr>
          in ebind (recordAudit c ''incident_raise'' result source reason) (\<lambda>_.
             ebind (notify_escalation c result reason) (\<lambda>_. done_with result)))
      else
        ebind (update (\<lambda>m. m\<lparr>lastMode := Some ModeActive\<rparr>)) (\<lambda>_.
        ebind (applyContainment c (ir_effectiveSeverity result) reason True) (\<lambda>contained.
          let result = result\<lparr>ir_runtime := ir_runtime contained,
                ir_detail := (if ir_detail contained = '''' then ir_detail result else ir_detail contained),
                ir_ok := (ir_ok result \<and> ir_ok contained)\<rparr>
          in ebind (recordAudit c
                 (if ir_ok contained then ''incident_raise'' else ''incident_action_failed'') result source reason) (\<lambda>_.
             ebind (notify_escalation c result reason) (\<lambda>_. done_with result)))))"

definition raise_recorded ::
    "'e IncidentController \<Rightarrow> IncidentResponseMode \<Rightarrow> IncidentResult \<Rightarrow> incident_severity \<Rightarrow> IncidentSource \<Rightarrow> string \<Rightarrow>
     ('e, IncidentResult) ctl" where
  "raise_recorded c mode result requested source reason =
     ebind (in_files (raiseToAtLeast (stateStore c) requested)) (\<lambda>raised.
       ebind (state_broken c) (\<lambda>broken.
         let result = result\<lparr>ir_ok := durable raised,
               ir_effectiveSeverity := (if durable raised then effectiveSeverity raised else Isolate),
               ir_escalated := escalated raised, persistenceConfirmed := durable raised,
               persistentStateBroken := broken, ir_detail := raise_detail raised\<rparr>
         in if \<not> durable raised then raise_not_durable c mode result source reason
            else raise_durable c mode result raised source reason))"

definition controller_raise ::
    "'e IncidentController \<Rightarrow> incident_severity \<Rightarrow> IncidentSource \<Rightarrow> string \<Rightarrow> ('e, IncidentResult) ctl" where
  "controller_raise c requested source reason =
     ebind (resolve_mode c) (\<lambda>mode.
       if rm_mode mode = ModeOff then raise_ignored c (rm_mode mode)
       else ebind (in_files (store_read (stateStore c))) (\<lambda>before.
         let result = emptyIncidentResult\<lparr>previousSeverity := proven_or_isolate before\<rparr>;
             newIncident = (provenance before = Proven \<and> read_severity before = Unlocked)
         in if newIncident \<and> \<not> incidentSeverityIsUnlocked requested then
              ebind (fenceNewIncident c) (\<lambda>fenced.
                if \<not> reg_ok fenced then raise_unfenced c (rm_mode mode) result (reg_detail fenced) source reason
                else raise_recorded c (rm_mode mode) result requested source reason)
            else raise_recorded c (rm_mode mode) result requested source reason))"

definition administrator :: IncidentSource where
  "administrator =
     \<lparr> source_name = ''administrator'', policyModule = '''', policySubmodule = '''', source_policyName = '''',
       deviceId = '''', source_failureOrigin = '''' \<rparr>"

definition clear_refused ::
    "'e IncidentController \<Rightarrow> IncidentResponseMode \<Rightarrow> IncidentResult \<Rightarrow> ClearResult \<Rightarrow> string \<Rightarrow>
     ('e, IncidentResult) ctl" where
  "clear_refused c mode result cleared actor =
     ebind (contain_by_mode c mode (clear_severity cleared) ''failed administrative clear'' True) (\<lambda>contained.
       ebind (if clear_persistence cleared \<noteq> DurableConfirmed then set_runtime Degraded else done_with ()) (\<lambda>_.
         let result = result\<lparr>
               ir_runtime := (if clear_persistence cleared \<noteq> DurableConfirmed then Degraded else ir_runtime contained),
               ir_detail := ir_detail result @ ''; '' @ ir_detail contained\<rparr>
         in ebind (recordAudit c ''incident_clear'' result administrator (''clear refused for actor '' @ actor)) (\<lambda>_.
            done_with result)))"

text \<open>Removing the targets of the finished incident.\<close>

definition clear_targets :: "'e IncidentController \<Rightarrow> ('e, TargetWriteResult) ctl" where
  "clear_targets c =
     ebind (currentIncidentBootId c) (\<lambda>bootId.
       ebind (read_targets c) (\<lambda>store.
         if bootId = '''' then done_with \<lparr> tw_durable = False, tw_detail = ''kernel boot id is unprovable'' \<rparr>
         else if tr_provenance store = TargetsUnprovable
         then done_with \<lparr> tw_durable = False, tw_detail = ''target store is unprovable: '' @ tr_detail store \<rparr>
         else if tr_provenance store = TargetsProven \<and> incidentGeneration store = generation_max
         then done_with \<lparr> tw_durable = False, tw_detail = ''incident generation overflow'' \<rparr>
         else write_targets c store bootId (next_generation store) []))"

definition notify_cleared :: "'e IncidentController \<Rightarrow> IncidentResult \<Rightarrow> string \<Rightarrow> ('e, unit) ctl" where
  "notify_cleared c result actor =
     (case notifySink c of
        Some sink \<Rightarrow>
          if ir_ok result \<and> previousSeverity result \<noteq> Unlocked
          then catching (outside (sink Unlocked (''incident cleared by '' @ actor))) ()
          else done_with ()
      | None \<Rightarrow> done_with ())"

definition clear_confirmed ::
    "'e IncidentController \<Rightarrow> IncidentResponseMode \<Rightarrow> IncidentResult \<Rightarrow> string \<Rightarrow> ('e, IncidentResult) ctl" where
  "clear_confirmed c mode result actor =
     ebind (clear_targets c) (\<lambda>cleaned.
     ebind (update (\<lambda>m. m\<lparr>m_incidentGeneration := None\<rparr>)) (\<lambda>_.
     ebind (contain_by_mode c mode Unlocked (''incident cleared by '' @ actor) True) (\<lambda>contained.
     ebind (if tw_durable cleaned then done_with () else set_runtime Degraded) (\<lambda>_.
       let result = result\<lparr>
             ir_runtime := (if tw_durable cleaned then ir_runtime contained else Degraded),
             ir_detail := ir_detail result @
               (if tw_durable cleaned then ''''
                else ''; incident session target cleanup failed: '' @ tw_detail cleaned) @
               ''; '' @ ir_detail contained,
             ir_ok := (ir_ok result \<and> ir_ok contained \<and> tw_durable cleaned)\<rparr>
       in ebind (update (\<lambda>m. m\<lparr>lastNotified := None\<rparr>)) (\<lambda>_.
          ebind (recordAudit c ''incident_clear'' result administrator (''cleared by '' @ actor)) (\<lambda>_.
          ebind (notify_cleared c result actor) (\<lambda>_. done_with result)))))))"

definition controller_clear :: "'e IncidentController \<Rightarrow> string \<Rightarrow> ('e, IncidentResult) ctl" where
  "controller_clear c actor =
     ebind (resolve_mode c) (\<lambda>mode.
     ebind (set_runtime Clearing) (\<lambda>_.
     ebind (in_files (store_read (stateStore c))) (\<lambda>before.
     ebind (in_files (clear (stateStore c))) (\<lambda>cleared.
     ebind (state_broken c) (\<lambda>broken.
       let result = emptyIncidentResult\<lparr>previousSeverity := proven_or_isolate before, ir_ok := clear_ok cleared,
             persistenceConfirmed := clear_ok cleared, ir_effectiveSeverity := clear_severity cleared,
             persistentStateBroken := broken, ir_detail := clear_detail cleared\<rparr>
       in if \<not> clear_ok cleared then clear_refused c (rm_mode mode) result cleared actor
          else clear_confirmed c (rm_mode mode) result actor)))))"

definition controller_status :: "'e IncidentController \<Rightarrow> ('e, IncidentStatus) ctl" where
  "controller_status c =
     ebind (in_files (store_read (stateStore c))) (\<lambda>read.
     ebind (resolve_mode c) (\<lambda>mode.
     inspect (\<lambda>m.
       \<lparr> responseMode = mode, status_severity = proven_or_isolate read,
         stateProven = (provenance read = Proven), status_provenance = provenance read,
         status_runtime = runtime m, status_containment = containment m, status_detail = read_detail read \<rparr>)))"

definition reconcile :: "'e IncidentController \<Rightarrow> ('e, IncidentResult) ctl" where
  "reconcile c =
     ebind (in_files (store_read (stateStore c))) (\<lambda>read.
     ebind (resolve_mode c) (\<lambda>mode.
     ebind (contain_by_mode c (rm_mode mode) (proven_or_isolate read) ''startup reconciliation'' True) (\<lambda>contained.
     ebind (if rm_mode mode = ModeActive then update (\<lambda>m. m\<lparr>lastMode := Some ModeActive\<rparr>) else done_with ()) (\<lambda>_.
       let good = (ir_ok contained \<and> (rm_mode mode = ModeOff \<or> provenance read = Proven));
           result = emptyIncidentResult\<lparr>previousSeverity := proven_or_isolate read,
             ir_effectiveSeverity := proven_or_isolate read,
             persistentStateBroken := (provenance read \<noteq> Proven), ir_ok := good,
             ir_runtime := (if good then ir_runtime contained else Degraded), ir_detail := ir_detail contained\<rparr>
       in ebind (if good then done_with () else set_runtime Degraded) (\<lambda>_. done_with result)))))"

text \<open>The decision shared by every change of the firewall (in \<open>FirewallCoordinator.cpp\<close>).\<close>

definition networkQuarantineRequired :: "IncidentResponseModeResult \<Rightarrow> ReadResult \<Rightarrow> bool \<Rightarrow> bool" where
  "networkQuarantineRequired mode state forcedEffectiveIsolate \<longleftrightarrow>
     (\<not> rm_proven mode \<or> rm_mode mode = ModeActive) \<and>
     (forcedEffectiveIsolate \<or> provenance state \<noteq> Proven \<or> read_severity state = Isolate)"

definition productionNetworkQuarantineRequired ::
    "'e IncidentController \<Rightarrow> IncidentResponseModeResult io \<Rightarrow> ('e, bool) ctl" where
  "productionNetworkQuarantineRequired c production =
     ebind (in_files production) (\<lambda>mode.
     ebind (in_files (store_read (stateStore c))) (\<lambda>state.
     inspect (\<lambda>m. networkQuarantineRequired mode state (forcedNetworkQuarantine m))))"

end
