(* ===== verification/IncidentRefinement.thy ===== *)
theory IncidentRefinement
  imports FaultFree
begin

text \<open>
  The confirmed operations of the incident state store refine a specification whose state is one
  severity: the severities that they report are a run of the specification, and the state file
  stands for the last one, now and after a power loss.
\<close>

section \<open>Refinement of a one-word specification\<close>

text \<open>
  The specification's state is the severity itself. A raise takes the maximum or isolates, a clear
  unlocks, gives the old state back or isolates; each reports the state it leaves.
\<close>

datatype store_op = RaiseOp incident_severity | ClearOp

fun spec_outcomes :: "store_op \<Rightarrow> incident_severity \<Rightarrow> incident_severity set" where
  "spec_outcomes (RaiseOp q) s = {max s q, Isolate}"
| "spec_outcomes ClearOp s = {Unlocked, s, Isolate}"

text \<open>A confirmed operation of the store with the severity it reports.\<close>

inductive store_exec :: "state_store \<Rightarrow> store_op \<Rightarrow> incident_severity \<Rightarrow> fsys \<Rightarrow> fsys \<Rightarrow> bool" for st where
  exec_raise: "quiet w \<Longrightarrow> fs w = f \<Longrightarrow> run_state (raiseToAtLeast st q) w = (r, w') \<Longrightarrow> durable r \<Longrightarrow>
    store_exec st (RaiseOp q) (effectiveSeverity r) f (fs w')"
| exec_clear: "quiet w \<Longrightarrow> fs w = f \<Longrightarrow> run_state (clear st) w = (r, w') \<Longrightarrow>
    clear_persistence r = DurableConfirmed \<Longrightarrow> store_exec st ClearOp (clear_severity r) f (fs w')"

fun spec_run :: "incident_severity \<Rightarrow> (store_op \<times> incident_severity) list \<Rightarrow> bool" where
  "spec_run s [] \<longleftrightarrow> True"
| "spec_run s ((op, out) # ops) \<longleftrightarrow> out \<in> spec_outcomes op s \<and> spec_run out ops"

fun store_run :: "state_store \<Rightarrow> fsys \<Rightarrow> (store_op \<times> incident_severity) list \<Rightarrow> fsys \<Rightarrow> bool" where
  "store_run st f [] g \<longleftrightarrow> g = f"
| "store_run st f ((op, out) # ops) g \<longleftrightarrow> (\<exists>h. store_exec st op out f h \<and> store_run st h ops g)"

lemma store_exec_simulates:
  assumes "store_exec st op out f g" "store_at st d f" "stands st d f s"
  shows "store_at st d g \<and> stands st d g out \<and> out \<in> spec_outcomes op s"
  using assms(1)
proof cases
  case (exec_raise w q r w')
  then show ?thesis
    using raise_run[of w st d q r w'] assms(2,3) by (auto simp: raise_post_def keeps_def stands_def)
next
  case (exec_clear w r w')
  then show ?thesis
    using clear_run[of w st d r w'] assms(2,3) by (auto simp: clear_post_def stands_def)
qed

text \<open>
  C6. The confirmed operations of the incident state store refine the specification: from a state
  that stands for one severity, the severities that any sequence of confirmed raises and clears
  reports are a run of the specification, and at the end the state file stands, now and after a
  power loss, for the last one reported.
\<close>

theorem store_refines_spec:
  assumes "store_at st d f" "stands st d f s" "store_run st f ops g"
  shows "spec_run s ops \<and>
         crash_severities st g (store_entry st d) = {last (s # map snd ops)}"
  using assms
proof (induction ops arbitrary: f s)
  case Nil
  then show ?case by (simp add: stands_crash)
next
  case (Cons x ops)
  obtain op out where x: "x = (op, out)" by (cases x)
  with Cons.prems(3) obtain h where h: "store_exec st op out f h" "store_run st h ops g" by auto
  from store_exec_simulates[OF h(1) Cons.prems(1,2)]
  have "store_at st d h" "stands st d h out" "out \<in> spec_outcomes op s" by simp_all
  with Cons.IH[OF _ _ h(2)] show ?case by (simp add: x)
qed


lemma fault_free_exec:
  fixes w :: world
  assumes "sched w = []" "alive w" "store_ready st d (fs w) s"
  shows "\<exists>g. store_exec st (RaiseOp q) (max s q) (fs w) g"
proof -
  have w: "still (ids w) (fs w) w" using assms(1,2) by (simp add: still_def)
  obtain r w' where run: "run_state (raiseToAtLeast st q) w = (r, w')" by (rule prod.exhaust)
  have "wp (raiseToAtLeast st q) (\<lambda>r w'. durable r \<and> effectiveSeverity r = max s q) w"
    by (rule ff_raise[OF w assms(3)]) simp
  from wpD[OF this run] have "durable r" "effectiveSeverity r = max s q" by simp_all
  with exec_raise[OF atD(1)[OF still_at[OF w]] refl run] show ?thesis by auto
qed

theorem store_refines_spec_witness:
  "\<exists>g. store_run sample_store (fs (sample_world (Some (serialize Soft)) [])) [(RaiseOp Hard, Hard)] g \<and>
     spec_run Soft [(RaiseOp Hard, Hard)] \<and> crash_severities sample_store g (5, ''s'') = {Hard}"
proof -
  let ?w = "sample_world (Some (serialize Soft)) []"
  have ready: "sched ?w = []" "alive ?w" by (simp_all add: sample_world_def)
  have "max Soft Hard = Hard" by (simp add: max_def less_eq_incident_severity_def)
  then obtain g where "store_exec sample_store (RaiseOp Hard) Hard (fs ?w) g"
    using fault_free_exec[OF ready sample_store_ready, of Hard] by auto
  then have run: "store_run sample_store (fs ?w) [(RaiseOp Hard, Hard)] g" by simp
  have "current sample_store 5 (fs ?w) = Soft"
    using sample_store_ready[of Soft "[]"]
    by (auto simp: current_def store_ready_def decoded_serialized)
  then have "stands sample_store 5 (fs ?w) Soft"
    by (simp add: stands_def sample_store_entry sample_settled)
  from store_refines_spec[OF sample_store_at this run] run show ?thesis
    by (auto simp: sample_store_entry)
qed

end
