(* ===== verification/TargetStoreProps.thy ===== *)
theory TargetStoreProps
  imports TargetStore IncidentRefinement
begin

text \<open>
  The target store beside the incident state. Reading it changes nothing; replacing it leaves the
  state file what it stands for, now and after a power loss, and leaves in the target file what was
  there or exactly the document that was to be written.
\<close>

section \<open>The place of the target store\<close>

definition targets_name :: string where
  "targets_name = ''incident_session_targets''"

definition targets_entry :: "nat \<Rightarrow> dirent" where
  "targets_entry d = (d, targets_name)"

text \<open>The state file is neither the target file nor one of its temporary files.\<close>

definition apart :: "state_store \<Rightarrow> bool" where
  "apart st \<longleftrightarrow>
     filename (store_path st) \<noteq> targets_name \<and>
     (\<forall>s. filename (store_path st) \<noteq> ''.'' @ targets_name @ ''.tmp.'' @ s)"

lemma apart_entries:
  assumes "apart st"
  shows "store_entry st d \<noteq> targets_entry d" "\<not> is_temp (targets_entry d) (store_entry st d)"
  using assms by (auto simp: apart_def store_entry_def targets_entry_def is_temp_def)

lemma parent_absolute: "is_absolute p \<Longrightarrow> is_absolute (parent_path p)"
proof (cases "dropWhile (\<lambda>c. \<not> is_slash c) (rev p)")
  case Nil
  then show ?thesis if "is_absolute p"
    using that by (auto simp: is_absolute_def dest!: hd_in_set)
next
  case (Cons a list)
  let ?q = "dropWhile is_slash (a # list)"
  assume p: "is_absolute p"
  have "\<exists>ys. rev p = ys @ a # list" using Cons by (metis takeWhile_dropWhile_id)
  moreover have "\<exists>zs. a # list = zs @ ?q" by (metis takeWhile_dropWhile_id)
  ultimately obtain ws where "rev p = ws @ ?q" by (metis append.assoc)
  then have "p = rev ?q @ rev ws" by (metis rev_append rev_rev_ident)
  then have "is_slash (hd (rev ?q))" if "?q \<noteq> []"
    using p that by (simp add: is_absolute_def)
  then show ?thesis
    by (simp add: parent_path_def Cons Let_def is_absolute_def del: dropWhile.simps) (simp add: is_slash_def)
qed

lemma beside_path:
  assumes "store_at st d f"
  shows "is_absolute (targets_path (storeBesideLockStatus st))"
    "dirs f (parent_path (targets_path (storeBesideLockStatus st))) = DirNode d"
    "filename (targets_path (storeBesideLockStatus st)) = targets_name"
proof -
  let ?a = "parent_path (store_path st)"
  have abs: "is_absolute ?a" using parent_absolute assms by (simp add: store_at_def)
  then have a: "?a = ''/'' \<or> ?a \<noteq> '''' \<and> \<not> is_slash (last ?a)"
    using parent_path_form[of "store_path st"] by (auto simp: is_absolute_def)
  have n: "\<forall>c \<in> set ''incident_session_targets''. \<not> is_slash c" by (simp add: is_slash_def)
  show "dirs f (parent_path (targets_path (storeBesideLockStatus st))) = DirNode d"
    using assms parent_path_join[OF n a] by (simp add: storeBesideLockStatus_def store_at_def)
  show "filename (targets_path (storeBesideLockStatus st)) = targets_name"
    using filename_join[OF n] by (simp add: storeBesideLockStatus_def targets_name_def)
  have "path_join ?a ''incident_session_targets'' =
      ?a @ (if is_slash (last ?a) then '''' else ''/'') @ ''incident_session_targets''"
    using abs by (auto simp: path_join_def is_absolute_def is_slash_def)
  then show "is_absolute (targets_path (storeBesideLockStatus st))"
    using abs by (auto simp: storeBesideLockStatus_def is_absolute_def)
qed

section \<open>What a change of a neighbouring file leaves of the state file\<close>

definition undisturbed :: "state_store \<Rightarrow> nat \<Rightarrow> fsys \<Rightarrow> fsys \<Rightarrow> bool" where
  "undisturbed st d f g \<longleftrightarrow>
     keeps st d f g \<and> current st d g = current st d f \<and>
     (settled f (store_entry st d) \<longrightarrow> settled g (store_entry st d))"

lemma undisturbed_refl: "store_at st d f \<Longrightarrow> undisturbed st d f f"
  by (simp add: undisturbed_def keeps_refl)

lemma undisturbed_trans: "undisturbed st d f g \<Longrightarrow> undisturbed st d g h \<Longrightarrow> undisturbed st d f h"
  using keeps_trans by (auto simp: undisturbed_def)

lemma undisturbed_store: "undisturbed st d f g \<Longrightarrow> store_at st d g"
  by (simp add: undisturbed_def keeps_def)

lemma undisturbed_stands: "undisturbed st d f g \<Longrightarrow> stands st d f s \<Longrightarrow> stands st d g s"
  by (simp add: undisturbed_def stands_def)

lemma undisturbed_frame:
  assumes "store_at st d f" "frame f X g" "fs_wf g" "store_entry st d \<notin> X"
  shows "undisturbed st d f g"
proof -
  let ?e = "store_entry st d"
  have wf: "fs_wf f" using assms(1) by (simp add: store_at_def)
  have same: "dirents g ?e = dirents f ?e" "durables g ?e = durables f ?e"
    using frame_entry[OF assms(2,4)] by simp_all
  have st: "store_at st d g" using store_at_frame[OF assms(1-3)] .
  have old: "same_file (inodes g i) (inodes f i)" if "Some i \<in> durables f ?e" for i
    using assms(2) fs_wf_durable[OF wf that] by (simp add: frame_def)
  have cur: "same_file (inodes g i) (inodes f i)" if "dirents f ?e = Some i" for i
    using old fs_wf_current[OF wf, of ?e] that by simp
  have "crash_severities st g ?e = crash_severities st f ?e"
    using persisted_frame[OF wf assms(2)] by (simp add: crash_severities_def same)
  then have "keeps st d f g" using st by (simp add: keeps_def floor_at_def)
  moreover have "current st d g = current st d f"
    using cur decoded_same by (auto simp: current_def same split: option.splits)
  moreover have "settled g ?e" if "settled f ?e"
    using that cur by (auto simp: settled_def same same_file_def)
  ultimately show ?thesis by (simp add: undisturbed_def)
qed

lemma undisturbed_settled:
  assumes "store_at st d f"
  shows "undisturbed st d f (settled_dir d f)"
proof -
  have d: "i_kind (inodes f d) = Dir" using store_dir[OF assms] by (simp add: store_entry_def)
  have "current st d (settled_dir d f) = current st d f"
    by (auto simp: current_def settled_dir_simps[OF d] decoded_def acceptable_file_def split: option.splits)
  moreover have "settled (settled_dir d f) (store_entry st d)" if "settled f (store_entry st d)"
    using that by (auto simp: settled_def settled_dir_simps[OF d] store_entry_def)
  ultimately show ?thesis using keeps_settled[OF assms] by (simp add: undisturbed_def)
qed

section \<open>What the target file records\<close>

definition target_data :: "nat \<Rightarrow> fsys \<Rightarrow> string option" where
  "target_data d f = map_option (\<lambda>i. i_data (inodes f i)) (dirents f (targets_entry d))"

definition recorded ::
    "json_parse \<Rightarrow> nat \<Rightarrow> fsys \<Rightarrow> (string \<times> nat \<times> IncidentSessionTarget list) option" where
  "recorded parse d f = Option.bind (target_data d f) (parse_targets parse)"

definition recorded_uids :: "json_parse \<Rightarrow> nat \<Rightarrow> fsys \<Rightarrow> nat set" where
  "recorded_uids parse d f = (case recorded parse d f of None \<Rightarrow> {} | Some (_, _, ts) \<Rightarrow> t_uid ` set ts)"

lemma target_data_frame:
  assumes "fs_wf f" "frame f X g" "targets_entry d \<notin> X"
  shows "target_data d g = target_data d f"
proof -
  have "same_file (inodes g i) (inodes f i)" if "dirents f (targets_entry d) = Some i" for i
    using assms(2) fs_wf_entry[OF assms(1) that] by (simp add: frame_def)
  then show ?thesis
    using frame_entry[OF assms(2,3)]
    by (cases "dirents f (targets_entry d)") (auto simp: target_data_def same_file_def)
qed

lemma target_data_settled: "store_at st d f \<Longrightarrow> target_data d (settled_dir d f) = target_data d f"
  using store_dir[of st d f]
  by (cases "dirents f (targets_entry d)") (simp_all add: target_data_def store_entry_def settled_dir_simps)

lemma member_unsigned_word:
  assumes "json_words (JObject ms)" "member_unsigned ms k = Some n"
  shows "n < 2 ^ 64"
proof -
  obtain v where v: "omap_find ms k = Some v" "json_get_unsigned v = Some n"
    using assms(2) by (auto simp: member_unsigned_def bind_eq_Some_conv)
  have "v = JUnsigned n" using v(2) by (cases v) (simp_all add: json_get_unsigned_def)
  then show ?thesis using omap_find_SomeD[OF v(1)] assms(1) by force
qed

lemma parse_target_SomeD:
  assumes "parse_target j = Some t" "json_words j"
  shows "validTarget t \<and> target_in_range t"
proof -
  obtain ms where j: "j = JObject ms" using assms(1) by (auto simp: parse_target_def split: json.splits)
  show ?thesis
    using assms(1) member_unsigned_word[of ms "''session_start''"] assms(2) unfolding j parse_target_def
    by (auto simp: validTarget_def target_in_range_def split: if_splits option.splits)
qed

lemma parse_target_list_SomeD:
  "parse_target_list js = Some ts \<Longrightarrow> \<forall>j \<in> set js. json_words j \<Longrightarrow>
     \<forall>t \<in> set ts. validTarget t \<and> target_in_range t"
  by (induction js arbitrary: ts) (auto dest!: parse_target_SomeD split: option.splits)

lemma parse_target_list_length: "parse_target_list js = Some ts \<Longrightarrow> length ts = length js"
  by (induction js arbitrary: ts) (auto split: option.splits)

text \<open>A parsed document passes the validation of a write and holds numbers of the C++ types.\<close>

lemma parse_targets_valid:
  assumes "words_only parse" "parse_targets parse s = Some (b, g, ts)"
  shows "validWrite b g ts \<and> g < 2 ^ 64 \<and> (\<forall>t \<in> set ts. target_in_range t)"
proof -
  obtain j where j: "parse s = Inr j" "parse_document j = Some (b, g, ts)"
    using assms(2) by (auto simp: parse_targets_def split: if_splits sum.splits)
  then obtain ms where ms: "j = JObject ms" by (auto simp: parse_document_def split: json.splits)
  have w: "json_words v" if "omap_find ms k = Some v" for k v
    using omap_find_SomeD[OF that] assms(1) j(1) ms unfolding words_only_def by force
  obtain items where items: "omap_find ms ''targets'' = Some (JArray items)"
    "parse_target_list items = Some ts" "member_unsigned ms ''incident_generation'' = Some g"
    "g \<noteq> 0" "length items \<le> kMaxTargets" "validBootId b" "no_duplicates [] ts"
    using j(2) unfolding ms parse_document_def by (auto split: if_splits option.splits json.splits)
  have "\<forall>t \<in> set ts. validTarget t \<and> target_in_range t"
    using parse_target_list_SomeD[OF items(2)] w[OF items(1)] by simp
  moreover have "g < 2 ^ 64"
    using member_unsigned_word[OF _ items(3)] assms(1) j(1) ms unfolding words_only_def by blast
  ultimately show ?thesis
    using items parse_target_list_length[OF items(2)] by (simp add: validWrite_def all_valid_targets_iff)
qed

lemma wp_targets_read:
  assumes w: "at c f w" and st: "store_at st d f" and ts: "ts = storeBesideLockStatus st"
    and Q: "\<And>r w'. at c f w' \<Longrightarrow>
      (tr_provenance r = TargetsProven \<Longrightarrow>
         recorded parse d f = Some (tr_bootId r, incidentGeneration r, tr_targets r)) \<Longrightarrow>
      (tr_provenance r = TargetsAbsent \<Longrightarrow> target_data d f = None) \<Longrightarrow> Q r w'"
  shows "wp (targets_read parse ts) Q w"
  unfolding targets_read_def wp_simps
proof (rule wp_readSecureFileBounded[OF w], goal_cases)
  case (1 msg w')
  then show ?case
    by (intro Q) (simp_all add: targets_read_result_def unprovable_def emptyTargetRead_def)
next
  case (2 d' w')
  note path = beside_path[OF st, folded ts]
  have "dirents f (targets_entry d) = None"
    using 2(3) locate_absolute[OF path(1,2)] path(3)
    by (simp add: lookup_def targets_entry_def split: option.splits)
  with 2 show ?case
    by (intro Q) (simp_all add: targets_read_result_def missing_state_def emptyTargetRead_def target_data_def)
next
  case (3 d' i w')
  note path = beside_path[OF st, folded ts]
  have "dirents f (targets_entry d) = Some i"
    using 3(4) locate_absolute[OF path(1,2)] path(3)
    by (simp add: proven_at_def lookup_def targets_entry_def split: option.splits)
  then have "target_data d f = Some (i_data (inodes f i))" by (simp add: target_data_def)
  with 3(1) show ?case
    by (intro Q)
       (auto simp: targets_read_result_def proven_state_def emptyTargetRead_def recorded_def
          split: option.splits if_splits)
qed

section \<open>Replacing the target file\<close>

definition targets_written ::
    "json_dump \<Rightarrow> nat \<Rightarrow> string \<Rightarrow> nat \<Rightarrow> IncidentSessionTarget list \<Rightarrow> fsys \<Rightarrow> bool" where
  "targets_written dump d b n ts g \<longleftrightarrow>
     (\<exists>content. serialize_targets dump b n ts = Inr content \<and> length content \<le> kStoreMaxBytes \<and>
        validWrite b n ts \<and> target_data d g = Some content)"

lemma targets_written_recorded:
  assumes "json_roundtrip dump parse" "targets_written dump d b n ts g" "n < 2 ^ 64"
    and "\<forall>t \<in> set ts. target_in_range t"
  shows "recorded parse d g = Some (b, n, ts)"
  using assms(2) targets_read_back[OF assms(1) _ _ assms(3,4)]
  by (auto simp: targets_written_def recorded_def)

lemma published_target:
  assumes "store_at st d f" "apart st" "published f t (targets_entry d) m h" "is_temp (targets_entry d) t"
    and "i_data m = content"
  shows "undisturbed st d f h" "target_data d h = Some content"
proof -
  have "store_entry st d \<notin> {t, targets_entry d}" using apart_entries[OF assms(2), of d] assms(4) by auto
  then show "undisturbed st d f h"
    using assms(1,3) by (auto simp: published_def intro: undisturbed_frame)
  show "target_data d h = Some content"
    using assms(3,5) by (simp add: target_data_def published_def same_file_def)
qed

lemma spared_target_file:
  assumes "store_at st d f" "apart st" "spared f (targets_entry d) g"
  shows "undisturbed st d f g" "target_data d g = target_data d f"
proof -
  obtain X where X: "targets_entry d \<notin> X" "\<forall>e \<in> X. is_temp (targets_entry d) e" "frame f X g" "fs_wf g"
    using assms(3) unfolding spared_def by blast
  have "store_entry st d \<notin> X" using X(2) apart_entries(2)[OF assms(2)] by blast
  then show "undisturbed st d f g" by (rule undisturbed_frame[OF assms(1) X(3,4)])
  show "target_data d g = target_data d f"
    using assms(1) by (intro target_data_frame[OF _ X(3,1)]) (simp add: store_at_def)
qed

text \<open>After the replacement: the old content and no success, or the new content.\<close>

definition write_post ::
    "state_store \<Rightarrow> nat \<Rightarrow> fsys \<Rightarrow> string \<Rightarrow> bool \<Rightarrow> fsys \<Rightarrow> bool" where
  "write_post st d f content ok g \<longleftrightarrow>
     undisturbed st d f g \<and>
     (\<not> ok \<and> target_data d g = target_data d f \<or> target_data d g = Some content)"

lemma wp_finish_write:
  assumes w: "at c g w" and st: "store_at st d f" and ap: "apart st" and ts: "ts = storeBesideLockStatus st"
    and eff: "write_effect c f (targets_path ts) (targets_entry d) opts content r g"
    and Q: "\<And>res h w'. at c h w' \<Longrightarrow> write_post st d f content (tw_durable res) h \<Longrightarrow> Q res w'"
  shows "wp (finish_write (targets_path ts) m1 m2 r) Q w"
proof -
  obtain ok msg res where r: "r = (ok, msg, res)" by (cases r)
  note eff' = eff[unfolded r write_effect_def prod.case]
  show ?thesis
  proof (cases "installed res")
    case False
    then consider "spared f (targets_entry d) g"
      | t m where "is_temp (targets_entry d) t" "new_file c f (targets_path ts) opts content m"
          "published f t (targets_entry d) m g"
      using eff' by blast
    then have "write_post st d f content False g"
      by cases (auto simp: write_post_def new_file_def spared_target_file[OF st ap] published_target[OF st ap])
    then show ?thesis using False Q[OF w] by (simp add: finish_write_def r wp_simps)
  next
    case True
    then obtain t m h where h: "is_temp (targets_entry d) t" "new_file c f (targets_path ts) opts content m"
      "published f t (targets_entry d) m h" "installedTargetState res \<noteq> None" "ok = durabilityConfirmed res"
      "g = (if durabilityConfirmed res then settled_dir d h else h)"
      using eff' by (auto simp: targets_entry_def)
    have new: "undisturbed st d f h" "target_data d h = Some content"
      using published_target[OF st ap h(3,1)] h(2) by (simp_all add: new_file_def)
    note at_h = undisturbed_store[OF new(1)]
    have post: "write_post st d f content b h" "write_post st d f content b (settled_dir d h)" for b
      using new undisturbed_trans[OF new(1) undisturbed_settled[OF at_h]] target_data_settled[OF at_h]
      by (simp_all add: write_post_def)
    show ?thesis
    proof (cases "durabilityConfirmed res")
      case dur: True
      then show ?thesis using True Q[OF w] h(5,6) post by (simp add: finish_write_def r wp_simps)
    next
      case dur: False
      then have wh: "at c h w" using w h(6) by simp
      obtain x where x: "installedTargetState res = Some x" using h(4) by blast
      note path = beside_path[OF at_h, folded ts]
      have "wp (ensureTargetDurableIfCurrentState (targets_path ts) x) (\<lambda>a.
          Q (if fst a then \<lparr> tw_durable = True, tw_detail = '''' \<rparr>
             else \<lparr> tw_durable = False, tw_detail = k a \<rparr>)) w" for k
        by (rule wp_ensureTargetDurableIfCurrentState[OF wh path(1,2)]) (auto intro!: Q post)
      then show ?thesis
        using True dur h(5) by (simp add: finish_write_def r x wp_simps case_prod_beta)
    qed
  qed
qed

lemma conditional_target:
  assumes "store_at st d f" "ts = storeBesideLockStatus st"
  shows "write_target c f (targets_path ts) (conditional_options ts expected) = Inr (targets_path ts)"
    "locate f (targets_path ts) = Inr (targets_entry d)" "passive_callback (conditional_options ts expected)"
proof -
  note path = beside_path[OF assms(1), folded assms(2)]
  show "write_target c f (targets_path ts) (conditional_options ts expected) = Inr (targets_path ts)"
    using path(1) by (auto simp: write_target_def conditional_options_def target_write_options_def
        defaultWriteOptions_def absolute_path_def is_absolute_def)
  show "locate f (targets_path ts) = Inr (targets_entry d)"
    using locate_absolute[OF path(1,2)] path(3) by (simp add: targets_entry_def)
  show "passive_callback (conditional_options ts expected)"
    by (simp add: passive_callback_def conditional_options_def target_write_options_def defaultWriteOptions_def)
qed

text \<open>
  The conditional replacement: it leaves the state file alone, and the target file holds what it held
  or the document of a valid write; a durable result means the latter.
\<close>

definition replaced ::
    "json_dump \<Rightarrow> nat \<Rightarrow> fsys \<Rightarrow> string \<Rightarrow> nat \<Rightarrow> IncidentSessionTarget list \<Rightarrow> exn + TargetWriteResult \<Rightarrow> fsys \<Rightarrow> bool" where
  "replaced dump d f b n ts r g \<longleftrightarrow>
     (\<not> (\<exists>res. r = Inr res \<and> tw_durable res) \<and> target_data d g = target_data d f \<or> targets_written dump d b n ts g)"

lemma wp_writeIfCurrent:
  assumes w: "at c f w" and st: "store_at st d f" and ap: "apart st" and ts: "ts = storeBesideLockStatus st"
    and Q: "\<And>r g w'. at c g w' \<Longrightarrow> undisturbed st d f g \<Longrightarrow> replaced dump d f b n targets r g \<Longrightarrow> Q r w'"
  shows "wp (writeIfCurrent dump ts expected b n targets) Q w"
proof -
  have no: "Q r w" if "\<not> (\<exists>res. r = Inr res \<and> tw_durable res)" for r
    using Q[OF w undisturbed_refl[OF st]] that by (simp add: replaced_def)
  show ?thesis
  proof (cases "serialize_targets dump b n targets")
    case (Inl x)
    then show ?thesis by (simp add: writeIfCurrent_def wp_simps no)
  next
    case (Inr content)
    note target = conditional_target[OF st ts]
    have wf: "fs_wf f" using st by (simp add: store_at_def)
    have "wp (writeWithResult (targets_path ts) content (conditional_options ts expected))
        (\<lambda>r. wp (finish_write (targets_path ts) m1 m2 r) (\<lambda>res. Q (Inr res))) w"
      if "length content \<le> kStoreMaxBytes" "validWrite b n targets" for m1 m2
      by (rule wp_writeWithResult[OF w wf target(3,1,2)], rule wp_finish_write[OF _ st ap ts], assumption,
          assumption, rule Q, assumption)
         (use that Inr in \<open>auto simp: write_post_def replaced_def targets_written_def\<close>)
    then show ?thesis
      using Inr by (auto simp: writeIfCurrent_def wp_simps intro!: no)
  qed
qed

end
