(* ===== verification/ControllerProps.thy ===== *)
theory ControllerProps
  imports IncidentController TargetStoreProps
begin

text \<open>
  The guarantees of the incident controller. One invariant is carried through the phases of an
  operation: the state file stands for what it stood for, and the collaborators were called only in
  the permitted ways, where a session or a user runtime may be terminated only for a user that the
  target store records. The operations of the state store are added at the points where the
  controller calls them.
\<close>

named_theorems ctl_intros \<open>preservation rules of the controller's steps\<close>

section \<open>Reasoning about controller steps\<close>

lemma wp_done [wp_simps]: "wp (done_with a) Q = Q (Inr a)"
  by (simp add: done_with_def wp_return)

lemma wp_ebind:
  "wp (ebind m k) Q s \<longleftrightarrow> wp m (\<lambda>r. case r of Inl x \<Rightarrow> Q (Inl x) | Inr a \<Rightarrow> wp (k a) Q) s"
proof -
  have "wp (case r of Inl x \<Rightarrow> State_Monad.return (Inl x) | Inr a \<Rightarrow> k a) Q =
      (case r of Inl x \<Rightarrow> Q (Inl x) | Inr a \<Rightarrow> wp (k a) Q)" for r
    by (cases r) (simp_all add: wp_return)
  then show ?thesis by (simp add: ebind_def wp_bind)
qed

lemma wp_in_files: "wp (in_files io) Q s \<longleftrightarrow> wp io (\<lambda>a w. Q (Inr a) (s\<lparr>m_world := w\<rparr>)) (m_world s)"
  by (simp add: in_files_def wp_def split: prod.split)

lemma wp_on_files: "wp (on_files io) Q s \<longleftrightarrow> wp io (\<lambda>r w. Q r (s\<lparr>m_world := w\<rparr>)) (m_world s)"
  by (simp add: on_files_def wp_def split: prod.split)

lemma wp_update: "wp (update g) Q s \<longleftrightarrow> Q (Inr ()) (g s)"
  by (simp add: update_def wp_def)

lemma wp_inspect: "wp (inspect g) Q s \<longleftrightarrow> Q (Inr (g s)) s"
  by (simp add: inspect_def wp_def)

text \<open>A computation that keeps an invariant, whether it returns or throws.\<close>

definition pres :: "('e machine \<Rightarrow> bool) \<Rightarrow> ('e, 'a) ctl \<Rightarrow> bool" where
  "pres I m \<longleftrightarrow> (\<forall>s. I s \<longrightarrow> wp m (\<lambda>_. I) s)"

lemma presI: "(\<And>s. I s \<Longrightarrow> wp m (\<lambda>_. I) s) \<Longrightarrow> pres I m"
  by (simp add: pres_def)

lemma presD: "pres I m \<Longrightarrow> I s \<Longrightarrow> wp m (\<lambda>_. I) s"
  by (simp add: pres_def)

lemma pres_done [ctl_intros]: "pres I (done_with a)"
  by (simp add: pres_def wp_simps)

lemma pres_throw [ctl_intros]: "pres I (State_Monad.return (Inl x))"
  by (simp add: pres_def wp_simps)

lemma wp_ebindI:
  assumes "wp m (\<lambda>r s'. I s' \<and> (\<forall>a. r = Inr a \<longrightarrow> P a s')) s"
    and "\<And>x s'. I s' \<Longrightarrow> Q (Inl x) s'" and "\<And>a s'. I s' \<Longrightarrow> P a s' \<Longrightarrow> wp (k a) Q s'"
  shows "wp (ebind m k) Q s"
  unfolding wp_ebind by (rule wp_mono[OF assms(1)]) (auto split: sum.split intro: assms(2,3))

lemma pres_ebind [ctl_intros]:
  assumes "pres I m" "\<And>a. pres I (k a)"
  shows "pres I (ebind m k)"
  unfolding pres_def
proof (intro allI impI)
  fix s assume "I s"
  show "wp (ebind m k) (\<lambda>_. I) s"
    by (rule wp_ebindI[where I = I and P = "\<lambda>_ _. True"])
       (use presD[OF assms(1) \<open>I s\<close>] presD[OF assms(2)] in auto)
qed

lemma pres_catching [ctl_intros]: "pres I m \<Longrightarrow> pres I (catching m a)"
  unfolding pres_def catching_def wp_bind
  by (auto elim!: wp_mono split: sum.split simp: wp_simps)

lemma pres_if [ctl_intros]: "(b \<Longrightarrow> pres I m) \<Longrightarrow> (\<not> b \<Longrightarrow> pres I n) \<Longrightarrow> pres I (if b then m else n)"
  by simp

lemma pres_prod [ctl_intros]: "(\<And>a b. x = (a, b) \<Longrightarrow> pres I (k a b)) \<Longrightarrow> pres I (case x of (a, b) \<Rightarrow> k a b)"
  by (cases x) simp

lemma pres_option [ctl_intros]:
  "(x = None \<Longrightarrow> pres I m) \<Longrightarrow> (\<And>a. x = Some a \<Longrightarrow> pres I (k a)) \<Longrightarrow>
     pres I (case x of None \<Rightarrow> m | Some a \<Rightarrow> k a)"
  by (cases x) simp_all

lemma pres_sum [ctl_intros]:
  "(\<And>a. pres I (g a)) \<Longrightarrow> (\<And>a. pres I (k a)) \<Longrightarrow> pres I (case x of Inl a \<Rightarrow> g a | Inr a \<Rightarrow> k a)"
  by (cases x) simp_all

lemma pres_let [ctl_intros]: "pres I (k x) \<Longrightarrow> pres I (let a = x in k a)"
  by (simp add: Let_def)

lemma pres_inspect [ctl_intros]: "pres I (inspect g)"
  by (simp add: pres_def wp_inspect)

section \<open>Permitted calls\<close>

text \<open>
  One call of a collaborator and its effect on the environment. Sessions are locked and terminated
  only when they are ordinary, and terminated only for a user in the given set; so are user runtimes.
\<close>

inductive collaborator_call :: "'e IncidentController \<Rightarrow> nat set \<Rightarrow> 'e \<Rightarrow> 'e \<Rightarrow> bool" for c U where
  quarantine_call: "collaborator_call c U e (snd (applyQuarantine c b e))"
| gate_call: "accessGateVerifier c = Some v \<Longrightarrow> collaborator_call c U e (snd (v e))"
| boot_call: "collaborator_call c U e (snd (bootIdProvider c e))"
| time_call: "collaborator_call c U e (snd (current_time c e))"
| audit_call: "auditSink c = Some k \<Longrightarrow> collaborator_call c U e (snd (k line e))"
| notify_call: "notifySink c = Some k \<Longrightarrow> collaborator_call c U e (snd (k s reason e))"
| list_call: "sessions c = Some k \<Longrightarrow> collaborator_call c U e (snd (listSessions k e))"
| classify_call: "sessions c = Some k \<Longrightarrow> collaborator_call c U e (snd (classifySession k x e))"
| lock_call: "sessions c = Some k \<Longrightarrow> isOrdinaryTarget x \<Longrightarrow>
    collaborator_call c U e (snd (lockSession k x e))"
| verify_lock_call: "sessions c = Some k \<Longrightarrow> collaborator_call c U e (snd (verifySessionLocked k x e))"
| gone_call: "sessions c = Some k \<Longrightarrow> collaborator_call c U e (snd (verifySessionsGone k xs e))"
| user_gone_call: "sessions c = Some k \<Longrightarrow> collaborator_call c U e (snd (verifyUserRuntimeGone k u e))"
| lookup_call: "sessions c = Some k \<Longrightarrow> collaborator_call c U e (snd (lookupProvenUser k uid name e))"
| terminate_call: "sessions c = Some k \<Longrightarrow> isOrdinaryTarget x \<Longrightarrow> s_uid x \<in> U \<Longrightarrow>
    collaborator_call c U e (snd (terminateSession k x e))"
| terminate_user_call: "sessions c = Some k \<Longrightarrow> u_uid u \<in> U \<Longrightarrow>
    collaborator_call c U e (snd (terminateUser k u e))"

lemma collaborator_call_mono: "collaborator_call c U e e' \<Longrightarrow> U \<subseteq> V \<Longrightarrow> collaborator_call c V e e'"
  by (induction rule: collaborator_call.induct) (auto intro: collaborator_call.intros)

lemma collaborator_calls_mono:
  assumes "(collaborator_call c U)\<^sup>*\<^sup>* e e'" "U \<subseteq> V"
  shows "(collaborator_call c V)\<^sup>*\<^sup>* e e'"
  using assms(1) by (induction) (auto dest: collaborator_call_mono[OF _ assms(2)])

section \<open>The invariant\<close>

text \<open>The stores, the library and the inputs as the controller expects them.\<close>

definition observes :: "'a io \<Rightarrow> bool" where
  "observes io \<longleftrightarrow> (\<forall>w. quiet w \<longrightarrow> wp io (\<lambda>_ w'. at (ids w) (fs w) w') w)"

definition inventory_in_range :: "'e SessionContainmentBackend \<Rightarrow> bool" where
  "inventory_in_range k \<longleftrightarrow> (\<forall>e r e' x. listSessions k e = (Inr r, e') \<longrightarrow> x \<in> set (inv_sessions r) \<longrightarrow>
     target_in_range (target_of_session x))"

definition wired :: "'e IncidentController \<Rightarrow> bool" where
  "wired c \<longleftrightarrow>
     targetStore c = storeBesideLockStatus (stateStore c) \<and> apart (stateStore c) \<and>
     json_roundtrip (lib_dump c) (lib_parse c) \<and> words_only (lib_parse c) \<and>
     (\<forall>r. modeResolver c = Some r \<longrightarrow> observes r) \<and>
     (\<forall>k. sessions c = Some k \<longrightarrow> inventory_in_range k)"

definition uids_at :: "'e IncidentController \<Rightarrow> nat \<Rightarrow> 'e machine \<Rightarrow> nat set" where
  "uids_at c d s = recorded_uids (lib_parse c) d (fs (m_world s))"

definition inv ::
    "'e IncidentController \<Rightarrow> nat \<Rightarrow> fsys \<Rightarrow> 'e \<Rightarrow> nat set \<Rightarrow> 'e machine \<Rightarrow> bool" where
  "inv c d f e U s \<longleftrightarrow>
     quiet (m_world s) \<and> undisturbed (stateStore c) d f (fs (m_world s)) \<and>
     (collaborator_call c U)\<^sup>*\<^sup>* e (m_env s) \<and> U \<subseteq> uids_at c d s"

lemma inv_store: "inv c d f e U s \<Longrightarrow> store_at (stateStore c) d (fs (m_world s))"
  using undisturbed_store by (auto simp: inv_def)

lemma inv_at: "inv c d f e U s \<Longrightarrow> at (ids (m_world s)) (fs (m_world s)) (m_world s)"
  by (simp add: inv_def at_start)

lemma inv_members [simp]:
  "inv c d f e U (s\<lparr>m_incidentGeneration := g\<rparr>) = inv c d f e U s"
  "inv c d f e U (s\<lparr>lastNotified := n\<rparr>) = inv c d f e U s"
  "inv c d f e U (s\<lparr>runtime := r\<rparr>) = inv c d f e U s"
  "inv c d f e U (s\<lparr>containment := k\<rparr>) = inv c d f e U s"
  "inv c d f e U (s\<lparr>lastMode := l\<rparr>) = inv c d f e U s"
  "inv c d f e U (s\<lparr>forcedNetworkQuarantine := b\<rparr>) = inv c d f e U s"
  by (simp_all add: inv_def uids_at_def)

lemma pres_update [ctl_intros]: "(\<And>s. I s \<Longrightarrow> I (g s)) \<Longrightarrow> pres I (update g)"
  by (simp add: pres_def wp_update)

lemma inv_files:
  assumes "inv c d f e U s" "at k (fs (m_world s)) w"
  shows "inv c d f e U (s\<lparr>m_world := w\<rparr>)"
  using assms by (simp add: inv_def at_def uids_at_def)

lemma inv_widen:
  "inv c d f e U s \<Longrightarrow> U \<subseteq> V \<Longrightarrow> V \<subseteq> uids_at c d s \<Longrightarrow> inv c d f e V s"
  using collaborator_calls_mono by (auto simp: inv_def)

lemma inv_narrow: "inv c d f e U s \<Longrightarrow> \<exists>V \<subseteq> uids_at c d s. inv c d f e V s"
  by (auto simp: inv_def)

lemma pres_outside [ctl_intros]:
  assumes "\<And>e. collaborator_call c U e (snd (h e))"
  shows "pres (inv c d f e0 U) (outside h)"
  unfolding pres_def
proof (intro allI impI)
  fix s assume i: "inv c d f e0 U s"
  obtain r e where h: "h (m_env s) = (r, e)" by (rule prod.exhaust)
  then have "collaborator_call c U (m_env s) e" using assms[of "m_env s"] by simp
  then have "inv c d f e0 U (s\<lparr>m_env := e\<rparr>)"
    using i by (auto simp: inv_def uids_at_def intro: rtranclp.rtrancl_into_rtrancl)
  then show "wp (outside h) (\<lambda>_. inv c d f e0 U) s" using i h by (simp add: outside_def wp_def)
qed

section \<open>The returned values\<close>

definition gives :: "('e, 'a) ctl \<Rightarrow> ('a \<Rightarrow> bool) \<Rightarrow> bool" where
  "gives m P \<longleftrightarrow> (\<forall>s. wp m (\<lambda>r _. \<forall>a. r = Inr a \<longrightarrow> P a) s)"

named_theorems give_intros \<open>rules for the values a computation returns\<close>

lemma gives_done [give_intros]: "P a \<Longrightarrow> gives (done_with a) P"
  by (simp add: gives_def wp_simps)

lemma gives_ebind:
  assumes "gives m P" "\<And>a. P a \<Longrightarrow> gives (k a) R"
  shows "gives (ebind m k) R"
  unfolding gives_def
proof
  fix s
  show "wp (ebind m k) (\<lambda>r _. \<forall>a. r = Inr a \<longrightarrow> R a) s"
    by (rule wp_ebindI[where I = "\<lambda>_. True" and P = "\<lambda>a _. P a"]) (use assms in \<open>auto simp: gives_def\<close>)
qed

lemma gives_any: "gives m (\<lambda>_. True)"
  by (simp add: gives_def wp_def split: prod.split)

lemma gives_then [give_intros]: "(\<And>a. gives (k a) R) \<Longrightarrow> gives (ebind m k) R"
  by (rule gives_ebind[OF gives_any])

lemma gives_if [give_intros]: "(b \<Longrightarrow> gives m P) \<Longrightarrow> (\<not> b \<Longrightarrow> gives n P) \<Longrightarrow> gives (if b then m else n) P"
  by simp

lemma gives_prod [give_intros]:
  "(\<And>a b. x = (a, b) \<Longrightarrow> gives (k a b) P) \<Longrightarrow> gives (case x of (a, b) \<Rightarrow> k a b) P"
  by (cases x) simp

lemma gives_let [give_intros]: "gives (k x) P \<Longrightarrow> gives (let a = x in k a) P"
  by (simp add: Let_def)

lemma gives_wp:
  assumes "gives m P" "wp m (\<lambda>_. I) s"
  shows "wp m (\<lambda>r s'. I s' \<and> (\<forall>a. r = Inr a \<longrightarrow> P a)) s"
  using assms(1)[unfolded gives_def, rule_format, of s] assms(2) by (simp add: wp_def split: prod.splits)

text \<open>Running a step and continuing with what it kept and what it returned.\<close>

lemma wp_step:
  assumes "I s" "pres I m" "gives m P"
    and "\<And>x s'. I s' \<Longrightarrow> Q (Inl x) s'" and "\<And>a s'. I s' \<Longrightarrow> P a \<Longrightarrow> wp (k a) Q s'"
  shows "wp (ebind m k) Q s"
  by (rule wp_ebindI[OF gives_wp[OF assms(3) presD[OF assms(2,1)]]]) (use assms(4,5) in auto)

lemma wp_step':
  assumes "I s" "pres I m" "\<And>x s'. I s' \<Longrightarrow> Q (Inl x) s'" and "\<And>a s'. I s' \<Longrightarrow> wp (k a) Q s'"
  shows "wp (ebind m k) Q s"
  by (rule wp_step[OF assms(1,2) gives_any]) (use assms(3,4) in auto)

section \<open>Steps that keep the invariant\<close>

lemma pres_store_read [ctl_intros]:
  "st = stateStore c \<Longrightarrow> pres (inv c d f e U) (in_files (store_read st))"
proof (rule presI)
  fix s assume "st = stateStore c" and i: "inv c d f e U s"
  then show "wp (in_files (store_read st)) (\<lambda>_. inv c d f e U) s"
    unfolding wp_in_files by (auto intro!: wp_store_read[OF inv_at[OF i] inv_store[OF i]] inv_files[OF i])
qed

lemma pres_resolve_mode [ctl_intros]:
  assumes "wired c"
  shows "pres (inv c d f e U) (resolve_mode c)"
proof -
  have "pres (inv c d f e U) (on_files r)" if "modeResolver c = Some r" for r
  proof (rule presI)
    fix s assume i: "inv c d f e U s"
    then have "wp r (\<lambda>_ w'. at (ids (m_world s)) (fs (m_world s)) w') (m_world s)"
      using assms that by (simp add: wired_def observes_def inv_def)
    then show "wp (on_files r) (\<lambda>_. inv c d f e U) s"
      unfolding wp_on_files by (rule wp_mono) (rule inv_files[OF i])
  qed
  then show ?thesis
    unfolding resolve_mode_def by (intro ctl_intros)
qed

lemma pres_boot_id [ctl_intros]: "pres (inv c d f e U) (currentIncidentBootId c)"
  unfolding currentIncidentBootId_def by (intro ctl_intros collaborator_call.intros)

lemma pres_audit [ctl_intros]: "pres (inv c d f e U) (recordAudit c event result source reason)"
  unfolding recordAudit_def by (intro ctl_intros collaborator_call.intros)

lemma pres_notify [ctl_intros]: "pres (inv c d f e U) (notifySeverity c severity reason)"
  unfolding notifySeverity_def announce_severity_def
  by (intro ctl_intros collaborator_call.intros) simp_all

lemma pres_set [ctl_intros]:
  "pres (inv c d f e U) (set_forced b)" "pres (inv c d f e U) (set_runtime r)"
  unfolding set_forced_def set_runtime_def by (intro ctl_intros, simp)+

lemma pres_settle [ctl_intros]: "pres (inv c d f e U) (settleNonActiveMode c mode severity)"
  unfolding settleNonActiveMode_def
  by (intro ctl_intros collaborator_call.intros) simp_all

lemma pres_gate [ctl_intros]: "pres (inv c d f e U) (gate_phase c severity)"
  unfolding gate_phase_def by (intro ctl_intros collaborator_call.intros)

lemma pres_network [ctl_intros]: "pres (inv c d f e U) (network_phase c severity)"
  unfolding network_phase_def by (intro ctl_intros collaborator_call.intros)

lemma pres_release [ctl_intros]: "pres (inv c d f e U) (release_containment c severity)"
  unfolding release_containment_def by (intro ctl_intros collaborator_call.intros) simp_all

lemma pres_finish [ctl_intros]: "pres (inv c d f e U) (finish_containment severity reason status failures)"
  unfolding finish_containment_def by (intro ctl_intros) simp_all

lemma pres_broken [ctl_intros]: "pres (inv c d f e U) (state_broken c)"
  unfolding state_broken_def by (intro ctl_intros) simp_all

section \<open>The target store under the controller\<close>

definition registered ::
    "'e IncidentController \<Rightarrow> nat \<Rightarrow> TargetReadResult \<Rightarrow> 'e machine \<Rightarrow> bool" where
  "registered c d store s \<longleftrightarrow>
     uids_at c d s = t_uid ` set (tr_targets store) \<and> incidentGeneration store < 2 ^ 64 \<and>
     (\<forall>t \<in> set (tr_targets store). target_in_range t)"

lemma wp_read_targets:
  assumes c: "wired c" and i: "inv c d f e U s"
  shows "wp (read_targets c)
     (\<lambda>r s'. inv c d f e U s' \<and> (\<forall>store. r = Inr store \<longrightarrow>
        uids_at c d s' = uids_at c d s \<and>
        (tr_provenance store = TargetsProven \<longrightarrow> registered c d store s'))) s"
proof -
  have ts: "targetStore c = storeBesideLockStatus (stateStore c)" and words: "words_only (lib_parse c)"
    using c by (simp_all add: wired_def)
  have known: "registered c d store s'"
    if "recorded (lib_parse c) d (fs (m_world s')) = Some (tr_bootId store, incidentGeneration store, tr_targets store)"
    for store s'
    using parse_targets_valid[OF words] that
    by (auto simp: registered_def uids_at_def recorded_uids_def recorded_def split: option.splits bind_splits)
  show ?thesis
    unfolding read_targets_def wp_in_files
    by (rule wp_targets_read[OF inv_at[OF i] inv_store[OF i] ts, where parse = "lib_parse c"])
       (auto intro!: inv_files[OF i] known simp: uids_at_def at_def)
qed

lemma pres_read_targets [ctl_intros]: "wired c \<Longrightarrow> pres (inv c d f e U) (read_targets c)"
  by (rule presI, rule wp_mono[OF wp_read_targets]) auto

text \<open>
  A write keeps the invariant when the users it names include those the calls were made for; when it
  reports success the file names exactly its users.
\<close>

lemma wp_write_targets:
  assumes c: "wired c" and i: "inv c d f e U s"
    and ok: "U = {} \<or> n < 2 ^ 64 \<and> (\<forall>t \<in> set targets. target_in_range t) \<and> U \<subseteq> t_uid ` set targets"
  shows "wp (write_targets c expected b n targets)
     (\<lambda>r s'. inv c d f e U s' \<and> (\<forall>res. r = Inr res \<longrightarrow> tw_durable res \<longrightarrow>
        n < 2 ^ 64 \<and> (\<forall>t \<in> set targets. target_in_range t) \<longrightarrow> uids_at c d s' = t_uid ` set targets)) s"
proof -
  have ts: "targetStore c = storeBesideLockStatus (stateStore c)" and ap: "apart (stateStore c)"
    and rt: "json_roundtrip (lib_dump c) (lib_parse c)"
    using c by (simp_all add: wired_def)
  let ?f = "fs (m_world s)"
  have new: "recorded_uids (lib_parse c) d g = t_uid ` set targets"
    if "targets_written (lib_dump c) d b n targets g" "n < 2 ^ 64" "\<forall>t \<in> set targets. target_in_range t" for g
    using targets_written_recorded[OF rt that] by (simp add: recorded_uids_def)
  have old: "recorded_uids (lib_parse c) d g = recorded_uids (lib_parse c) d ?f"
    if "target_data d g = target_data d ?f" for g
    using that by (simp add: recorded_uids_def recorded_def)
  have users: "U \<subseteq> recorded_uids (lib_parse c) d g"
    if "replaced (lib_dump c) d ?f b n targets r g" for r g
    using that ok i new[of g] old[of g] by (auto simp: replaced_def inv_def uids_at_def)
  have "inv c d f e U (s\<lparr>m_world := w\<rparr>)"
    if "at k g w" "undisturbed (stateStore c) d ?f g" "replaced (lib_dump c) d ?f b n targets r g" for k g w r
    using that users[OF that(3)] i undisturbed_trans
    by (auto simp: inv_def uids_at_def at_def)
  then show ?thesis
    unfolding write_targets_def wp_on_files
    by (intro wp_writeIfCurrent[OF inv_at[OF i] inv_store[OF i] ap ts])
       (auto simp: replaced_def uids_at_def at_def new)
qed

lemma pres_write_targets:
  assumes "wired c" "U = {} \<or> n < 2 ^ 64 \<and> (\<forall>t \<in> set targets. target_in_range t) \<and> U \<subseteq> t_uid ` set targets"
  shows "pres (inv c d f e U) (write_targets c expected b n targets)"
  by (rule presI, rule wp_mono[OF wp_write_targets[OF assms(1) _ assms(2)]]) auto

lemma pres_fence [ctl_intros]: "wired c \<Longrightarrow> pres (inv c d f e {}) (fenceNewIncident c)"
  unfolding fenceNewIncident_def by (intro ctl_intros pres_write_targets) simp_all

lemma pres_prepare [ctl_intros]: "wired c \<Longrightarrow> pres (inv c d f e {}) (prepareActiveTargetStore c)"
  unfolding prepareActiveTargetStore_def adopt_generation_def
  by (intro ctl_intros pres_write_targets) simp_all

lemma pres_clear_targets [ctl_intros]: "wired c \<Longrightarrow> pres (inv c d f e {}) (clear_targets c)"
  unfolding clear_targets_def by (intro ctl_intros pres_write_targets) simp_all

section \<open>Registration\<close>

lemma merge_target_users:
  "merge_target t ts = Some (us, changed) \<Longrightarrow>
     t_uid ` set us = insert (t_uid t) (t_uid ` set ts) \<and> (changed \<or> us = ts)"
proof (induction ts arbitrary: us changed)
  case (Cons item ts)
  show ?case
  proof (cases "t_uid item = t_uid t")
    case True
    then show ?thesis using Cons.prems by (auto split: if_splits)
  next
    case False
    then obtain vs where "merge_target t ts = Some (vs, changed)" "us = item # vs"
      using Cons.prems by (auto split: if_splits)
    then show ?thesis using Cons.IH by auto
  qed
qed simp

lemma merge_target_range:
  "merge_target t ts = Some (us, changed) \<Longrightarrow> target_in_range t \<Longrightarrow> \<forall>x \<in> set ts. target_in_range x \<Longrightarrow>
     \<forall>x \<in> set us. target_in_range x"
proof (induction ts arbitrary: us changed)
  case (Cons item ts)
  show ?case
  proof (cases "t_uid item = t_uid t")
    case True
    then show ?thesis using Cons.prems by (auto simp: target_in_range_def split: if_splits)
  next
    case False
    then obtain vs where "merge_target t ts = Some (vs, changed)" "us = item # vs"
      using Cons.prems by (auto split: if_splits)
    then show ?thesis using Cons.IH[of vs] Cons.prems(2,3) by simp
  qed
qed simp

lemma merge_targets_Cons:
  assumes "merge_targets (t # new) ts = Some (us, changed)"
  obtains vs ch ch' where "merge_target t ts = Some (vs, ch)" "merge_targets new vs = Some (us, ch')"
    "changed = (ch \<or> ch')"
proof (cases "merge_target t ts")
  case (Some p)
  then show ?thesis using assms that by (cases p) auto
qed (use assms in simp)

lemma merge_targets_users:
  "merge_targets new ts = Some (us, changed) \<Longrightarrow>
     t_uid ` set us = t_uid ` set new \<union> t_uid ` set ts \<and> (changed \<or> us = ts)"
proof (induction new arbitrary: ts us changed)
  case (Cons t new)
  from Cons.prems obtain vs ch ch' where v: "merge_target t ts = Some (vs, ch)"
    "merge_targets new vs = Some (us, ch')" "changed = (ch \<or> ch')"
    by (rule merge_targets_Cons)
  have "t_uid ` set us = t_uid ` set new \<union> insert (t_uid t) (t_uid ` set ts)"
    using Cons.IH[OF v(2)] merge_target_users[OF v(1)] by metis
  then show ?case using v(3) merge_target_users[OF v(1)] Cons.IH[OF v(2)] by simp blast
qed simp

lemma merge_targets_range:
  "merge_targets new ts = Some (us, changed) \<Longrightarrow> \<forall>x \<in> set new. target_in_range x \<Longrightarrow>
     \<forall>x \<in> set ts. target_in_range x \<Longrightarrow> \<forall>x \<in> set us. target_in_range x"
proof (induction new arbitrary: ts us changed)
  case (Cons t new)
  from Cons.prems(1) obtain vs ch ch' where v: "merge_target t ts = Some (vs, ch)"
    "merge_targets new vs = Some (us, ch')" "changed = (ch \<or> ch')"
    by (rule merge_targets_Cons)
  have "\<forall>x \<in> set vs. target_in_range x"
    using merge_target_range[OF v(1)] Cons.prems(2,3) by simp
  then show ?case using Cons.IH[OF v(2)] Cons.prems(2) by simp
qed simp

text \<open>After a registration that reports success the file names every user of the new targets.\<close>

definition registered_users ::
    "'e IncidentController \<Rightarrow> nat \<Rightarrow> fsys \<Rightarrow> 'e \<Rightarrow> nat set \<Rightarrow> exn + TargetRegistration \<Rightarrow> 'e machine \<Rightarrow> bool" where
  "registered_users c d f e V r s \<longleftrightarrow>
     inv c d f e {} s \<and> (\<forall>reg. r = Inr reg \<longrightarrow> reg_ok reg \<longrightarrow> V \<subseteq> uids_at c d s)"

lemma registered_users_no: "inv c d f e {} s \<Longrightarrow> registered_users c d f e V (Inl x) s"
  "inv c d f e {} s \<Longrightarrow> registered_users c d f e V (Inr (registration False m)) s"
  by (simp_all add: registered_users_def registration_def)

lemma wp_merge_write:
  assumes c: "wired c" and i: "inv c d f e {} s" and new: "\<forall>t \<in> set newTargets. target_in_range t"
    and store: "registered c d store s" and m: "merge_targets newTargets (tr_targets store) = Some (merged, changed)"
  shows "wp (if \<not> changed then done_with (registration True '''')
             else ebind (write_targets c store bootId (incidentGeneration store) merged) (\<lambda>written.
               done_with (registration (tw_durable written) (tw_detail written))))
           (registered_users c d f e (t_uid ` set newTargets)) s"
proof (cases changed)
  case True
  have range: "\<forall>t \<in> set merged. target_in_range t"
    using merge_targets_range[OF m new] store by (simp add: registered_def)
  have "t_uid ` set newTargets \<subseteq> t_uid ` set merged" using merge_targets_users[OF m] by simp
  then have "wp (ebind (write_targets c store bootId (incidentGeneration store) merged) (\<lambda>written.
      done_with (registration (tw_durable written) (tw_detail written))))
      (registered_users c d f e (t_uid ` set newTargets)) s"
    using range store
    by (intro wp_ebindI[OF wp_write_targets[OF c i]])
       (auto simp: registered_users_def registration_def registered_def wp_simps)
  then show ?thesis using True by simp
next
  case False
  then have "t_uid ` set newTargets \<subseteq> t_uid ` set (tr_targets store)"
    using merge_targets_users[OF m] by (metis Un_upper1)
  then show ?thesis
    using False i store by (simp add: wp_simps registered_users_def registration_def registered_def)
qed

lemma wp_register:
  assumes c: "wired c" and i: "inv c d f e {} s" and new: "\<forall>t \<in> set newTargets. target_in_range t"
  shows "wp (registerSessionTargets c newTargets) (registered_users c d f e (t_uid ` set newTargets)) s"
  unfolding registerSessionTargets_def
proof (rule wp_step'[OF i pres_boot_id], goal_cases)
  case (1 x s1)
  then show ?case by (rule registered_users_no)
next
  case (2 bootId s1)
  show ?case
  proof (cases "bootId = ''''")
    case True
    then show ?thesis using registered_users_no(2)[OF 2] by (simp add: wp_simps)
  next
    case False
    show ?thesis
      unfolding if_not_P[OF False]
    proof (rule wp_ebindI[OF wp_read_targets[OF c 2]], goal_cases)
      case (1 x s2)
      then show ?case by (rule registered_users_no)
    next
      case (2 store s2)
      then show ?case
        using registered_users_no(2)[OF 2(1)] wp_merge_write[OF c 2(1) new, of store]
        by (simp add: wp_ebind[of "inspect _"] wp_inspect wp_simps split: option.split)
    qed
  qed
qed

section \<open>The containment phases\<close>

definition pairs_covered :: "IncidentSessionTarget list \<times> LoginSession list \<Rightarrow> bool" where
  "pairs_covered p \<longleftrightarrow>
     (\<forall>t \<in> set (fst p). target_in_range t) \<and>
     (\<forall>x \<in> set (snd p). isOrdinaryTarget x \<and> s_uid x \<in> t_uid ` set (fst p))"

lemma gives_select:
  assumes "\<forall>x \<in> set xs. target_in_range (target_of_session x)"
  shows "gives (select_sessions k severity xs) pairs_covered"
  using assms
proof (induction xs)
  case Nil
  show ?case by (simp add: pairs_covered_def give_intros)
next
  case (Cons x xs)
  have "gives (done_with (target_of_session x # a, if b then x # y else y)) pairs_covered"
    if "isOrdinaryTarget x" "pairs_covered (a, y)" for a b y
    using that Cons.prems by (intro gives_done) (auto simp: pairs_covered_def target_of_session_def)
  moreover have "gives (select_sessions k severity xs) pairs_covered" using Cons by simp
  ultimately have "gives (ebind (must_terminate k severity x) (\<lambda>b. ebind (select_sessions k severity xs)
      (\<lambda>(a, y). done_with (target_of_session x # a, if b then x # y else y)))) pairs_covered"
    if "isOrdinaryTarget x"
    using that by - (rule gives_then, rule gives_ebind[where P = pairs_covered], assumption, intro gives_prod, blast)
  then show ?case using Cons by simp
qed

lemma pres_must_terminate [ctl_intros]:
  "sessions c = Some k \<Longrightarrow> isOrdinaryTarget x \<Longrightarrow> pres (inv c d f e U) (must_terminate k severity x)"
  unfolding must_terminate_def lock_verified_def by (intro ctl_intros collaborator_call.intros)

lemma pres_select [ctl_intros]:
  "sessions c = Some k \<Longrightarrow> pres (inv c d f e U) (select_sessions k severity xs)"
  by (induction xs) (auto intro!: ctl_intros)

lemma pres_terminate [ctl_intros]:
  "sessions c = Some k \<Longrightarrow> \<forall>x \<in> set xs. isOrdinaryTarget x \<and> s_uid x \<in> U \<Longrightarrow>
     pres (inv c d f e U) (terminate_sessions k xs)"
  by (induction xs) (auto intro!: ctl_intros collaborator_call.intros)

lemma pres_remove [ctl_intros]:
  "sessions c = Some k \<Longrightarrow> usable \<longrightarrow> (\<forall>x \<in> set xs. isOrdinaryTarget x \<and> s_uid x \<in> U) \<Longrightarrow>
     pres (inv c d f e U) (remove_sessions k inventory usable xs)"
  unfolding remove_sessions_def by (intro ctl_intros collaborator_call.intros) auto

text \<open>What holds once a phase may have terminated sessions: the users of the calls are recorded.\<close>

definition final :: "'e IncidentController \<Rightarrow> nat \<Rightarrow> fsys \<Rightarrow> 'e \<Rightarrow> 'e machine \<Rightarrow> bool" where
  "final c d f e s \<longleftrightarrow> (\<exists>U. inv c d f e U s)"

lemma final_inv: "inv c d f e U s \<Longrightarrow> final c d f e s"
  by (auto simp: final_def)

lemma pres_final: "(\<And>U. pres (inv c d f e U) m) \<Longrightarrow> pres (final c d f e) m"
  unfolding pres_def final_def by (blast intro: wp_mono)

lemma wp_final: "pres (inv c d f e U) m \<Longrightarrow> inv c d f e U s \<Longrightarrow> wp m (\<lambda>_. final c d f e) s"
  by (rule wp_mono[OF presD final_inv])

lemma wp_contain_sessions:
  assumes c: "wired c" and k: "sessions c = Some k" and i: "inv c d f e {} s"
  shows "wp (contain_sessions c k severity) (\<lambda>_. final c d f e) s"
  unfolding contain_sessions_def
proof (rule wp_step[where I = "inv c d f e {}" and
    P = "\<lambda>r. \<forall>x \<in> set (inv_sessions r). target_in_range (target_of_session x)", OF i], goal_cases)
  case 1
  show ?case using k by (intro ctl_intros collaborator_call.intros)
next
  case 2
  show ?case
    using c k by (auto simp: gives_def wp_def outside_def wired_def inventory_in_range_def split: prod.splits)
next
  case (4 inventory s1)
  have unproven: "wp (ebind (remove_sessions k inventory False []) h) (\<lambda>_. final c d f e) s1"
    if "\<And>a. pres (inv c d f e {}) (h a)" for h
    using presD[OF pres_ebind[OF pres_remove[OF k] that] 4(1)]
    by (rule wp_mono) (simp_all add: final_inv)
  have removed: "wp (ebind (remove_sessions k inventory (reg_ok reg) (snd p)) h) (\<lambda>_. final c d f e) s2"
    if "pairs_covered p" "registered_users c d f e (t_uid ` set (fst p)) (Inr reg) s2"
      "\<And>U a. pres (inv c d f e U) (h a)" for p reg h s2
  proof -
    let ?U = "if reg_ok reg then t_uid ` set (fst p) else {}"
    have "inv c d f e ?U s2"
      using that(2) inv_widen[of c d f e "{}" s2 ?U] by (auto simp: registered_users_def)
    moreover have "pres (inv c d f e ?U) (ebind (remove_sessions k inventory (reg_ok reg) (snd p)) h)"
      using that(1,3) k by (intro ctl_intros) (auto simp: pairs_covered_def)
    ultimately show ?thesis by (intro wp_mono[OF presD final_inv])
  qed
  have proven: "wp (ebind (select_sessions k severity (inv_sessions inventory)) (\<lambda>p.
      ebind (registerSessionTargets c (fst p)) (\<lambda>reg.
        ebind (remove_sessions k inventory (reg_ok reg) (snd p)) (h reg)))) (\<lambda>_. final c d f e) s1"
    if "\<And>U reg a. pres (inv c d f e U) (h reg a)" for h
    by (rule wp_step[OF 4(1) pres_select[OF k] gives_select[OF 4(2)]], erule final_inv,
        rule wp_ebindI[where I = "inv c d f e {}"], rule wp_mono[OF wp_register[OF c]], assumption)
       (auto simp: pairs_covered_def registered_users_def final_inv intro!: removed that)
  show ?case
    unfolding case_prod_unfold by (cases "inv_proven inventory") (simp_all only: if_True if_False simp_thms,
      (rule proven unproven, intro ctl_intros)+)
qed (auto simp: final_inv)

lemma pres_session_phase:
  assumes "wired c" "inv c d f e {} s"
  shows "wp (session_phase c severity lifecycleOk) (\<lambda>_. final c d f e) s"
  using assms wp_contain_sessions final_inv
  by (auto simp: session_phase_def wp_simps split: option.split)

text \<open>Re-arming and discharging change the obligations of the targets and not their users.\<close>

definition same_users :: "IncidentSessionTarget list \<Rightarrow> IncidentSessionTarget list \<times> 'r \<Rightarrow> bool" where
  "same_users ts r \<longleftrightarrow> map t_uid (fst r) = map t_uid ts \<and> (\<forall>t \<in> set (fst r). target_in_range t)"

definition same_user :: "IncidentSessionTarget \<Rightarrow> IncidentSessionTarget \<times> 'r \<Rightarrow> bool" where
  "same_user t r \<longleftrightarrow> t_uid (fst r) = t_uid t \<and> target_in_range (fst r)"

lemma same_users_set: "same_users ts (us, r) \<Longrightarrow> t_uid ` set us = t_uid ` set ts"
  unfolding same_users_def by (metis fst_conv set_map)

lemma gives_rearm_target: "target_in_range t \<Longrightarrow> gives (rearm_target k t) (same_user t)"
  unfolding rearm_target_def
  by (intro give_intros, auto simp: same_user_def target_in_range_def split: LookupStatus.split intro!: give_intros)

lemma gives_rearm:
  "\<forall>t \<in> set ts. target_in_range t \<Longrightarrow> gives (rearm_targets k ts) (same_users ts)"
proof (induction ts)
  case (Cons t ts)
  then have ih: "gives (rearm_targets k ts) (same_users ts)" and t: "target_in_range t" by simp_all
  show ?case
    unfolding rearm_targets.simps
    by (rule gives_ebind[OF gives_rearm_target[OF t]], intro gives_prod, rule gives_ebind[OF ih],
        intro give_intros) (simp add: same_users_def same_user_def)
qed (simp add: same_users_def give_intros)

lemma gives_discharge_target: "target_in_range t \<Longrightarrow> gives (discharge_target k t) (same_user t)"
  unfolding discharge_target_def
  by (intro give_intros) (auto simp: same_user_def target_in_range_def)

lemma gives_discharge:
  "\<forall>t \<in> set ts. target_in_range t \<Longrightarrow> gives (discharge_targets k ts) (same_users ts)"
proof (induction ts)
  case (Cons t ts)
  then have ih: "gives (discharge_targets k ts) (same_users ts)" and t: "target_in_range t" by simp_all
  show ?case
    unfolding discharge_targets.simps
    by (rule gives_ebind[OF gives_discharge_target[OF t]], intro gives_prod, rule gives_ebind[OF ih],
        intro give_intros) (simp add: same_users_def same_user_def)
qed (simp add: same_users_def give_intros)

lemma pres_rearm [ctl_intros]:
  assumes "sessions c = Some k"
  shows "pres (inv c d f e U) (rearm_targets k ts)"
proof (induction ts)
  case (Cons t ts)
  have "pres (inv c d f e U) (rearm_target k t)"
    unfolding rearm_target_def
    by (intro ctl_intros collaborator_call.intros assms)
       (auto split: LookupStatus.split intro!: ctl_intros collaborator_call.intros assms)
  then show ?case using Cons unfolding rearm_targets.simps by (intro ctl_intros)
qed (simp add: ctl_intros)

lemma pres_discharge [ctl_intros]:
  assumes "sessions c = Some k"
  shows "t_uid ` set ts \<subseteq> U \<Longrightarrow> pres (inv c d f e U) (discharge_targets k ts)"
proof (induction ts)
  case (Cons t ts)
  have "pres (inv c d f e U) (discharge_target k t)"
    unfolding discharge_target_def
    using Cons.prems
    by (intro ctl_intros collaborator_call.intros assms) (auto simp: user_of_target_def)
  then show ?case using Cons unfolding discharge_targets.simps by (intro ctl_intros) simp_all
qed (simp add: ctl_intros)

lemma wp_discharge_phase:
  assumes c: "wired c" "sessions c = Some k" and i: "inv c d f e U s"
    and ts: "\<forall>t \<in> set ts. target_in_range t" "t_uid ` set ts = U" and n: "incidentGeneration store < 2 ^ 64"
  shows "wp (discharge_phase c k store ts) (\<lambda>_. inv c d f e U) s"
  unfolding discharge_phase_def
proof (rule wp_step[OF i pres_discharge[OF c(2)] gives_discharge[OF ts(1)]], goal_cases)
  case (3 r s')
  obtain us changed proven failures where r: "r = (us, changed, proven, failures)" by (cases r)
  have "U \<subseteq> t_uid ` set us" "\<forall>t \<in> set us. target_in_range t"
    using 3(2) ts(2) same_users_set[of ts us] r by (auto simp: same_users_def)
  then have "pres (inv c d f e U) (if \<not> changed then done_with (proven, failures)
       else ebind (currentIncidentBootId c) (\<lambda>bootId.
         ebind (write_targets c store bootId (incidentGeneration store) us) (\<lambda>persisted.
           if tw_durable persisted then done_with (proven, failures) else done_with (False, h persisted))))" for h
    using c n by (intro ctl_intros pres_write_targets) simp_all
  then show ?case using r 3(1) by (simp add: presD)
qed (simp_all add: ts)

lemma wp_persist_rearm:
  assumes c: "wired c" and i: "inv c d f e U s"
    and ts: "\<forall>t \<in> set ts. target_in_range t" "t_uid ` set ts = U" and n: "incidentGeneration store < 2 ^ 64"
  shows "wp (persist_rearm c store ts) (\<lambda>r s'. inv c d f e U s' \<and>
      (\<forall>a. r = Inr a \<longrightarrow> fst (snd a) \<longrightarrow> incidentGeneration (fst a) < 2 ^ 64)) s" (is "wp _ ?Q s")
  unfolding persist_rearm_def
proof (rule wp_step'[OF i pres_write_targets[OF c]], goal_cases)
  case (3 written s1)
  show ?case
  proof (cases "tw_durable written")
    case True
    have reread: "wp (ebind (read_targets c) (\<lambda>store'. ebind (if tr_provenance store' = TargetsProven then h store'
        else done_with False) (\<lambda>b. done_with (store', b, g b)))) ?Q s1"
      if "\<And>a. pres (inv c d f e U) (h a)" for h g
      by (rule wp_ebindI[OF wp_read_targets[OF c 3]], simp)
         (auto simp: wp_simps registered_def wp_ebind[of "done_with _"]
           intro: wp_step'[where I = "inv c d f e U", OF _ that])
    show ?thesis using True by (simp only: simp_thms if_False) (rule reread, intro ctl_intros)
  qed (use 3 in \<open>simp add: wp_simps\<close>)
qed (use ts n in simp_all)

lemma wp_contain_users:
  assumes c: "wired c" "sessions c = Some k" and i: "inv c d f e (t_uid ` set (tr_targets store)) s"
    and n: "incidentGeneration store < 2 ^ 64" and range: "\<forall>t \<in> set (tr_targets store). target_in_range t"
  shows "wp (contain_users c k store) (\<lambda>_. inv c d f e (t_uid ` set (tr_targets store))) s"
    (is "wp _ (\<lambda>_. ?I) s")
  unfolding contain_users_def
proof (rule wp_step[where I = ?I, OF i pres_rearm[OF c(2)] gives_rearm[OF range]], goal_cases)
  case (2 r s1)
  obtain ts changed proven failures where r: "r = (ts, changed, proven, failures)" by (cases r)
  have ts: "\<forall>t \<in> set ts. target_in_range t" "t_uid ` set ts = t_uid ` set (tr_targets store)"
    using 2(2) same_users_set r by (auto simp: same_users_def)
  have first: "wp (if changed then persist_rearm c store ts else done_with (store, True, []))
      (\<lambda>r s'. ?I s' \<and> (\<forall>a. r = Inr a \<longrightarrow> fst (snd a) \<longrightarrow> incidentGeneration (fst a) < 2 ^ 64)) s1"
    using wp_persist_rearm[OF c(1) 2(1) ts n] 2(1) n by (simp add: wp_simps)
  have second: "wp (ebind (discharge_phase c k store' ts) h) (\<lambda>_. ?I) s'"
    if "?I s'" "incidentGeneration store' < 2 ^ 64" "\<And>a. pres ?I (h a)" for store' h s'
    by (rule wp_ebindI[where I = ?I and P = "\<lambda>_ _. True"], rule wp_mono,
        rule wp_discharge_phase[OF c that(1) ts that(2)]) (use that(3) in \<open>auto simp: presD\<close>)
  show ?case
    unfolding r prod.case
    by (rule wp_ebindI[OF first]) (auto simp: wp_simps intro!: ctl_intros second)
qed simp

lemma gives_usable: "gives (store_usable c store) (\<lambda>p. fst p \<longrightarrow> tr_provenance store = TargetsProven)"
  unfolding store_usable_def by (cases "tr_provenance store") (simp_all add: give_intros)

lemma pres_usable [ctl_intros]: "pres (inv c d f e U) (store_usable c store)"
  unfolding store_usable_def by (cases "tr_provenance store") (auto intro!: ctl_intros)

lemma wp_isolate_users:
  assumes c: "wired c" "sessions c = Some k" and i: "inv c d f e U s"
  shows "wp (isolate_users c k targetsUsable) (\<lambda>_. final c d f e) s"
  unfolding isolate_users_def
proof (rule wp_ebindI[OF wp_read_targets[OF c(1) i]], goal_cases)
  case (2 store s1)
  let ?V = "t_uid ` set (tr_targets store)"
  have widened: "inv c d f e ?V s1" if "registered c d store s1"
    using that 2(1) by (intro inv_widen[OF 2(1)]) (auto simp: registered_def inv_def)
  have users: "wp (ebind (contain_users c k store) h) (\<lambda>_. final c d f e) s2"
    if "registered c d store s1" "inv c d f e ?V s2" "\<And>a. pres (inv c d f e ?V) (h a)" for h s2
    by (rule wp_ebindI[where I = "inv c d f e ?V" and P = "\<lambda>_ _. True"], rule wp_mono, rule wp_contain_users[OF c that(2)])
       (use that(1) in \<open>auto simp: registered_def final_inv intro: wp_final[OF that(3)]\<close>)
  show ?case
  proof (cases "tr_provenance store = TargetsProven")
    case True
    then have reg: "registered c d store s1" using 2(2) by simp
    show ?thesis
    proof (rule wp_step'[OF widened[OF reg] pres_usable], goal_cases)
      case (2 r s2)
      then show ?case
        unfolding case_prod_unfold
        by (cases "\<not> fst r \<or> \<not> targetsUsable")
           (simp add: wp_simps final_inv, simp only: if_False, rule users[OF reg], assumption, intro ctl_intros)
    qed (rule final_inv)
  next
    case False
    show ?thesis
      by (rule wp_step[OF 2(1) pres_usable gives_usable], erule final_inv)
         (use False in \<open>auto simp: wp_simps final_inv split: prod.split\<close>)
  qed
qed (simp add: final_inv)

lemma pres_user_phase: "wired c \<Longrightarrow> pres (final c d f e) (user_phase c severity lifecycleOk targetsUsable)"
proof (rule presI)
  fix s assume c: "wired c" and "final c d f e s"
  then obtain U where i: "inv c d f e U s" by (auto simp: final_def)
  then show "wp (user_phase c severity lifecycleOk targetsUsable) (\<lambda>_. final c d f e) s"
    using wp_isolate_users[OF c _ i] final_inv[OF i]
    by (simp add: user_phase_def wp_simps split: option.split)
qed

lemma final_ctl:
  "pres (final c d f e) (finish_containment severity reason status failures)"
  "pres (final c d f e) (recordAudit c event result source why)"
  "pres (final c d f e) (notifySeverity c severity why)"
  "pres (final c d f e) (set_runtime r)"
  by (rule pres_final, intro ctl_intros)+

lemma wp_apply_phases:
  assumes c: "wired c" and i: "inv c d f e {} s"
  shows "wp (apply_phases c severity reason allow gate failures) (\<lambda>_. final c d f e) s"
proof -
  have tail: "wp (ebind (session_phase c severity b) (\<lambda>(x, usable, y). ebind (user_phase c severity b usable)
      (\<lambda>(x', y'). finish_containment severity reason (g x x') (h y y')))) (\<lambda>_. final c d f e) s2"
    if "inv c d f e {} s2" for b g h s2
    by (rule wp_ebindI[where I = "final c d f e" and P = "\<lambda>_ _. True"], rule wp_mono,
        rule pres_session_phase[OF c that], simp, assumption, rule presD[where I = "final c d f e"])
       (intro pres_prod pres_ebind pres_user_phase[OF c] final_ctl, assumption)
  show ?thesis
    unfolding apply_phases_def
    by (rule wp_step'[OF i pres_network], erule final_inv, unfold case_prod_unfold,
        rule wp_step'[where I = "inv c d f e {}"], assumption, intro ctl_intros c, erule final_inv)
       (rule tail[unfolded case_prod_unfold])
qed

lemma wp_applyContainment:
  assumes c: "wired c" and i: "inv c d f e {} s"
  shows "wp (applyContainment c severity reason allow) (\<lambda>_. final c d f e) s"
  unfolding applyContainment_def case_prod_unfold
  by (rule wp_step'[OF i pres_set(2)], erule final_inv, rule wp_step'[OF _ pres_gate], assumption, erule final_inv)
     (simp add: wp_apply_phases[OF c] wp_final[OF pres_release])

lemma wp_contain_by_mode:
  assumes "wired c" "inv c d f e {} s"
  shows "wp (contain_by_mode c mode severity reason allow) (\<lambda>_. final c d f e) s"
  using assms by (simp add: contain_by_mode_def wp_applyContainment wp_final[OF pres_settle])

end
