(* ===== verification/ControllerContract.thy ===== *)
theory ControllerContract
  imports ControllerProps
begin

text \<open>
  The contract of the operations of the incident controller: what \<open>raise\<close>, \<open>clear\<close> and \<open>reconcile\<close>
  leave on disk, what their results say about it, and whom they may have logged out.
\<close>

section \<open>Raising\<close>

definition unconfirmed :: "IncidentResult \<Rightarrow> bool" where
  "unconfirmed r \<longleftrightarrow> \<not> persistenceConfirmed r \<and> \<not> ignoredByMode r"

lemma gives_settle:
  "gives (settleNonActiveMode c mode severity) (\<lambda>r. unconfirmed r \<and> ir_effectiveSeverity r = severity)"
  unfolding settleNonActiveMode_def
  by (intro give_intros) (simp add: emptyIncidentResult_def unconfirmed_def)

lemma gives_apply: "gives (applyContainment c severity reason allow) unconfirmed"
  unfolding applyContainment_def apply_phases_def release_containment_def finish_containment_def
  by (intro give_intros) (simp_all add: emptyIncidentResult_def unconfirmed_def)

definition failed_closed :: "IncidentResult \<Rightarrow> bool" where
  "failed_closed r \<longleftrightarrow>
     \<not> persistenceConfirmed r \<and> \<not> ignoredByMode r \<and> \<not> ir_ok r \<and> ir_effectiveSeverity r = Isolate"

lemma gives_not_durable: "gives (raise_not_durable c mode result source reason) failed_closed"
  unfolding raise_not_durable_def
  by (intro gives_if gives_ebind[OF gives_settle] gives_ebind[OF gives_apply])
     (intro give_intros; simp add: failed_closed_def unconfirmed_def)+

lemma gives_unfenced:
  "\<not> ignoredByMode result \<Longrightarrow> gives (raise_unfenced c mode result m source reason) failed_closed"
  unfolding raise_unfenced_def by (intro give_intros) (simp add: failed_closed_def)

definition carries :: "IncidentResult \<Rightarrow> IncidentResult \<Rightarrow> bool" where
  "carries result r \<longleftrightarrow>
     persistenceConfirmed r = persistenceConfirmed result \<and> ignoredByMode r = ignoredByMode result \<and>
     ir_effectiveSeverity r = ir_effectiveSeverity result"

lemma gives_durable: "gives (raise_durable c mode result raised source reason) (carries result)"
  unfolding raise_durable_def by (intro give_intros) (simp_all add: carries_def)

lemma wp_final_tail:
  assumes "wp m (\<lambda>_. final c d f e) s" "\<And>a. pres (final c d f e) (k a)"
  shows "wp (ebind m k) (\<lambda>_. final c d f e) s"
  by (rule wp_ebindI[where I = "final c d f e" and P = "\<lambda>_ _. True"], rule wp_mono[OF assms(1)])
     (auto intro: presD[OF assms(2)])

lemma wp_ifI: "(b \<Longrightarrow> wp m Q s) \<Longrightarrow> (\<not> b \<Longrightarrow> wp n Q s) \<Longrightarrow> wp (if b then m else n) Q s"
  by simp

lemma pres_escalation: "pres (final c d f e) (notify_escalation c result reason)"
  unfolding notify_escalation_def by (intro ctl_intros final_ctl)

lemma wp_not_durable:
  assumes "wired c" "inv c d f e {} s"
  shows "wp (raise_not_durable c mode result source reason) (\<lambda>_. final c d f e) s"
  unfolding raise_not_durable_def
  by (intro wp_ifI wp_final_tail wp_final[OF pres_settle assms(2)] wp_applyContainment assms ctl_intros final_ctl)

lemma wp_durable:
  assumes "wired c" "inv c d f e {} s"
  shows "wp (raise_durable c mode result raised source reason) (\<lambda>_. final c d f e) s"
proof -
  have active: "wp (ebind (update (\<lambda>m. m\<lparr>lastMode := Some ModeActive\<rparr>)) k) (\<lambda>_. final c d f e) s"
    if "\<And>s. inv c d f e {} s \<Longrightarrow> wp (k ()) (\<lambda>_. final c d f e) s" for k
    using assms that by (simp add: wp_ebind wp_update)
  show ?thesis
    unfolding raise_durable_def
    by (intro wp_ifI wp_final_tail[OF wp_final[OF pres_settle assms(2)]] ctl_intros final_ctl pres_escalation)
       (rule active, rule wp_final_tail[OF wp_applyContainment[OF assms(1)]], assumption, 
        intro ctl_intros final_ctl pres_escalation)
qed

text \<open>
  The contract of a raise: the incident is never lowered; a confirmed severity stands on disk; every
  other answer is either the refusal of mode \<open>OFF\<close>, which leaves the file alone, or a failure that
  reports \<open>ISOLATE\<close>.
\<close>

definition raise_result ::
    "state_store \<Rightarrow> nat \<Rightarrow> incident_severity \<Rightarrow> fsys \<Rightarrow> exn + IncidentResult \<Rightarrow> fsys \<Rightarrow> bool" where
  "raise_result st d q f r g \<longleftrightarrow>
     keeps st d f g \<and>
     (\<forall>res. r = Inr res \<longrightarrow>
        (if persistenceConfirmed res then
           ir_effectiveSeverity res \<in> {max (current st d f) q, Isolate} \<and>
           (settled f (store_entry st d) \<longrightarrow> stands st d g (ir_effectiveSeverity res))
         else if ignoredByMode res then undisturbed st d f g
         else \<not> ir_ok res \<and> ir_effectiveSeverity res = Isolate))"

definition raise_done ::
    "'e IncidentController \<Rightarrow> nat \<Rightarrow> incident_severity \<Rightarrow> fsys \<Rightarrow> 'e \<Rightarrow> exn + IncidentResult \<Rightarrow> 'e machine \<Rightarrow> bool" where
  "raise_done c d q f e r s \<longleftrightarrow>
     raise_result (stateStore c) d q f r (fs (m_world s)) \<and> (\<exists>h. final c d h e s)"

lemma raise_done_exn:
  assumes "inv c d f e U s"
  shows "raise_done c d q f e (Inl x) s"
proof -
  have "keeps (stateStore c) d f (fs (m_world s))" using assms by (simp add: inv_def undisturbed_def)
  then show ?thesis using final_inv[OF assms] by (auto simp: raise_done_def raise_result_def)
qed

lemma final_undisturbed: "final c d f e s \<Longrightarrow> undisturbed (stateStore c) d f (fs (m_world s))"
  by (auto simp: final_def inv_def)

lemma raise_done_closed:
  assumes "keeps (stateStore c) d f h" "final c d h e s" "\<forall>a. r = Inr a \<longrightarrow> failed_closed a"
  shows "raise_done c d q f e r s"
proof -
  have "keeps (stateStore c) d f (fs (m_world s))"
    using keeps_trans[OF assms(1)] final_undisturbed[OF assms(2)] by (simp add: undisturbed_def)
  then show ?thesis using assms(2,3) by (auto simp: raise_done_def raise_result_def failed_closed_def)
qed

lemma raise_done_confirmed:
  assumes "undisturbed (stateStore c) d f g" "raise_post (stateStore c) d q g raised h" "durable raised"
    "final c d h e s"
    "\<forall>a. r = Inr a \<longrightarrow> persistenceConfirmed a \<and> ir_effectiveSeverity a = effectiveSeverity raised"
  shows "raise_done c d q f e r s"
proof -
  note ends = final_undisturbed[OF assms(4)]
  have "keeps (stateStore c) d f (fs (m_world s))"
    using assms(1,2) ends keeps_trans by (metis raise_post_def undisturbed_def)
  moreover have "stands (stateStore c) d (fs (m_world s)) (effectiveSeverity raised)"
    if "settled f (store_entry (stateStore c) d)"
    using assms(1-3) that by (intro undisturbed_stands[OF ends]) (simp add: raise_post_def undisturbed_def)
  moreover have "effectiveSeverity raised \<in> {max (current (stateStore c) d f) q, Isolate}"
    using assms(1,2) by (auto simp: raise_post_def undisturbed_def)
  ultimately show ?thesis using assms(4,5) by (auto simp: raise_done_def raise_result_def)
qed

lemma inv_rebase:
  assumes "inv c d f e {} s" "at k g w" "store_at (stateStore c) d g"
  shows "inv c d g e {} (s\<lparr>m_world := w\<rparr>)"
  using assms by (simp add: inv_def at_def uids_at_def undisturbed_refl)

lemma wp_raise_finish:
  assumes c: "wired c" and g: "undisturbed (stateStore c) d f g"
    and post: "raise_post (stateStore c) d q g raised h" and s: "inv c d h e {} s"
    and res: "durable raised \<Longrightarrow> persistenceConfirmed result \<and> ir_effectiveSeverity result = effectiveSeverity raised"
  shows "wp (if \<not> durable raised then raise_not_durable c mode result source reason
             else raise_durable c mode result raised source reason) (raise_done c d q f e) s"
proof (rule wp_ifI)
  have h: "keeps (stateStore c) d f h"
    using g post keeps_trans by (metis raise_post_def undisturbed_def)
  show "wp (raise_not_durable c mode result source reason) (raise_done c d q f e) s"
    by (rule wp_mono[OF gives_wp[OF gives_not_durable wp_not_durable[OF c s]]])
       (rule raise_done_closed[OF h], simp_all)
next
  assume "\<not> \<not> durable raised"
  then have d: "durable raised" by simp
  show "wp (raise_durable c mode result raised source reason) (raise_done c d q f e) s"
    by (rule wp_mono[OF gives_wp[OF gives_durable wp_durable[OF c s]]])
       (rule raise_done_confirmed[OF g post d], use res[OF d] in \<open>simp_all add: carries_def\<close>)
qed

lemma wp_raise_recorded:
  assumes c: "wired c" and i: "inv c d f e {} s"
  shows "wp (raise_recorded c mode result q source reason) (raise_done c d q f e) s"
proof -
  let ?st = "stateStore c" and ?g = "fs (m_world s)"
  have g: "undisturbed ?st d f ?g" using i by (simp add: inv_def)
  show ?thesis
    unfolding raise_recorded_def wp_ebind[of "in_files _"] wp_in_files raiseToAtLeast_def
  proof (rule wp_raise_loop[OF inv_at[OF i] inv_store[OF i]], unfold sum.case, goal_cases)
    case (1 raised h w)
    have h: "keeps ?st d ?g h" "keeps ?st d f h"
      using g 1(2) keeps_trans by (metis raise_post_def undisturbed_def)+
    have s': "inv c d h e {} (s\<lparr>m_world := w\<rparr>)" by (rule inv_rebase[OF i 1(1) keeps_store[OF h(1)]])
    show ?case
      unfolding Let_def
    proof (rule wp_step'[OF s' pres_broken], goal_cases)
      case (1 x s2)
      then show ?case by (intro raise_done_closed[OF h(2) final_inv]) simp_all
    next
      case (2 broken s2)
      then show ?case by (intro wp_raise_finish[OF c g \<open>raise_post ?st d q ?g raised h\<close>]) simp_all
    qed
  qed
qed

lemma wp_raise_unfenced:
  assumes c: "wired c" and i: "inv c d f e {} s" and result: "\<not> ignoredByMode result"
  shows "wp (raise_unfenced c mode result m source reason) (raise_done c d q f e) s"
proof -
  let ?st = "stateStore c"
  have "wp (raise_unfenced c mode result m source reason) (\<lambda>_ s'. \<exists>h. keeps ?st d f h \<and> final c d h e s') s"
    unfolding raise_unfenced_def wp_ebind[of "in_files _"] wp_in_files encodeDurableBrokenState_def
  proof (rule wp_encodeDurableBrokenStateLocked[OF inv_at[OF i] inv_store[OF i]], unfold sum.case, goal_cases)
    case (1 broken h w)
    have h: "keeps ?st d f h"
      using i 1(2) keeps_trans by (metis inv_def broken_post_def undisturbed_def)
    have s': "inv c d h e {} (s\<lparr>m_world := w\<rparr>)" by (rule inv_rebase[OF i 1(1) keeps_store[OF h]])
    show ?case
      by (rule wp_mono[where P = "\<lambda>_. final c d h e"],
          intro wp_final_tail[OF wp_contain_by_mode[OF c s']] ctl_intros final_ctl) (use h in blast)
  qed
  from gives_wp[OF gives_unfenced[OF result] this] show ?thesis
    by (rule wp_mono) (elim conjE exE, rule raise_done_closed)
qed

lemma wp_raise_ignored:
  assumes c: "wired c" and i: "inv c d f e {} s"
  shows "wp (raise_ignored c mode) (raise_done c d q f e) s"
proof -
  have "gives (raise_ignored c mode) (\<lambda>r. \<not> persistenceConfirmed r \<and> ignoredByMode r)"
    unfolding raise_ignored_def by (intro give_intros) simp
  moreover have "pres (inv c d f e {}) (raise_ignored c mode)"
    unfolding raise_ignored_def by (intro ctl_intros) simp
  ultimately have "wp (raise_ignored c mode) (\<lambda>r s'. inv c d f e {} s' \<and>
      (\<forall>a. r = Inr a \<longrightarrow> \<not> persistenceConfirmed a \<and> ignoredByMode a)) s"
    using i by (intro gives_wp) (simp_all add: presD)
  then show ?thesis
    by (rule wp_mono)
       (auto simp: raise_done_def raise_result_def inv_def undisturbed_def[of _ _ _ "fs _"] final_def)
qed

lemma wp_controller_raise:
  assumes c: "wired c" and i: "inv c d f e {} s"
  shows "wp (controller_raise c q source reason) (raise_done c d q f e) s"
  unfolding controller_raise_def Let_def
proof (rule wp_step'[OF i pres_resolve_mode[OF c]], goal_cases)
  case (2 mode s1)
  have go: "wp (raise_recorded c mode result q source reason) (raise_done c d q f e) s'"
    if "inv c d f e {} s'" for mode result s'
    using wp_raise_recorded[OF c that] .
  have fenced: "wp (ebind (fenceNewIncident c) (\<lambda>fenced.
      if \<not> reg_ok fenced then raise_unfenced c (rm_mode mode) result (reg_detail fenced) source reason
      else raise_recorded c (rm_mode mode) result q source reason)) (raise_done c d q f e) s'"
    if "inv c d f e {} s'" "\<not> ignoredByMode result" for result s'
    by (rule wp_step'[OF that(1) pres_fence[OF c]], erule raise_done_exn)
       (intro wp_ifI wp_raise_unfenced[OF c _ that(2)] go)
  have "wp (ebind (in_files (store_read (stateStore c))) (\<lambda>before.
      if cond before then ebind (fenceNewIncident c) (\<lambda>fenced.
        if \<not> reg_ok fenced then raise_unfenced c (rm_mode mode) (res before) (reg_detail fenced) source reason
        else raise_recorded c (rm_mode mode) (res before) q source reason)
      else raise_recorded c (rm_mode mode) (res before) q source reason)) (raise_done c d q f e) s1"
    if "\<And>b. \<not> ignoredByMode (res b)" for cond res
    by (rule wp_step'[OF 2 pres_store_read[OF refl]], erule raise_done_exn) (intro wp_ifI fenced go that)
  then show ?case
    by (intro wp_ifI wp_raise_ignored[OF c 2]) (simp add: emptyIncidentResult_def)
qed (rule raise_done_exn)

section \<open>Clearing and reconciling\<close>

text \<open>
  A clear that reports confirmation left the file standing for \<open>UNLOCKED\<close>; one that does not is not
  a success.
\<close>

definition clear_result ::
    "state_store \<Rightarrow> nat \<Rightarrow> fsys \<Rightarrow> exn + IncidentResult \<Rightarrow> fsys \<Rightarrow> bool" where
  "clear_result st d f r g \<longleftrightarrow>
     (\<forall>res. r = Inr res \<longrightarrow>
        (if persistenceConfirmed res then
           ir_effectiveSeverity res = Unlocked \<and>
           (settled f (store_entry st d) \<longrightarrow> stands st d g Unlocked)
         else \<not> ir_ok res))"

definition clear_done ::
    "'e IncidentController \<Rightarrow> nat \<Rightarrow> fsys \<Rightarrow> 'e \<Rightarrow> exn + IncidentResult \<Rightarrow> 'e machine \<Rightarrow> bool" where
  "clear_done c d f e r s \<longleftrightarrow>
     clear_result (stateStore c) d f r (fs (m_world s)) \<and> (\<exists>h. final c d h e s)"

lemma clear_done_exn: "final c d h e s \<Longrightarrow> clear_done c d f e (Inl x) s"
  by (auto simp: clear_done_def clear_result_def)

lemma gives_refused:
  "gives (clear_refused c mode result cleared actor) (\<lambda>r. carries result r \<and> ir_ok r = ir_ok result)"
  unfolding clear_refused_def by (intro give_intros) (simp_all add: carries_def)

lemma gives_confirmed: "gives (clear_confirmed c mode result actor) (carries result)"
  unfolding clear_confirmed_def by (intro give_intros) (simp_all add: carries_def)

lemma wp_clear_refused:
  assumes "wired c" "inv c d f e {} s"
  shows "wp (clear_refused c mode result cleared actor) (\<lambda>_. final c d f e) s"
  unfolding clear_refused_def
  by (intro wp_final_tail wp_contain_by_mode assms pres_ebind pres_if pres_let pres_done final_ctl)

lemma pres_notify_cleared: "pres (final c d f e) (notify_cleared c result actor)"
  unfolding notify_cleared_def
  by (rule pres_final) (intro ctl_intros collaborator_call.intros)

lemma wp_clear_confirmed:
  assumes c: "wired c" and i: "inv c d f e {} s"
  shows "wp (clear_confirmed c mode result actor) (\<lambda>_. final c d f e) s"
proof -
  have notified: "pres (final c d f e) (update (\<lambda>m. m\<lparr>lastNotified := None\<rparr>))"
    by (rule pres_final) (intro ctl_intros, simp)
  show ?thesis
    unfolding clear_confirmed_def
    by (rule wp_step'[OF i pres_clear_targets[OF c]], erule final_inv,
        rule wp_step'[where I = "inv c d f e {}"], assumption, rule pres_update, simp, erule final_inv,
        rule wp_final_tail[OF wp_contain_by_mode[OF c]], assumption)
       (intro ctl_intros final_ctl pres_notify_cleared notified)
qed

lemma wp_controller_clear:
  assumes c: "wired c" and i: "inv c d f e {} s"
  shows "wp (controller_clear c actor) (clear_done c d f e) s"
proof -
  let ?st = "stateStore c"
  have answer: "wp (if \<not> clear_ok cleared then clear_refused c mode result cleared actor
      else clear_confirmed c mode result actor) (clear_done c d f e) s'"
    if post: "clear_post ?st d g cleared h" and s': "inv c d h e {} s'" and g: "undisturbed ?st d f g"
      and res: "persistenceConfirmed result = clear_ok cleared" "ir_ok result = clear_ok cleared"
        "ir_effectiveSeverity result = clear_severity cleared"
    for cleared mode result g h s'
  proof -
    have stands: "stands ?st d (fs (m_world s2)) Unlocked"
      if "final c d h e s2" "clear_ok cleared" "settled f (store_entry ?st d)" for s2
      using post that g
      by (intro undisturbed_stands[OF final_undisturbed[OF that(1)]]) (auto simp: clear_post_def undisturbed_def)
    have "clear_ok cleared \<Longrightarrow> clear_severity cleared = Unlocked" using post by (simp add: clear_post_def)
    then show ?thesis
      by (intro wp_ifI wp_mono[OF gives_wp[OF gives_refused wp_clear_refused[OF c s']]]
            wp_mono[OF gives_wp[OF gives_confirmed wp_clear_confirmed[OF c s']]])
         (use stands res in \<open>auto simp: clear_done_def clear_result_def carries_def\<close>)
  qed
  have cleared: "wp (ebind (in_files (clear ?st)) (\<lambda>cleared. ebind (state_broken c) (\<lambda>broken.
      if \<not> clear_ok cleared then clear_refused c mode (result cleared broken) cleared actor
      else clear_confirmed c mode (result cleared broken) actor))) (clear_done c d f e) s'"
    if s': "inv c d f e {} s'" and res: "\<And>x b. persistenceConfirmed (result x b) = clear_ok x \<and>
        ir_ok (result x b) = clear_ok x \<and> ir_effectiveSeverity (result x b) = clear_severity x"
    for s' mode result
    unfolding wp_ebind[of "in_files _"] wp_in_files
  proof (rule wp_clear[OF inv_at[OF s'] inv_store[OF s']], unfold sum.case, goal_cases)
    case (1 x h w)
    have "store_at ?st d h" using 1(2) by (simp add: clear_post_def)
    note after = inv_rebase[OF s' 1(1) this]
    have "undisturbed ?st d f (fs (m_world s'))" using s' by (simp add: inv_def)
    then show ?case
      by (intro wp_step'[OF after pres_broken] answer[OF 1(2)] clear_done_exn[OF final_inv]) (simp_all add: res)
  qed
  show ?thesis
    unfolding controller_clear_def Let_def
    by (rule wp_step'[OF i pres_resolve_mode[OF c]], rule clear_done_exn[OF final_inv], assumption,
        rule wp_step'[OF _ pres_set(2)], assumption, rule clear_done_exn[OF final_inv], assumption,
        rule wp_step'[OF _ pres_store_read[OF refl]], assumption, rule clear_done_exn[OF final_inv], assumption)
       (rule cleared, assumption, simp)
qed

lemma wp_reconcile:
  assumes c: "wired c" and i: "inv c d f e {} s"
  shows "wp (reconcile c) (\<lambda>_. final c d f e) s"
proof -
  have active: "pres (final c d f e) (update (\<lambda>m. m\<lparr>lastMode := Some ModeActive\<rparr>))"
    by (rule pres_final) (intro ctl_intros, simp)
  show ?thesis
    unfolding reconcile_def
    by (rule wp_step'[OF i pres_store_read[OF refl]], erule final_inv,
        rule wp_step'[OF _ pres_resolve_mode[OF c]], assumption, erule final_inv,
        rule wp_final_tail[OF wp_contain_by_mode[OF c]], assumption)
       (intro ctl_intros final_ctl active)
qed

section \<open>The contract of the operations\<close>

lemma inv_start:
  "quiet (m_world m) \<Longrightarrow> store_at (stateStore c) d (fs (m_world m)) \<Longrightarrow>
     inv c d (fs (m_world m)) (m_env m) {} m"
  by (simp add: inv_def undisturbed_refl)

lemma final_calls: "final c d f e s \<Longrightarrow> (collaborator_call c (uids_at c d s))\<^sup>*\<^sup>* e (m_env s)"
  using collaborator_calls_mono by (auto simp: final_def inv_def)

text \<open>
  A controller over sample stores; its environment is the list of the users that were logged out.
\<close>

definition sample_session :: LoginSession where
  "sample_session =
     \<lparr> s_id = ''c2'', s_uid = 1000, s_user = ''ann'', s_type = ''tty'', s_kind = Terminal, s_recovery = False,
       className = ''user'', s_state = ''active'', s_remote = False, s_ordinary = True,
       s_serviceAccount = False, s_objectPath = ''/s'', s_logindOwner = '':1'', startTimestamp = 7 \<rparr>"

definition sample_backend :: "nat list SessionContainmentBackend" where
  "sample_backend =
     \<lparr> listSessions = (\<lambda>e. (Inr \<lparr> inv_proven = True, inv_sessions = [sample_session], inv_diagnostic = '''' \<rparr>, e)),
       listUsers = (\<lambda>e. (Inr \<lparr> users_proven = True, users_found = [], users_diagnostic = '''' \<rparr>, e)),
       classifySession = (\<lambda>x e. (Inr (s_kind x), e)),
       lockSession = (\<lambda>x e. (Inr \<lparr> performed = False, outcome_diagnostic = ''no lock'' \<rparr>, e)),
       verifySessionLocked = (\<lambda>x e. (Inr (False, ''''), e)),
       terminateSession = (\<lambda>x e. (Inr \<lparr> performed = True, outcome_diagnostic = '''' \<rparr>, s_uid x # e)),
       terminateUser = (\<lambda>u e. (Inr \<lparr> performed = True, outcome_diagnostic = '''' \<rparr>, u_uid u # e)),
       verifySessionsGone = (\<lambda>xs e. (Inr (True, ''''), e)),
       verifyUserRuntimeGone = (\<lambda>u e. (Inr (True, ''''), e)),
       lookupProvenUser = (\<lambda>uid name e.
         (Inr \<lparr> lookup_status = UserAbsent, lookup_user = emptyLoginUser, lookup_diagnostic = '''' \<rparr>, e)) \<rparr>"

definition sample_controller :: "nat list IncidentController" where
  "sample_controller =
     (let document = targets_document sample_boot 3 [sample_target] in
      \<lparr> stateStore = sample_store, targetStore = storeBesideLockStatus sample_store,
        sessions = Some sample_backend, applyQuarantine = null_applyQuarantine, accessGateVerifier = None,
        modeResolver = None, bootIdProvider = (\<lambda>e. (Inr sample_boot, e)), auditSink = None,
        notifySink = None, current_time = (\<lambda>e. (Inr ''now'', e)), lib_dump = one_dump document,
        lib_parse = one_parse document, lib_replace_dump = (\<lambda>j. '''') \<rparr>)"

definition sample_machine :: "world \<Rightarrow> nat list machine" where
  "sample_machine w =
     \<lparr> m_world = w, m_env = [], m_incidentGeneration = Some 3, lastNotified = None, runtime = Inactive,
       containment = noContainment, lastMode = None, forcedNetworkQuarantine = False \<rparr>"

lemma sample_wired: "wired sample_controller"
proof -
  have "apart sample_store"
    by (simp add: apart_def sample_store_def sample_path targets_name_def)
  moreover have "words_only (one_parse (targets_document sample_boot 3 [sample_target]))"
    by (auto simp: words_only_def one_parse_def targets_document_form target_json_form kStoreSchemaVersion_def
        sample_target_def split: if_splits)
  moreover have "inventory_in_range sample_backend"
    by (simp add: inventory_in_range_def sample_backend_def target_in_range_def target_of_session_def
        sample_session_def uid_max_def)
  ultimately show ?thesis
    by (simp add: wired_def sample_controller_def Let_def one_roundtrip)
qed

lemma sample_machine_start:
  "\<forall>ev \<in> set evs. quiet_event ev \<Longrightarrow> quiet (m_world (sample_machine (sample_world x evs)))"
  "store_at (stateStore sample_controller) 5 (fs (m_world (sample_machine (sample_world x evs))))"
  using sample_store_at by (simp_all add: sample_machine_def sample_controller_def Let_def quiet_def sample_world_def)



text \<open>An operation of the controller, run to its end or to the death of the process.\<close>

inductive controller_op ::
    "'e IncidentController \<Rightarrow> 'e machine \<Rightarrow> exn + IncidentResult \<Rightarrow> 'e machine \<Rightarrow> bool" for c where
  raise_op: "run_state (controller_raise c q source reason) m = (r, m') \<Longrightarrow> controller_op c m r m'"
| clear_op: "run_state (controller_clear c actor) m = (r, m') \<Longrightarrow> controller_op c m r m'"
| reconcile_op: "run_state (reconcile c) m = (r, m') \<Longrightarrow> controller_op c m r m'"

text \<open>
  C4. Nobody is logged out who is not on record: in every raise, clear and reconcile, under any faults,
  crash and answers of the collaborators, a session is terminated only when it is an ordinary one, and
  a session or a user runtime is terminated only for a user that the target store names when the
  operation ends. So a restart after a crash finds every user whose logout may be incomplete.
\<close>

theorem terminated_users_recorded:
  assumes "wired c" "quiet (m_world m)" "store_at (stateStore c) d (fs (m_world m))" "controller_op c m r m'"
  shows "(collaborator_call c (uids_at c d m'))\<^sup>*\<^sup>* (m_env m) (m_env m')"
proof -
  note start = inv_start[OF assms(2,3)]
  from assms(4) have "\<exists>h. final c d h (m_env m) m'"
  proof cases
    case (raise_op q source reason)
    then show ?thesis using wpD[OF wp_controller_raise[OF assms(1) start]] by (simp add: raise_done_def)
  next
    case (clear_op actor)
    then show ?thesis using wpD[OF wp_controller_clear[OF assms(1) start]] by (simp add: clear_done_def)
  next
    case reconcile_op
    then show ?thesis using wpD[OF wp_reconcile[OF assms(1) start]] by blast
  qed
  then obtain h where "final c d h (m_env m) m'" ..
  then show ?thesis by (rule final_calls)
qed

lemma sample_calls:
  "(collaborator_call sample_controller U)\<^sup>*\<^sup>* e e' \<Longrightarrow> set e' \<subseteq> set e \<union> U"
proof (induction rule: rtranclp_induct)
  case (step e' e'')
  from step.hyps(2) have "set e'' \<subseteq> set e' \<union> U"
    by cases (auto simp: sample_controller_def sample_backend_def Let_def null_applyQuarantine_def)
  then show ?case using step.IH by blast
qed simp

theorem terminated_users_recorded_witness:
  "\<exists>r m'. run_state (controller_raise sample_controller Isolate administrator ''tamper'')
       (sample_machine (sample_world (Some (serialize Hard)) [calm Normal, calm (Short 1)])) = (r, m') \<and>
     set (m_env m') \<subseteq> uids_at sample_controller 5 m'"
proof -
  let ?m = "sample_machine (sample_world (Some (serialize Hard)) [calm Normal, calm (Short 1)])"
  let ?op = "controller_raise sample_controller Isolate administrator ''tamper''"
  obtain r m' where run: "run_state ?op ?m = (r, m')" by (rule prod.exhaust)
  from terminated_users_recorded[OF sample_wired sample_machine_start raise_op[OF run]]
  have "set (m_env m') \<subseteq> uids_at sample_controller 5 m'"
    using sample_calls[of "uids_at sample_controller 5 m'" "m_env ?m" "m_env m'"]
    by (simp add: sample_machine_def)
  then show ?thesis using run by blast
qed



section \<open>The latch of the daemon\<close>

text \<open>
  What happens to the state file while nobody clears: operations of the daemon, each in a process
  with whatever members, collaborators' answers and faults, and power losses.
\<close>

inductive daemon_step :: "'e IncidentController \<Rightarrow> fsys \<Rightarrow> fsys \<Rightarrow> bool" for c where
  raising: "quiet (m_world m) \<Longrightarrow> fs (m_world m) = f \<Longrightarrow>
    run_state (controller_raise c q source reason) m = (r, m') \<Longrightarrow> daemon_step c f (fs (m_world m'))"
| reconciling: "quiet (m_world m) \<Longrightarrow> fs (m_world m) = f \<Longrightarrow>
    run_state (reconcile c) m = (r, m') \<Longrightarrow> daemon_step c f (fs (m_world m'))"
| outage: "(\<And>e. pick e \<in> durables f e) \<Longrightarrow> daemon_step c f (power_loss pick junk f)"

lemma daemon_step_keeps:
  assumes "wired c" "store_at (stateStore c) d f" "daemon_step c f g"
  shows "keeps (stateStore c) d f g"
  using assms(3)
proof cases
  case (raising m q source reason r m')
  then have "store_at (stateStore c) d (fs (m_world m))" using assms(2) by simp
  from wpD[OF wp_controller_raise[OF assms(1) inv_start[OF raising(2) this]] raising(4)]
  show ?thesis using raising(1,3) by (simp add: raise_done_def raise_result_def)
next
  case (reconciling m r m')
  then have "store_at (stateStore c) d (fs (m_world m))" using assms(2) by simp
  from wpD[OF wp_reconcile[OF assms(1) inv_start[OF reconciling(2) this]] reconciling(4)]
  show ?thesis using final_undisturbed reconciling(1,3) by (fastforce simp: undisturbed_def)
next
  case (outage pick junk)
  then show ?thesis using keeps_power_loss[OF assms(2)] by simp
qed

interpretation daemon_latch: crash_latch "\<lambda>f. wired c \<and> store_at (stateStore c) d f"
    "\<lambda>f. crash_severities (stateStore c) f (store_entry (stateStore c) d)" "daemon_step c" for c d
  by unfold_locales (auto dest!: daemon_step_keeps simp: keeps_def floor_at_def)

lemma wp_status:
  assumes "wired c" "quiet (m_world m)" "store_at (stateStore c) d (fs (m_world m))"
  shows "wp (controller_status c) (\<lambda>r m'. \<forall>status. r = Inr status \<longrightarrow>
     status_severity status \<in> {current (stateStore c) d (fs (m_world m)), Isolate}) m"
proof -
  have "wp (in_files (store_read (stateStore c))) (\<lambda>r _. \<forall>read. r = Inr read \<longrightarrow>
      proven_or_isolate read \<in> {current (stateStore c) d (fs (m_world m)), Isolate}) m"
    unfolding wp_in_files
    by (rule wpI) (use read_run[OF assms(2,3)] in \<open>auto simp: proven_or_isolate_def\<close>)
  then show ?thesis
    unfolding controller_status_def
    by (intro wp_ebindI[where I = "\<lambda>_. True"])
       (auto simp: wp_ebind wp_inspect split: sum.splits intro: wpI)
qed

lemma wp_catching: "wp (catching m b) (\<lambda>r _. \<exists>a. r = Inr a) s"
  unfolding catching_def wp_bind by (rule wpI) (simp add: wp_simps split: sum.split)

lemma status_returns: "\<exists>status m'. run_state (controller_status c) m = (Inr status, m')"
proof -
  have "wp (controller_status c) (\<lambda>r _. \<exists>a. r = Inr a) m"
    unfolding controller_status_def wp_ebind wp_in_files sum.case
    by (rule wpI, unfold resolve_mode_def, rule wp_mono[OF wp_catching]) (auto simp: wp_inspect)
  then show ?thesis by (cases "run_state (controller_status c) m") (auto dest: wpD)
qed

text \<open>
  C7. The incident outlives everything but a clear: once all that the state file can stand for is at
  least some severity, no sequence of raises and startup reconciliations, in any number of daemon
  processes that fail or die anywhere, and no power loss makes it less; and \<open>status\<close> then always
  answers, and never with a lower severity, because what it cannot prove it reports as \<open>ISOLATE\<close>.
\<close>

theorem daemon_latched:
  assumes "wired c" "store_at (stateStore c) d f"
    and "\<forall>x \<in> crash_severities (stateStore c) f (store_entry (stateStore c) d). s \<le> x"
    and "(daemon_step c)\<^sup>*\<^sup>* f (fs (m_world m))" "quiet (m_world m)"
  shows "\<exists>status m'. run_state (controller_status c) m = (Inr status, m') \<and> s \<le> status_severity status"
proof -
  obtain status m' where run: "run_state (controller_status c) m = (Inr status, m')"
    using status_returns by blast
  have start: "wired c \<and> store_at (stateStore c) d f" using assms(1,2) by simp
  have at: "store_at (stateStore c) d (fs (m_world m))"
    using daemon_latch.run_inv[OF assms(4) start] by simp
  have "s \<le> current (stateStore c) d (fs (m_world m))"
    using daemon_latch.run_floor[OF assms(4) start assms(3)] current_crash[OF at] by blast
  then have "s \<le> status_severity status" using wpD[OF wp_status[OF assms(1,5) at] run] by auto
  then show ?thesis using run by blast
qed

theorem daemon_latched_witness:
  "\<exists>r m status m'. run_state (controller_raise sample_controller Isolate administrator ''tamper'')
       (sample_machine (sample_world (Some (serialize Hard)) [calm Normal, calm (Err EIO), calm Kill])) = (r, m) \<and>
     run_state (controller_status sample_controller) (sample_machine ((sample_world None [calm (Err EIO)])
       \<lparr>fs := power_loss (dirents (fs (m_world m))) (\<lambda>i. sample_inode Reg 0 '''') (fs (m_world m))\<rparr>)) =
       (Inr status, m') \<and> Hard \<le> status_severity status"
proof -
  let ?c = sample_controller
  let ?m = "sample_machine (sample_world (Some (serialize Hard)) [calm Normal, calm (Err EIO), calm Kill])"
  let ?loss = "\<lambda>f. power_loss (dirents f) (\<lambda>i. sample_inode Reg 0 '''') f"
  obtain r m where run: "run_state (controller_raise ?c Isolate administrator ''tamper'') ?m = (r, m)"
    by (rule prod.exhaust)
  let ?after = "sample_machine ((sample_world None [calm (Err EIO)])\<lparr>fs := ?loss (fs (m_world m))\<rparr>)"
  have q: "quiet (m_world ?m)" "quiet (m_world ?after)"
    by (simp_all add: quiet_def sample_machine_def sample_world_def)
  have at: "store_at (stateStore ?c) 5 (fs (m_world ?m))" by (rule sample_machine_start)
  have raise: "daemon_step ?c (fs (m_world ?m)) (fs (m_world m))" using raising[OF q(1) refl run] .
  have "fs_wf (fs (m_world m))"
    using daemon_step_keeps[OF sample_wired at raise] by (simp add: keeps_def store_at_def)
  then have "daemon_step ?c (fs (m_world m)) (fs (m_world ?after))"
    by (simp add: sample_machine_def) (intro outage fs_wf_current)
  with raise have steps: "(daemon_step ?c)\<^sup>*\<^sup>* (fs (m_world ?m)) (fs (m_world ?after))"
    by (simp add: converse_rtranclp_into_rtranclp)
  have low: "\<forall>x \<in> crash_severities (stateStore ?c) (fs (m_world ?m)) (store_entry (stateStore ?c) 5). Hard \<le> x"
    by (simp add: sample_controller_def sample_machine_def Let_def sample_store_entry sample_crash)
  show ?thesis using daemon_latched[OF sample_wired at low steps q(2)] run by blast
qed

end
