(* ===== verification/IncidentReporter.thy ===== *)
theory IncidentReporter
  imports Planner ControllerContract "HOL-Library.Product_Lexorder"
begin

text \<open>
  The step from policies to incidents (\<open>incident/PolicyIncidentReporter\<close>): the finished summary of a
  pass becomes at most one raise. The comparison of the sort looks at the severity and the printed
  reference; \<open>std::sort\<close> leaves the order of equal elements open, here they keep their order.
\<close>

section \<open>The reporter\<close>

record Activation =
  act_severity :: incident_severity
  act_source :: IncidentSource
  act_message :: string
  act_origin :: policy_failure_origin

definition policy_source :: "policy_ref \<Rightarrow> policy_failure_origin \<Rightarrow> IncidentSource" where
  "policy_source owner origin =
     \<lparr> source_name = ''policy'', policyModule = ref_moduleName owner, policySubmodule = ref_submoduleName owner,
       source_policyName = ref_policyName owner, deviceId = '''',
       source_failureOrigin = policyFailureOriginToString origin \<rparr>"

text \<open>The activation of one result: an exception, none, or one.\<close>

definition activation_of :: "policy_registry \<Rightarrow> policy_apply_result \<Rightarrow> exn + Activation option" where
  "activation_of reg result =
     (if status result \<noteq> Failed then Inr None
      else
        (case findPolicy reg (result_ref result) of
           None \<Rightarrow> Inr None
         | Some p \<Rightarrow>
             if \<not> isEnabled p \<or> \<not> violationSeverityReacts (getViolationSeverity p) then Inr None
             else and_then (violationSeverityToIncidentSeverity (getViolationSeverity p)) (\<lambda>severity.
               Inr (Some \<lparr> act_severity = severity,
                 act_source = policy_source (result_ref result) (failureOrigin result),
                 act_message = result_message result, act_origin = failureOrigin result \<rparr>))))"

fun collect_activations :: "policy_registry \<Rightarrow> policy_apply_result list \<Rightarrow> exn + Activation list" where
  "collect_activations reg [] = Inr []"
| "collect_activations reg (result # rest) =
     and_then (activation_of reg result) (\<lambda>first.
     and_then (collect_activations reg rest) (\<lambda>others.
       Inr (case first of None \<Rightarrow> others | Some activation \<Rightarrow> activation # others)))"

definition source_path :: "IncidentSource \<Rightarrow> string" where
  "source_path source = policyModule source @ ''/'' @ policySubmodule source @ ''/'' @ source_policyName source"

definition activation_key :: "Activation \<Rightarrow> nat \<times> string" where
  "activation_key a = (severity_rank (act_severity a), source_path (act_source a))"

definition requested_severity :: "Activation list \<Rightarrow> incident_severity" where
  "requested_severity activations = foldl (\<lambda>s a. maxIncidentSeverity s (act_severity a)) Unlocked activations"

definition report_detail :: "string \<Rightarrow> Activation list \<Rightarrow> string" where
  "report_detail reason activations =
     reason @ concat (map (\<lambda>a. ''; '' @ source_path (act_source a) @ '' failed ('' @
       policyFailureOriginToString (act_origin a) @ ''): '' @ act_message a) activations)"

definition report ::
    "'e IncidentController \<Rightarrow> policy_registry \<Rightarrow> policy_apply_summary \<Rightarrow> string \<Rightarrow> ('e, incident_severity) ctl" where
  "report c reg done_pass reason =
     (case collect_activations reg (results done_pass) of
        Inl x \<Rightarrow> State_Monad.return (Inl x)
      | Inr [] \<Rightarrow> ebind (controller_status c) (\<lambda>status. done_with (status_severity status))
      | Inr (a # as) \<Rightarrow>
          let activations = sort_key activation_key (a # as) in
          ebind (controller_raise c (requested_severity activations) (act_source (last activations))
              (report_detail reason activations)) (\<lambda>raised.
            done_with (ir_effectiveSeverity raised)))"

section \<open>What a pass raises\<close>

text \<open>The severity that a result of a pass asks for.\<close>

definition declared_severity :: "policy_registry \<Rightarrow> policy_apply_result \<Rightarrow> incident_severity option" where
  "declared_severity reg result =
     (case findPolicy reg (result_ref result) of
        Some p \<Rightarrow>
          if status result = Failed \<and> isEnabled p then
            (case violationSeverityToIncidentSeverity (getViolationSeverity p) of
               Inr s \<Rightarrow> Some s
             | Inl x \<Rightarrow> None)
          else None
      | None \<Rightarrow> None)"

lemma activation_of_declared:
  assumes "declared_severity reg result = Some s" "activation_of reg result = Inr found"
  shows "\<exists>a. found = Some a \<and> act_severity a = s"
  using assms
  by (auto simp: declared_severity_def activation_of_def violationSeverityToIncidentSeverity_def
      split: option.splits if_splits)

lemma collect_covers:
  assumes "collect_activations reg rs = Inr as" "result \<in> set rs" "declared_severity reg result = Some s"
  shows "\<exists>a \<in> set as. act_severity a = s"
  using assms
proof (induction rs arbitrary: as)
  case (Cons r rs)
  then obtain first others where found: "activation_of reg r = Inr first" "collect_activations reg rs = Inr others"
      "as = (case first of None \<Rightarrow> others | Some a \<Rightarrow> a # others)"
    by (auto simp: and_then_def split: sum.splits)
  then have others: "set others \<subseteq> set as" by (auto split: option.splits)
  show ?case
  proof (cases "result \<in> set rs")
    case True
    then show ?thesis using Cons.IH[OF found(2)] Cons.prems(3) others by blast
  next
    case False
    then have "result = r" using Cons.prems(2) by simp
    then show ?thesis using activation_of_declared[of reg r s first] Cons.prems(3) found by auto
  qed
qed simp

lemma foldl_max_bound: "a \<in> set as \<Longrightarrow> (f a :: 'b::linorder) \<le> foldl (\<lambda>s a. max s (f a)) s as"
  by (induction as rule: rev_induct) (auto simp: le_max_iff_disj)

lemma requested_covers: "a \<in> set as \<Longrightarrow> act_severity a \<le> requested_severity (sort_key k as)"
  unfolding requested_severity_def maxIncidentSeverity_max by (rule foldl_max_bound) simp

lemma run_ebind_done:
  assumes "run_state (ebind m (\<lambda>a. done_with (g a))) s = (r, t)"
  shows "\<exists>x. run_state m s = (x, t) \<and> r = (case x of Inl e \<Rightarrow> Inl e | Inr a \<Rightarrow> Inr (g a))"
proof -
  have "wp (ebind m (\<lambda>a. done_with (g a)))
      (\<lambda>r v. \<exists>x. run_state m s = (x, v) \<and> r = (case x of Inl e \<Rightarrow> Inl e | Inr a \<Rightarrow> Inr (g a))) s"
    unfolding wp_ebind by (rule wpI) (auto simp: wp_simps split: sum.split)
  from wpD[OF this assms] show ?thesis .
qed

lemma gives_mono: "gives m P \<Longrightarrow> (\<And>a. P a \<Longrightarrow> R a) \<Longrightarrow> gives m R"
  unfolding gives_def wp_def by (auto split: prod.splits)

lemma raise_by_mode:
  assumes "run_state (resolve_mode c) m = (Inr mode, m1)"
  shows "wp (controller_raise c q source reason) (\<lambda>r _. \<forall>res. r = Inr res \<longrightarrow>
     ignoredByMode res = (rm_mode mode = ModeOff) \<and> (rm_mode mode = ModeOff \<longrightarrow> \<not> persistenceConfirmed res)) m"
proof -
  have recorded: "gives (raise_recorded c mode result q source reason) (\<lambda>r. \<not> ignoredByMode r)"
    if "\<not> ignoredByMode result" for mode result
    unfolding raise_recorded_def Let_def
    by (intro give_intros; rule gives_mono[OF gives_not_durable] gives_mono[OF gives_durable])
       (use that in \<open>simp_all add: failed_closed_def carries_def\<close>)
  have "gives (raise_unfenced c mode result detail source reason) (\<lambda>r. \<not> ignoredByMode r)"
    if "\<not> ignoredByMode result" for mode result detail
    by (rule gives_mono[OF gives_unfenced[OF that]]) (simp add: failed_closed_def)
  with recorded have "gives (ebind (in_files (store_read (stateStore c))) (\<lambda>before.
         let result = emptyIncidentResult\<lparr>previousSeverity := proven_or_isolate before\<rparr>;
             newIncident = (provenance before = Proven \<and> read_severity before = Unlocked)
         in if newIncident \<and> \<not> incidentSeverityIsUnlocked q then
              ebind (fenceNewIncident c) (\<lambda>fenced.
                if \<not> reg_ok fenced then raise_unfenced c (rm_mode mode) result (reg_detail fenced) source reason
                else raise_recorded c (rm_mode mode) result q source reason)
            else raise_recorded c (rm_mode mode) result q source reason)) (\<lambda>r. \<not> ignoredByMode r)"
    unfolding Let_def by (intro give_intros; simp add: emptyIncidentResult_def)
  moreover have "gives (raise_ignored c off) (\<lambda>r. ignoredByMode r \<and> \<not> persistenceConfirmed r)" for off
    unfolding raise_ignored_def by (intro give_intros) simp
  ultimately show ?thesis
    unfolding controller_raise_def wp_ebind[of "resolve_mode c"]
    using assms by (simp add: wp_def[of "resolve_mode c"] gives_def)
qed



end
