(* ===== verification/ReadinessStatus.thy ===== *)
theory ReadinessStatus
  imports Json IncidentStateStore IncidentModes
begin

text \<open>
  The status the daemon reports to the login path: the readiness of the daemon
  (\<open>incident/DaemonReadiness.h\<close>), the wire form of the access gate status and of the pre-login status
  with their strict parsers (\<open>fic-ipc/FicReadinessStatus\<close>), and the client of the PAM module
  (\<open>incident/IncidentAccessClient\<close>). The version of the protocol is fixed by the build and is a
  parameter; the exchange over the socket is represented by its result.
\<close>

section \<open>Readiness of the daemon\<close>

datatype DaemonReadinessState = Initializing | ReadyApplying | Ready | ReadyDegraded | Stopping

primrec daemonReadinessToken :: "DaemonReadinessState \<Rightarrow> string" where
  "daemonReadinessToken Initializing = ''INITIALIZING''"
| "daemonReadinessToken ReadyApplying = ''APPLYING''"
| "daemonReadinessToken Ready = ''READY''"
| "daemonReadinessToken ReadyDegraded = ''DEGRADED''"
| "daemonReadinessToken Stopping = ''STOPPING''"

definition ordinaryLoginAllowed ::
    "DaemonReadinessState \<Rightarrow> bool \<Rightarrow> incident_severity \<Rightarrow> IncidentResponseMode \<Rightarrow> bool" where
  "ordinaryLoginAllowed state persistentStateProven severity mode \<longleftrightarrow>
     (if mode \<noteq> ModeActive then True
      else state = Ready \<and> persistentStateProven \<and> (severity = Unlocked \<or> severity = Soft))"

text \<open>\<open>ScopedApplying\<close>: the state inside the scope, and the one its destructor restores.\<close>

definition ScopedApplying ::
    "(DaemonReadinessState \<Rightarrow> 'a \<times> DaemonReadinessState) \<Rightarrow> DaemonReadinessState \<Rightarrow> 'a \<times> DaemonReadinessState" where
  "ScopedApplying body previous = (case body ReadyApplying of (a, _) \<Rightarrow> (a, previous))"

section \<open>The wire contract\<close>

record AccessGateStatus =
  g_state :: string
  g_mode :: string
  g_severity :: string
  modeProven :: bool
  g_stateProven :: bool
  g_provenance :: string
  loginAllowed :: bool

record PreLoginStatus =
  p_access :: AccessGateStatus
  p_started :: bool
  p_completed :: bool
  applyOk :: bool
  lifecycleCompleted :: bool
  p_diagnostic :: string
  p_bootId :: string
  daemonPid :: int

definition computedLoginAllowed :: "AccessGateStatus \<Rightarrow> bool" where
  "computedLoginAllowed s \<longleftrightarrow>
     modeProven s \<and> (g_mode s \<noteq> ''ACTIVE'' \<or> g_state s = ''READY'' \<and> g_stateProven s \<and>
       (g_severity s = ''UNLOCKED'' \<or> g_severity s = ''SOFT''))"

definition validate_status :: "AccessGateStatus \<Rightarrow> bool" where
  "validate_status s \<longleftrightarrow>
     g_state s \<in> set [''INITIALIZING'', ''APPLYING'', ''READY'', ''DEGRADED'', ''STOPPING''] \<and>
     g_mode s \<in> set [''OFF'', ''PASSIVE'', ''ACTIVE''] \<and> (modeProven s \<or> g_mode s = ''ACTIVE'') \<and>
     g_severity s \<in> set [''UNLOCKED'', ''SOFT'', ''STANDARD'', ''HARD'', ''ISOLATE''] \<and>
     g_provenance s \<in> set [''PROVEN'', ''ABSENT'', ''INVALID_CONTENT'', ''BROKEN''] \<and>
     (g_stateProven s \<longleftrightarrow> g_provenance s = ''PROVEN'') \<and> (g_stateProven s \<or> g_severity s = ''ISOLATE'') \<and>
     (loginAllowed s \<longleftrightarrow> computedLoginAllowed s)"

definition access_members :: "nat \<Rightarrow> string \<Rightarrow> AccessGateStatus \<Rightarrow> (string \<times> json) list" where
  "access_members api message s =
     [(''api_version'', JInteger (int api)), (''ok'', JBool True), (''message'', JString message),
      (''daemon_state'', JString (g_state s)), (''response_mode'', JString (g_mode s)),
      (''response_mode_proven'', JBool (modeProven s)), (''severity'', JString (g_severity s)),
      (''persistent_state_proven'', JBool (g_stateProven s)),
      (''persistent_provenance'', JString (g_provenance s)),
      (''ordinary_login_allowed'', JBool (loginAllowed s))]"

definition serializeAccessGateStatus :: "nat \<Rightarrow> AccessGateStatus \<Rightarrow> json" where
  "serializeAccessGateStatus api s = json_object (access_members api ''incident access gate status'' s)"

definition serializePreLoginStatus :: "nat \<Rightarrow> PreLoginStatus \<Rightarrow> json" where
  "serializePreLoginStatus api s = json_object (access_members api ''prelogin status'' (p_access s) @
     [(''startup_apply_started'', JBool (p_started s)), (''startup_apply_completed'', JBool (p_completed s)),
      (''startup_apply_ok'', JBool (applyOk s)),
      (''startup_lifecycle_completed'', JBool (lifecycleCompleted s)),
      (''diagnostic'', JString (take 4096 (p_diagnostic s))), (''boot_id'', JString (p_bootId s)),
      (''daemon_pid'', JInteger (daemonPid s))])"

section \<open>The strict parsers\<close>

definition json_get_bool :: "json \<Rightarrow> bool option" where
  "json_get_bool j = (case j of JBool b \<Rightarrow> Some b | _ \<Rightarrow> None)"

definition json_get_integer :: "json \<Rightarrow> int option" where
  "json_get_integer j = (case j of JUnsigned n \<Rightarrow> Some (int n) | JInteger i \<Rightarrow> Some i | _ \<Rightarrow> None)"

definition at_string :: "json \<Rightarrow> string \<Rightarrow> string option" where
  "at_string j k = Option.bind (json_member k j) json_get_string"

definition at_bool :: "json \<Rightarrow> string \<Rightarrow> bool option" where
  "at_bool j k = Option.bind (json_member k j) json_get_bool"

definition at_integer :: "json \<Rightarrow> string \<Rightarrow> int option" where
  "at_integer j k = Option.bind (json_member k j) json_get_integer"

text \<open>\<open>None\<close> is a refusal or an exception of the JSON library; the callers treat both alike.\<close>

definition accessFields :: "nat \<Rightarrow> json \<Rightarrow> AccessGateStatus option" where
  "accessFields api j = do {
     api_version \<leftarrow> at_integer j ''api_version'';
     ok \<leftarrow> at_bool j ''ok'';
     message \<leftarrow> at_string j ''message'';
     mode_proven \<leftarrow> at_bool j ''response_mode_proven'';
     state_proven \<leftarrow> at_bool j ''persistent_state_proven'';
     allowed \<leftarrow> at_bool j ''ordinary_login_allowed'';
     (if api_version \<noteq> int api \<or> \<not> ok \<or> length message > 4096 then None
      else do {
        state \<leftarrow> at_string j ''daemon_state'';
        mode \<leftarrow> at_string j ''response_mode'';
        severity \<leftarrow> at_string j ''severity'';
        provenance \<leftarrow> at_string j ''persistent_provenance'';
        (let s = \<lparr> g_state = state, g_mode = mode, g_severity = severity, modeProven = mode_proven,
                   g_stateProven = state_proven, g_provenance = provenance, loginAllowed = allowed \<rparr>
         in if validate_status s then Some s else None)
      })
   }"

definition json_members :: "json \<Rightarrow> nat option" where
  "json_members j = (case j of JObject ms \<Rightarrow> Some (length ms) | _ \<Rightarrow> None)"

definition parseAccessGateStatus :: "nat \<Rightarrow> json \<Rightarrow> string + AccessGateStatus" where
  "parseAccessGateStatus api j =
     (case (if json_members j = Some 10 then accessFields api j else None) of
        Some s \<Rightarrow> Inr s
      | None \<Rightarrow> Inl ''invalid/inconsistent access gate response'')"

definition is_lower_hex :: "char \<Rightarrow> bool" where
  "is_lower_hex ch \<longleftrightarrow> CHR ''0'' \<le> ch \<and> ch \<le> CHR ''9'' \<or> CHR ''a'' \<le> ch \<and> ch \<le> CHR ''f''"

definition ipc_validBootId :: "string \<Rightarrow> bool" where
  "ipc_validBootId value \<longleftrightarrow>
     length value = 36 \<and>
     (\<forall>i \<in> set [0..<length value].
        if i = 8 \<or> i = 13 \<or> i = 18 \<or> i = 23 then value ! i = CHR ''-'' else is_lower_hex (value ! i))"

text \<open>The tests on the lifecycle fields; the process id must fit into 32 bits.\<close>

definition lifecycle_consistent :: "PreLoginStatus \<Rightarrow> bool" where
  "lifecycle_consistent s \<longleftrightarrow>
     \<not> (\<not> ipc_validBootId (p_bootId s) \<or> length (p_diagnostic s) > 4096 \<or> CHR 0x00 \<in> set (p_diagnostic s) \<or>
        p_completed s \<and> \<not> p_started s \<or> applyOk s \<and> \<not> p_completed s \<or>
        lifecycleCompleted s \<and> \<not> p_completed s \<or>
        g_state (p_access s) = ''READY'' \<and> \<not> lifecycleCompleted s)"

definition prelogin_fields :: "nat \<Rightarrow> json \<Rightarrow> PreLoginStatus option" where
  "prelogin_fields api j = do {
     access \<leftarrow> accessFields api j;
     started \<leftarrow> at_bool j ''startup_apply_started'';
     completed \<leftarrow> at_bool j ''startup_apply_completed'';
     apply_ok \<leftarrow> at_bool j ''startup_apply_ok'';
     lifecycle \<leftarrow> at_bool j ''startup_lifecycle_completed'';
     diagnostic \<leftarrow> at_string j ''diagnostic'';
     boot \<leftarrow> at_string j ''boot_id'';
     pid \<leftarrow> at_integer j ''daemon_pid'';
     (let s = \<lparr> p_access = access, p_started = started, p_completed = completed, applyOk = apply_ok,
                lifecycleCompleted = lifecycle, p_diagnostic = diagnostic, p_bootId = boot, daemonPid = pid \<rparr>
      in if pid \<le> 0 \<or> pid > 2147483647 \<or> \<not> lifecycle_consistent s then None else Some s)
   }"

definition parsePreLoginStatus :: "nat \<Rightarrow> json \<Rightarrow> string + PreLoginStatus" where
  "parsePreLoginStatus api j =
     (case (if json_members j = Some 17 then prelogin_fields api j else None) of
        Some s \<Rightarrow> Inr s
      | None \<Rightarrow> Inl ''invalid/inconsistent prelogin response'')"

definition mayAutoHandoff :: "PreLoginStatus \<Rightarrow> string \<Rightarrow> bool" where
  "mayAutoHandoff s boot \<longleftrightarrow>
     validate_status (p_access s) \<and> ipc_validBootId boot \<and> p_bootId s = boot \<and> daemonPid s > 0 \<and>
     p_started s \<and> p_completed s \<and> applyOk s \<and> lifecycleCompleted s \<and> modeProven (p_access s) \<and>
     g_state (p_access s) = ''READY'' \<and> loginAllowed (p_access s)"

section \<open>The client of the PAM module\<close>

record ipc_result =
  hasResponse :: bool
  ipc_response :: json
  ipc_error :: string
  peerPid :: int

record IncidentAccessReply =
  reply_allowed :: bool
  reply_diagnostic :: string

definition queryPath :: "nat \<Rightarrow> ipc_result \<Rightarrow> IncidentAccessReply" where
  "queryPath api result =
     (if \<not> hasResponse result then \<lparr> reply_allowed = False, reply_diagnostic = ipc_error result \<rparr>
      else
        (case parseAccessGateStatus api (ipc_response result) of
           Inl error \<Rightarrow> \<lparr> reply_allowed = False, reply_diagnostic = error \<rparr>
         | Inr status \<Rightarrow>
             \<lparr> reply_allowed = loginAllowed status,
               reply_diagnostic =
                 (if loginAllowed status then ''access allowed'' else ''incident access denied'') \<rparr>))"

end
