(* ===== verification/AccessGate.thy ===== *)
theory AccessGate
  imports ReadinessStatus
begin

text \<open>
  The decision of the PAM module: the lookups of users and groups through NSS
  (\<open>pam/PamEffectiveGroupMembership\<close>), the decision itself (\<open>incident/IncidentAccessGateCore\<close>), the
  guard around changes of the response mode (\<open>incident/IncidentModeTransition.h\<close>) and the level of
  desktop notifications (\<open>incident/IncidentNotificationLevel.h\<close>). The C library's lookups are
  parameters; the injected functions of the decision run in a state of their own.
\<close>

section \<open>NSS lookups\<close>

definition InitialLookupBytes :: nat where "InitialLookupBytes = 16 * 1024"
definition MaximumLookupBytes :: nat where "MaximumLookupBytes = 4 * 1024 * 1024"
definition MaximumGroupCount :: nat where "MaximumGroupCount = 65536"

text \<open>A reentrant lookup with a buffer of a given size.\<close>

datatype 'a nss_reply = NssRange | NssError string | NssMissing | NssFound 'a

record nss_group =
  gr_gid :: nat
  gr_mem :: "string list"

record nss_user =
  pw_name :: "string option"
  pw_uid :: nat
  pw_gid :: nat

datatype group_list = GroupList "nat list" | GroupCount nat

record nss =
  getgrnam_r :: "string \<Rightarrow> nat \<Rightarrow> nss_group nss_reply"
  getpwnam_r :: "string \<Rightarrow> nat \<Rightarrow> nss_user nss_reply"
  getgrouplist :: "string \<Rightarrow> nat \<Rightarrow> nat \<Rightarrow> group_list"

definition growLookupBuffer :: "nat \<Rightarrow> string + nat" where
  "growLookupBuffer buffer =
     (if buffer \<ge> MaximumLookupBytes then Inl ''NSS record exceeds the supported lookup buffer''
      else Inr (min (buffer * 2) MaximumLookupBytes))"

text \<open>
  The loop all lookups share: a larger buffer until the reply is not \<open>ERANGE\<close>; \<open>None\<close> is a missing
  record. The code starts with \<open>InitialLookupBytes\<close>; only an empty buffer would not grow, and that
  case is closed with the error of the size limit so that the recursion is total.
\<close>

function nss_lookup :: "(nat \<Rightarrow> 'a nss_reply) \<Rightarrow> (string \<Rightarrow> string) \<Rightarrow> nat \<Rightarrow> string + 'a option" where
  "nss_lookup ask failure buffer =
     (case ask buffer of
        NssRange \<Rightarrow>
          (case growLookupBuffer buffer of
             Inl error \<Rightarrow> Inl error
           | Inr larger \<Rightarrow> if larger \<le> buffer then Inl ''NSS record exceeds the supported lookup buffer''
               else nss_lookup ask failure larger)
      | NssError reason \<Rightarrow> Inl (failure reason)
      | NssMissing \<Rightarrow> Inr None
      | NssFound record \<Rightarrow> Inr (Some record))"
  by pat_completeness auto

termination
  by (relation "measure (\<lambda>(ask, failure, buffer). MaximumLookupBytes - buffer)")
     (auto simp: growLookupBuffer_def split: if_splits)

declare nss_lookup.simps [simp del]

record PamEffectiveGroupMembership =
  groupExists :: bool
  groupId :: nat
  member_users :: "string list"

record PamUserIdentity =
  id_canonicalName :: string
  id_uid :: nat
  primaryGroup :: nat

definition emptyMembership :: PamEffectiveGroupMembership where
  "emptyMembership = \<lparr> groupExists = False, groupId = 0, member_users = [] \<rparr>"

definition lookupGroup :: "nss \<Rightarrow> string \<Rightarrow> string + PamEffectiveGroupMembership \<times> string list" where
  "lookupGroup db name =
     (case nss_lookup (getgrnam_r db name)
         (\<lambda>reason. ''NSS group lookup failed for '' @ name @ '': '' @ reason) InitialLookupBytes of
        Inl error \<Rightarrow> Inl error
      | Inr None \<Rightarrow> Inr (emptyMembership, [])
      | Inr (Some g) \<Rightarrow>
          Inr (emptyMembership\<lparr>groupExists := True, groupId := gr_gid g\<rparr>, sort (remdups (gr_mem g))))"

definition lookupUser :: "nss \<Rightarrow> string \<Rightarrow> string + PamUserIdentity" where
  "lookupUser db name =
     (case nss_lookup (getpwnam_r db name)
         (\<lambda>reason. ''NSS user lookup failed for '' @ name @ '': '' @ reason) InitialLookupBytes of
        Inl error \<Rightarrow> Inl error
      | Inr r \<Rightarrow>
          (case Option.bind r (\<lambda>u. map_option (\<lambda>n. (n, u)) (pw_name u)) of
             None \<Rightarrow> Inl (''NSS identity disappeared during verification: '' @ name)
           | Some (n, u) \<Rightarrow>
               Inr \<lparr> id_canonicalName = n, id_uid = pw_uid u, primaryGroup = pw_gid u \<rparr>))"

text \<open>The list of groups, asked for with room for more entries until it fits.\<close>

function group_list_contains :: "nss \<Rightarrow> string \<Rightarrow> nat \<Rightarrow> nat \<Rightarrow> nat \<Rightarrow> string + bool" where
  "group_list_contains db user primary target count =
     (case getgrouplist db user primary count of
        GroupList groups \<Rightarrow> Inr (target \<in> set groups)
      | GroupCount wanted \<Rightarrow>
          if wanted \<le> count \<or> wanted > MaximumGroupCount
          then Inl (''NSS supplementary-group lookup is incomplete for '' @ user)
          else group_list_contains db user primary target wanted)"
  by pat_completeness auto

termination
  by (relation "measure (\<lambda>(db, user, primary, target, count). MaximumGroupCount - count)") auto

declare group_list_contains.simps [simp del]

definition getGroupListContains :: "nss \<Rightarrow> string \<Rightarrow> nat \<Rightarrow> nat \<Rightarrow> string + bool" where
  "getGroupListContains db user primary target = group_list_contains db user primary target 32"

definition resolvePamUserIdentity :: "nss \<Rightarrow> string \<Rightarrow> string + PamUserIdentity" where
  "resolvePamUserIdentity db name = lookupUser db name"

definition isPamUserMemberOfGroup :: "nss \<Rightarrow> PamUserIdentity \<Rightarrow> string \<Rightarrow> string + bool" where
  "isPamUserMemberOfGroup db identity groupName =
     (case lookupGroup db groupName of
        Inl error \<Rightarrow> Inl error
      | Inr (membership, textualMembers) \<Rightarrow>
          if \<not> groupExists membership then Inl ''recovery group is unavailable''
          else if primaryGroup identity = groupId membership \<or>
                  id_canonicalName identity \<in> set textualMembers
          then Inr True
          else getGroupListContains db (id_canonicalName identity) (primaryGroup identity)
                 (groupId membership))"

section \<open>The decision\<close>

record PamAccessContext =
  ctx_user :: string
  ctx_service :: string
  remoteHost :: string

datatype AccessGateDisposition = Neutral | Pass | Deny

record AccessGateDecision =
  disposition :: AccessGateDisposition
  gate_diagnostic :: string

record IncidentAccessGateConfig =
  controlledServices :: "string list"
  trustedLocalRootServices :: "string list"
  recoveryGroup :: string

text \<open>The injected functions; an empty \<open>resolveMode\<close> gives the default result.\<close>

record 's AccessGateDependencies =
  resolveIdentity :: "string \<Rightarrow> ('s, string + PamUserIdentity) state"
  recoveryEnabled :: "('s, bool \<times> string) state"
  groupMembership :: "PamUserIdentity \<Rightarrow> string \<Rightarrow> ('s, string + bool) state"
  requestDaemon :: "('s, IncidentAccessReply) state"
  resolveMode :: "('s, IncidentResponseModeResult) state option"

definition gate_decision :: "AccessGateDisposition \<Rightarrow> string \<Rightarrow> AccessGateDecision" where
  "gate_decision d msg = \<lparr> disposition = d, gate_diagnostic = msg \<rparr>"

definition ask_daemon :: "'s AccessGateDependencies \<Rightarrow> ('s, AccessGateDecision) state" where
  "ask_daemon deps = do {
     reply \<leftarrow> requestDaemon deps;
     State_Monad.return
       (gate_decision (if reply_allowed reply then Pass else Deny) (reply_diagnostic reply))
   }"

definition try_recovery ::
    "IncidentAccessGateConfig \<Rightarrow> 's AccessGateDependencies \<Rightarrow> PamUserIdentity \<Rightarrow>
     ('s, AccessGateDecision) state" where
  "try_recovery config deps identity = do {
     (enabled, _) \<leftarrow> recoveryEnabled deps;
     (if \<not> enabled then ask_daemon deps
      else do {
        m \<leftarrow> groupMembership deps identity (recoveryGroup config);
        (if m = Inr True then State_Monad.return (gate_decision Pass ''fic group recovery'')
         else ask_daemon deps)
      })
   }"

definition decideIncidentAccess ::
    "PamAccessContext \<Rightarrow> IncidentAccessGateConfig \<Rightarrow> 's AccessGateDependencies \<Rightarrow>
     ('s, AccessGateDecision) state" where
  "decideIncidentAccess context config deps = do {
     mode \<leftarrow> (case resolveMode deps of Some m \<Rightarrow> m | None \<Rightarrow> State_Monad.return defaultModeResult);
     (if rm_mode mode \<noteq> ModeActive then State_Monad.return (gate_decision Neutral (rm_diagnostic mode))
      else if ctx_service context \<notin> set (controlledServices config)
      then State_Monad.return (gate_decision Neutral ''service is not controlled'')
      else do {
        proven \<leftarrow> (if ctx_user context = '''' then State_Monad.return (Inl '''')
                   else resolveIdentity deps (ctx_user context));
        (case proven of
           Inl _ \<Rightarrow> ask_daemon deps
         | Inr identity \<Rightarrow>
             if id_uid identity = 0 \<and> remoteHost context = '''' \<and>
                ctx_service context \<in> set (trustedLocalRootServices config)
             then State_Monad.return (gate_decision Pass ''local root recovery'')
             else try_recovery config deps identity)
      })
   }"

definition production_dependencies ::
    "nss \<Rightarrow> (nat \<Rightarrow> group_reply) \<Rightarrow> string \<Rightarrow> nat \<Rightarrow> ipc_result \<Rightarrow> IncidentResponseModeResult \<Rightarrow>
     world AccessGateDependencies" where
  "production_dependencies db getgrnam config_dir api answer mode =
     \<lparr> resolveIdentity = (\<lambda>name. State_Monad.return (resolvePamUserIdentity db name)),
       recoveryEnabled = ficMemberExemptionEnabled getgrnam config_dir,
       groupMembership = (\<lambda>identity name. State_Monad.return (isPamUserMemberOfGroup db identity name)),
       requestDaemon = State_Monad.return (queryPath api answer),
       resolveMode = Some (State_Monad.return mode) \<rparr>"

definition decideProductionIncidentAccess ::
    "nss \<Rightarrow> (nat \<Rightarrow> group_reply) \<Rightarrow> string \<Rightarrow> nat \<Rightarrow> ipc_result \<Rightarrow> IncidentAccessGateConfig \<Rightarrow>
     PamAccessContext \<Rightarrow> IncidentResponseModeResult \<Rightarrow> AccessGateDecision io" where
  "decideProductionIncidentAccess db getgrnam config_dir api answer config context mode =
     decideIncidentAccess context config
       (production_dependencies db getgrnam config_dir api answer mode)"

definition production_access ::
    "nss \<Rightarrow> (nat \<Rightarrow> group_reply) \<Rightarrow> string \<Rightarrow> nat \<Rightarrow> ipc_result \<Rightarrow> IncidentAccessGateConfig \<Rightarrow>
     PamAccessContext \<Rightarrow> AccessGateDecision io" where
  "production_access db getgrnam config_dir api answer config context = do {
     mode \<leftarrow> mode_production getgrnam config_dir;
     decideProductionIncidentAccess db getgrnam config_dir api answer config context mode
   }"

definition isProductionControlledIncidentService :: "IncidentAccessGateConfig \<Rightarrow> string \<Rightarrow> bool" where
  "isProductionControlledIncidentService config service \<longleftrightarrow> service \<in> set (controlledServices config)"

section \<open>Changes of the response mode\<close>

text \<open>The module name of a request is replaced by the one the registry resolves it to.\<close>

definition canonicalizePolicyRequest :: "(string \<Rightarrow> string) \<Rightarrow> json \<Rightarrow> exn + json" where
  "canonicalizePolicyRequest resolveModule j =
     (case json_member ''module'' j of
        None \<Rightarrow> Inr j
      | Some m \<Rightarrow>
          (case json_get_string m of
             None \<Rightarrow> Inl (RuntimeError ''type must be string'')
           | Some s \<Rightarrow>
               Inr (case j of JObject ms \<Rightarrow> JObject (omap_assign ''module'' (JString (resolveModule s)) ms)
                    | _ \<Rightarrow> j)))"

definition managedModeMutationMayActivate ::
    "string \<Rightarrow> string \<Rightarrow> string \<Rightarrow> string \<Rightarrow> bool \<Rightarrow> string \<Rightarrow> bool" where
  "managedModeMutationMayActivate command module policy requestedValue currentlyEnabled currentValue \<longleftrightarrow>
     (if module \<noteq> ''GLOBAL'' \<or> policy \<noteq> ''incident_response_mode'' then False
      else if command = ''set_policy_value'' then currentlyEnabled \<and> requestedValue = ''ACTIVE''
      else if command = ''enable_policy'' then currentValue = ''ACTIVE''
      else False)"

text \<open>\<open>block\<close> gives the error of a failed preflight.\<close>

definition runGuardedModeMutation ::
    "bool \<Rightarrow> ('s, string option) state \<Rightarrow> ('s, 'a) state \<Rightarrow> (string \<Rightarrow> ('s, 'a) state) \<Rightarrow> ('s, 'a) state" where
  "runGuardedModeMutation enteringActive block mutate onBlockFailure =
     (if enteringActive then do {
        failed \<leftarrow> block;
        (case failed of Some error \<Rightarrow> onBlockFailure error | None \<Rightarrow> mutate)
      } else mutate)"

section \<open>Notification levels\<close>

datatype notifyLevel = NoNotify | LevelInfo | LevelWarn | LevelError | LevelFatal

primrec incidentNotificationLevel :: "incident_severity \<Rightarrow> notifyLevel" where
  "incidentNotificationLevel Unlocked = LevelInfo"
| "incidentNotificationLevel Soft = LevelWarn"
| "incidentNotificationLevel Standard = LevelWarn"
| "incidentNotificationLevel Hard = LevelError"
| "incidentNotificationLevel Isolate = LevelFatal"

end
