(* ===== verification/LoginGate.thy ===== *)
theory LoginGate
  imports ControllerContract AccessGate
begin

text \<open>
  The login path from end to end: the daemon's access status (\<open>currentAccessStatus\<close> in \<open>main.cpp\<close>),
  its delivery over the socket and the decision of the PAM module. The socket and the JSON text between
  the two processes are outside the sources; a delivery is a function from the sent object to the
  client's result, which may be lost and otherwise has the members that were sent.
\<close>

section \<open>The daemon's answer\<close>

definition severity_text :: "incident_severity \<Rightarrow> ('e, string) ctl" where
  "severity_text s = State_Monad.return (incidentSeverityToken s)"

definition currentAccessStatus ::
    "'e IncidentController \<Rightarrow> DaemonReadinessState \<Rightarrow> ('e, AccessGateStatus) ctl" where
  "currentAccessStatus c readiness =
     ebind (controller_status c) (\<lambda>status.
     ebind (severity_text (status_severity status)) (\<lambda>severity.
       let value = \<lparr> g_state = daemonReadinessToken readiness,
             g_mode = incidentResponseModeToken (rm_mode (responseMode status)), g_severity = severity,
             modeProven = rm_proven (responseMode status), g_stateProven = stateProven status,
             g_provenance = incidentProvenanceToken (status_provenance status), loginAllowed = False \<rparr>
       in done_with (value\<lparr>loginAllowed := computedLoginAllowed value\<rparr>)))"

text \<open>What a delivery keeps of the object that was sent: its strings and its booleans.\<close>

definition delivers :: "(json \<Rightarrow> ipc_result) \<Rightarrow> bool" where
  "delivers send \<longleftrightarrow>
     (\<forall>j k. hasResponse (send j) \<longrightarrow>
        at_string (ipc_response (send j)) k = at_string j k \<and> at_bool (ipc_response (send j)) k = at_bool j k)"

text \<open>
  A login that no exemption covers: neither a local root login on a trusted service nor one of a
  member of the recovery group.
\<close>

definition ordinary_login :: "nss \<Rightarrow> IncidentAccessGateConfig \<Rightarrow> PamAccessContext \<Rightarrow> bool" where
  "ordinary_login db config context \<longleftrightarrow>
     (\<forall>identity. resolvePamUserIdentity db (ctx_user context) = Inr identity \<longrightarrow>
        \<not> (id_uid identity = 0 \<and> remoteHost context = '''' \<and>
           ctx_service context \<in> set (trustedLocalRootServices config)) \<and>
        isPamUserMemberOfGroup db identity (recoveryGroup config) \<noteq> Inr True)"

section \<open>The decision\<close>

lemma gate_asks_daemon:
  assumes "rm_mode mode = ModeActive" "ctx_service context \<in> set (controlledServices config)"
    and "ordinary_login db config context"
  shows "disposition (fst (run_state
     (decideProductionIncidentAccess db getgrnam config_dir api answer config context mode) w)) =
     (if reply_allowed (queryPath api answer) then Pass else Deny)"
proof -
  have ask: "disposition (fst (run_state (ask_daemon (production_dependencies db getgrnam config_dir api answer mode)) v)) =
      (if reply_allowed (queryPath api answer) then Pass else Deny)" for v
    by (simp add: ask_daemon_def production_dependencies_def gate_decision_def State_Monad.bind_def)
  have recovery: "disposition (fst (run_state
      (try_recovery config (production_dependencies db getgrnam config_dir api answer mode) identity) v)) =
      (if reply_allowed (queryPath api answer) then Pass else Deny)"
    if "isPamUserMemberOfGroup db identity (recoveryGroup config) \<noteq> Inr True" for identity v
    using that ask unfolding try_recovery_def
    by (simp add: State_Monad.bind_def production_dependencies_def[of db] split: prod.split)
  show ?thesis
    using assms ask recovery
    unfolding decideProductionIncidentAccess_def decideIncidentAccess_def ordinary_login_def
    by (auto simp: State_Monad.bind_def production_dependencies_def[of db] split: sum.split)
qed

lemma allowed_reply:
  assumes "delivers send" "reply_allowed (queryPath api (send (serializeAccessGateStatus api status)))"
  shows "modeProven status \<and> (g_mode status \<noteq> ''ACTIVE'' \<or>
     g_state status = ''READY'' \<and> g_stateProven status \<and> g_severity status \<in> {''UNLOCKED'', ''SOFT''})"
proof -
  let ?j = "serializeAccessGateStatus api status" and ?r = "ipc_response (send (serializeAccessGateStatus api status))"
  have has: "hasResponse (send ?j)" using assms(2) by (auto simp: queryPath_def split: if_splits)
  then obtain s where s: "accessFields api ?r = Some s" "loginAllowed s"
    using assms(2)
    by (auto simp: queryPath_def parseAccessGateStatus_def split: sum.splits option.splits if_splits)
  have kept: "at_string ?r k = at_string ?j k" "at_bool ?r k = at_bool ?j k" for k
    using assms(1) has by (simp_all add: delivers_def)
  have sent: "at_string ?j ''daemon_state'' = Some (g_state status)"
    "at_string ?j ''response_mode'' = Some (g_mode status)"
    "at_string ?j ''severity'' = Some (g_severity status)"
    "at_bool ?j ''response_mode_proven'' = Some (modeProven status)"
    "at_bool ?j ''persistent_state_proven'' = Some (g_stateProven status)"
    by (simp_all add: serializeAccessGateStatus_def access_members_def at_string_def at_bool_def
        json_member_object json_get_string_def json_get_bool_def)
  have "g_state s = g_state status" "g_mode s = g_mode status" "g_severity s = g_severity status"
    "modeProven s = modeProven status" "g_stateProven s = g_stateProven status" "validate_status s"
    using s(1) unfolding accessFields_def kept sent
    by (auto split: Option.bind_splits if_splits simp: Let_def)
  then show ?thesis using s(2) by (auto simp: validate_status_def computedLoginAllowed_def)
qed

lemma wp_access_status:
  assumes "wired c" "quiet (m_world m)" "store_at (stateStore c) d (fs (m_world m))"
  shows "wp (currentAccessStatus c readiness) (\<lambda>r _. \<exists>status. r = Inr status \<and>
     g_severity status \<in> severity_token ` {current (stateStore c) d (fs (m_world m)), Isolate}) m"
proof -
  obtain st m' where run: "run_state (controller_status c) m = (Inr st, m')" using status_returns by blast
  then have "status_severity st \<in> {current (stateStore c) d (fs (m_world m)), Isolate}"
    using wpD[OF wp_status[OF assms] run] by simp
  then have "wp (controller_status c) (\<lambda>r _. \<exists>st. r = Inr st \<and>
      status_severity st \<in> {current (stateStore c) d (fs (m_world m)), Isolate}) m"
    using run by (intro wpI) auto
  then show ?thesis
    unfolding currentAccessStatus_def wp_ebind
    by (rule wp_mono)
       (auto simp: severity_text_def incidentSeverityToken_total Let_def wp_simps split: sum.split)
qed

text \<open>
  C5. An incident keeps ordinary users out: once all that the state file can stand for is at least
  \<open>STANDARD\<close>, then after any sequence of raises, reconciliations, daemon crashes and power losses, while
  the response mode is \<open>ACTIVE\<close>, the daemon always has a status to answer with, and the PAM module
  refuses every login on a controlled service that no exemption covers, whatever the readiness of the
  daemon, whatever faults the daemon's reads meet, and even when the answer is lost on its way.
\<close>

theorem incident_denies_login:
  assumes "wired c" "store_at (stateStore c) d f"
    and "\<forall>x \<in> crash_severities (stateStore c) f (store_entry (stateStore c) d). Standard \<le> x"
    and "(daemon_step c)\<^sup>*\<^sup>* f (fs (m_world m))" "quiet (m_world m)"
    and "delivers send" "ctx_service context \<in> set (controlledServices config)"
    and "ordinary_login db config context" "rm_mode mode = ModeActive"
  shows "\<exists>status m'. run_state (currentAccessStatus c readiness) m = (Inr status, m') \<and>
    (g_mode status = ''ACTIVE'' \<longrightarrow>
     disposition (fst (run_state (decideProductionIncidentAccess db getgrnam config_dir api
       (send (serializeAccessGateStatus api status)) config context mode) w)) = Deny)"
proof -
  have start: "wired c \<and> store_at (stateStore c) d f" using assms(1,2) by simp
  have at: "store_at (stateStore c) d (fs (m_world m))"
    using daemon_latch.run_inv[OF assms(4) start] by simp
  have high: "Standard \<le> current (stateStore c) d (fs (m_world m))"
    using daemon_latch.run_floor[OF assms(4) start assms(3)] current_crash[OF at] by blast
  obtain r m' where run: "run_state (currentAccessStatus c readiness) m = (r, m')" by (rule prod.exhaust)
  obtain status where status: "r = Inr status"
    "g_severity status \<in> severity_token ` {current (stateStore c) d (fs (m_world m)), Isolate}"
    using wpD[OF wp_access_status[OF assms(1,5) at] run] by blast
  have "g_severity status \<notin> {''UNLOCKED'', ''SOFT''}"
    using status(2) high
    by (cases "current (stateStore c) d (fs (m_world m))") (auto simp: less_eq_incident_severity_def)
  then have "\<not> reply_allowed (queryPath api (send (serializeAccessGateStatus api status)))"
    if "g_mode status = ''ACTIVE''"
    using allowed_reply[OF assms(6), of api status] that by blast
  then show ?thesis
    using run status(1) gate_asks_daemon[OF assms(9,7,8)] by auto
qed

text \<open>A user who is in no recovery group logs in on a controlled service of a host in an incident.\<close>

definition sample_nss :: nss where
  "sample_nss =
     \<lparr> getgrnam_r = (\<lambda>name n. NssFound \<lparr> gr_gid = 50, gr_mem = [''root''] \<rparr>),
       getpwnam_r = (\<lambda>name n. NssFound \<lparr> pw_name = Some name, pw_uid = 1000, pw_gid = 1000 \<rparr>),
       getgrouplist = (\<lambda>user primary n. GroupList [1000]) \<rparr>"

definition sample_gate :: IncidentAccessGateConfig where
  "sample_gate =
     \<lparr> controlledServices = [''sshd'', ''login''], trustedLocalRootServices = [''login''],
       recoveryGroup = ''fic'' \<rparr>"

definition sample_login :: PamAccessContext where
  "sample_login = \<lparr> ctx_user = ''ann'', ctx_service = ''sshd'', remoteHost = ''10.0.0.7'' \<rparr>"

definition direct :: "json \<Rightarrow> ipc_result" where
  "direct j = \<lparr> hasResponse = True, ipc_response = j, ipc_error = '''', peerPid = 1 \<rparr>"

lemma sample_ordinary: "ordinary_login sample_nss sample_gate sample_login"
  by (simp add: ordinary_login_def resolvePamUserIdentity_def lookupUser_def nss_lookup.simps sample_nss_def
      sample_gate_def sample_login_def isPamUserMemberOfGroup_def lookupGroup_def emptyMembership_def
      getGroupListContains_def group_list_contains.simps)

lemma sample_mode: "gives (currentAccessStatus sample_controller readiness) (\<lambda>s. g_mode s = ''ACTIVE'')"
proof -
  have resolved: "gives (resolve_mode sample_controller) (\<lambda>mode. rm_mode mode = ModeActive)"
    by (simp add: gives_def resolve_mode_def sample_controller_def Let_def catching_def wp_simps
        defaultModeResult_def)
  have seen: "gives (inspect g) P" if "\<And>m. P (g m)" for g P using that by (simp add: gives_def wp_inspect)
  have "gives (controller_status sample_controller) (\<lambda>st. rm_mode (responseMode st) = ModeActive)"
    unfolding controller_status_def by (rule gives_then, rule gives_ebind[OF resolved], rule seen) simp
  then show ?thesis
    unfolding currentAccessStatus_def by (rule gives_ebind) (intro give_intros, simp add: Let_def)
qed

theorem incident_denies_login_witness:
  "\<exists>status m'. run_state (currentAccessStatus sample_controller Ready)
       (sample_machine (sample_world (Some (serialize Hard)) [calm Normal, calm (Err EIO)])) = (Inr status, m') \<and>
     disposition (fst (run_state (decideProductionIncidentAccess sample_nss (\<lambda>n. GroupMissing) ''/etc/fic'' 1
       (direct (serializeAccessGateStatus 1 status)) sample_gate sample_login defaultModeResult)
       (sample_world None []))) = Deny"
proof -
  let ?m = "sample_machine (sample_world (Some (serialize Hard)) [calm Normal, calm (Err EIO)])"
  have low: "\<forall>x \<in> crash_severities (stateStore sample_controller) (fs (m_world ?m))
      (store_entry (stateStore sample_controller) 5). Standard \<le> x"
    by (simp add: sample_controller_def sample_machine_def Let_def sample_store_entry sample_crash severity_order_defs)
  have q: "quiet (m_world ?m)" by (simp add: quiet_def sample_machine_def sample_world_def)
  have "delivers direct" by (simp add: delivers_def direct_def)
  moreover have "ctx_service sample_login \<in> set (controlledServices sample_gate)"
    by (simp add: sample_login_def sample_gate_def)
  moreover have "rm_mode defaultModeResult = ModeActive" by (simp add: defaultModeResult_def)
  ultimately obtain status m' where run: "run_state (currentAccessStatus sample_controller Ready) ?m = (Inr status, m')"
    "g_mode status = ''ACTIVE'' \<longrightarrow> disposition (fst (run_state (decideProductionIncidentAccess sample_nss
       (\<lambda>n. GroupMissing) ''/etc/fic'' 1 (direct (serializeAccessGateStatus 1 status)) sample_gate sample_login
       defaultModeResult) (sample_world None []))) = Deny"
    using incident_denies_login[OF sample_wired sample_machine_start(2) low rtranclp.rtrancl_refl q _ _ sample_ordinary]
    by blast
  have "g_mode status = ''ACTIVE''"
    using sample_mode[unfolded gives_def, rule_format, THEN wpD, OF run(1)] by simp
  then show ?thesis using run by blast
qed

end
