(* ===== verification/PreLogin.thy ===== *)
theory PreLogin
  imports ReadinessStatus "HOL-Library.Signed_Division"
begin

text \<open>
  The pre-login screen (\<open>fic-prelogin/PreLoginController\<close>, \<open>PreLoginStatusProvider\<close>): a state machine
  that is polled, follows the daemon's startup and hands the display over to the login manager on
  its own only after five seconds of a proven status. What a poll sees of the outside (the answer
  of the daemon, systemd, the clock, the release of the display) is its input.
\<close>

datatype UiState = Waiting | UiStarting | UiApplying | Succeeded | UiFailed | UiDegraded | Unavailable
  | Handoff | PowerAction

datatype Action = ActHandoff | ActReboot | ActPowerOff

primrec uiStateToken :: "UiState \<Rightarrow> string" where
  "uiStateToken Waiting = ''WAITING_FOR_DAEMON''"
| "uiStateToken UiStarting = ''DAEMON_STARTING''"
| "uiStateToken UiApplying = ''STARTUP_APPLYING''"
| "uiStateToken Succeeded = ''STARTUP_SUCCEEDED''"
| "uiStateToken UiFailed = ''STARTUP_FAILED''"
| "uiStateToken UiDegraded = ''DAEMON_DEGRADED''"
| "uiStateToken Unavailable = ''DAEMON_UNAVAILABLE''"
| "uiStateToken Handoff = ''HANDOFF''"
| "uiStateToken PowerAction = ''POWER_ACTION''"

record SystemdStatus =
  sd_available :: bool
  sd_pid :: nat
  sd_active :: string
  sd_sub :: string
  sd_text :: string

record Observation =
  verified :: "PreLoginStatus option"
  o_systemd :: SystemdStatus
  o_error :: string

definition emptyObservation :: Observation where
  "emptyObservation =
     \<lparr> verified = None,
       o_systemd = \<lparr> sd_available = False, sd_pid = 0, sd_active = '''', sd_sub = '''', sd_text = '''' \<rparr>,
       o_error = '''' \<rparr>"

text \<open>\<open>PreLoginStatusProvider::read\<close> on the answer of the daemon and of systemd.\<close>

definition provider_read :: "nat \<Rightarrow> ipc_result \<Rightarrow> SystemdStatus \<Rightarrow> Observation" where
  "provider_read api response systemd =
     (let none = \<lparr> verified = None, o_systemd = systemd, o_error = '''' \<rparr> in
      if \<not> hasResponse response then none\<lparr>o_error := ipc_error response\<rparr>
      else
        (case parsePreLoginStatus api (ipc_response response) of
           Inl error \<Rightarrow> none\<lparr>o_error := error\<rparr>
         | Inr status \<Rightarrow>
             if daemonPid status \<noteq> peerPid response \<or>
                sd_available systemd \<and> int (sd_pid systemd) \<noteq> daemonPid status
             then none\<lparr>o_error := ''daemon instance changed or disagrees with kernel/systemd peer identity''\<rparr>
             else none\<lparr>verified := Some status\<rparr>))"

record PreLoginController =
  c_bootId :: string
  c_error :: string
  observation :: Observation
  countdownStarted :: "int option"
  countdownSeconds :: "int option"
  countdownDaemon :: int
  ui_state :: UiState
  requested :: bool
  finished :: bool
  exitCode :: int

definition newPreLoginController :: "string \<Rightarrow> PreLoginController" where
  "newPreLoginController bootId =
     \<lparr> c_bootId = bootId, c_error = '''', observation = emptyObservation, countdownStarted = None,
       countdownSeconds = None, countdownDaemon = 0, ui_state = Waiting, requested = False,
       finished = False, exitCode = 1 \<rparr>"

text \<open>What the environment answers during one call: \<open>cleanup\<close> and \<open>power\<close> give the error of a failure.\<close>

record poll_input =
  in_status :: Observation
  readyForHandoff :: bool
  in_now :: int
  in_cleanup :: "string option"
  in_power :: "string option"

definition request ::
    "string option \<Rightarrow> string option \<Rightarrow> Action \<Rightarrow> PreLoginController \<Rightarrow> PreLoginController" where
  "request released powered action c =
     (if requested c \<or> finished c then c
      else let c = c\<lparr>requested := True\<rparr> in
        if action \<noteq> ActHandoff \<and> action \<noteq> ActReboot \<and> action \<noteq> ActPowerOff
        then c\<lparr>c_error := ''unsupported local action'', finished := True\<rparr>
        else let c = c\<lparr>ui_state := (if action = ActHandoff then Handoff else PowerAction)\<rparr> in
          (case released of
             Some error \<Rightarrow> c\<lparr>c_error := error, finished := True\<rparr>
           | None \<Rightarrow>
               (case (if action = ActHandoff then None else powered) of
                  Some error \<Rightarrow> c\<lparr>c_error := error, finished := True\<rparr>
                | None \<Rightarrow> c\<lparr>exitCode := 0, finished := True\<rparr>)))"

definition observed_status :: "string \<Rightarrow> Observation \<Rightarrow> Observation" where
  "observed_status bootId obs =
     (case verified obs of
        Some s \<Rightarrow>
          if p_bootId s \<noteq> bootId
          then obs\<lparr>verified := None,
            o_error := ''daemon boot identity does not match the current kernel boot''\<rparr>
          else obs
      | None \<Rightarrow> obs)"

definition shown_state :: "Observation \<Rightarrow> UiState" where
  "shown_state obs =
     (case verified obs of
        Some s \<Rightarrow>
          if g_state (p_access s) = ''DEGRADED'' then UiDegraded
          else if p_completed s \<and> \<not> applyOk s then UiFailed
          else if p_completed s \<and> applyOk s then Succeeded
          else if p_started s then UiApplying
          else UiStarting
      | None \<Rightarrow>
          if sd_available (o_systemd obs) then
            (if sd_active (o_systemd obs) = ''inactive'' then Waiting
             else if sd_active (o_systemd obs) = ''activating''
             then (if sd_text (o_systemd obs) = ''Applying startup policies'' then UiApplying else UiStarting)
             else Unavailable)
          else Unavailable)"

text \<open>The status of an input that makes a poll eligible for an automatic handoff.\<close>

definition auto_eligible :: "string \<Rightarrow> bool \<Rightarrow> Observation \<Rightarrow> PreLoginStatus option" where
  "auto_eligible bootId ready obs =
     (case verified obs of
        Some s \<Rightarrow> if mayAutoHandoff s bootId \<and> ready then Some s else None
      | None \<Rightarrow> None)"

definition poll :: "poll_input \<Rightarrow> PreLoginController \<Rightarrow> PreLoginController" where
  "poll i c =
     (if requested c \<or> finished c then c
      else
        let obs = observed_status (c_bootId c) (in_status i);
            c = c\<lparr>observation := obs, ui_state := shown_state obs\<rparr>
        in case auto_eligible (c_bootId c) (readyForHandoff i) obs of
             None \<Rightarrow> c\<lparr>countdownStarted := None, countdownSeconds := None, countdownDaemon := 0\<rparr>
           | Some s \<Rightarrow>
               let start = (case countdownStarted c of
                              Some t \<Rightarrow> if countdownDaemon c \<noteq> daemonPid s then in_now i else t
                            | None \<Rightarrow> in_now i);
                   c = c\<lparr>countdownStarted := Some start, countdownDaemon := daemonPid s\<rparr>;
                   elapsed = (in_now i - start) sdiv 1000000000
               in if elapsed \<ge> 5
                  then request (in_cleanup i) (in_power i) ActHandoff (c\<lparr>countdownSeconds := None\<rparr>)
                  else c\<lparr>countdownSeconds := Some (5 - elapsed)\<rparr>)"

section \<open>When the screen hands over on its own\<close>

definition eligible_pid :: "string \<Rightarrow> poll_input \<Rightarrow> int option" where
  "eligible_pid boot i =
     map_option daemonPid (auto_eligible boot (readyForHandoff i) (observed_status boot (in_status i)))"

text \<open>Polls that all saw the same eligible daemon, over at least five seconds.\<close>

definition seconds_between :: "int \<Rightarrow> int \<Rightarrow> int" where
  "seconds_between t now = (now - t) sdiv 1000000000"

definition stable_window :: "string \<Rightarrow> poll_input list \<Rightarrow> bool" where
  "stable_window boot win \<longleftrightarrow>
     win \<noteq> [] \<and> (\<exists>p. \<forall>i \<in> set win. eligible_pid boot i = Some p) \<and>
     5 \<le> seconds_between (in_now (hd win)) (in_now (last win))"

text \<open>The countdown started with the first poll of the current run of polls that see one daemon.\<close>

definition counting :: "string \<Rightarrow> poll_input list \<Rightarrow> PreLoginController \<Rightarrow> int \<Rightarrow> bool" where
  "counting boot ins c t \<longleftrightarrow>
     (\<exists>pre win. ins = pre @ win \<and> win \<noteq> [] \<and> in_now (hd win) = t \<and>
        (\<forall>i \<in> set win. eligible_pid boot i = Some (countdownDaemon c)) \<and>
        (pre \<noteq> [] \<longrightarrow> eligible_pid boot (last pre) \<noteq> Some (countdownDaemon c)))"

definition idle_state :: "UiState \<Rightarrow> bool" where
  "idle_state u \<longleftrightarrow> u \<noteq> Handoff \<and> u \<noteq> PowerAction"

definition screen_inv :: "string \<Rightarrow> poll_input list \<Rightarrow> PreLoginController \<Rightarrow> bool" where
  "screen_inv boot ins c \<longleftrightarrow> c_bootId c = boot \<and>
     (if requested c
      then ui_state c = Handoff \<and> (\<exists>pre win rest. ins = pre @ win @ rest \<and> stable_window boot win)
      else \<not> finished c \<and> idle_state (ui_state c) \<and>
        (case countdownStarted c of
           None \<Rightarrow> ins \<noteq> [] \<longrightarrow> eligible_pid boot (last ins) = None
         | Some t \<Rightarrow> counting boot ins c t \<and> seconds_between t (in_now (last ins)) < 5))"

lemma shown_idle: "idle_state (shown_state obs)"
  by (simp add: idle_state_def shown_state_def split: option.split)

lemma request_handoff:
  "\<not> requested c \<Longrightarrow> \<not> finished c \<Longrightarrow>
     requested (request r p ActHandoff c) \<and> ui_state (request r p ActHandoff c) = Handoff \<and>
     c_bootId (request r p ActHandoff c) = c_bootId c"
  by (simp add: request_def Let_def split: option.split)

lemma counting_extend:
  assumes "countdownStarted c = Some t" "counting boot ins c t" "eligible_pid boot i = Some (countdownDaemon c)"
    and "countdownDaemon c' = countdownDaemon c"
  shows "counting boot (ins @ [i]) c' t"
proof -
  obtain pre win where w: "ins = pre @ win" "win \<noteq> []" "in_now (hd win) = t"
    "\<forall>i \<in> set win. eligible_pid boot i = Some (countdownDaemon c)"
    "pre \<noteq> [] \<longrightarrow> eligible_pid boot (last pre) \<noteq> Some (countdownDaemon c)"
    using assms(2) unfolding counting_def by blast
  then show ?thesis
    unfolding counting_def assms(4)
    by (intro exI[of _ pre] exI[of _ "win @ [i]"]) (use assms(3) in auto)
qed

lemma counting_start:
  assumes "eligible_pid boot i = Some p" "countdownDaemon c' = p"
    and "ins \<noteq> [] \<longrightarrow> eligible_pid boot (last ins) \<noteq> Some p"
  shows "counting boot (ins @ [i]) c' (in_now i)"
  unfolding counting_def using assms by (intro exI[of _ ins] exI[of _ "[i]"]) simp

lemma counting_stable:
  assumes "counting boot ins c t" "5 \<le> seconds_between t (in_now (last ins))"
  shows "\<exists>pre win rest. ins = pre @ win @ rest \<and> stable_window boot win"
proof -
  obtain pre win where w: "ins = pre @ win" "win \<noteq> []" "in_now (hd win) = t"
    "\<forall>i \<in> set win. eligible_pid boot i = Some (countdownDaemon c)"
    using assms(1) unfolding counting_def by blast
  then have "stable_window boot win" using assms(2) by (auto simp: stable_window_def)
  with w(1) show ?thesis by (metis append_Nil2)
qed

lemma counting_last:
  "counting boot ins c t \<Longrightarrow> ins \<noteq> [] \<and> eligible_pid boot (last ins) = Some (countdownDaemon c)"
  unfolding counting_def by auto

text \<open>One poll.\<close>

lemma poll_eligible:
  assumes "\<not> requested c" "\<not> finished c" "eligible_pid (c_bootId c) i = Some p"
  defines "start \<equiv> (case countdownStarted c of Some t \<Rightarrow> if countdownDaemon c \<noteq> p then in_now i else t
      | None \<Rightarrow> in_now i)"
  shows "c_bootId (poll i c) = c_bootId c"
    and "if seconds_between start (in_now i) \<ge> 5 then requested (poll i c) \<and> ui_state (poll i c) = Handoff
      else \<not> requested (poll i c) \<and> \<not> finished (poll i c) \<and> idle_state (ui_state (poll i c)) \<and>
        countdownStarted (poll i c) = Some start \<and> countdownDaemon (poll i c) = p"
proof -
  obtain s where s: "auto_eligible (c_bootId c) (readyForHandoff i)
      (observed_status (c_bootId c) (in_status i)) = Some s" "daemonPid s = p"
    using assms(3) by (auto simp: eligible_pid_def)
  let ?c = "c\<lparr>observation := observed_status (c_bootId c) (in_status i),
      ui_state := shown_state (observed_status (c_bootId c) (in_status i)),
      countdownStarted := Some start, countdownDaemon := p\<rparr>"
  have eq: "poll i c = (if seconds_between start (in_now i) \<ge> 5
      then request (in_cleanup i) (in_power i) ActHandoff (?c\<lparr>countdownSeconds := None\<rparr>)
      else ?c\<lparr>countdownSeconds := Some (5 - seconds_between start (in_now i))\<rparr>)"
    using assms(1,2) s
    by (cases "countdownStarted c") (simp_all add: poll_def Let_def start_def seconds_between_def)
  show "c_bootId (poll i c) = c_bootId c"
    using assms(1,2) by (simp add: eq request_handoff)
  show "if seconds_between start (in_now i) \<ge> 5 then requested (poll i c) \<and> ui_state (poll i c) = Handoff
      else \<not> requested (poll i c) \<and> \<not> finished (poll i c) \<and> idle_state (ui_state (poll i c)) \<and>
        countdownStarted (poll i c) = Some start \<and> countdownDaemon (poll i c) = p"
    using assms(1,2) by (simp add: eq request_handoff shown_idle)
qed

lemma poll_ineligible:
  assumes "\<not> requested c" "\<not> finished c" "eligible_pid (c_bootId c) i = None"
  shows "c_bootId (poll i c) = c_bootId c \<and> \<not> requested (poll i c) \<and> \<not> finished (poll i c) \<and>
    idle_state (ui_state (poll i c)) \<and> countdownStarted (poll i c) = None"
  using assms by (simp add: poll_def Let_def eligible_pid_def shown_idle)

lemma screen_inv_poll:
  assumes "screen_inv boot ins c"
  shows "screen_inv boot (ins @ [i]) (poll i c)"
proof (cases "requested c")
  case True
  then have "poll i c = c" by (simp add: poll_def)
  moreover have "\<exists>pre win rest. ins @ [i] = pre @ win @ rest \<and> stable_window boot win"
    using assms True unfolding screen_inv_def by (metis append.assoc)
  ultimately show ?thesis using assms True by (simp add: screen_inv_def)
next
  case open_req: False
  then have c: "c_bootId c = boot" "\<not> finished c" using assms by (simp_all add: screen_inv_def)
  show ?thesis
  proof (cases "eligible_pid boot i")
    case None
    then show ?thesis using poll_ineligible[of c i] open_req c by (simp add: screen_inv_def)
  next
    case (Some p)
    define start where "start = (case countdownStarted c of
        Some t \<Rightarrow> if countdownDaemon c \<noteq> p then in_now i else t | None \<Rightarrow> in_now i)"
    note step = poll_eligible[OF open_req c(2), of i p, unfolded c(1), OF Some, folded start_def]
    have counts: "counting boot (ins @ [i]) c' start" if "countdownDaemon c' = p" for c'
    proof (cases "countdownStarted c = Some start \<and> countdownDaemon c = p")
      case True
      then show ?thesis
        using counting_extend[of c start boot ins i c'] assms open_req Some that by (simp add: screen_inv_def)
    next
      case False
      have "ins \<noteq> [] \<longrightarrow> eligible_pid boot (last ins) \<noteq> Some p"
        using assms open_req False counting_last[of boot ins c]
        by (auto simp: screen_inv_def start_def split: option.splits)
      moreover have "start = in_now i" using False by (auto simp: start_def split: option.splits)
      ultimately show ?thesis using counting_start[OF Some that, of ins] by simp
    qed
    show ?thesis
    proof (cases "seconds_between start (in_now i) \<ge> 5")
      case True
      have "\<exists>pre win rest. ins @ [i] = pre @ win @ rest \<and> stable_window boot win"
        by (rule counting_stable[OF counts[of "c\<lparr>countdownDaemon := p\<rparr>"]]) (simp_all add: True)
      then show ?thesis using step True c(1) by (simp add: screen_inv_def)
    next
      case False
      then show ?thesis using step counts[of "poll i c"] c(1) by (simp add: screen_inv_def)
    qed
  qed
qed

lemma screen_inv_run: "screen_inv boot ins (fold poll ins (newPreLoginController boot))"
proof (induction ins rule: rev_induct)
  case Nil
  show ?case by (simp add: screen_inv_def newPreLoginController_def idle_state_def)
next
  case (snoc i ins)
  then show ?case using screen_inv_poll by simp
qed

lemma seconds_mono: "s \<le> t \<Longrightarrow> 5 \<le> seconds_between t now \<Longrightarrow> 5 \<le> seconds_between s now"
proof -
  assume "s \<le> t" and long: "5 \<le> seconds_between t now"
  have "0 \<le> now - t"
  proof (rule ccontr)
    assume "\<not> 0 \<le> now - t"
    then have "seconds_between t now \<le> 0"
      by (simp add: seconds_between_def signed_divide_int_def sgn_if mult_nonpos_nonneg)
    then show False using long by simp
  qed
  then have "(now - t) div 1000000000 \<le> (now - s) div 1000000000" using \<open>s \<le> t\<close> by (intro zdiv_mono1) simp_all
  then show ?thesis
    using long \<open>0 \<le> now - t\<close> \<open>s \<le> t\<close>
    by (simp add: seconds_between_def signed_divide_int_def sgn_if split: if_splits)
qed

lemma window_not_stable:
  assumes "counting boot (pre @ win) c t" "seconds_between t (in_now (last (pre @ win))) < 5"
    and "sorted (map in_now (pre @ win))"
  shows "\<not> stable_window boot win"
proof
  assume stable: "stable_window boot win"
  then have win: "win \<noteq> []" "5 \<le> seconds_between (in_now (hd win)) (in_now (last win))"
    by (simp_all add: stable_window_def)
  obtain pre' win' where w: "pre @ win = pre' @ win'" "win' \<noteq> []" "in_now (hd win') = t"
    "pre' \<noteq> [] \<longrightarrow> eligible_pid boot (last pre') \<noteq> Some (countdownDaemon c)"
    using assms(1) unfolding counting_def by blast
  have same: "\<forall>i \<in> set win. eligible_pid boot i = Some (countdownDaemon c)"
    using counting_last[OF assms(1)] stable win(1) by (auto simp: stable_window_def)
  have "t \<le> in_now (hd win)"
    using w(1) unfolding append_eq_append_conv2
  proof (elim exE disjE conjE)
    fix us assume us: "pre = pre' @ us" "us @ win = win'"
    show "t \<le> in_now (hd win)"
      using assms(3) us w(3) win(1) by (cases us; cases win) (auto simp: sorted_append)
  next
    fix us assume us: "pre @ us = pre'" "win = us @ win'"
    then have "us = []" using w(4) same by (cases us rule: rev_cases) auto
    then show "t \<le> in_now (hd win)" using us w(3) by simp
  qed
  from seconds_mono[OF this win(2)] assms(2) win(1) show False by simp
qed

lemma requested_stays: "requested c \<Longrightarrow> fold poll ins c = c"
  by (induction ins) (simp_all add: poll_def)

text \<open>
  C19. Without a local request the screen hands over exactly when there were polls over at least five
  seconds that all saw a verified status of one and the same daemon, of the current boot, with a
  completed and successful startup, in a proven response mode and with logins allowed. Every poll
  that sees anything else starts the countdown again.
\<close>

theorem handoff_exact:
  assumes "sorted (map in_now ins)"
  shows "ui_state (fold poll ins (newPreLoginController boot)) = Handoff \<longleftrightarrow>
         (\<exists>pre win rest. ins = pre @ win @ rest \<and> stable_window boot win)"
proof
  let ?c = "fold poll ins (newPreLoginController boot)"
  assume "ui_state ?c = Handoff"
  then show "\<exists>pre win rest. ins = pre @ win @ rest \<and> stable_window boot win"
    using screen_inv_run[of boot ins] by (auto simp: screen_inv_def idle_state_def split: if_splits)
next
  assume "\<exists>pre win rest. ins = pre @ win @ rest \<and> stable_window boot win"
  then obtain pre win rest where ins: "ins = pre @ win @ rest" "stable_window boot win" by blast
  let ?c = "fold poll (pre @ win) (newPreLoginController boot)"
  have inv: "screen_inv boot (pre @ win) ?c" by (rule screen_inv_run)
  have "requested ?c"
  proof (rule ccontr)
    assume no: "\<not> requested ?c"
    have "pre @ win \<noteq> []" "eligible_pid boot (last (pre @ win)) \<noteq> None"
      using ins(2) by (auto simp: stable_window_def)
    then obtain t where "counting boot (pre @ win) ?c t" "seconds_between t (in_now (last (pre @ win))) < 5"
      using inv no by (auto simp: screen_inv_def split: option.splits)
    moreover have "sorted (map in_now (pre @ win))" using assms ins(1) by (simp add: sorted_append)
    ultimately show False using window_not_stable ins(2) by blast
  qed
  then show "ui_state (fold poll ins (newPreLoginController boot)) = Handoff"
    using requested_stays[of ?c rest] inv ins(1) by (simp add: screen_inv_def)
qed

definition ready_status :: PreLoginStatus where
  "ready_status =
     \<lparr> p_access = \<lparr> g_state = ''READY'', g_mode = ''ACTIVE'', g_severity = ''UNLOCKED'', modeProven = True,
         g_stateProven = True, g_provenance = ''PROVEN'', loginAllowed = True \<rparr>,
       p_started = True, p_completed = True, applyOk = True, lifecycleCompleted = True, p_diagnostic = '''',
       p_bootId = ''01234567-89ab-cdef-0123-456789abcdef'', daemonPid = 41 \<rparr>"

definition ready_input :: "int \<Rightarrow> poll_input" where
  "ready_input t =
     \<lparr> in_status = emptyObservation\<lparr>verified := Some ready_status\<rparr>, readyForHandoff = True, in_now = t,
       in_cleanup = None, in_power = None \<rparr>"

theorem handoff_exact_witness:
  "ui_state (fold poll [ready_input 0, ready_input 3000000000, ready_input 5000000000]
     (newPreLoginController ''01234567-89ab-cdef-0123-456789abcdef'')) = Handoff"
proof -
  let ?boot = "''01234567-89ab-cdef-0123-456789abcdef''"
  let ?ins = "[ready_input 0, ready_input 3000000000, ready_input 5000000000]"
  have "mayAutoHandoff ready_status ?boot" by code_simp
  then have "eligible_pid ?boot (ready_input t) = Some 41" for t
    by (simp add: eligible_pid_def auto_eligible_def observed_status_def ready_input_def) (simp add: ready_status_def)
  then have "stable_window ?boot ?ins"
    by (simp add: stable_window_def seconds_between_def ready_input_def signed_divide_int_def)
  moreover have "sorted (map in_now ?ins)" by (simp add: ready_input_def)
  ultimately show ?thesis
    using handoff_exact[of ?ins ?boot] by (metis append_Nil append_Nil2)
qed

end
