(* ===== verification/PamCatalog.thy ===== *)
theory PamCatalog
  imports FileSystem Logging
begin

text \<open>
  The vocabulary of the PAM part (\<open>platform/PlatformProfile.h\<close>), the catalogue of PAM providers
  (\<open>platform/PamProviderMetadata.cpp\<close>, \<open>pam/PamProviderCatalog\<close>), the lookups in the platform
  profile (\<open>pam/PamPlatformComposition\<close>) and the codec between policy values and the values of
  the provider's own configuration (\<open>pam/PamOptionValueCodec\<close>). The records keep the fields that
  the modelled code reads.
\<close>

section \<open>Platform profile\<close>

datatype PamTrustedAuthenticationBypassReason = AlreadyPrivilegedCaller | ExplicitPasswordlessLogin

record PamTrustedAuthenticationBypassRule =
  bypass_service :: string
  bypass_module :: string
  bypass_reason :: PamTrustedAuthenticationBypassReason
  bypass_control :: string
  bypass_arguments :: "string list"
  bypass_source :: "string option"

datatype PamTrustedAuthenticationExclusionReason = ExplicitSubjectExclusion

record PamTrustedAuthenticationExclusionRule =
  exclusion_service :: string
  exclusion_module :: string
  exclusion_reason :: PamTrustedAuthenticationExclusionReason
  excludedUser :: string
  exclusion_control :: string
  exclusion_arguments :: "string list"
  exclusion_source :: "string option"
  enforcedControl :: string

datatype PamCapability = AuthenticationLockout | PasswordQuality | PasswordHistory | IncidentAccessGate

datatype PamProviderKind =
  PamFaillock | PamTally2 | PamTally | PamPwquality | PamPasswdqc | PamCracklib | PamPwhistory
| PamUnixHistory | FicIncidentAccess

datatype PamScope = EffectiveAuthenticationStack | EffectivePasswordStack | LocalPasswordChange

datatype PamConfigGrammar = KeyValue | PasswdqcGrammar

datatype PamTopologyStrategyKind = StaticVerifyOnly | PamAuthUpdate | AltTcbManaged

datatype PamFaillockStrategy = PreauthRequisite | PreauthRequired | Authsucc

datatype PamExplicitConfigSemantics = UnsupportedExplicit | ReplacesNativeTopology

datatype PamIdentitySubjectScope = AllPamSubjects | LocalUsersOnly

record PamProviderConfigTopology =
  primaryPath :: "string option"
  dropInDirectories :: "string list"
  explicitConfig :: PamExplicitConfigSemantics

datatype PamPolicyFeature =
  PasswordMinLength | PasswordMinClasses | PasswordCheckUsername | PasswordCheckGecos
| PasswordQualityEnforceForRoot | PasswordMinChangedCharacters | PasswordMinLowercase
| PasswordMinUppercase | PasswordMinDigits | PasswordMinOther | PasswdqcStrengthThresholds
| PasswdqcPassphraseWords | PasswdqcMatchLength | PasswdqcSimilarPassword | PasswdqcRetryCount
| PasswordHistoryDepth | PasswordHistoryEnforceForRoot | FailedAuthenticationAttempts
| FailedAuthenticationCountingPeriod | FailedAuthenticationEnforceForRoot
| FailedAuthenticationUnlockTime

datatype PamPolicySupport =
  PolicyUnsupported | PolicySupported | RequiresTopologyActivation | PolicyReadOnly

record PamScopeConfig =
  scope_kind :: PamScope
  scope_services :: "string list"

datatype PamCapabilityConfigurationMode = ProviderConfigFile | ModuleArguments

record PamFaillockStrategyActivation =
  activation_strategy :: PamFaillockStrategy
  strategy_identifiers :: "string list"

record PamCapabilityConfig =
  cap_capability :: PamCapability
  cap_provider :: PamProviderKind
  cap_scope :: PamScope
  cap_configPath :: string
  cap_topology :: PamTopologyStrategyKind
  cap_configTopology :: "PamProviderConfigTopology option"
  cap_subjectScope :: PamIdentitySubjectScope
  cap_configurationMode :: PamCapabilityConfigurationMode
  cap_activationIdentifiers :: "string list"
  cap_strategyActivations :: "PamFaillockStrategyActivation list"
  pwhistoryRemember :: bool
  pwhistoryEnforceForRoot :: bool

record PamPlatformConfig =
  pam_scopes :: "PamScopeConfig list"
  pam_capabilities :: "PamCapabilityConfig list"
  trustedAuthenticationBypasses :: "PamTrustedAuthenticationBypassRule list"
  trustedAuthenticationExclusions :: "PamTrustedAuthenticationExclusionRule list"
  passwordTopologyRuntimeMutable :: bool

definition capabilityConfig :: "PamPlatformConfig \<Rightarrow> PamCapability \<Rightarrow> PamCapabilityConfig option" where
  "capabilityConfig platform capability =
     List.find (\<lambda>candidate. cap_capability candidate = capability) (pam_capabilities platform)"

definition scopeConfig :: "PamPlatformConfig \<Rightarrow> PamScope \<Rightarrow> PamScopeConfig option" where
  "scopeConfig platform scope =
     List.find (\<lambda>candidate. scope_kind candidate = scope) (pam_scopes platform)"

definition resolveCapability ::
    "PamPlatformConfig \<Rightarrow> PamCapability \<Rightarrow> string + PamCapabilityConfig \<times> string list" where
  "resolveCapability platform capability =
     (case capabilityConfig platform capability of
        None \<Rightarrow> Inl ''PAM capability is not configured for this platform''
      | Some c \<Rightarrow>
          (case scopeConfig platform (cap_scope c) of
             None \<Rightarrow> Inl ''PAM capability references an unavailable or empty scope''
           | Some scope \<Rightarrow>
               if scope_services scope = []
               then Inl ''PAM capability references an unavailable or empty scope''
               else Inr (c, scope_services scope)))"

definition add_absent :: "string \<Rightarrow> string list \<Rightarrow> string list" where
  "add_absent x ids = (if x \<in> set ids then ids else ids @ [x])"

definition activationIdentifiers :: "PamCapabilityConfig \<Rightarrow> string list" where
  "activationIdentifiers c =
     fold add_absent (cap_activationIdentifiers c)
       (fold (\<lambda>activation. fold add_absent (strategy_identifiers activation)) (cap_strategyActivations c) [])"

section \<open>Provider catalogue\<close>

datatype PamNativeOptionSyntax = AssignmentSyntax | FlagSyntax

datatype PamNativeValueEncoding = DirectValue | YesNoInteger | MinimumCredit | PasswdqcEnforce

datatype PamExternalConfigMode = NoExternalConfig | OptionalConfig | RequiredConfig

datatype PamProviderSemanticBackendKind = GenericBackend | PwqualityBackend | PasswdqcBackend | PwhistoryBackend

record PamProviderPolicyBinding =
  feature :: PamPolicyFeature
  option_name :: string
  option_syntax :: PamNativeOptionSyntax
  option_encoding :: PamNativeValueEncoding
  conflictingOptionsWhenDisabled :: "string list"

record PamProviderDescriptor =
  desc_kind :: PamProviderKind
  desc_capability :: PamCapability
  desc_name :: string
  desc_moduleName :: string
  externalConfigArgument :: string
  externalConfigMode :: PamExternalConfigMode
  defaultConfigTopology :: PamProviderConfigTopology
  desc_grammar :: PamConfigGrammar
  semanticBackend :: PamProviderSemanticBackendKind
  desc_policies :: "PamProviderPolicyBinding list"

definition no_config :: PamProviderConfigTopology where
  "no_config = \<lparr> primaryPath = None, dropInDirectories = [], explicitConfig = UnsupportedExplicit \<rparr>"

definition primaryConfig ::
    "string \<Rightarrow> string list \<Rightarrow> PamExplicitConfigSemantics \<Rightarrow> PamProviderConfigTopology" where
  "primaryConfig path dropIns semantics =
     \<lparr> primaryPath = Some path, dropInDirectories = dropIns, explicitConfig = semantics \<rparr>"

definition assignment ::
    "PamPolicyFeature \<Rightarrow> string \<Rightarrow> PamNativeValueEncoding \<Rightarrow> PamProviderPolicyBinding" where
  "assignment f opt encoding =
     \<lparr> feature = f, option_name = opt, option_syntax = AssignmentSyntax, option_encoding = encoding,
       conflictingOptionsWhenDisabled = [] \<rparr>"

definition flag_binding ::
    "PamPolicyFeature \<Rightarrow> string \<Rightarrow> string list \<Rightarrow> PamProviderPolicyBinding" where
  "flag_binding f opt conflicts =
     \<lparr> feature = f, option_name = opt, option_syntax = FlagSyntax, option_encoding = DirectValue,
       conflictingOptionsWhenDisabled = conflicts \<rparr>"

definition bare_descriptor ::
    "PamProviderKind \<Rightarrow> PamCapability \<Rightarrow> string \<Rightarrow> string \<Rightarrow> PamProviderDescriptor" where
  "bare_descriptor kind capability name module =
     \<lparr> desc_kind = kind, desc_capability = capability, desc_name = name, desc_moduleName = module,
       externalConfigArgument = '''', externalConfigMode = NoExternalConfig,
       defaultConfigTopology = no_config, desc_grammar = KeyValue, semanticBackend = GenericBackend,
       desc_policies = [] \<rparr>"

definition pamProviderDescriptors :: "PamProviderDescriptor list" where
  "pamProviderDescriptors =
     [\<lparr> desc_kind = PamFaillock, desc_capability = AuthenticationLockout, desc_name = ''pam_faillock'',
        desc_moduleName = ''pam_faillock.so'', externalConfigArgument = ''conf'',
        externalConfigMode = OptionalConfig,
        defaultConfigTopology = primaryConfig ''/etc/security/faillock.conf'' [] ReplacesNativeTopology,
        desc_grammar = KeyValue, semanticBackend = GenericBackend,
        desc_policies =
          [assignment FailedAuthenticationAttempts ''deny'' DirectValue,
           assignment FailedAuthenticationCountingPeriod ''fail_interval'' DirectValue,
           flag_binding FailedAuthenticationEnforceForRoot ''even_deny_root'' [''root_unlock_time''],
           assignment FailedAuthenticationUnlockTime ''unlock_time'' DirectValue] \<rparr>,
      \<lparr> desc_kind = PamPwquality, desc_capability = PasswordQuality, desc_name = ''pam_pwquality'',
        desc_moduleName = ''pam_pwquality.so'', externalConfigArgument = '''',
        externalConfigMode = NoExternalConfig,
        defaultConfigTopology = primaryConfig ''/etc/security/pwquality.conf''
          [''/etc/security/pwquality.conf.d''] UnsupportedExplicit,
        desc_grammar = KeyValue, semanticBackend = PwqualityBackend,
        desc_policies =
          [assignment PasswordMinLength ''minlen'' DirectValue,
           assignment PasswordMinClasses ''minclass'' DirectValue,
           assignment PasswordCheckUsername ''usercheck'' YesNoInteger,
           assignment PasswordCheckGecos ''gecoscheck'' YesNoInteger,
           flag_binding PasswordQualityEnforceForRoot ''enforce_for_root'' [],
           assignment PasswordMinChangedCharacters ''difok'' DirectValue,
           assignment PasswordMinLowercase ''lcredit'' MinimumCredit,
           assignment PasswordMinUppercase ''ucredit'' MinimumCredit,
           assignment PasswordMinDigits ''dcredit'' MinimumCredit,
           assignment PasswordMinOther ''ocredit'' MinimumCredit] \<rparr>,
      \<lparr> desc_kind = PamPasswdqc, desc_capability = PasswordQuality, desc_name = ''pam_passwdqc'',
        desc_moduleName = ''pam_passwdqc.so'', externalConfigArgument = ''config'',
        externalConfigMode = RequiredConfig, defaultConfigTopology = no_config,
        desc_grammar = PasswdqcGrammar, semanticBackend = PasswdqcBackend,
        desc_policies =
          [assignment PasswordQualityEnforceForRoot ''enforce'' PasswdqcEnforce,
           assignment PasswdqcStrengthThresholds ''min'' DirectValue,
           assignment PasswdqcPassphraseWords ''passphrase'' DirectValue,
           assignment PasswdqcMatchLength ''match'' DirectValue,
           assignment PasswdqcSimilarPassword ''similar'' DirectValue,
           assignment PasswdqcRetryCount ''retry'' DirectValue] \<rparr>,
      \<lparr> desc_kind = PamPwhistory, desc_capability = PasswordHistory, desc_name = ''pam_pwhistory'',
        desc_moduleName = ''pam_pwhistory.so'', externalConfigArgument = ''conf'',
        externalConfigMode = OptionalConfig,
        defaultConfigTopology = primaryConfig ''/etc/security/pwhistory.conf'' [] ReplacesNativeTopology,
        desc_grammar = KeyValue, semanticBackend = PwhistoryBackend,
        desc_policies =
          [assignment PasswordHistoryDepth ''remember'' DirectValue,
           flag_binding PasswordHistoryEnforceForRoot ''enforce_for_root'' []] \<rparr>,
      bare_descriptor PamTally2 AuthenticationLockout ''pam_tally2'' ''pam_tally2.so'',
      bare_descriptor PamTally AuthenticationLockout ''pam_tally'' ''pam_tally.so'',
      bare_descriptor PamCracklib PasswordQuality ''pam_cracklib'' ''pam_cracklib.so'',
      bare_descriptor PamUnixHistory PasswordHistory ''pam_unix remember'' ''pam_unix.so'']"

text \<open>The lookup throws for a provider without a descriptor.\<close>

definition pamProviderDescriptor :: "PamProviderKind \<Rightarrow> exn + PamProviderDescriptor" where
  "pamProviderDescriptor provider =
     (case List.find (\<lambda>candidate. desc_kind candidate = provider) pamProviderDescriptors of
        None \<Rightarrow> Inl (LogicError ''unknown PAM provider descriptor'')
      | Some d \<Rightarrow> Inr d)"

definition pamProviderName :: "PamProviderKind \<Rightarrow> exn + string" where
  "pamProviderName provider = and_then (pamProviderDescriptor provider) (\<lambda>d. Inr (desc_name d))"

definition pamProviderModuleName :: "PamProviderKind \<Rightarrow> exn + string" where
  "pamProviderModuleName provider = and_then (pamProviderDescriptor provider) (\<lambda>d. Inr (desc_moduleName d))"

definition pamProviderPolicyBinding ::
    "PamProviderKind \<Rightarrow> PamPolicyFeature \<Rightarrow> exn + PamProviderPolicyBinding option" where
  "pamProviderPolicyBinding provider f =
     and_then (pamProviderDescriptor provider) (\<lambda>d.
       Inr (List.find (\<lambda>candidate. feature candidate = f) (desc_policies d)))"

definition pamProviderForModule :: "PamCapability \<Rightarrow> string \<Rightarrow> bool \<Rightarrow> PamProviderKind option" where
  "pamProviderForModule capability moduleName hasUnixRememberArgument =
     map_option desc_kind (List.find (\<lambda>candidate.
       desc_capability candidate = capability \<and> desc_moduleName candidate = moduleName \<and>
       (desc_kind candidate \<noteq> PamUnixHistory \<or> hasUnixRememberArgument)) pamProviderDescriptors)"

definition pamPolicyCapability :: "PamPolicyFeature \<Rightarrow> PamCapability" where
  "pamPolicyCapability f =
     (if f \<in> {PasswordHistoryDepth, PasswordHistoryEnforceForRoot} then PasswordHistory
      else if f \<in> {FailedAuthenticationAttempts, FailedAuthenticationCountingPeriod,
                   FailedAuthenticationEnforceForRoot, FailedAuthenticationUnlockTime}
      then AuthenticationLockout
      else PasswordQuality)"

definition pamPolicySupport :: "PamPlatformConfig \<Rightarrow> PamPolicyFeature \<Rightarrow> exn + PamPolicySupport" where
  "pamPolicySupport platform f =
     (case capabilityConfig platform (pamPolicyCapability f) of
        None \<Rightarrow> Inr PolicyUnsupported
      | Some c \<Rightarrow>
          and_then (pamProviderPolicyBinding (cap_provider c) f) (\<lambda>binding. Inr
            (if binding = None then PolicyUnsupported
             else if cap_topology c = PamAuthUpdate then
               (if cap_capability c = PasswordHistory \<and> cap_configurationMode c = ModuleArguments \<and>
                   \<not> (if f = PasswordHistoryDepth then pwhistoryRemember c else pwhistoryEnforceForRoot c)
                then PolicyReadOnly
                else if cap_capability c = AuthenticationLockout then RequiresTopologyActivation
                else if passwordTopologyRuntimeMutable platform \<and> cap_capability c \<noteq> AuthenticationLockout
                then RequiresTopologyActivation
                else PolicyReadOnly)
             else if cap_topology c = AltTcbManaged then RequiresTopologyActivation
             else PolicySupported)))"

section \<open>Values of the native configuration\<close>

text \<open>\<open>std::from_chars\<close> on an unsigned int, over the whole text.\<close>

definition parseNonNegative :: "string \<Rightarrow> nat option" where
  "parseNonNegative s =
     (if s \<noteq> [] \<and> list_all is_digit s \<and> nat_of_digits s \<le> 4294967295 \<and> nat_of_digits s < 2147483647
      then Some (nat_of_digits s) else None)"

datatype PamOptionValueEncoding = CodecDirect | CodecYesNoInteger | CodecMinimumCredit

definition codec_encode :: "PamOptionValueEncoding \<Rightarrow> string \<Rightarrow> string + string" where
  "codec_encode encoding logicalValue =
     (case encoding of
        CodecDirect \<Rightarrow> Inr logicalValue
      | CodecYesNoInteger \<Rightarrow>
          if logicalValue = ''yes'' then Inr ''1''
          else if logicalValue = ''no'' then Inr ''0''
          else Inl ''expected yes or no''
      | CodecMinimumCredit \<Rightarrow>
          (case parseNonNegative logicalValue of
             None \<Rightarrow> Inl ''expected a non-negative integer''
           | Some minimum \<Rightarrow> Inr (if minimum = 0 then ''0'' else ''-'' @ digits_of_nat minimum)))"

definition codec_decode :: "PamOptionValueEncoding \<Rightarrow> string \<Rightarrow> string + string" where
  "codec_decode encoding nativeValue =
     (case encoding of
        CodecDirect \<Rightarrow> Inr nativeValue
      | CodecYesNoInteger \<Rightarrow>
          if nativeValue = ''1'' then Inr ''yes''
          else if nativeValue = ''0'' then Inr ''no''
          else Inl ''expected native boolean value 0 or 1''
      | CodecMinimumCredit \<Rightarrow>
          if nativeValue = ''0'' then Inr ''0''
          else if length nativeValue > 1 \<and> hd nativeValue = CHR ''-'' \<and>
               (case parseNonNegative (tl nativeValue) of None \<Rightarrow> False | Some minimum \<Rightarrow> minimum \<noteq> 0)
          then Inr (tl nativeValue)
          else Inl ''expected native minimum-credit value 0 or a negative integer'')"

definition encodePamNativeValue :: "PamNativeValueEncoding \<Rightarrow> string \<Rightarrow> string + string" where
  "encodePamNativeValue encoding logical =
     (case encoding of
        DirectValue \<Rightarrow> if logical = '''' then Inl ''PAM native value must not be empty'' else Inr logical
      | PasswdqcEnforce \<Rightarrow>
          if logical = ''yes'' then Inr ''everyone''
          else if logical = ''no'' then Inr ''users''
          else Inl ''expected yes or no''
      | YesNoInteger \<Rightarrow> codec_encode CodecYesNoInteger logical
      | MinimumCredit \<Rightarrow> codec_encode CodecMinimumCredit logical)"

definition decodePamNativeValue :: "PamNativeValueEncoding \<Rightarrow> string \<Rightarrow> string + string" where
  "decodePamNativeValue encoding native =
     (case encoding of
        DirectValue \<Rightarrow> if native = '''' then Inl ''PAM native value must not be empty'' else Inr native
      | PasswdqcEnforce \<Rightarrow>
          if native = ''everyone'' then Inr ''yes''
          else if native = ''users'' then Inr ''no''
          else Inl ''passwdqc enforce value has no exact root-enforcement mapping''
      | YesNoInteger \<Rightarrow> codec_decode CodecYesNoInteger native
      | MinimumCredit \<Rightarrow> codec_decode CodecMinimumCredit native)"

end
