(* ===== verification/PamConfiguration.thy ===== *)
theory PamConfiguration
  imports PamCatalog
begin

text \<open>
  PAM service files (\<open>pam/PamConfiguration\<close>): the parser of one file and the effective stack of a
  service, with includes expanded in place and substacks kept as nested stacks. Locating a service
  file and reading it is a parameter, \<open>pam_files\<close>; a parsed service is cached by the code, so for one
  configuration object the parameter is a function of the service name.
\<close>

section \<open>Rules and stacks\<close>

datatype PamManagementGroup = Auth | Account | Password | Session

datatype PamIncludeKind = NoInclude | Include | Substack | IncludeAll

record PamRule =
  rule_source :: string
  rule_line :: nat
  rule_group :: PamManagementGroup
  control :: string
  rule_module :: string
  arguments :: "string list"
  includeKind :: PamIncludeKind
  includeTarget :: string

definition emptyRule :: PamRule where
  "emptyRule =
     \<lparr> rule_source = '''', rule_line = 0, rule_group = Auth, control = '''', rule_module = '''',
       arguments = [], includeKind = NoInclude, includeTarget = '''' \<rparr>"

datatype PamStackEntry = PamStackEntry (entry_rule: PamRule) (substack: "PamStackEntry list")

definition isSubstack :: "PamStackEntry \<Rightarrow> bool" where
  "isSubstack entry \<longleftrightarrow> includeKind (entry_rule entry) = Substack"

record PamEffectiveStack =
  stack_service :: string
  stack_group :: PamManagementGroup
  stack_entries :: "PamStackEntry list"
  sourceFiles :: "string set"

primrec pamManagementGroupName :: "PamManagementGroup \<Rightarrow> string" where
  "pamManagementGroupName Auth = ''auth''"
| "pamManagementGroupName Account = ''account''"
| "pamManagementGroupName Password = ''password''"
| "pamManagementGroupName Session = ''session''"

section \<open>The text of a service file\<close>

text \<open>\<open>std::isalnum\<close> in the C locale.\<close>

definition is_alnum :: "char \<Rightarrow> bool" where
  "is_alnum c \<longleftrightarrow>
     (let n = (of_char c :: nat) in 48 \<le> n \<and> n \<le> 57 \<or> 65 \<le> n \<and> n \<le> 90 \<or> 97 \<le> n \<and> n \<le> 122)"

definition validServiceName :: "string \<Rightarrow> bool" where
  "validServiceName service \<longleftrightarrow>
     service \<noteq> '''' \<and> length service \<le> 255 \<and>
     list_all (\<lambda>c. is_alnum c \<or> c = CHR ''_'' \<or> c = CHR ''-'' \<or> c = CHR ''.'') service"

definition trimCopy :: "string \<Rightarrow> string" where
  "trimCopy s = strip is_space s"

definition backslash :: char where
  "backslash = CHR 0x5C"

definition hasUnescapedContinuation :: "string \<Rightarrow> bool" where
  "hasUnescapedContinuation line = odd (length (takeWhile (\<lambda>c. c = backslash) (rev line)))"

text \<open>The loop state: inside quotes, after a backslash, the depth of brackets.\<close>

fun stripComment_from :: "bool \<Rightarrow> bool \<Rightarrow> nat \<Rightarrow> string \<Rightarrow> string" where
  "stripComment_from quoted escaped depth [] = []"
| "stripComment_from quoted escaped depth (c # cs) =
     (if escaped then c # stripComment_from quoted False depth cs
      else if c = backslash then c # stripComment_from quoted True depth cs
      else if c = CHR 0x22 then c # stripComment_from (\<not> quoted) False depth cs
      else if \<not> quoted \<and> c = CHR ''['' then c # stripComment_from quoted False (depth + 1) cs
      else if \<not> quoted \<and> c = CHR '']'' \<and> depth > 0 then c # stripComment_from quoted False (depth - 1) cs
      else if \<not> quoted \<and> c = CHR ''#'' \<and> depth = 0 then []
      else c # stripComment_from quoted False depth cs)"

definition stripComment :: "string \<Rightarrow> string" where
  "stripComment line = stripComment_from False False 0 line"

definition push_token :: "string \<Rightarrow> string list \<Rightarrow> string list" where
  "push_token token tokens = (if token = '''' then tokens else tokens @ [token])"

fun tokenize_from ::
    "bool \<Rightarrow> bool \<Rightarrow> nat \<Rightarrow> string \<Rightarrow> string list \<Rightarrow> string \<Rightarrow> string + string list" where
  "tokenize_from quoted escaped depth token tokens [] =
     (if escaped \<or> quoted \<or> depth \<noteq> 0
      then Inl ''unterminated escape, quote or bracket expression''
      else Inr (push_token token tokens))"
| "tokenize_from quoted escaped depth token tokens (c # cs) =
     (if escaped then tokenize_from quoted False depth (token @ [c]) tokens cs
      else if c = backslash then tokenize_from quoted True depth (token @ [c]) tokens cs
      else if c = CHR 0x22 then tokenize_from (\<not> quoted) False depth (token @ [c]) tokens cs
      else if \<not> quoted \<and> c = CHR ''['' then tokenize_from quoted False (depth + 1) (token @ [c]) tokens cs
      else if \<not> quoted \<and> c = CHR '']'' then
        (if depth = 0 then Inl ''unexpected closing bracket''
         else tokenize_from quoted False (depth - 1) (token @ [c]) tokens cs)
      else if is_space c \<and> \<not> quoted \<and> depth = 0
      then tokenize_from quoted False depth '''' (push_token token tokens) cs
      else tokenize_from quoted False depth (token @ [c]) tokens cs)"

definition tokenize :: "string \<Rightarrow> string + string list" where
  "tokenize line = tokenize_from False False 0 '''' [] line"

definition parseManagementGroup :: "string \<Rightarrow> PamManagementGroup option" where
  "parseManagementGroup token =
     (let token = (if token \<noteq> '''' \<and> hd token = CHR ''-'' then tl token else token) in
      if token = ''auth'' then Some Auth
      else if token = ''account'' then Some Account
      else if token = ''password'' then Some Password
      else if token = ''session'' then Some Session
      else None)"

definition rule_error :: "string \<Rightarrow> nat \<Rightarrow> string \<Rightarrow> string" where
  "rule_error source line message = source @ '':'' @ digits_of_nat line @ '': '' @ message"

definition parseLogicalLine :: "string \<Rightarrow> string \<Rightarrow> nat \<Rightarrow> string + PamRule option" where
  "parseLogicalLine source raw lineNumber =
     (let line = trimCopy (stripComment raw) in
      if line = '''' then Inr None
      else
        (case tokenize line of
           Inl tokenError \<Rightarrow> Inl (rule_error source lineNumber tokenError)
         | Inr tokens \<Rightarrow>
             if tokens = [] then Inr None
             else if hd tokens = ''@include'' then
               (if length tokens \<noteq> 2 \<or> \<not> validServiceName (tokens ! 1)
                then Inl (rule_error source lineNumber ''invalid @include directive'')
                else Inr (Some (emptyRule\<lparr>rule_source := source, rule_line := lineNumber,
                  includeKind := IncludeAll, includeTarget := tokens ! 1\<rparr>)))
             else
               (case parseManagementGroup (hd tokens) of
                  None \<Rightarrow> Inl (rule_error source lineNumber ''unsupported or malformed PAM rule'')
                | Some g \<Rightarrow>
                    if length tokens < 3
                    then Inl (rule_error source lineNumber ''unsupported or malformed PAM rule'')
                    else
                      (let rule = emptyRule\<lparr>rule_source := source, rule_line := lineNumber, rule_group := g,
                             control := tokens ! 1\<rparr> in
                       if tokens ! 1 = ''include'' \<or> tokens ! 1 = ''substack'' then
                         (if \<not> validServiceName (tokens ! 2)
                          then Inl (rule_error source lineNumber ''invalid PAM include target'')
                          else Inr (Some (rule\<lparr>
                            includeKind := (if tokens ! 1 = ''include'' then Include else Substack),
                            includeTarget := tokens ! 2\<rparr>)))
                       else Inr (Some (rule\<lparr>rule_module := tokens ! 2, arguments := drop 3 tokens\<rparr>))))))"

definition add_rule :: "PamRule option \<Rightarrow> PamRule list \<Rightarrow> PamRule list" where
  "add_rule parsed rules = (case parsed of None \<Rightarrow> rules | Some rule \<Rightarrow> rules @ [rule])"

text \<open>The loop over the physical lines; \<open>logical\<close> is the line collected so far and starts at \<open>start\<close>.\<close>

fun parse_lines ::
    "string \<Rightarrow> string list \<Rightarrow> nat \<Rightarrow> string \<Rightarrow> nat \<Rightarrow> PamRule list \<Rightarrow> string + PamRule list" where
  "parse_lines source [] number logical start rules =
     (if logical = '''' then Inr rules
      else and_then (parseLogicalLine source logical start) (\<lambda>parsed. Inr (add_rule parsed rules)))"
| "parse_lines source (physical # rest) number logical start rules =
     (let number = number + 1;
          start = (if logical = '''' then number else start);
          logical = logical @ physical
      in if hasUnescapedContinuation logical
         then parse_lines source rest number (butlast logical @ '' '') start rules
         else and_then (parseLogicalLine source logical start) (\<lambda>parsed.
           parse_lines source rest number '''' start (add_rule parsed rules)))"

definition parseRulesContent :: "string \<Rightarrow> string \<Rightarrow> string + PamRule list" where
  "parseRulesContent source content = parse_lines source (getlines content) 0 '''' 0 []"

section \<open>Services\<close>

text \<open>
  What the configuration object finds on disk: the path of a service, if there is one, and the
  content that is read from it (\<open>resolveServicePath\<close>, \<open>readTrustedPamSource\<close>).
\<close>

record pam_files =
  located :: "string \<Rightarrow> string + string option"
  service_content :: "string \<Rightarrow> string + string"

definition serviceExists :: "pam_files \<Rightarrow> string \<Rightarrow> bool" where
  "serviceExists files service = (case located files service of Inr (Some path) \<Rightarrow> True | _ \<Rightarrow> False)"

fun existingServices :: "pam_files \<Rightarrow> string list \<Rightarrow> string + string list" where
  "existingServices files [] = Inr []"
| "existingServices files (service # rest) =
     and_then (located files service) (\<lambda>path.
     and_then (existingServices files rest) (\<lambda>others.
       Inr (case path of None \<Rightarrow> others | Some p \<Rightarrow> service # others)))"

definition parseService :: "pam_files \<Rightarrow> string \<Rightarrow> string + string \<times> PamRule list" where
  "parseService files service =
     and_then (located files service) (\<lambda>path.
       case path of
         None \<Rightarrow> Inl (''PAM service was not found: '' @ service)
       | Some p \<Rightarrow>
           and_then (service_content files service) (\<lambda>content.
           and_then (parseRulesContent p content) (\<lambda>rules. Inr (p, rules))))"

section \<open>The effective stack\<close>

definition kMaximumIncludeDepth :: nat where
  "kMaximumIncludeDepth = 32"

definition kMaximumCollectedRules :: nat where
  "kMaximumCollectedRules = 4096"

text \<open>The entries collected so far, their number over all levels, and the files they come from.\<close>

type_synonym stack_build = "PamStackEntry list \<times> nat \<times> string set"

definition rule_limit :: "string \<Rightarrow> string" where
  "rule_limit service = ''PAM rule count limit exceeded at service: '' @ service"

text \<open>One rule of a service; \<open>nested\<close> expands another service.\<close>

definition expand_rule ::
    "(string \<Rightarrow> stack_build \<Rightarrow> string + stack_build) \<Rightarrow> PamManagementGroup \<Rightarrow> string \<Rightarrow> PamRule \<Rightarrow>
     stack_build \<Rightarrow> string + stack_build" where
  "expand_rule nested g service rule = (\<lambda>(collected, count, files).
     case includeKind rule of
       IncludeAll \<Rightarrow> nested (includeTarget rule) (collected, count, files)
     | Include \<Rightarrow>
         if rule_group rule = g then nested (includeTarget rule) (collected, count, files)
         else Inr (collected, count, files)
     | Substack \<Rightarrow>
         if rule_group rule \<noteq> g then Inr (collected, count, files)
         else if count + 1 > kMaximumCollectedRules then Inl (rule_limit service)
         else
           (case nested (includeTarget rule) ([], count + 1, files) of
              Inl error \<Rightarrow> Inl (if error = '''' then rule_limit service else error)
            | Inr (inner, count', files') \<Rightarrow> Inr (collected @ [PamStackEntry rule inner], count', files'))
     | NoInclude \<Rightarrow>
         if rule_group rule \<noteq> g then Inr (collected, count, files)
         else if count + 1 > kMaximumCollectedRules then Inl (rule_limit service)
         else Inr (collected @ [PamStackEntry rule []], count + 1, files))"

fun expand_rules ::
    "(string \<Rightarrow> stack_build \<Rightarrow> string + stack_build) \<Rightarrow> PamManagementGroup \<Rightarrow> string \<Rightarrow> PamRule list \<Rightarrow>
     stack_build \<Rightarrow> string + stack_build" where
  "expand_rules nested g service [] b = Inr b"
| "expand_rules nested g service (rule # rest) b =
     and_then (expand_rule nested g service rule b) (expand_rules nested g service rest)"

text \<open>
  The recursion counts the levels that are left: a call at depth \<open>d\<close> of the code is a call with
  \<open>kMaximumIncludeDepth + 1 - d\<close> levels left. \<open>active\<close> is the recursion stack.
\<close>

primrec buildEffectiveStackRecursive ::
    "nat \<Rightarrow> pam_files \<Rightarrow> PamManagementGroup \<Rightarrow> string set \<Rightarrow> string \<Rightarrow> stack_build \<Rightarrow> string + stack_build" where
  "buildEffectiveStackRecursive 0 files g active service b =
     Inl (''PAM include depth limit exceeded at service: '' @ service)"
| "buildEffectiveStackRecursive (Suc left) files g active service b =
     (let key = service @ '':'' @ pamManagementGroupName g in
      if key \<in> active then Inl (''PAM include cycle detected at service: '' @ service)
      else and_then (parseService files service) (\<lambda>(path, rules).
        case b of (collected, count, sources) \<Rightarrow>
          expand_rules (buildEffectiveStackRecursive left files g (insert key active)) g service rules
            (collected, count, insert path sources)))"

definition buildEffectiveStack ::
    "pam_files \<Rightarrow> string \<Rightarrow> PamManagementGroup \<Rightarrow> string + PamEffectiveStack" where
  "buildEffectiveStack files service g =
     and_then (buildEffectiveStackRecursive (kMaximumIncludeDepth + 1) files g {} service ([], 0, {}))
       (\<lambda>(collected, count, sources). Inr
         \<lparr> stack_service = service, stack_group = g, stack_entries = collected, sourceFiles = sources \<rparr>)"

fun flattenStack :: "PamStackEntry list \<Rightarrow> PamRule list" where
  "flattenStack [] = []"
| "flattenStack (PamStackEntry rule inner # rest) =
     (if isSubstack (PamStackEntry rule inner) then flattenStack inner else [rule]) @ flattenStack rest"

definition collectRules ::
    "pam_files \<Rightarrow> string \<Rightarrow> PamManagementGroup \<Rightarrow> string + PamRule list \<times> string set" where
  "collectRules files service g =
     and_then (buildEffectiveStack files service g) (\<lambda>stack.
       Inr (flattenStack (stack_entries stack), sourceFiles stack))"

end
