(* ===== verification/PamOptionFile.thy ===== *)
theory PamOptionFile
  imports PamConfiguration
begin

text \<open>
  Option files of PAM providers (\<open>pam/PamOptionFile\<close>): assignments and flags in a text of lines.
  Reading a file safely and writing it are parameters with a state of their own.
\<close>

section \<open>Lines\<close>

text \<open>\<open>std::tolower\<close> in the C locale.\<close>

definition lower_char :: "char \<Rightarrow> char" where
  "lower_char c =
     (let n = (of_char c :: nat) in if 65 \<le> n \<and> n \<le> 90 then char_of (n + 32) else c)"

datatype PamOptionKeyMatchMode = CaseSensitive | AsciiCaseInsensitive

datatype PamOptionFlagSyntax = BareOnly | SetPresence

definition validKey :: "string \<Rightarrow> bool" where
  "validKey key \<longleftrightarrow> key \<noteq> '''' \<and> list_all (\<lambda>c. is_alnum c \<or> c = CHR ''_'' \<or> c = CHR ''-'') key"

definition keysEqual :: "string \<Rightarrow> string \<Rightarrow> PamOptionKeyMatchMode \<Rightarrow> bool" where
  "keysEqual left right matchMode \<longleftrightarrow>
     length left = length right \<and>
     (if matchMode = CaseSensitive then left = right
      else list_all2 (\<lambda>l r. lower_char l = lower_char r) left right)"

definition startsWithKey :: "string \<Rightarrow> string \<Rightarrow> PamOptionKeyMatchMode \<Rightarrow> bool" where
  "startsWithKey value key matchMode \<longleftrightarrow>
     length key \<le> length value \<and> keysEqual (take (length key) value) key matchMode"

definition before_char :: "char \<Rightarrow> string \<Rightarrow> string" where
  "before_char c s = takeWhile (\<lambda>x. x \<noteq> c) s"

definition parseAssignment :: "string \<Rightarrow> (string \<times> string) option" where
  "parseAssignment line =
     (let trimmed = trimCopy line in
      if trimmed = '''' \<or> hd trimmed = CHR ''#'' then None
      else
        (case find_char (CHR ''='') trimmed of
           None \<Rightarrow> None
         | Some (left, right) \<Rightarrow>
             let key = trimCopy left;
                 value = trimCopy right;
                 value = (if CHR ''#'' \<in> set value then trimCopy (before_char (CHR ''#'') value) else value)
             in if validKey key then Some (key, value) else None))"

text \<open>Whether the line sets the flag, and whether it is a malformed form of it.\<close>

definition parseFlagLine ::
    "string \<Rightarrow> string \<Rightarrow> PamOptionKeyMatchMode \<Rightarrow> PamOptionFlagSyntax \<Rightarrow> bool \<times> bool" where
  "parseFlagLine line expectedKey matchMode syntax =
     (let code = trimCopy (before_char (CHR ''#'') line) in
      if code = '''' then (False, False)
      else if syntax = SetPresence
      then (keysEqual (takeWhile (\<lambda>c. c \<noteq> CHR ''='' \<and> \<not> is_space c) code) expectedKey matchMode, False)
      else if keysEqual code expectedKey matchMode then (True, False)
      else if startsWithKey code expectedKey matchMode \<and> length code > length expectedKey
      then (False, code ! length expectedKey = CHR ''='' \<or> is_space (code ! length expectedKey))
      else (False, False))"

section \<open>Whole files\<close>

record 'e option_files =
  readFile :: "string \<Rightarrow> 'e \<Rightarrow> (string + string option) \<times> 'e"
  writer :: "string \<Rightarrow> string \<Rightarrow> 'e \<Rightarrow> (string + unit) \<times> 'e"

definition is_tab_or_space :: "char \<Rightarrow> bool" where
  "is_tab_or_space c \<longleftrightarrow> c = CHR '' '' \<or> c = CHR 0x09"

definition indentation :: "string \<Rightarrow> string" where
  "indentation line =
     (if list_all is_tab_or_space line then '''' else takeWhile is_tab_or_space line)"

definition comment_of :: "string \<Rightarrow> string option" where
  "comment_of line =
     (if CHR ''#'' \<in> set line then Some (dropWhile (\<lambda>c. c \<noteq> CHR ''#'') line) else None)"

definition comment_suffix :: "string \<Rightarrow> string" where
  "comment_suffix line = (case comment_of line of None \<Rightarrow> '''' | Some c \<Rightarrow> '' '' @ c)"

definition assigns :: "string \<Rightarrow> PamOptionKeyMatchMode \<Rightarrow> string \<Rightarrow> bool" where
  "assigns key matchMode line =
     (case parseAssignment line of None \<Rightarrow> False | Some (k, v) \<Rightarrow> keysEqual k key matchMode)"

definition set_value_lines ::
    "string \<Rightarrow> string \<Rightarrow> PamOptionKeyMatchMode \<Rightarrow> string list \<Rightarrow> string list" where
  "set_value_lines key value matchMode lines =
     (let replaced = map (\<lambda>line.
            if assigns key matchMode line
            then indentation line @ key @ '' = '' @ value @ comment_suffix line else line) lines
      in if list_ex (assigns key matchMode) lines then replaced
         else replaced @ [key @ '' = '' @ value])"

definition only_value ::
    "string \<Rightarrow> string \<Rightarrow> string \<Rightarrow> PamOptionKeyMatchMode \<Rightarrow> string list \<Rightarrow> string + unit" where
  "only_value path key expectedValue matchMode lines =
     (let found = List.map_filter (\<lambda>line. case parseAssignment line of
            Some (k, v) \<Rightarrow> if keysEqual k key matchMode then Some v else None
          | None \<Rightarrow> None) lines
      in case List.find (\<lambda>v. v \<noteq> expectedValue) found of
           Some v \<Rightarrow> Inl (''unexpected value for '' @ key @ '' in '' @ path @ '': '' @ v)
         | None \<Rightarrow>
             if found = [] then Inl (''option '' @ key @ '' was not found in '' @ path)
             else Inr ())"

definition hasOnlyValue ::
    "'e option_files \<Rightarrow> string \<Rightarrow> string \<Rightarrow> string \<Rightarrow> PamOptionKeyMatchMode \<Rightarrow> 'e \<Rightarrow> (string + unit) \<times> 'e" where
  "hasOnlyValue files path key expectedValue matchMode e =
     (case readFile files path e of
        (Inl error, e') \<Rightarrow>
          (Inl (if error = '''' then ''PAM option file does not exist: '' @ path else error), e')
      | (Inr None, e') \<Rightarrow> (Inl (''PAM option file does not exist: '' @ path), e')
      | (Inr (Some content), e') \<Rightarrow> (only_value path key expectedValue matchMode (getlines content), e'))"

definition setValue ::
    "'e option_files \<Rightarrow> string \<Rightarrow> string \<Rightarrow> string \<Rightarrow> PamOptionKeyMatchMode \<Rightarrow> 'e \<Rightarrow> (string + unit) \<times> 'e" where
  "setValue files path key value matchMode e =
     (if \<not> validKey key \<or> value = '''' \<or> list_ex (\<lambda>c. c = CHR 0x0D \<or> c = CHR 0x0A) value
      then (Inl ''invalid PAM option assignment'', e)
      else
        (case readFile files path e of
           (Inl error, e1) \<Rightarrow> (Inl error, e1)
         | (Inr original, e1) \<Rightarrow>
             let lines = getlines (case original of None \<Rightarrow> '''' | Some content \<Rightarrow> content) in
             (case writer files path (unlines (set_value_lines key value matchMode lines)) e1 of
                (Inl error, e2) \<Rightarrow> (Inl error, e2)
              | (Inr u, e2) \<Rightarrow> hasOnlyValue files path key value matchMode e2)))"

definition flag_error :: "string \<Rightarrow> string \<Rightarrow> string" where
  "flag_error key path = ''malformed PAM flag '' @ key @ '' in '' @ path"

definition flag_line :: "string \<Rightarrow> bool \<Rightarrow> string \<Rightarrow> string" where
  "flag_line key enabled line =
     (if enabled then indentation line @ key @ comment_suffix line
      else (case comment_of line of None \<Rightarrow> '''' | Some c \<Rightarrow> indentation line @ c))"

definition set_flag_lines ::
    "string \<Rightarrow> bool \<Rightarrow> PamOptionKeyMatchMode \<Rightarrow> PamOptionFlagSyntax \<Rightarrow> string list \<Rightarrow> string list option" where
  "set_flag_lines key enabled matchMode syntax lines =
     (let is_flag = (\<lambda>line. fst (parseFlagLine line key matchMode syntax)) in
      if list_ex (\<lambda>line. snd (parseFlagLine line key matchMode syntax)) lines then None
      else Some
        (map (\<lambda>line. if is_flag line then flag_line key enabled line else line) lines @
         (if enabled \<and> \<not> list_ex is_flag lines then [key] else [])))"

definition flag_state ::
    "string \<Rightarrow> string \<Rightarrow> bool \<Rightarrow> PamOptionKeyMatchMode \<Rightarrow> PamOptionFlagSyntax \<Rightarrow> string list \<Rightarrow> string + unit" where
  "flag_state path key expectedEnabled matchMode syntax lines =
     (let parsed = map (\<lambda>line. parseFlagLine line key matchMode syntax) lines in
      if list_ex snd parsed then Inl (flag_error key path)
      else if list_ex fst parsed \<noteq> expectedEnabled
      then Inl (''unexpected state for '' @ key @ '' in '' @ path)
      else Inr ())"

definition hasFlag ::
    "'e option_files \<Rightarrow> string \<Rightarrow> string \<Rightarrow> bool \<Rightarrow> PamOptionKeyMatchMode \<Rightarrow> PamOptionFlagSyntax \<Rightarrow> 'e \<Rightarrow>
     (string + unit) \<times> 'e" where
  "hasFlag files path key expectedEnabled matchMode syntax e =
     (if \<not> validKey key then (Inl ''invalid PAM flag'', e)
      else
        (case readFile files path e of
           (Inl error, e') \<Rightarrow> (Inl error, e')
         | (Inr None, e') \<Rightarrow>
             (if \<not> expectedEnabled then Inr () else Inl (''PAM option file does not exist: '' @ path), e')
         | (Inr (Some content), e') \<Rightarrow>
             (flag_state path key expectedEnabled matchMode syntax (getlines content), e')))"

definition setFlag ::
    "'e option_files \<Rightarrow> string \<Rightarrow> string \<Rightarrow> bool \<Rightarrow> PamOptionKeyMatchMode \<Rightarrow> PamOptionFlagSyntax \<Rightarrow> 'e \<Rightarrow>
     (string + unit) \<times> 'e" where
  "setFlag files path key enabled matchMode syntax e =
     (if \<not> validKey key then (Inl ''invalid PAM flag'', e)
      else
        (case readFile files path e of
           (Inl error, e1) \<Rightarrow> (Inl error, e1)
         | (Inr original, e1) \<Rightarrow>
             if original = None \<and> \<not> enabled then (Inr (), e1)
             else
               (case set_flag_lines key enabled matchMode syntax
                   (getlines (case original of None \<Rightarrow> '''' | Some content \<Rightarrow> content)) of
                  None \<Rightarrow> (Inl (flag_error key path), e1)
                | Some lines \<Rightarrow>
                    (case writer files path (unlines lines) e1 of
                       (Inl error, e2) \<Rightarrow> (Inl error, e2)
                     | (Inr u, e2) \<Rightarrow> hasFlag files path key enabled matchMode syntax e2))))"

definition directive_conflict :: "string \<Rightarrow> string \<Rightarrow> string" where
  "directive_conflict directive path =
     ''PAM directive '' @ directive @ '' in '' @ path @ '' conflicts with the requested disabled state''"

text \<open>The conflict that a line has with the directives: an assignment first, then the flags in order.\<close>

definition line_conflict ::
    "string \<Rightarrow> string list \<Rightarrow> PamOptionKeyMatchMode \<Rightarrow> PamOptionFlagSyntax \<Rightarrow> string \<Rightarrow> string option" where
  "line_conflict path directives matchMode syntax line =
     (case parseAssignment line of
        Some (k, v) \<Rightarrow>
          if list_ex (\<lambda>d. keysEqual k d matchMode) directives then Some (directive_conflict k path)
          else map_option (\<lambda>d. directive_conflict d path)
            (List.find (\<lambda>d. case parseFlagLine line d matchMode syntax of (f, m) \<Rightarrow> f \<or> m) directives)
      | None \<Rightarrow> map_option (\<lambda>d. directive_conflict d path)
          (List.find (\<lambda>d. case parseFlagLine line d matchMode syntax of (f, m) \<Rightarrow> f \<or> m) directives))"

definition verifyNoActiveDirectives ::
    "'e option_files \<Rightarrow> string \<Rightarrow> string list \<Rightarrow> PamOptionKeyMatchMode \<Rightarrow> PamOptionFlagSyntax \<Rightarrow> 'e \<Rightarrow>
     (string + unit) \<times> 'e" where
  "verifyNoActiveDirectives files path directives matchMode syntax e =
     (if list_ex (\<lambda>d. \<not> validKey d) directives then (Inl ''invalid PAM directive'', e)
      else
        (case readFile files path e of
           (Inl error, e') \<Rightarrow> (Inl error, e')
         | (Inr None, e') \<Rightarrow> (Inr (), e')
         | (Inr (Some content), e') \<Rightarrow>
             if directives = [] then (Inr (), e')
             else
               ((case List.find (\<lambda>line. line_conflict path directives matchMode syntax line \<noteq> None)
                    (getlines content) of
                   None \<Rightarrow> Inr ()
                 | Some line \<Rightarrow> Inl (the (line_conflict path directives matchMode syntax line))), e')))"

end
