(* ===== verification/PamFlow.thy ===== *)
theory PamFlow
  imports PamOptionFile
begin

text \<open>
  The control-flow analyzer of PAM stacks (\<open>pam/PamControlFlowAnalyzer\<close>): control expressions, the
  results a module may return, the evidence collected on a path, the symbolic execution of a stack
  with its limits, and the analyses of password and of lockout stacks that are built on it.
\<close>

section \<open>Data\<close>

definition kMaximumSymbolicStates :: nat where
  "kMaximumSymbolicStates = 8192"

definition kMaximumSymbolicTransitions :: nat where
  "kMaximumSymbolicTransitions = 250000"

definition kMaximumTraceSteps :: nat where
  "kMaximumTraceSteps = 256"

datatype Impression = Undefined | Positive | Negative

datatype IdentitySubject = UnknownSubject | LocalSubject | NonLocalSubject

datatype ActionKind = Ignore | Bad | Die | Ok | Done | Reset | Jump

datatype PamModuleRole =
  CredentialAuthenticator | CredentialCollector | Auxiliary | Gate | Enforcement | TrustedAuthenticator
| UnknownRole

record ControlAction =
  action_kind :: ActionKind
  action_jump :: nat

definition simple_action :: "ActionKind \<Rightarrow> ControlAction" where
  "simple_action kind = \<lparr> action_kind = kind, action_jump = 0 \<rparr>"

record ParsedControl =
  control_actions :: "(string, ControlAction) omap"
  defaultAction :: ControlAction

record TrustedAuthenticationBypassEvidence =
  tb_service :: string
  tb_module :: string
  tb_reason :: PamTrustedAuthenticationBypassReason
  tb_source :: string
  tb_line :: nat

record TrustedAuthenticationExclusionEvidence =
  te_service :: string
  te_module :: string
  te_reason :: PamTrustedAuthenticationExclusionReason
  te_excludedUser :: string
  te_source :: string
  te_line :: nat

record Evidence =
  providerReached :: bool
  providerSucceeded :: bool
  preauthSucceeded :: bool
  preauthDenied :: bool
  preauthFailedClosed :: bool
  authfailReached :: bool
  authsuccSucceeded :: bool
  authsuccDenied :: bool
  accountSucceeded :: bool
  authenticationSuccessObserved :: bool
  authenticationFailureObserved :: bool
  passwordQualitySucceeded :: bool
  passwordHistoryReached :: bool
  passwordHistorySucceeded :: bool
  passwordTokenProduced :: bool
  passwordHistoryTokenAvailable :: bool
  trustedAuthenticationBypass :: "TrustedAuthenticationBypassEvidence option"
  trustedAuthenticationExclusion :: "TrustedAuthenticationExclusionEvidence option"

definition noEvidence :: Evidence where
  "noEvidence =
     \<lparr> providerReached = False, providerSucceeded = False, preauthSucceeded = False, preauthDenied = False,
       preauthFailedClosed = False, authfailReached = False, authsuccSucceeded = False,
       authsuccDenied = False, accountSucceeded = False, authenticationSuccessObserved = False,
       authenticationFailureObserved = False, passwordQualitySucceeded = False,
       passwordHistoryReached = False, passwordHistorySucceeded = False, passwordTokenProduced = False,
       passwordHistoryTokenAvailable = False, trustedAuthenticationBypass = None,
       trustedAuthenticationExclusion = None \<rparr>"

record PamFlowStep =
  step_source :: string
  step_line :: nat
  step_module :: string
  step_result :: string
  step_control :: string
  step_action :: string

record ExecutionState =
  impression :: Impression
  es_status :: string
  subject :: IdentitySubject
  evidence :: Evidence
  trace :: "PamFlowStep list"
  traceTruncated :: bool

definition initialState :: ExecutionState where
  "initialState =
     \<lparr> impression = Undefined, es_status = ''perm_denied'', subject = UnknownSubject,
       evidence = noEvidence, trace = [], traceTruncated = False \<rparr>"

section \<open>Control expressions\<close>

definition lowerCopy :: "string \<Rightarrow> string" where
  "lowerCopy s = map lower_char s"

definition moduleBaseName :: "PamRule \<Rightarrow> string" where
  "moduleBaseName rule = filename (rule_module rule)"

definition allReturnCodes :: "string list" where
  "allReturnCodes =
     [''success'', ''open_err'', ''symbol_err'', ''service_err'', ''system_err'', ''buf_err'',
      ''perm_denied'', ''auth_err'', ''cred_insufficient'', ''authinfo_unavail'', ''user_unknown'',
      ''maxtries'', ''new_authtok_reqd'', ''acct_expired'', ''session_err'', ''cred_unavail'',
      ''cred_expired'', ''cred_err'', ''no_module_data'', ''conv_err'', ''authtok_err'',
      ''authtok_recover_err'', ''authtok_lock_busy'', ''authtok_disable_aging'', ''try_again'',
      ''ignore'', ''abort'', ''authtok_expired'', ''module_unknown'', ''bad_item'', ''conv_again'',
      ''incomplete'']"

definition knownReturnCode :: "string \<Rightarrow> bool" where
  "knownReturnCode value \<longleftrightarrow> value \<in> set allReturnCodes"

text \<open>\<open>std::stoul\<close> throws beyond 64 bits, which the code turns into no action.\<close>

definition parseAction :: "string \<Rightarrow> ControlAction option" where
  "parseAction token =
     (let action = lowerCopy token in
      if action = ''ignore'' then Some (simple_action Ignore)
      else if action = ''bad'' then Some (simple_action Bad)
      else if action = ''die'' then Some (simple_action Die)
      else if action = ''ok'' then Some (simple_action Ok)
      else if action = ''done'' then Some (simple_action Done)
      else if action = ''reset'' then Some (simple_action Reset)
      else if action = '''' \<or> \<not> list_all is_digit action then None
      else
        (let parsed = nat_of_digits action in
         if parsed > 2 ^ 64 - 1 then None
         else if parsed = 0 then Some (simple_action Ignore)
         else if parsed > kMaximumSymbolicStates then None
         else Some \<lparr> action_kind = Jump, action_jump = parsed \<rparr>))"

definition setSimple :: "ActionKind \<Rightarrow> ActionKind \<Rightarrow> ParsedControl" where
  "setSimple success failure =
     \<lparr> control_actions = omap_assign ''new_authtok_reqd'' (simple_action success)
         (omap_assign ''success'' (simple_action success) []),
       defaultAction = simple_action failure \<rparr>"

text \<open>The words of a text, as \<open>operator>>\<close> reads them.\<close>

fun words_from :: "string \<Rightarrow> string \<Rightarrow> string list" where
  "words_from word [] = (if word = '''' then [] else [word])"
| "words_from word (c # cs) =
     (if is_space c then (if word = '''' then [] else [word]) @ words_from '''' cs
      else words_from (word @ [c]) cs)"

definition located_error :: "PamRule \<Rightarrow> string \<Rightarrow> string" where
  "located_error rule message = rule_error (rule_source rule) (rule_line rule) message"

fun parse_assignments ::
    "PamRule \<Rightarrow> string list \<Rightarrow> string list \<Rightarrow> ParsedControl \<Rightarrow> string + ParsedControl" where
  "parse_assignments rule assigned [] parsed =
     (if assigned = [] then Inl (located_error rule ''empty extended PAM control'') else Inr parsed)"
| "parse_assignments rule assigned (item # rest) parsed =
     (case find_char (CHR ''='') item of
        None \<Rightarrow> Inl (located_error rule (''malformed extended PAM control: '' @ control rule))
      | Some (result, actionText) \<Rightarrow>
          if result = '''' \<or> actionText = ''''
          then Inl (located_error rule (''malformed extended PAM control: '' @ control rule))
          else if (result \<noteq> ''default'' \<and> \<not> knownReturnCode result) \<or> result \<in> set assigned
          then Inl (located_error rule (''unsupported or duplicate PAM result in control: '' @ result))
          else
            (case parseAction actionText of
               None \<Rightarrow> Inl (located_error rule (''unsupported PAM action in control: '' @ actionText))
             | Some action \<Rightarrow>
                 parse_assignments rule (result # assigned) rest
                   (if result = ''default'' then parsed\<lparr>defaultAction := action\<rparr>
                    else parsed\<lparr>control_actions := omap_assign result action (control_actions parsed)\<rparr>)))"

definition parseControl :: "PamRule \<Rightarrow> string + ParsedControl" where
  "parseControl rule =
     (let text = lowerCopy (control rule) in
      if text = ''required'' then Inr (setSimple Ok Bad)
      else if text = ''requisite'' then Inr (setSimple Ok Die)
      else if text = ''sufficient'' then Inr (setSimple Done Ignore)
      else if text = ''optional'' then Inr (setSimple Ok Ignore)
      else if length text < 2 \<or> hd text \<noteq> CHR ''['' \<or> last text \<noteq> CHR '']''
      then Inl (located_error rule (''unsupported PAM control: '' @ control rule))
      else parse_assignments rule [] (words_from '''' (butlast (tl text)))
        \<lparr> control_actions = [], defaultAction = simple_action Bad \<rparr>)"

definition action_for :: "ParsedControl \<Rightarrow> string \<Rightarrow> ControlAction" where
  "action_for parsed result =
     (case omap_find (control_actions parsed) result of Some action \<Rightarrow> action | None \<Rightarrow> defaultAction parsed)"

section \<open>Paths\<close>

fun split_slash_from :: "string \<Rightarrow> string \<Rightarrow> string list" where
  "split_slash_from part [] = [part]"
| "split_slash_from part (c # cs) =
     (if c = CHR ''/'' then part # split_slash_from '''' cs else split_slash_from (part @ [c]) cs)"

text \<open>Equality of \<open>std::filesystem::path\<close> values: root directory, names, and a trailing separator.\<close>

definition path_elements :: "string \<Rightarrow> bool \<times> string list \<times> bool" where
  "path_elements s =
     (let parts = split_slash_from '''' s; names = filter (\<lambda>p. p \<noteq> '''') parts in
      (is_absolute s, names, names \<noteq> [] \<and> last parts = ''''))"

definition same_path :: "string \<Rightarrow> string \<Rightarrow> bool" where
  "same_path a b \<longleftrightarrow> path_elements a = path_elements b"

text \<open>One name of a path under normalization, onto the names kept so far (the last one first).\<close>

definition normal_push :: "bool \<Rightarrow> string \<Rightarrow> string list \<Rightarrow> string list" where
  "normal_push absolute name kept =
     (if name = ''..'' then
        (case kept of
           [] \<Rightarrow> if absolute then [] else [''..'']
         | upper # rest \<Rightarrow> if upper = ''..'' then ''..'' # kept else rest)
      else name # kept)"

fun join_names :: "string list \<Rightarrow> string" where
  "join_names [] = ''''"
| "join_names [n] = n"
| "join_names (n # m # ns) = n @ ''/'' @ join_names (m # ns)"

definition lexically_normal :: "string \<Rightarrow> string" where
  "lexically_normal s =
     (if s = '''' then ''''
      else
        (let parts = split_slash_from '''' s;
             names = rev (fold (normal_push (is_absolute s)) (filter (\<lambda>p. p \<noteq> '''' \<and> p \<noteq> ''.'') parts) []);
             trailing = (names \<noteq> [] \<and> last names \<noteq> ''..'' \<and> last parts \<in> {'''', ''.'', ''..''});
             text = (if is_absolute s then ''/'' else '''') @ join_names names @ (if trailing then ''/'' else '''')
         in if text = '''' then ''.'' else text))"

section \<open>Modules\<close>

definition source_matches :: "string option \<Rightarrow> PamRule \<Rightarrow> bool" where
  "source_matches expected rule =
     (case expected of
        None \<Rightarrow> True
      | Some path \<Rightarrow> same_path (lexically_normal path) (lexically_normal (rule_source rule)))"

definition matchingTrustedAuthenticationExclusion ::
    "PamRule \<Rightarrow> string \<Rightarrow> PamPlatformConfig \<Rightarrow> PamTrustedAuthenticationExclusionRule option" where
  "matchingTrustedAuthenticationExclusion rule service platformConfig =
     List.find (\<lambda>candidate.
       exclusion_service candidate = service \<and> exclusion_module candidate = moduleBaseName rule \<and>
       (exclusion_control candidate = control rule \<or>
        enforcedControl candidate \<noteq> '''' \<and> enforcedControl candidate = control rule) \<and>
       exclusion_arguments candidate = arguments rule \<and>
       source_matches (exclusion_source candidate) rule) (trustedAuthenticationExclusions platformConfig)"

text \<open>The results that the contract of a module allows.\<close>

definition moduleOutcomes :: "PamRule \<Rightarrow> string \<Rightarrow> PamPlatformConfig \<Rightarrow> string list" where
  "moduleOutcomes rule service platformConfig =
     (let m = moduleBaseName rule in
      if m = ''pam_permit.so'' then [''success'']
      else if m = ''pam_deny.so'' then
        (if rule_group rule = Password then [''authtok_err''] else [''auth_err''])
      else if m = ''pam_rootok.so'' then [''success'', ''auth_err'']
      else if m = ''pam_succeed_if.so'' then
        (if matchingTrustedAuthenticationExclusion rule service platformConfig \<noteq> None
         then [''success'', ''auth_err''] else [''success'', ''auth_err'', ''service_err''])
      else if m = ''pam_localuser.so'' then
        [''success'', ''perm_denied'', ''user_unknown'', ''service_err'', ''system_err'']
      else if m = ''pam_faillock.so'' then
        [''success'', ''auth_err'', ''buf_err'', ''conv_err'', ''incomplete'', ''ignore'']
      else if m = ''pam_pwquality.so'' then
        [''success'', ''authtok_err'', ''authtok_recover_err'', ''authtok_lock_busy'', ''user_unknown'',
         ''maxtries'', ''try_again'', ''incomplete'']
      else if m = ''pam_passwdqc.so'' then
        [''success'', ''authtok_err'', ''authtok_recover_err'', ''authtok_lock_busy'', ''user_unknown'',
         ''maxtries'']
      else if m = ''pam_pwhistory.so'' then
        [''success'', ''system_err'', ''authtok_err'', ''authtok_recover_err'', ''authtok_lock_busy'',
         ''user_unknown'', ''maxtries'', ''try_again'', ''incomplete'', ''ignore'']
      else if m = ''pam_tcb.so'' \<and> rule_group rule = Auth then
        [''success'', ''abort'', ''system_err'', ''buf_err'', ''conv_err'', ''incomplete'', ''user_unknown'',
         ''auth_err'', ''authtok_err'', ''authinfo_unavail'']
      else if m = ''pam_tcb.so'' \<and> rule_group rule = Account then
        [''success'', ''abort'', ''user_unknown'', ''authinfo_unavail'', ''cred_insufficient'',
         ''acct_expired'', ''new_authtok_reqd'']
      else if m = ''pam_gnome_keyring.so'' \<and> rule_group rule = Auth then
        [''success'', ''service_err'', ''authtok_recover_err'', ''system_err'', ''buf_err'', ''bad_item'']
      else if m = ''pam_unix.so'' then
        (if rule_group rule = Password
         then [''success'', ''authtok_err'', ''authtok_recover_err'', ''authtok_lock_busy'',
           ''authtok_disable_aging'', ''user_unknown'', ''maxtries'', ''try_again'', ''incomplete'']
         else [''success'', ''auth_err'', ''user_unknown'', ''maxtries'', ''authinfo_unavail'',
           ''cred_insufficient'', ''incomplete''])
      else allReturnCodes)"

definition hasArgument :: "PamRule \<Rightarrow> string \<Rightarrow> bool" where
  "hasArgument rule argument \<longleftrightarrow> argument \<in> set (arguments rule)"

definition authenticationFailureResult :: "string \<Rightarrow> bool" where
  "authenticationFailureResult result \<longleftrightarrow>
     result \<in> {''auth_err'', ''cred_insufficient'', ''authinfo_unavail'', ''user_unknown'', ''maxtries''}"

definition moduleRole :: "string \<Rightarrow> PamModuleRole" where
  "moduleRole m =
     (if m \<in> {''pam_ccreds.so'', ''pam_krb5.so'', ''pam_ldap.so'', ''pam_pkcs11.so'', ''pam_sss.so'',
              ''pam_tcb.so'', ''pam_unix.so'', ''pam_winbind.so''} then CredentialAuthenticator
      else if m = ''pam_userpass.so'' then CredentialCollector
      else if m \<in> {''pam_access.so'', ''pam_deny.so'', ''pam_env.so'', ''pam_faildelay.so'',
                   ''pam_localuser.so'', ''pam_nologin.so'', ''pam_securetty.so'', ''pam_sepermit.so'',
                   ''pam_shells.so'', ''pam_succeed_if.so'', ''pam_time.so'', ''pam_wheel.so''} then Gate
      else if m = ''pam_gnome_keyring.so'' then Auxiliary
      else if m = ''pam_faillock.so'' then Enforcement
      else if m = ''pam_rootok.so'' then TrustedAuthenticator
      else UnknownRole)"

section \<open>Evidence\<close>

definition reach_provider :: "bool \<Rightarrow> string \<Rightarrow> Evidence \<Rightarrow> Evidence" where
  "reach_provider expectedProvider result e =
     (if expectedProvider
      then e\<lparr>providerReached := True, providerSucceeded := (providerSucceeded e \<or> result = ''success'')\<rparr>
      else e)"

definition record_quality :: "string \<Rightarrow> Evidence \<Rightarrow> Evidence" where
  "record_quality result e =
     e\<lparr>passwordQualitySucceeded := (passwordQualitySucceeded e \<or> result = ''success''),
       passwordTokenProduced := (passwordTokenProduced e \<or> result = ''success'')\<rparr>"

definition record_history :: "string \<Rightarrow> Evidence \<Rightarrow> Evidence" where
  "record_history result e =
     e\<lparr>passwordHistoryTokenAvailable :=
         (if \<not> passwordHistoryReached e then passwordTokenProduced e else passwordHistoryTokenAvailable e),
       passwordHistoryReached := True,
       passwordHistorySucceeded := (passwordHistorySucceeded e \<or> result = ''success'')\<rparr>"

definition record_password :: "PamRule \<Rightarrow> string \<Rightarrow> Evidence \<Rightarrow> Evidence" where
  "record_password rule result e =
     (if rule_group rule \<noteq> Password then e
      else if moduleBaseName rule = ''pam_pwquality.so'' then record_quality result e
      else if moduleBaseName rule = ''pam_pwhistory.so'' \<and> hasArgument rule ''use_authtok''
      then record_history result e
      else e)"

definition record_faillock :: "PamRule \<Rightarrow> string \<Rightarrow> Evidence \<Rightarrow> Evidence" where
  "record_faillock rule result e =
     (if rule_group rule = Account \<and> result = ''success'' then e\<lparr>accountSucceeded := True\<rparr>
      else if hasArgument rule ''preauth'' then
        e\<lparr>preauthSucceeded := (preauthSucceeded e \<or> result = ''success''),
          preauthDenied := (preauthDenied e \<or> result = ''auth_err'')\<rparr>
      else if hasArgument rule ''authfail'' then e\<lparr>authfailReached := True\<rparr>
      else if hasArgument rule ''authsucc'' then
        (if result = ''success'' then e\<lparr>authsuccSucceeded := True\<rparr>
         else if result \<noteq> ''ignore'' then e\<lparr>authsuccDenied := True\<rparr>
         else e)
      else e)"

definition record_authentication :: "PamRule \<Rightarrow> string \<Rightarrow> bool \<Rightarrow> Evidence \<Rightarrow> Evidence" where
  "record_authentication rule result expectedProvider e =
     (let role = moduleRole (moduleBaseName rule) in
      if rule_group rule = Auth \<and> \<not> expectedProvider \<and>
         (role = CredentialAuthenticator \<or> role = UnknownRole)
      then e\<lparr>authenticationSuccessObserved := (authenticationSuccessObserved e \<or> result = ''success''),
             authenticationFailureObserved :=
               (authenticationFailureObserved e \<or> authenticationFailureResult result)\<rparr>
      else if rule_group rule = Auth \<and> role = TrustedAuthenticator
      then e\<lparr>authenticationSuccessObserved := (authenticationSuccessObserved e \<or> result = ''success'')\<rparr>
      else e)"

definition recordEvidence :: "PamRule \<Rightarrow> string \<Rightarrow> PamProviderKind \<Rightarrow> string \<Rightarrow> Evidence \<Rightarrow> Evidence" where
  "recordEvidence rule result provider providerModule e =
     (let expectedProvider = (moduleBaseName rule = providerModule);
          e = record_password rule result (reach_provider expectedProvider result e)
      in if provider = PamFaillock \<and> expectedProvider then record_faillock rule result e
         else record_authentication rule result expectedProvider e)"

definition observed_subject :: "PamRule \<Rightarrow> string \<Rightarrow> IdentitySubject" where
  "observed_subject rule result =
     (if moduleBaseName rule \<noteq> ''pam_localuser.so'' then UnknownSubject
      else if result = ''success'' then LocalSubject
      else if result = ''perm_denied'' \<or> result = ''user_unknown'' then NonLocalSubject
      else UnknownSubject)"

text \<open>The subject after a result, or none when the path contradicts itself.\<close>

definition refineIdentitySubject :: "PamRule \<Rightarrow> string \<Rightarrow> IdentitySubject \<Rightarrow> IdentitySubject option" where
  "refineIdentitySubject rule result current =
     (let observed = observed_subject rule result in
      if observed = UnknownSubject then Some current
      else if current \<noteq> UnknownSubject \<and> current \<noteq> observed then None
      else Some observed)"

definition recordProviderFailClosedEvidence ::
    "PamRule \<Rightarrow> string \<Rightarrow> ControlAction \<Rightarrow> PamProviderKind \<Rightarrow> Evidence \<Rightarrow> Evidence" where
  "recordProviderFailClosedEvidence rule result action provider e =
     (if provider \<noteq> PamFaillock \<or> moduleBaseName rule \<noteq> ''pam_faillock.so'' \<or>
         \<not> hasArgument rule ''preauth'' \<or> result = ''success'' \<or> result = ''new_authtok_reqd'' \<or>
         result = ''auth_err''
      then e
      else e\<lparr>preauthFailedClosed :=
        (preauthFailedClosed e \<or> action_kind action = Bad \<or> action_kind action = Die)\<rparr>)"

definition matchingTrustedAuthenticationBypass ::
    "PamRule \<Rightarrow> string \<Rightarrow> PamPlatformConfig \<Rightarrow> PamTrustedAuthenticationBypassRule option" where
  "matchingTrustedAuthenticationBypass rule service platformConfig =
     List.find (\<lambda>candidate.
       bypass_service candidate = service \<and> bypass_module candidate = moduleBaseName rule \<and>
       (bypass_control candidate = '''' \<or> bypass_control candidate = control rule) \<and>
       (bypass_arguments candidate = [] \<or> bypass_arguments candidate = arguments rule) \<and>
       source_matches (bypass_source candidate) rule) (trustedAuthenticationBypasses platformConfig)"

definition recordTrustedAuthenticationBypass ::
    "PamRule \<Rightarrow> string \<Rightarrow> ControlAction \<Rightarrow> string \<Rightarrow> PamPlatformConfig \<Rightarrow> Evidence \<Rightarrow> Evidence" where
  "recordTrustedAuthenticationBypass rule result action service platformConfig e =
     (if rule_group rule \<noteq> Auth \<or> result \<noteq> ''success'' \<or> action_kind action \<noteq> Done then e
      else
        (case matchingTrustedAuthenticationBypass rule service platformConfig of
           None \<Rightarrow> e
         | Some matched \<Rightarrow> e\<lparr>trustedAuthenticationBypass := Some
             \<lparr> tb_service = service, tb_module = moduleBaseName rule, tb_reason = bypass_reason matched,
               tb_source = rule_source rule, tb_line = rule_line rule \<rparr>\<rparr>))"

definition recordTrustedAuthenticationExclusion ::
    "PamRule \<Rightarrow> string \<Rightarrow> ControlAction \<Rightarrow> string \<Rightarrow> PamPlatformConfig \<Rightarrow> Evidence \<Rightarrow> Evidence" where
  "recordTrustedAuthenticationExclusion rule result action service platformConfig e =
     (if rule_group rule \<noteq> Auth \<or> result \<noteq> ''auth_err'' \<or>
         action_kind action \<noteq> Bad \<and> action_kind action \<noteq> Die
      then e
      else
        (case matchingTrustedAuthenticationExclusion rule service platformConfig of
           None \<Rightarrow> e
         | Some matched \<Rightarrow>
             if excludedUser matched = '''' then e
             else e\<lparr>trustedAuthenticationExclusion := Some
               \<lparr> te_service = service, te_module = moduleBaseName rule, te_reason = exclusion_reason matched,
                 te_excludedUser = excludedUser matched, te_source = rule_source rule,
                 te_line = rule_line rule \<rparr>\<rparr>))"

definition actionName :: "ControlAction \<Rightarrow> string" where
  "actionName action =
     (case action_kind action of
        Ignore \<Rightarrow> ''ignore'' | Bad \<Rightarrow> ''bad'' | Die \<Rightarrow> ''die'' | Ok \<Rightarrow> ''ok'' | Done \<Rightarrow> ''done''
      | Reset \<Rightarrow> ''reset'' | Jump \<Rightarrow> ''jump '' @ digits_of_nat (action_jump action))"

section \<open>States\<close>

definition sameTrustedAuthenticationBypass ::
    "TrustedAuthenticationBypassEvidence option \<Rightarrow> TrustedAuthenticationBypassEvidence option \<Rightarrow> bool" where
  "sameTrustedAuthenticationBypass left right =
     (case (left, right) of
        (None, None) \<Rightarrow> True
      | (Some l, Some r) \<Rightarrow>
          tb_service l = tb_service r \<and> tb_module l = tb_module r \<and> tb_reason l = tb_reason r \<and>
          same_path (tb_source l) (tb_source r) \<and> tb_line l = tb_line r
      | _ \<Rightarrow> False)"

definition sameTrustedAuthenticationExclusion ::
    "TrustedAuthenticationExclusionEvidence option \<Rightarrow> TrustedAuthenticationExclusionEvidence option \<Rightarrow> bool" where
  "sameTrustedAuthenticationExclusion left right =
     (case (left, right) of
        (None, None) \<Rightarrow> True
      | (Some l, Some r) \<Rightarrow>
          te_service l = te_service r \<and> te_module l = te_module r \<and> te_reason l = te_reason r \<and>
          te_excludedUser l = te_excludedUser r \<and> same_path (te_source l) (te_source r) \<and>
          te_line l = te_line r
      | _ \<Rightarrow> False)"

definition sameState :: "ExecutionState \<Rightarrow> ExecutionState \<Rightarrow> bool" where
  "sameState left right \<longleftrightarrow>
     (let a = evidence left; b = evidence right in
      impression left = impression right \<and> es_status left = es_status right \<and> subject left = subject right \<and>
      providerReached a = providerReached b \<and> providerSucceeded a = providerSucceeded b \<and>
      preauthSucceeded a = preauthSucceeded b \<and> preauthDenied a = preauthDenied b \<and>
      preauthFailedClosed a = preauthFailedClosed b \<and> authfailReached a = authfailReached b \<and>
      authsuccSucceeded a = authsuccSucceeded b \<and> authsuccDenied a = authsuccDenied b \<and>
      accountSucceeded a = accountSucceeded b \<and>
      authenticationSuccessObserved a = authenticationSuccessObserved b \<and>
      authenticationFailureObserved a = authenticationFailureObserved b \<and>
      passwordQualitySucceeded a = passwordQualitySucceeded b \<and>
      passwordHistoryReached a = passwordHistoryReached b \<and>
      passwordHistorySucceeded a = passwordHistorySucceeded b \<and>
      passwordTokenProduced a = passwordTokenProduced b \<and>
      passwordHistoryTokenAvailable a = passwordHistoryTokenAvailable b \<and>
      sameTrustedAuthenticationBypass (trustedAuthenticationBypass a) (trustedAuthenticationBypass b) \<and>
      sameTrustedAuthenticationExclusion (trustedAuthenticationExclusion a) (trustedAuthenticationExclusion b))"

text \<open>A failure is reported by the returned text, or it is an exception that leaves the analyzer.\<close>

datatype flow_failure = Reported string | Thrown exn

definition addUnique :: "ExecutionState list \<Rightarrow> ExecutionState \<Rightarrow> flow_failure + ExecutionState list" where
  "addUnique states state =
     (if list_ex (\<lambda>existing. sameState existing state) states then Inr states
      else if length states \<ge> kMaximumSymbolicStates
      then Inl (Reported ''PAM symbolic state limit exceeded'')
      else Inr (states @ [state]))"

definition stackSucceeded :: "ExecutionState \<Rightarrow> bool" where
  "stackSucceeded state \<longleftrightarrow> impression state = Positive \<and> es_status state = ''success''"

definition subjectIsRelevant :: "ExecutionState \<Rightarrow> PamPlatformConfig \<Rightarrow> PamCapability \<Rightarrow> bool" where
  "subjectIsRelevant state platformConfig capability =
     (case List.find (\<lambda>candidate. cap_capability candidate = capability) (pam_capabilities platformConfig) of
        None \<Rightarrow> True
      | Some configured \<Rightarrow> cap_subjectScope configured \<noteq> LocalUsersOnly \<or> subject state \<noteq> NonLocalSubject)"

section \<open>Symbolic execution\<close>

definition push_step :: "PamFlowStep \<Rightarrow> ExecutionState \<Rightarrow> ExecutionState" where
  "push_step step state =
     (if length (trace state) < kMaximumTraceSteps then state\<lparr>trace := trace state @ [step]\<rparr>
      else state\<lparr>traceTruncated := True\<rparr>)"

definition accept_result :: "string \<Rightarrow> ExecutionState \<Rightarrow> ExecutionState" where
  "accept_result result state =
     (if (impression state = Undefined \<or> impression state = Positive \<and> es_status state = ''success'') \<and>
         result \<noteq> ''ignore''
      then state\<lparr>impression := Positive, es_status := result\<rparr> else state)"

definition reject_result :: "string \<Rightarrow> ExecutionState \<Rightarrow> ExecutionState" where
  "reject_result result state =
     (if impression state \<noteq> Negative
      then state\<lparr>impression := Negative,
        es_status := (if result = ''ignore'' then ''perm_denied'' else result)\<rparr>
      else state)"

text \<open>
  The action on a state that reached entry \<open>index\<close> of a stack with \<open>count\<close> entries: the new state, and
  the entry it moves to or none when the stack terminates.
\<close>

definition control_step ::
    "ExecutionState \<Rightarrow> nat \<Rightarrow> nat \<Rightarrow> ControlAction \<Rightarrow> string \<Rightarrow> ExecutionState \<Rightarrow> ExecutionState \<times> nat option" where
  "control_step initial index count action result state =
     (case action_kind action of
        Reset \<Rightarrow> (state\<lparr>impression := impression initial, es_status := es_status initial\<rparr>, Some (index + 1))
      | Ok \<Rightarrow> (accept_result result state, Some (index + 1))
      | Done \<Rightarrow>
          (let state = accept_result result state in
           (state, if impression state = Positive then None else Some (index + 1)))
      | Bad \<Rightarrow> (reject_result result state, Some (index + 1))
      | Die \<Rightarrow> (reject_result result state, None)
      | Ignore \<Rightarrow> (state, Some (index + 1))
      | Jump \<Rightarrow>
          (let next = index + 1 + action_jump action in
           if next > count then (state\<lparr>impression := Negative, es_status := ''perm_denied''\<rparr>, None)
           else (state, Some next)))"

text \<open>The pending states of every entry, the completed ones and the transitions spent.\<close>

type_synonym exploration = "ExecutionState list list \<times> ExecutionState list \<times> nat"

definition add_pending ::
    "ExecutionState list list \<Rightarrow> nat \<Rightarrow> ExecutionState \<Rightarrow> flow_failure + ExecutionState list list" where
  "add_pending pending index state =
     and_then (addUnique (pending ! index) state) (\<lambda>states. Inr (pending[index := states]))"

text \<open>Everything that is recorded for a result of a rule before the action is taken.\<close>

definition observe_result ::
    "PamProviderKind \<Rightarrow> string \<Rightarrow> string \<Rightarrow> PamPlatformConfig \<Rightarrow> PamRule \<Rightarrow> string \<Rightarrow> ControlAction \<Rightarrow>
     ExecutionState \<Rightarrow> ExecutionState" where
  "observe_result provider providerModule service platformConfig rule result action state =
     push_step
       \<lparr> step_source = rule_source rule, step_line = rule_line rule, step_module = rule_module rule,
         step_result = result, step_control = control rule, step_action = actionName action \<rparr>
       (state\<lparr>evidence :=
          recordTrustedAuthenticationExclusion rule result action service platformConfig
            (recordProviderFailClosedEvidence rule result action provider
              (recordEvidence rule result provider providerModule (evidence state)))\<rparr>)"

text \<open>What is recorded for a state that ends its stack.\<close>

definition terminate_state ::
    "string \<Rightarrow> PamPlatformConfig \<Rightarrow> PamRule \<Rightarrow> string \<Rightarrow> ControlAction \<Rightarrow> ExecutionState \<Rightarrow> ExecutionState" where
  "terminate_state service platformConfig rule result action state =
     (if impression state = Positive \<and> (es_status state = ''success'' \<or> es_status state = ''new_authtok_reqd'')
      then state\<lparr>evidence :=
        recordTrustedAuthenticationBypass rule result action service platformConfig (evidence state)\<rparr>
      else state)"

record flow_setting =
  fl_provider :: PamProviderKind
  fl_service :: string
  fl_platform :: PamPlatformConfig

definition lift_exn :: "exn + 'a \<Rightarrow> flow_failure + 'a" where
  "lift_exn x = (case x of Inl e \<Rightarrow> Inl (Thrown e) | Inr a \<Rightarrow> Inr a)"

definition lift_error :: "string + 'a \<Rightarrow> flow_failure + 'a" where
  "lift_error x = (case x of Inl e \<Rightarrow> Inl (Reported e) | Inr a \<Rightarrow> Inr a)"

definition take_result ::
    "flow_setting \<Rightarrow> ExecutionState \<Rightarrow> nat \<Rightarrow> nat \<Rightarrow> PamRule \<Rightarrow> ParsedControl \<Rightarrow> ExecutionState \<Rightarrow> string \<Rightarrow>
     exploration \<Rightarrow> flow_failure + exploration" where
  "take_result fl initial index count rule parsed incoming result = (\<lambda>(pending, completed, transitions).
     if transitions + 1 > kMaximumSymbolicTransitions
     then Inl (Reported ''PAM symbolic transition limit exceeded'')
     else
       (case refineIdentitySubject rule result (subject incoming) of
          None \<Rightarrow> Inr (pending, completed, transitions + 1)
        | Some refined \<Rightarrow>
            and_then (lift_exn (pamProviderModuleName (fl_provider fl))) (\<lambda>providerModule.
              let action = action_for parsed result;
                  observed = observe_result (fl_provider fl) providerModule (fl_service fl) (fl_platform fl)
                    rule result action (incoming\<lparr>subject := refined\<rparr>)
              in case control_step initial index count action result observed of
                   (state, None) \<Rightarrow>
                     and_then (addUnique completed
                         (terminate_state (fl_service fl) (fl_platform fl) rule result action state)) (\<lambda>completed.
                       Inr (pending, completed, transitions + 1))
                 | (state, Some next) \<Rightarrow>
                     and_then (add_pending pending next state) (\<lambda>pending.
                       Inr (pending, completed, transitions + 1)))))"

fun each :: "('a \<Rightarrow> 'b \<Rightarrow> 'e + 'b) \<Rightarrow> 'a list \<Rightarrow> 'b \<Rightarrow> 'e + 'b" where
  "each f [] b = Inr b"
| "each f (x # xs) b = and_then (f x b) (each f xs)"

definition enter_substack :: "PamRule \<Rightarrow> ExecutionState \<Rightarrow> ExecutionState" where
  "enter_substack rule state =
     push_step
       \<lparr> step_source = rule_source rule, step_line = rule_line rule,
         step_module = ''substack '' @ includeTarget rule, step_result = '''', step_control = ''substack'',
         step_action = ''enter'' \<rparr> state"

text \<open>One incoming state at an entry; \<open>nested\<close> executes a substack.\<close>

definition visit_from ::
    "(PamStackEntry list \<Rightarrow> ExecutionState \<Rightarrow> nat \<Rightarrow> flow_failure + ExecutionState list \<times> nat) \<Rightarrow>
     flow_setting \<Rightarrow> ExecutionState \<Rightarrow> nat \<Rightarrow> nat \<Rightarrow> PamStackEntry \<Rightarrow> ExecutionState \<Rightarrow> exploration \<Rightarrow>
     flow_failure + exploration" where
  "visit_from nested fl initial index count entry incoming = (\<lambda>(pending, completed, transitions).
     if isSubstack entry then
       and_then (nested (substack entry) (enter_substack (entry_rule entry) incoming) transitions)
         (\<lambda>(nestedCompleted, transitions).
           and_then (each (\<lambda>state pending. add_pending pending (index + 1) state) nestedCompleted pending)
             (\<lambda>pending. Inr (pending, completed, transitions)))
     else
       and_then (lift_error (parseControl (entry_rule entry))) (\<lambda>parsed.
         each (take_result fl initial index count (entry_rule entry) parsed incoming)
           (moduleOutcomes (entry_rule entry) (fl_service fl) (fl_platform fl))
           (pending, completed, transitions)))"

fun visit_entries ::
    "(PamStackEntry list \<Rightarrow> ExecutionState \<Rightarrow> nat \<Rightarrow> flow_failure + ExecutionState list \<times> nat) \<Rightarrow>
     flow_setting \<Rightarrow> ExecutionState \<Rightarrow> nat \<Rightarrow> nat \<Rightarrow> PamStackEntry list \<Rightarrow> exploration \<Rightarrow>
     flow_failure + exploration" where
  "visit_entries nested fl initial count index [] x = Inr x"
| "visit_entries nested fl initial count index (entry # rest) x =
     and_then (each (visit_from nested fl initial index count entry) (fst x ! index) x)
       (visit_entries nested fl initial count (index + 1) rest)"

text \<open>
  \<open>left\<close> counts the levels of substacks that are left, \<open>33 - depth\<close> of the code.
\<close>

primrec executeStack ::
    "nat \<Rightarrow> flow_setting \<Rightarrow> PamStackEntry list \<Rightarrow> ExecutionState \<Rightarrow> nat \<Rightarrow>
     flow_failure + ExecutionState list \<times> nat" where
  "executeStack 0 fl stack initial transitions = Inl (Reported ''PAM substack depth limit exceeded'')"
| "executeStack (Suc left) fl stack initial transitions =
     and_then
       (visit_entries (executeStack left fl) fl initial (length stack) 0 stack
         ([initial] # replicate (length stack) [], [], transitions))
       (\<lambda>(pending, completed, transitions).
         and_then (each (\<lambda>state completed. addUnique completed state) (last pending) completed)
           (\<lambda>completed. Inr (completed, transitions)))"

definition explore ::
    "flow_setting \<Rightarrow> PamStackEntry list \<Rightarrow> flow_failure + ExecutionState list" where
  "explore fl stack = and_then (executeStack 33 fl stack initialState 0) (\<lambda>(states, transitions). Inr states)"

section \<open>Violations and accepted paths\<close>

datatype PamFlowViolationKind =
  ProviderUnreachable | AuthenticationBypass | PasswordEnforcementBypass | FailureAccountingBypass
| RecoverableFailureAccounting | SuccessAccountingBypass | PrematureSuccessAccounting
| UnsupportedControlFlow

record PamFlowViolation =
  violation_kind :: PamFlowViolationKind
  violation_service :: string
  violation_group :: PamManagementGroup
  violation_message :: string
  violation_path :: "PamFlowStep list"
  pathTruncated :: bool

record PamTrustedAuthenticationBypassAcceptance =
  ab_evidence :: TrustedAuthenticationBypassEvidence
  ab_path :: "PamFlowStep list"
  ab_pathTruncated :: bool

record PamTrustedAuthenticationExclusionAcceptance =
  ae_evidence :: TrustedAuthenticationExclusionEvidence
  ae_path :: "PamFlowStep list"
  ae_pathTruncated :: bool

record PamControlFlowAnalysis =
  effective :: bool
  violations :: "PamFlowViolation list"
  acceptedTrustedAuthenticationBypasses :: "PamTrustedAuthenticationBypassAcceptance list"
  acceptedTrustedAuthenticationExclusions :: "PamTrustedAuthenticationExclusionAcceptance list"

definition emptyAnalysis :: PamControlFlowAnalysis where
  "emptyAnalysis =
     \<lparr> effective = False, violations = [], acceptedTrustedAuthenticationBypasses = [],
       acceptedTrustedAuthenticationExclusions = [] \<rparr>"

fun stackHasFaillockRole :: "PamStackEntry list \<Rightarrow> string \<Rightarrow> PamManagementGroup \<Rightarrow> bool" where
  "stackHasFaillockRole [] role g = False"
| "stackHasFaillockRole (PamStackEntry rule inner # rest) role g =
     ((if isSubstack (PamStackEntry rule inner) then stackHasFaillockRole inner role g
       else rule_group rule = g \<and> moduleBaseName rule = ''pam_faillock.so'' \<and>
         (g = Account \<or> hasArgument rule role)) \<or>
      stackHasFaillockRole rest role g)"

definition violationForState ::
    "PamFlowViolationKind \<Rightarrow> PamEffectiveStack \<Rightarrow> string \<Rightarrow> ExecutionState \<Rightarrow> PamFlowViolation" where
  "violationForState kind stack message state =
     \<lparr> violation_kind = kind, violation_service = stack_service stack, violation_group = stack_group stack,
       violation_message = message, violation_path = trace state, pathTruncated = traceTruncated state \<rparr>"

definition addFirstViolation :: "PamFlowViolation \<Rightarrow> PamControlFlowAnalysis \<Rightarrow> PamControlFlowAnalysis" where
  "addFirstViolation violation analysis =
     (if list_ex (\<lambda>existing. violation_kind existing = violation_kind violation \<and>
           violation_service existing = violation_service violation \<and>
           violation_group existing = violation_group violation) (violations analysis)
      then analysis
      else analysis\<lparr>violations := violations analysis @ [violation]\<rparr>)"

definition addAcceptedTrustedAuthenticationBypass ::
    "ExecutionState \<Rightarrow> PamControlFlowAnalysis \<Rightarrow> PamControlFlowAnalysis" where
  "addAcceptedTrustedAuthenticationBypass state analysis =
     (case trustedAuthenticationBypass (evidence state) of
        None \<Rightarrow> analysis
      | Some found \<Rightarrow>
          if list_ex (\<lambda>existing. sameTrustedAuthenticationBypass (Some (ab_evidence existing)) (Some found))
               (acceptedTrustedAuthenticationBypasses analysis)
          then analysis
          else analysis\<lparr>acceptedTrustedAuthenticationBypasses :=
            acceptedTrustedAuthenticationBypasses analysis @
            [\<lparr> ab_evidence = found, ab_path = trace state, ab_pathTruncated = traceTruncated state \<rparr>]\<rparr>)"

definition addAcceptedTrustedAuthenticationExclusion ::
    "ExecutionState \<Rightarrow> PamControlFlowAnalysis \<Rightarrow> PamControlFlowAnalysis" where
  "addAcceptedTrustedAuthenticationExclusion state analysis =
     (case trustedAuthenticationExclusion (evidence state) of
        None \<Rightarrow> analysis
      | Some found \<Rightarrow>
          if list_ex (\<lambda>existing. sameTrustedAuthenticationExclusion (Some (ae_evidence existing)) (Some found))
               (acceptedTrustedAuthenticationExclusions analysis)
          then analysis
          else analysis\<lparr>acceptedTrustedAuthenticationExclusions :=
            acceptedTrustedAuthenticationExclusions analysis @
            [\<lparr> ae_evidence = found, ae_path = trace state, ae_pathTruncated = traceTruncated state \<rparr>]\<rparr>)"

section \<open>Password stacks\<close>

definition first_trace :: "ExecutionState list \<Rightarrow> ExecutionState" where
  "first_trace states = (case states of [] \<Rightarrow> initialState | s # ss \<Rightarrow> s)"

definition analyzePasswordStack ::
    "PamEffectiveStack \<Rightarrow> PamCapability \<Rightarrow> PamProviderKind \<Rightarrow> PamPlatformConfig \<Rightarrow> PamControlFlowAnalysis \<Rightarrow>
     flow_failure + PamControlFlowAnalysis" where
  "analyzePasswordStack stack capability provider platformConfig analysis =
     and_then (explore \<lparr> fl_provider = provider, fl_service = stack_service stack, fl_platform = platformConfig \<rparr>
         (stack_entries stack)) (\<lambda>states.
       if \<not> list_ex (\<lambda>state. subjectIsRelevant state platformConfig capability \<and> stackSucceeded state) states
       then Inr (addFirstViolation (violationForState UnsupportedControlFlow stack
         ''no successful password-change path can be proven'' (first_trace states)) analysis)
       else each (\<lambda>state analysis.
           if subjectIsRelevant state platformConfig capability \<and> stackSucceeded state \<and>
              \<not> providerSucceeded (evidence state)
           then and_then (lift_exn (pamProviderName provider)) (\<lambda>name.
             Inr (addFirstViolation (violationForState PasswordEnforcementBypass stack
               (''successful password-change path bypasses '' @ name) state) analysis))
           else Inr analysis) states analysis)"

record PamPasswordFlowRequirements =
  requireQuality :: bool
  requireHistory :: bool

record PamPasswordFlowAnalysis =
  qualityNonBypassable :: bool
  historyNonBypassable :: bool
  historyAlwaysHasTokenProducer :: bool
  flow_violations :: "PamFlowViolation list"

definition qualityOnPath :: "ExecutionState \<Rightarrow> bool" where
  "qualityOnPath state \<longleftrightarrow> passwordQualitySucceeded (evidence state)"

definition historyOnPath :: "ExecutionState \<Rightarrow> bool" where
  "historyOnPath state \<longleftrightarrow> passwordHistoryReached (evidence state) \<and> passwordHistorySucceeded (evidence state)"

definition producerBeforeHistory :: "ExecutionState \<Rightarrow> bool" where
  "producerBeforeHistory state \<longleftrightarrow>
     (if passwordHistoryReached (evidence state) then passwordHistoryTokenAvailable (evidence state)
      else qualityOnPath state)"

definition password_message :: "PamPasswordFlowRequirements \<Rightarrow> ExecutionState \<Rightarrow> string" where
  "password_message requirements state =
     (if requireQuality requirements \<and> \<not> qualityOnPath state
      then ''successful password-change path bypasses pam_pwquality.so''
      else if \<not> historyOnPath state
      then ''successful password-change path bypasses pam_pwhistory.so use_authtok''
      else ''successful password-change path reaches pam_pwhistory.so without a proven token producer (PasswordTokenProducerBypass)'')"

definition classify_password ::
    "PamEffectiveStack \<Rightarrow> PamPasswordFlowRequirements \<Rightarrow> ExecutionState \<Rightarrow> PamPasswordFlowAnalysis \<Rightarrow>
     PamPasswordFlowAnalysis" where
  "classify_password stack requirements state analysis =
     (if \<not> stackSucceeded state then analysis
      else analysis\<lparr>
        qualityNonBypassable := (qualityNonBypassable analysis \<and> qualityOnPath state),
        historyNonBypassable := (historyNonBypassable analysis \<and> historyOnPath state),
        historyAlwaysHasTokenProducer := (historyAlwaysHasTokenProducer analysis \<and>
          \<not> (passwordHistoryReached (evidence state) \<and> \<not> producerBeforeHistory state)),
        flow_violations :=
          (if flow_violations analysis = [] \<and>
              (requireQuality requirements \<and> \<not> qualityOnPath state \<or>
               requireHistory requirements \<and> (\<not> historyOnPath state \<or> \<not> producerBeforeHistory state))
           then [\<lparr> violation_kind = PasswordEnforcementBypass, violation_service = stack_service stack,
                   violation_group = Password, violation_message = password_message requirements state,
                   violation_path = trace state, pathTruncated = traceTruncated state \<rparr>]
           else flow_violations analysis)\<rparr>)"

definition analyzePasswordFlow ::
    "PamEffectiveStack \<Rightarrow> PamPlatformConfig \<Rightarrow> PamPasswordFlowRequirements \<Rightarrow>
     flow_failure + PamPasswordFlowAnalysis" where
  "analyzePasswordFlow stack platformConfig requirements =
     and_then (explore \<lparr> fl_provider = PamPwquality, fl_service = stack_service stack,
         fl_platform = platformConfig \<rparr> (stack_entries stack)) (\<lambda>states. Inr
       (if \<not> list_ex stackSucceeded states
        then \<lparr> qualityNonBypassable = False, historyNonBypassable = False,
          historyAlwaysHasTokenProducer = False, flow_violations =
            [\<lparr> violation_kind = UnsupportedControlFlow, violation_service = stack_service stack,
               violation_group = Password,
               violation_message = ''no successful password-change path can be proven (fail closed)'',
               violation_path = [], pathTruncated = False \<rparr>] \<rparr>
        else fold (classify_password stack requirements) states
          \<lparr> qualityNonBypassable = True, historyNonBypassable = True,
            historyAlwaysHasTokenProducer = True, flow_violations = [] \<rparr>))"

section \<open>Lockout stacks\<close>

definition pamFaillockRootLockoutEnabled ::
    "'e option_files \<Rightarrow> PamPlatformConfig \<Rightarrow> 'e \<Rightarrow> (string + bool) \<times> 'e" where
  "pamFaillockRootLockoutEnabled files platformConfig e =
     (case List.find (\<lambda>candidate. cap_capability candidate = AuthenticationLockout \<and>
            cap_provider candidate = PamFaillock) (pam_capabilities platformConfig) of
        None \<Rightarrow> (Inl ''pam_faillock root-lockout state cannot be determined: the platform has no canonical faillock configuration path'', e)
      | Some capability \<Rightarrow>
          if cap_configPath capability = ''''
          then (Inl ''pam_faillock root-lockout state cannot be determined: the platform has no canonical faillock configuration path'', e)
          else
            (case hasFlag files (cap_configPath capability) ''even_deny_root'' True CaseSensitive BareOnly e of
               (Inr u, e1) \<Rightarrow> (Inr True, e1)
             | (Inl enabledError, e1) \<Rightarrow>
                 (case hasFlag files (cap_configPath capability) ''even_deny_root'' False CaseSensitive BareOnly e1 of
                    (Inr u, e2) \<Rightarrow> (Inr False, e2)
                  | (Inl disabledError, e2) \<Rightarrow>
                      (Inl (''could not determine pam_faillock even_deny_root state: '' @
                         (if disabledError = '''' then enabledError else disabledError)), e2))))"

definition terminatedPositively :: "ExecutionState \<Rightarrow> bool" where
  "terminatedPositively state \<longleftrightarrow>
     impression state = Positive \<and> (es_status state = ''success'' \<or> es_status state = ''new_authtok_reqd'')"

definition is_authfail :: "PamStackEntry \<Rightarrow> bool" where
  "is_authfail entry \<longleftrightarrow>
     rule_group (entry_rule entry) = Auth \<and> moduleBaseName (entry_rule entry) = ''pam_faillock.so'' \<and>
     hasArgument (entry_rule entry) ''authfail''"

definition lateProvider :: "PamStackEntry list \<Rightarrow> PamRule option" where
  "lateProvider stack =
     (case dropWhile (\<lambda>entry. \<not> is_authfail entry) stack of
        [] \<Rightarrow> None
      | entry # rest \<Rightarrow> map_option entry_rule (List.find (\<lambda>entry. rule_group (entry_rule entry) = Auth \<and>
          moduleRole (moduleBaseName (entry_rule entry)) = CredentialAuthenticator) rest))"

definition late_violation :: "string \<Rightarrow> PamRule \<Rightarrow> PamFlowViolation" where
  "late_violation service rule =
     \<lparr> violation_kind = ProviderUnreachable, violation_service = service, violation_group = Auth,
       violation_message = ''credential provider '' @ moduleBaseName rule @
         '' follows the pam_faillock authfail accounting rule and can never be reached; authentication failure would be accounted even though it is still recoverable by this provider'',
       violation_path = [\<lparr> step_source = rule_source rule, step_line = rule_line rule,
         step_module = rule_module rule, step_result = ''unreachable'', step_control = control rule,
         step_action = ''unreachable'' \<rparr>],
       pathTruncated = False \<rparr>"

text \<open>A failure, the analysis at that point and the state of the files.\<close>

type_synonym 'e flow_run = "flow_failure option \<times> PamControlFlowAnalysis \<times> 'e"

definition classify_positive ::
    "PamEffectiveStack \<Rightarrow> bool \<Rightarrow> ExecutionState \<Rightarrow> PamControlFlowAnalysis \<Rightarrow> PamControlFlowAnalysis" where
  "classify_positive stack authsuccTopology state analysis =
     (let e = evidence state in
      if trustedAuthenticationBypass e \<noteq> None then addAcceptedTrustedAuthenticationBypass state analysis
      else if authsuccTopology \<and> authenticationFailureObserved e \<and> authfailReached e
      then addFirstViolation (violationForState RecoverableFailureAccounting stack
        ''authentication failure was accounted by pam_faillock authfail but the stack still terminated successfully'' state) analysis
      else if authsuccTopology \<and> authsuccDenied e
      then addFirstViolation (violationForState AuthenticationBypass stack
        ''successful authentication path bypasses the pam_faillock authsucc lockout denial'' state) analysis
      else if (authenticationFailureObserved e \<and> \<not> authenticationSuccessObserved e) \<or> \<not> providerReached e \<or>
              (\<not> authsuccTopology \<and> \<not> preauthSucceeded e \<and> \<not> preauthDenied e)
      then addFirstViolation (violationForState AuthenticationBypass stack
        ''successful authentication path bypasses the pam_faillock lockout check'' state) analysis
      else if authsuccTopology \<and> \<not> authsuccSucceeded e
      then addFirstViolation (violationForState SuccessAccountingBypass stack
        ''successful authentication path bypasses pam_faillock authsucc accounting'' state) analysis
      else analysis)"

definition excludes_root :: "ExecutionState \<Rightarrow> bool" where
  "excludes_root state =
     (case trustedAuthenticationExclusion (evidence state) of
        None \<Rightarrow> False
      | Some exclusion \<Rightarrow> te_excludedUser exclusion = ''root'')"

definition classify_premature ::
    "'e option_files \<Rightarrow> PamPlatformConfig \<Rightarrow> PamEffectiveStack \<Rightarrow> ExecutionState \<Rightarrow> PamControlFlowAnalysis \<Rightarrow> 'e \<Rightarrow>
     'e flow_run" where
  "classify_premature files platformConfig stack state analysis env =
     (if excludes_root state then
        (case pamFaillockRootLockoutEnabled files platformConfig env of
           (Inl error, env) \<Rightarrow> (Some (Reported error), analysis, env)
         | (Inr rootLockoutEnabled, env) \<Rightarrow>
             if \<not> rootLockoutEnabled
             then (None, addAcceptedTrustedAuthenticationExclusion state analysis, env)
             else (None, addFirstViolation (violationForState PrematureSuccessAccounting stack
               ''pam_faillock authsucc reset the root tally on a path that the PAM service explicitly excludes from successful authentication while even_deny_root is enabled'' state) analysis, env))
      else (None, addFirstViolation (violationForState PrematureSuccessAccounting stack
        ''pam_faillock authsucc success accounting happened on a path that finally failed authentication'' state) analysis, env))"

definition failure_unaccounted :: "Evidence \<Rightarrow> bool" where
  "failure_unaccounted e \<longleftrightarrow>
     authenticationFailureObserved e \<and> \<not> authenticationSuccessObserved e \<and> \<not> authfailReached e \<and>
     \<not> preauthDenied e \<and> \<not> preauthFailedClosed e"

definition classify_auth ::
    "'e option_files \<Rightarrow> PamPlatformConfig \<Rightarrow> PamEffectiveStack \<Rightarrow> bool \<Rightarrow> ExecutionState \<Rightarrow>
     PamControlFlowAnalysis \<times> 'e \<Rightarrow> 'e flow_run" where
  "classify_auth files platformConfig stack authsuccTopology state = (\<lambda>(analysis, env).
     if \<not> subjectIsRelevant state platformConfig AuthenticationLockout then (None, analysis, env)
     else if terminatedPositively state
     then (None, classify_positive stack authsuccTopology state analysis, env)
     else if authsuccTopology \<and> authsuccSucceeded (evidence state) \<and> impression state = Negative
     then classify_premature files platformConfig stack state analysis env
     else if failure_unaccounted (evidence state)
     then (None, addFirstViolation (violationForState FailureAccountingBypass stack
       ''failed authentication path bypasses pam_faillock authfail accounting'' state) analysis, env)
     else (None, analysis, env))"

fun classify_states ::
    "(ExecutionState \<Rightarrow> PamControlFlowAnalysis \<times> 'e \<Rightarrow> 'e flow_run) \<Rightarrow> ExecutionState list \<Rightarrow>
     PamControlFlowAnalysis \<times> 'e \<Rightarrow> 'e flow_run" where
  "classify_states f [] x = (None, x)"
| "classify_states f (state # rest) x =
     (case f state x of (None, y) \<Rightarrow> classify_states f rest y | (Some failure, y) \<Rightarrow> (Some failure, y))"

definition classify_account ::
    "PamPlatformConfig \<Rightarrow> PamEffectiveStack \<Rightarrow> ExecutionState \<Rightarrow> PamControlFlowAnalysis \<Rightarrow> PamControlFlowAnalysis" where
  "classify_account platformConfig stack state analysis =
     (if subjectIsRelevant state platformConfig AuthenticationLockout \<and> stackSucceeded state \<and>
         \<not> accountSucceeded (evidence state)
      then addFirstViolation (violationForState SuccessAccountingBypass stack
        ''successful account path bypasses pam_faillock success accounting'' state) analysis
      else analysis)"

text \<open>The account stack of a service whose lockout is accounted there.\<close>

definition analyze_account ::
    "pam_files \<Rightarrow> PamPlatformConfig \<Rightarrow> string \<Rightarrow> PamControlFlowAnalysis \<Rightarrow>
     flow_failure + PamControlFlowAnalysis" where
  "analyze_account configuration platformConfig service analysis =
     and_then (lift_error (buildEffectiveStack configuration service Account)) (\<lambda>accountStack.
     and_then (explore \<lparr> fl_provider = PamFaillock, fl_service = service, fl_platform = platformConfig \<rparr>
         (stack_entries accountStack)) (\<lambda>accountStates. Inr
       (if \<not> list_ex (\<lambda>state. subjectIsRelevant state platformConfig AuthenticationLockout \<and> stackSucceeded state)
            accountStates
        then addFirstViolation (violationForState UnsupportedControlFlow accountStack
          ''no successful account-management path can be proven'' (first_trace accountStates)) analysis
        else fold (classify_account platformConfig accountStack) accountStates analysis)))"

definition auth_preliminary ::
    "PamPlatformConfig \<Rightarrow> string \<Rightarrow> PamEffectiveStack \<Rightarrow> ExecutionState list \<Rightarrow> PamControlFlowAnalysis \<Rightarrow>
     PamControlFlowAnalysis" where
  "auth_preliminary platformConfig service authStack authStates analysis =
     (let analysis = (case lateProvider (stack_entries authStack) of
            None \<Rightarrow> analysis
          | Some rule \<Rightarrow> addFirstViolation (late_violation service rule) analysis)
      in if list_ex (\<lambda>state. subjectIsRelevant state platformConfig AuthenticationLockout \<and>
              terminatedPositively state) authStates
         then analysis
         else addFirstViolation (violationForState UnsupportedControlFlow authStack
           ''no successful authentication path can be proven'' (first_trace authStates)) analysis)"

definition analyzeFaillockStack ::
    "pam_files \<Rightarrow> 'e option_files \<Rightarrow> PamPlatformConfig \<Rightarrow> string \<Rightarrow> PamControlFlowAnalysis \<Rightarrow> 'e \<Rightarrow> 'e flow_run" where
  "analyzeFaillockStack configuration files platformConfig service analysis env =
     (case and_then (lift_error (buildEffectiveStack configuration service Auth)) (\<lambda>authStack.
            and_then (explore \<lparr> fl_provider = PamFaillock, fl_service = service, fl_platform = platformConfig \<rparr>
              (stack_entries authStack)) (\<lambda>states. Inr (authStack, states))) of
        Inl failure \<Rightarrow> (Some failure, analysis, env)
      | Inr (authStack, authStates) \<Rightarrow>
          (let authsuccTopology = stackHasFaillockRole (stack_entries authStack) ''authsucc'' Auth in
           case classify_states (classify_auth files platformConfig authStack authsuccTopology) authStates
               (auth_preliminary platformConfig service authStack authStates analysis, env) of
             (Some failure, x) \<Rightarrow> (Some failure, x)
           | (None, analysis, env) \<Rightarrow>
               if authsuccTopology then (None, analysis, env)
               else
                 (case analyze_account configuration platformConfig service analysis of
                    Inl failure \<Rightarrow> (Some failure, analysis, env)
                  | Inr analysis \<Rightarrow> (None, analysis, env))))"

definition flow_error_violation :: "string \<Rightarrow> PamCapability \<Rightarrow> string \<Rightarrow> PamFlowViolation" where
  "flow_error_violation service capability error =
     \<lparr> violation_kind = UnsupportedControlFlow, violation_service = service,
       violation_group = (if capability = AuthenticationLockout then Auth else Password),
       violation_message = error, violation_path = [], pathTruncated = False \<rparr>"

definition conclude ::
    "string \<Rightarrow> PamCapability \<Rightarrow> 'e flow_run \<Rightarrow> (flow_failure + PamControlFlowAnalysis) \<times> 'e" where
  "conclude service capability run =
     (case run of
        (None, analysis, env) \<Rightarrow> (Inr (analysis\<lparr>effective := (violations analysis = [])\<rparr>), env)
      | (Some (Reported error), analysis, env) \<Rightarrow>
          (Inr (analysis\<lparr>effective := False,
             violations := violations analysis @ [flow_error_violation service capability error]\<rparr>), env)
      | (Some (Thrown x), analysis, env) \<Rightarrow> (Inl (Thrown x), env))"

definition analyze ::
    "pam_files \<Rightarrow> 'e option_files \<Rightarrow> PamPlatformConfig \<Rightarrow> string \<Rightarrow> PamCapability \<Rightarrow> PamProviderKind \<Rightarrow> 'e \<Rightarrow>
     (flow_failure + PamControlFlowAnalysis) \<times> 'e" where
  "analyze configuration files platformConfig service capability provider env =
     (if capability = AuthenticationLockout
      then conclude service capability
        (analyzeFaillockStack configuration files platformConfig service emptyAnalysis env)
      else
        (case buildEffectiveStack configuration service Password of
           Inl error \<Rightarrow> (Inl (Reported error), env)
         | Inr stack \<Rightarrow>
             conclude service capability
               (case analyzePasswordStack stack capability provider platformConfig emptyAnalysis of
                  Inl failure \<Rightarrow> (Some failure, emptyAnalysis, env)
                | Inr analysis \<Rightarrow> (None, analysis, env))))"

section \<open>Strategy detection and messages\<close>

text \<open>
  The rules of \<open>pam_faillock\<close> in the order in which the code takes them from its stack of entries: the
  last one first, with substacks expanded.
\<close>

definition faillock_rules :: "PamStackEntry list \<Rightarrow> PamRule list" where
  "faillock_rules stack =
     filter (\<lambda>rule. includeKind rule = NoInclude \<and> moduleBaseName rule = ''pam_faillock.so'' \<and>
       rule_group rule = Auth) (rev (flattenStack stack))"

definition detectPamFaillockStrategy :: "PamEffectiveStack \<Rightarrow> string + PamFaillockStrategy" where
  "detectPamFaillockStrategy authStack =
     (let rules = faillock_rules (stack_entries authStack);
          preauthRules = filter (\<lambda>r. hasArgument r ''preauth'') rules;
          authfailRules = filter (\<lambda>r. \<not> hasArgument r ''preauth'' \<and> hasArgument r ''authfail'') rules;
          authsuccRules = filter (\<lambda>r. \<not> hasArgument r ''preauth'' \<and> \<not> hasArgument r ''authfail'' \<and>
            hasArgument r ''authsucc'') rules
      in if list_ex (\<lambda>r. \<not> hasArgument r ''preauth'' \<and> \<not> hasArgument r ''authfail'' \<and>
              \<not> hasArgument r ''authsucc'') rules
         then Inl ''unrecognized pam_faillock authentication rule without preauth/authfail/authsucc role''
         else if authfailRules = [] then Inl ''pam_faillock topology has no authfail accounting rule''
         else if length preauthRules > 1 \<or> length authsuccRules > 1
         then Inl ''ambiguous pam_faillock topology with duplicated preauth or authsucc rules''
         else if preauthRules \<noteq> [] then
           (if authsuccRules \<noteq> []
            then Inl ''ambiguous pam_faillock topology combines preauth and authsucc strategies''
            else if control (hd preauthRules) = ''requisite'' then Inr PreauthRequisite
            else if control (hd preauthRules) = ''required'' then Inr PreauthRequired
            else Inl (''unsupported pam_faillock preauth control: '' @ control (hd preauthRules)))
         else if authsuccRules \<noteq> [] then Inr Authsucc
         else Inl ''pam_faillock topology has neither preauth nor authsucc rules'')"

primrec pamFlowViolationKindName :: "PamFlowViolationKind \<Rightarrow> string" where
  "pamFlowViolationKindName ProviderUnreachable = ''provider_unreachable''"
| "pamFlowViolationKindName AuthenticationBypass = ''authentication_bypass''"
| "pamFlowViolationKindName PasswordEnforcementBypass = ''password_enforcement_bypass''"
| "pamFlowViolationKindName FailureAccountingBypass = ''failure_accounting_bypass''"
| "pamFlowViolationKindName RecoverableFailureAccounting = ''recoverable_failure_accounting''"
| "pamFlowViolationKindName SuccessAccountingBypass = ''success_accounting_bypass''"
| "pamFlowViolationKindName PrematureSuccessAccounting = ''premature_success_accounting''"
| "pamFlowViolationKindName UnsupportedControlFlow = ''unsupported_control_flow''"

definition format_step :: "PamFlowStep \<Rightarrow> string" where
  "format_step step =
     [CHR 0x0A] @ ''  '' @ step_source step @ '':'' @ digits_of_nat (step_line step) @ '' '' @ step_module step @
     (if step_result step = '''' then '''' else '' -> PAM_'' @ map upper_char (step_result step)) @
     (if step_control step = '''' then '''' else '' control='' @ step_control step) @
     (if step_action step = '''' then '''' else '' action='' @ step_action step)"

definition formatPamFlowViolation :: "PamFlowViolation \<Rightarrow> string" where
  "formatPamFlowViolation violation =
     pamFlowViolationKindName (violation_kind violation) @ '' for PAM service '' @ violation_service violation @
     '' ('' @ pamManagementGroupName (violation_group violation) @ ''): '' @ violation_message violation @
     concat (map format_step (violation_path violation)) @
     (if pathTruncated violation then [CHR 0x0A] @ ''  ... PAM flow trace truncated ...'' else '''')"

end
