(* ===== verification/PamExamples.thy ===== *)
theory PamExamples
  imports PamFlow "HOL-Library.Code_Target_Nat"
begin

text \<open>
  A host whose \<open>login\<close> and \<open>passwd\<close> services are written the way distributions write them, parsed and
  analysed from their text. The analyses of this host are evaluated here and are what the statements
  about all runs are applied to.
\<close>

definition login_content :: string where
  "login_content =
     ''auth [success=1 default=ignore] pam_unix.so'' @ [CHR 10] @
     ''auth [default=die] pam_faillock.so authfail'' @ [CHR 10] @
     ''auth required pam_faillock.so authsucc'' @ [CHR 10]"

definition passwd_content :: string where
  "passwd_content =
     ''password requisite pam_pwquality.so'' @ [CHR 10] @
     ''password required pam_pwhistory.so use_authtok'' @ [CHR 10] @
     ''password required pam_permit.so'' @ [CHR 10]"

definition host_files :: pam_files where
  "host_files = \<lparr> located = (\<lambda>service. Inr (Some (''/etc/pam.d/'' @ service))),
     service_content = (\<lambda>service. if service = ''login'' then Inr login_content
       else if service = ''passwd'' then Inr passwd_content else Inl ''unreadable'') \<rparr>"

definition host_platform :: PamPlatformConfig where
  "host_platform = \<lparr> pam_scopes = [], pam_capabilities = [], trustedAuthenticationBypasses = [],
     trustedAuthenticationExclusions = [], passwordTopologyRuntimeMutable = False \<rparr>"

definition no_option_files :: "unit option_files" where
  "no_option_files = \<lparr> readFile = (\<lambda>p e. (Inl ''no such file'', e)), writer = (\<lambda>p c e. (Inl ''read-only'', e)) \<rparr>"

definition both_required :: PamPasswordFlowRequirements where
  "both_required = \<lparr> requireQuality = True, requireHistory = True \<rparr>"

lemma login_effective:
  "case analyze host_files no_option_files host_platform ''login'' AuthenticationLockout PamFaillock () of
     (Inl _, _) \<Rightarrow> False | (Inr analysis, _) \<Rightarrow> effective analysis"
  by code_simp

lemma passwd_clean:
  "case buildEffectiveStack host_files ''passwd'' Password of Inl _ \<Rightarrow> False | Inr stack \<Rightarrow>
     stack_service stack = ''passwd'' \<and>
     (case analyzePasswordFlow stack host_platform both_required of
        Inl _ \<Rightarrow> False
      | Inr analysis \<Rightarrow> historyNonBypassable analysis \<and> flow_violations analysis = [])"
  by code_simp

lemma passwd_shape:
  "case buildEffectiveStack host_files ''passwd'' Password of Inl _ \<Rightarrow> False | Inr stack \<Rightarrow>
     \<not> list_ex isSubstack (stack_entries stack) \<and>
     map (\<lambda>e. (moduleBaseName (entry_rule e), control (entry_rule e), arguments (entry_rule e))) (stack_entries stack) =
       [(''pam_pwquality.so'', ''requisite'', []), (''pam_pwhistory.so'', ''required'', [''use_authtok'']),
        (''pam_permit.so'', ''required'', [])]"
  by code_simp

end
