(* ===== verification/PamFlowProps.thy ===== *)
theory PamFlowProps
  imports PamFlow PamExamples
begin

text \<open>
  The symbolic execution against the dispatcher it stands for. A run of a stack is one sequence of
  module calls with the verdict that Linux-PAM forms from their results; the symbolic execution
  finds exactly the runs of a stack, up to the evidence that it keeps of a path. The analyses of
  password stacks and of lockout stacks are then statements about all runs.
\<close>

section \<open>Runs of a stack\<close>

type_synonym verdict = "Impression \<times> string"

definition undecided :: verdict where
  "undecided = (Undefined, ''perm_denied'')"

text \<open>
  The effect of an action on the verdict (\<open>pam.conf(5)\<close>), and the entry that comes next, or none when the
  stack ends. \<open>entry_verdict\<close> is the verdict with which the stack was entered.
\<close>

fun dispatch :: "verdict \<Rightarrow> nat \<Rightarrow> nat \<Rightarrow> ControlAction \<Rightarrow> string \<Rightarrow> verdict \<Rightarrow> verdict \<times> nat option" where
  "dispatch entry_verdict index count action result (imp, st) =
     (let accepted = (if (imp = Undefined \<or> imp = Positive \<and> st = ''success'') \<and> result \<noteq> ''ignore''
            then (Positive, result) else (imp, st));
          rejected = (if imp \<noteq> Negative then (Negative, if result = ''ignore'' then ''perm_denied'' else result)
            else (imp, st));
          next = index + 1
      in case action_kind action of
           Ignore \<Rightarrow> ((imp, st), Some next)
         | Ok \<Rightarrow> (accepted, Some next)
         | Done \<Rightarrow> (accepted, if fst accepted = Positive then None else Some next)
         | Bad \<Rightarrow> (rejected, Some next)
         | Die \<Rightarrow> (rejected, None)
         | Reset \<Rightarrow> (entry_verdict, Some next)
         | Jump \<Rightarrow>
             if next + action_jump action > count then ((Negative, ''perm_denied''), None)
             else ((imp, st), Some (next + action_jump action)))"

record pam_call =
  call_rule :: PamRule
  call_result :: string
  call_action :: ControlAction
  call_verdict :: verdict
  call_ends :: bool

text \<open>
  \<open>reaches allowed stack v log w p\<close>: the stack, entered with verdict \<open>v\<close>, makes the calls \<open>log\<close> and is
  then at entry \<open>p\<close>, or ended when \<open>p\<close> is none, with verdict \<open>w\<close>.
\<close>

inductive reaches ::
    "(PamRule \<Rightarrow> string \<Rightarrow> ControlAction \<Rightarrow> bool) \<Rightarrow> PamStackEntry list \<Rightarrow> verdict \<Rightarrow> pam_call list \<Rightarrow> verdict \<Rightarrow>
     nat option \<Rightarrow> bool" for allowed where
  start: "reaches allowed stack v [] v (Some 0)"
| module_call: "reaches allowed stack v log w (Some i) \<Longrightarrow> i < length stack \<Longrightarrow> \<not> isSubstack (stack ! i) \<Longrightarrow>
    rule = entry_rule (stack ! i) \<Longrightarrow> allowed rule result action \<Longrightarrow>
    dispatch v i (length stack) action result w = (w', p) \<Longrightarrow>
    reaches allowed stack v (log @ [\<lparr> call_rule = rule, call_result = result, call_action = action,
      call_verdict = w', call_ends = (p = None) \<rparr>]) w' p"
| nested_stack: "reaches allowed stack v log w (Some i) \<Longrightarrow> i < length stack \<Longrightarrow> isSubstack (stack ! i) \<Longrightarrow>
    reaches allowed (substack (stack ! i)) w log' w' p \<Longrightarrow> p \<in> {None, Some (length (substack (stack ! i)))} \<Longrightarrow>
    reaches allowed stack v (log @ log') w' (Some (i + 1))"

definition finishes ::
    "(PamRule \<Rightarrow> string \<Rightarrow> ControlAction \<Rightarrow> bool) \<Rightarrow> PamStackEntry list \<Rightarrow> verdict \<Rightarrow> pam_call list \<Rightarrow> verdict \<Rightarrow> bool" where
  "finishes allowed stack v log w \<longleftrightarrow>
     reaches allowed stack v log w None \<or> reaches allowed stack v log w (Some (length stack))"

text \<open>The results that the contracts of the modules allow, with the action that the control selects.\<close>

definition by_contract :: "string \<Rightarrow> PamPlatformConfig \<Rightarrow> PamRule \<Rightarrow> string \<Rightarrow> ControlAction \<Rightarrow> bool" where
  "by_contract service platformConfig rule result action \<longleftrightarrow>
     result \<in> set (moduleOutcomes rule service platformConfig) \<and>
     (\<exists>parsed. parseControl rule = Inr parsed \<and> action = action_for parsed result)"

text \<open>In one run \<open>pam_localuser\<close> gives one answer about the user.\<close>

definition one_subject :: "pam_call list \<Rightarrow> bool" where
  "one_subject log \<longleftrightarrow>
     (\<forall>c \<in> set log. \<forall>d \<in> set log.
        observed_subject (call_rule c) (call_result c) \<noteq> UnknownSubject \<longrightarrow>
        observed_subject (call_rule d) (call_result d) \<noteq> UnknownSubject \<longrightarrow>
        observed_subject (call_rule c) (call_result c) = observed_subject (call_rule d) (call_result d))"

definition pam_run :: "string \<Rightarrow> PamPlatformConfig \<Rightarrow> PamStackEntry list \<Rightarrow> pam_call list \<Rightarrow> verdict \<Rightarrow> bool" where
  "pam_run service platformConfig stack log w \<longleftrightarrow>
     finishes (by_contract service platformConfig) stack undecided log w \<and> one_subject log"

section \<open>States up to their traces\<close>

definition same_evidence :: "Evidence \<Rightarrow> Evidence \<Rightarrow> bool" where
  "same_evidence a b \<longleftrightarrow>
     a\<lparr>trustedAuthenticationBypass := None, trustedAuthenticationExclusion := None\<rparr> =
     b\<lparr>trustedAuthenticationBypass := None, trustedAuthenticationExclusion := None\<rparr> \<and>
     sameTrustedAuthenticationBypass (trustedAuthenticationBypass a) (trustedAuthenticationBypass b) \<and>
     sameTrustedAuthenticationExclusion (trustedAuthenticationExclusion a) (trustedAuthenticationExclusion b)"

lemma evidence_flags_eq:
  "a\<lparr>trustedAuthenticationBypass := None, trustedAuthenticationExclusion := None\<rparr> =
     b\<lparr>trustedAuthenticationBypass := None, trustedAuthenticationExclusion := None\<rparr> \<longleftrightarrow>
   providerReached a = providerReached b \<and> providerSucceeded a = providerSucceeded b \<and>
   preauthSucceeded a = preauthSucceeded b \<and> preauthDenied a = preauthDenied b \<and>
   preauthFailedClosed a = preauthFailedClosed b \<and> authfailReached a = authfailReached b \<and>
   authsuccSucceeded a = authsuccSucceeded b \<and> authsuccDenied a = authsuccDenied b \<and>
   accountSucceeded a = accountSucceeded b \<and>
   authenticationSuccessObserved a = authenticationSuccessObserved b \<and>
   authenticationFailureObserved a = authenticationFailureObserved b \<and>
   passwordQualitySucceeded a = passwordQualitySucceeded b \<and>
   passwordHistoryReached a = passwordHistoryReached b \<and>
   passwordHistorySucceeded a = passwordHistorySucceeded b \<and>
   passwordTokenProduced a = passwordTokenProduced b \<and>
   passwordHistoryTokenAvailable a = passwordHistoryTokenAvailable b" for a b :: Evidence
  by (cases a; cases b) (simp only: Evidence.simps simp_thms Evidence.iffs)

lemma sameState_iff:
  "sameState s t \<longleftrightarrow> impression s = impression t \<and> es_status s = es_status t \<and> subject s = subject t \<and>
     same_evidence (evidence s) (evidence t)"
  unfolding sameState_def same_evidence_def Let_def evidence_flags_eq by (simp only: conj_assoc)

lemma same_bypass_refl [simp]: "sameTrustedAuthenticationBypass x x"
  by (cases x) (simp_all add: sameTrustedAuthenticationBypass_def same_path_def)

lemma same_exclusion_refl [simp]: "sameTrustedAuthenticationExclusion x x"
  by (cases x) (simp_all add: sameTrustedAuthenticationExclusion_def same_path_def)

lemma same_bypass_trans:
  "sameTrustedAuthenticationBypass x y \<Longrightarrow> sameTrustedAuthenticationBypass y z \<Longrightarrow> sameTrustedAuthenticationBypass x z"
  by (cases x; cases y; cases z) (simp_all add: sameTrustedAuthenticationBypass_def same_path_def)

lemma same_exclusion_trans:
  "sameTrustedAuthenticationExclusion x y \<Longrightarrow> sameTrustedAuthenticationExclusion y z \<Longrightarrow>
   sameTrustedAuthenticationExclusion x z"
  by (cases x; cases y; cases z) (simp_all add: sameTrustedAuthenticationExclusion_def same_path_def)

lemma same_evidence_refl [simp]: "same_evidence e e"
  by (simp add: same_evidence_def)

lemma sameState_refl [simp]: "sameState s s"
  by (simp add: sameState_iff)

lemma sameState_trans: "sameState s t \<Longrightarrow> sameState t u \<Longrightarrow> sameState s u"
  unfolding sameState_iff same_evidence_def using same_bypass_trans same_exclusion_trans by metis

section \<open>The evidence of a run\<close>

definition positive_end :: "pam_call \<Rightarrow> bool" where
  "positive_end c \<longleftrightarrow>
     call_ends c \<and> fst (call_verdict c) = Positive \<and>
     (snd (call_verdict c) = ''success'' \<or> snd (call_verdict c) = ''new_authtok_reqd'')"

definition call_evidence :: "flow_setting \<Rightarrow> string \<Rightarrow> pam_call \<Rightarrow> Evidence \<Rightarrow> Evidence" where
  "call_evidence fl providerModule c e =
     (let rule = call_rule c; result = call_result c; action = call_action c;
          e = recordTrustedAuthenticationExclusion rule result action (fl_service fl) (fl_platform fl)
            (recordProviderFailClosedEvidence rule result action (fl_provider fl)
              (recordEvidence rule result (fl_provider fl) providerModule e))
      in if positive_end c
         then recordTrustedAuthenticationBypass rule result action (fl_service fl) (fl_platform fl) e
         else e)"

definition note_call :: "flow_setting \<Rightarrow> string \<Rightarrow> pam_call \<Rightarrow> ExecutionState \<Rightarrow> ExecutionState option" where
  "note_call fl providerModule c s =
     map_option (\<lambda>refined. s\<lparr>subject := refined, evidence := call_evidence fl providerModule c (evidence s),
         impression := fst (call_verdict c), es_status := snd (call_verdict c)\<rparr>)
       (refineIdentitySubject (call_rule c) (call_result c) (subject s))"

fun replay :: "flow_setting \<Rightarrow> string \<Rightarrow> pam_call list \<Rightarrow> ExecutionState \<Rightarrow> ExecutionState option" where
  "replay fl m [] s = Some s"
| "replay fl m (c # cs) s = Option.bind (note_call fl m c s) (replay fl m cs)"

lemma replay_append: "replay fl m (xs @ ys) s = Option.bind (replay fl m xs s) (replay fl m ys)"
  by (induction xs arbitrary: s) (auto split: bind_splits)

definition verdict_of :: "ExecutionState \<Rightarrow> verdict" where
  "verdict_of s = (impression s, es_status s)"

lemma verdict_initial [simp]: "verdict_of initialState = undecided"
  by (simp add: verdict_of_def initialState_def undecided_def)

lemma control_step_dispatch:
  "control_step initial i n action result s =
     (case dispatch (verdict_of initial) i n action result (verdict_of s) of
        (w, p) \<Rightarrow> (s\<lparr>impression := fst w, es_status := snd w\<rparr>, p))"
  by (cases "action_kind action")
     (auto simp: control_step_def verdict_of_def accept_result_def reject_result_def Let_def)

text \<open>A recorder that neither reads nor changes the evidence about trusted rules.\<close>

definition plain :: "(Evidence \<Rightarrow> Evidence) \<Rightarrow> bool" where
  "plain f \<longleftrightarrow>
     (\<forall>e b x. f (e\<lparr>trustedAuthenticationBypass := b, trustedAuthenticationExclusion := x\<rparr>) =
        (f e)\<lparr>trustedAuthenticationBypass := b, trustedAuthenticationExclusion := x\<rparr>) \<and>
     (\<forall>e. trustedAuthenticationBypass (f e) = trustedAuthenticationBypass e) \<and>
     (\<forall>e. trustedAuthenticationExclusion (f e) = trustedAuthenticationExclusion e)"

named_theorems plain_intros \<open>recorders that leave the evidence about trusted rules alone\<close>

lemma plain_id [plain_intros]: "plain (\<lambda>e. e)"
  by (simp add: plain_def)

lemma plain_comp: "plain f \<Longrightarrow> plain g \<Longrightarrow> plain (\<lambda>e. f (g e))"
  by (simp add: plain_def)

lemma plain_if [plain_intros]: "(c \<Longrightarrow> plain f) \<Longrightarrow> (\<not> c \<Longrightarrow> plain g) \<Longrightarrow> plain (\<lambda>e. if c then f e else g e)"
  by (cases c) simp_all

lemma plain_reach [plain_intros]: "plain (reach_provider b result)"
  by (simp add: plain_def reach_provider_def)

lemma plain_password [plain_intros]: "plain (record_password rule result)"
proof -
  have "plain (record_quality result)" "plain (record_history result)"
    by (simp_all add: plain_def record_quality_def record_history_def)
  then show ?thesis
    unfolding record_password_def[abs_def] by (intro plain_intros)
qed

lemma plain_faillock [plain_intros]: "plain (record_faillock rule result)"
  unfolding record_faillock_def[abs_def] by (intro plain_intros; simp add: plain_def)

lemma plain_authentication [plain_intros]: "plain (record_authentication rule result b)"
  unfolding record_authentication_def[abs_def] Let_def by (intro plain_intros; simp add: plain_def)

lemma plain_evidence [plain_intros]: "plain (recordEvidence rule result provider m)"
proof -
  have "plain (\<lambda>e. record_password rule result (reach_provider b result e))" for b
    by (rule plain_comp[OF plain_password plain_reach])
  note plain_comp[OF plain_faillock this] plain_comp[OF plain_authentication this]
  then show ?thesis unfolding recordEvidence_def[abs_def] Let_def by (intro plain_if)
qed

lemma plain_failClosed [plain_intros]: "plain (recordProviderFailClosedEvidence rule result action provider)"
  unfolding recordProviderFailClosedEvidence_def[abs_def] by (intro plain_intros; simp add: plain_def)

lemma same_evidence_plain: "same_evidence a b \<Longrightarrow> plain f \<Longrightarrow> same_evidence (f a) (f b)"
  unfolding same_evidence_def plain_def by metis

lemma same_evidence_exclusion:
  "same_evidence a b \<Longrightarrow>
   same_evidence (recordTrustedAuthenticationExclusion rule result action service cfg a)
     (recordTrustedAuthenticationExclusion rule result action service cfg b)"
  unfolding recordTrustedAuthenticationExclusion_def
  by (auto simp: same_evidence_def evidence_flags_eq split: option.splits)

lemma same_evidence_bypass:
  "same_evidence a b \<Longrightarrow>
   same_evidence (recordTrustedAuthenticationBypass rule result action service cfg a)
     (recordTrustedAuthenticationBypass rule result action service cfg b)"
  unfolding recordTrustedAuthenticationBypass_def
  by (auto simp: same_evidence_def evidence_flags_eq split: option.splits)

lemma same_call_evidence:
  assumes "same_evidence a b"
  shows "same_evidence (call_evidence fl m c a) (call_evidence fl m c b)"
proof -
  have "same_evidence
      (recordProviderFailClosedEvidence rule result action provider (recordEvidence rule result provider m a))
      (recordProviderFailClosedEvidence rule result action provider (recordEvidence rule result provider m b))"
    for rule result action provider
    by (intro same_evidence_plain[OF _ plain_failClosed] same_evidence_plain[OF _ plain_evidence] assms)
  then show ?thesis
    unfolding call_evidence_def Let_def by (simp add: same_evidence_exclusion same_evidence_bypass)
qed

lemma same_note_call:
  assumes "sameState s t" "note_call fl m c s = Some s'"
  shows "\<exists>t'. note_call fl m c t = Some t' \<and> sameState s' t'"
  using assms same_call_evidence by (auto simp: note_call_def sameState_iff)

lemma same_replay:
  assumes "sameState s t" "replay fl m log s = Some s'"
  shows "\<exists>t'. replay fl m log t = Some t' \<and> sameState s' t'"
  using assms
proof (induction log arbitrary: s t)
  case (Cons c cs)
  then obtain u where u: "note_call fl m c s = Some u" "replay fl m cs u = Some s'"
    by (auto split: bind_splits)
  obtain w where "note_call fl m c t = Some w" "sameState u w" using same_note_call[OF Cons.prems(1) u(1)] by blast
  then show ?case using Cons.IH[OF _ u(2)] by auto
qed simp

section \<open>One exploration\<close>

definition successor ::
    "flow_setting \<Rightarrow> string \<Rightarrow> ExecutionState \<Rightarrow> nat \<Rightarrow> nat \<Rightarrow> PamRule \<Rightarrow> ControlAction \<Rightarrow> string \<Rightarrow> ExecutionState \<Rightarrow>
     (ExecutionState \<times> nat option) option" where
  "successor fl m initial i n rule action result s =
     map_option (\<lambda>refined.
         case control_step initial i n action result (observe_result (fl_provider fl) m (fl_service fl)
             (fl_platform fl) rule result action (s\<lparr>subject := refined\<rparr>)) of
           (t, None) \<Rightarrow> (terminate_state (fl_service fl) (fl_platform fl) rule result action t, None)
         | (t, Some j) \<Rightarrow> (t, Some j))
       (refineIdentitySubject rule result (subject s))"

lemma take_result_successor:
  assumes "pamProviderModuleName (fl_provider fl) = Inr m"
  shows "take_result fl initial i n rule parsed s result (pending, completed, k) =
     (if k + 1 > kMaximumSymbolicTransitions then Inl (Reported ''PAM symbolic transition limit exceeded'')
      else case successor fl m initial i n rule (action_for parsed result) result s of
             None \<Rightarrow> Inr (pending, completed, k + 1)
           | Some (t, None) \<Rightarrow> and_then (addUnique completed t) (\<lambda>completed. Inr (pending, completed, k + 1))
           | Some (t, Some j) \<Rightarrow> and_then (add_pending pending j t) (\<lambda>pending. Inr (pending, completed, k + 1)))"
  using assms
  by (auto simp: take_result_def successor_def lift_exn_def Let_def split: option.split prod.split)

lemma observe_result_simps [simp]:
  "impression (observe_result p m service cfg rule result action s) = impression s"
  "es_status (observe_result p m service cfg rule result action s) = es_status s"
  "subject (observe_result p m service cfg rule result action s) = subject s"
  "evidence (observe_result p m service cfg rule result action s) =
     recordTrustedAuthenticationExclusion rule result action service cfg
       (recordProviderFailClosedEvidence rule result action p (recordEvidence rule result p m (evidence s)))"
  by (simp_all add: observe_result_def push_step_def)

lemma terminate_state_simps [simp]:
  "impression (terminate_state service cfg rule result action s) = impression s"
  "es_status (terminate_state service cfg rule result action s) = es_status s"
  "subject (terminate_state service cfg rule result action s) = subject s"
  by (simp_all add: terminate_state_def)

text \<open>The successor of a state is the state after the call, up to the trace.\<close>

lemma successor_call:
  assumes "dispatch (verdict_of initial) i n action result (verdict_of s) = (w, p)"
    and "c = \<lparr> call_rule = rule, call_result = result, call_action = action, call_verdict = w, call_ends = (p = None) \<rparr>"
  shows "rel_option (\<lambda>(t, q) u. q = p \<and> sameState t u \<and> verdict_of u = w)
     (successor fl m initial i n rule action result s) (note_call fl m c s)"
proof (cases "refineIdentitySubject rule result (subject s)")
  case (Some refined)
  let ?o = "observe_result (fl_provider fl) m (fl_service fl) (fl_platform fl) rule result action (s\<lparr>subject := refined\<rparr>)"
  have step: "control_step initial i n action result ?o = (?o\<lparr>impression := fst w, es_status := snd w\<rparr>, p)"
    using assms(1) by (simp add: control_step_dispatch verdict_of_def)
  have ends: "evidence (terminate_state (fl_service fl) (fl_platform fl) rule result action
      (?o\<lparr>impression := fst w, es_status := snd w\<rparr>)) = call_evidence fl m c (evidence s)" if "p = None"
    using that by (simp add: terminate_state_def call_evidence_def positive_end_def Let_def assms(2)) blast
  have goes: "evidence (?o\<lparr>impression := fst w, es_status := snd w\<rparr>) = call_evidence fl m c (evidence s)" if "p \<noteq> None"
    using that by (cases p) (simp_all add: call_evidence_def positive_end_def Let_def assms(2))
  show ?thesis
    using Some assms(2)
    by (cases p) (simp_all add: successor_def note_call_def step sameState_iff verdict_of_def ends goes
      del: observe_result_simps(4) ExecutionState.update_convs)
qed (simp add: successor_def note_call_def assms(2))

definition covered :: "ExecutionState list \<Rightarrow> ExecutionState \<Rightarrow> bool" where
  "covered states s \<longleftrightarrow> (\<exists>t \<in> set states. sameState t s)"

lemma addUnique_result:
  assumes "addUnique states s = Inr states'"
  shows "set states \<subseteq> set states'" "covered states' s" "set states' \<subseteq> insert s (set states)"
  using assms by (auto simp: addUnique_def covered_def list_ex_iff split: if_splits)

lemma covered_mono: "covered xs s \<Longrightarrow> set xs \<subseteq> set ys \<Longrightarrow> covered ys s"
  by (auto simp: covered_def)

lemma covered_trans: "covered xs s \<Longrightarrow> sameState s t \<Longrightarrow> covered xs t"
  unfolding covered_def using sameState_trans by blast

lemma each_steps:
  assumes "each f xs b = Inr b'" and "\<And>b. R b b" and "\<And>b c d. R b c \<Longrightarrow> R c d \<Longrightarrow> R b d"
    and step: "\<And>x c d. x \<in> set xs \<Longrightarrow> R b c \<Longrightarrow> f x c = Inr d \<Longrightarrow> R c d"
  shows "R b b' \<and> (\<forall>x \<in> set xs. \<exists>c d. R b c \<and> f x c = Inr d \<and> R d b')"
  using assms(1) step
proof (induction xs arbitrary: b)
  case (Cons x xs)
  then obtain d where d: "f x b = Inr d" "each f xs d = Inr b'"
    by (auto simp: and_then_def split: sum.splits)
  have "R b d" using Cons.prems(2)[OF _ assms(2) d(1)] by simp
  moreover have "R d b' \<and> (\<forall>x \<in> set xs. \<exists>c e. R d c \<and> f x c = Inr e \<and> R e b')"
    using Cons.IH[OF d(2)] Cons.prems(2) \<open>R b d\<close> assms(3) by (metis list.set_intros(2))
  ultimately show ?case using assms(2,3) d(1) by (metis set_ConsD)
qed (simp add: assms(2))

text \<open>What may happen while entry \<open>i\<close> is visited: states are added behind it or to the completed ones.\<close>

definition grows :: "nat \<Rightarrow> exploration \<Rightarrow> exploration \<Rightarrow> bool" where
  "grows i x y \<longleftrightarrow>
     length (fst y) = length (fst x) \<and> (\<forall>j < length (fst x). set (fst x ! j) \<subseteq> set (fst y ! j)) \<and>
     (\<forall>j < length (fst x). j \<le> i \<longrightarrow> fst y ! j = fst x ! j) \<and> set (fst (snd x)) \<subseteq> set (fst (snd y))"

lemma grows_refl [simp]: "grows i x x"
  by (simp add: grows_def)

lemma grows_trans: "grows i x y \<Longrightarrow> grows i y z \<Longrightarrow> grows i x z"
  by (auto simp: grows_def)

lemma dispatch_next:
  assumes "dispatch v i n action result w = (w', Some j)" "i < n"
  shows "i < j \<and> j \<le> n"
  using assms by (cases w; cases "action_kind action") (auto simp: Let_def split: if_splits)

lemma successor_next:
  assumes "successor fl m initial i n rule action result s = Some (t, Some j)" "i < n"
  shows "i < j \<and> j \<le> n"
  using assms dispatch_next[OF _ assms(2)]
  by (auto simp: successor_def control_step_dispatch split: prod.splits option.splits)

definition landed :: "exploration \<Rightarrow> (ExecutionState \<times> nat option) option \<Rightarrow> bool" where
  "landed x found =
     (case found of
        None \<Rightarrow> True
      | Some (t, None) \<Rightarrow> covered (fst (snd x)) t
      | Some (t, Some j) \<Rightarrow> j < length (fst x) \<and> covered (fst x ! j) t)"

lemma grows_covered:
  "grows i x y \<Longrightarrow> j < length (fst x) \<Longrightarrow> covered (fst x ! j) t \<Longrightarrow> covered (fst y ! j) t"
  "grows i x y \<Longrightarrow> covered (fst (snd x)) t \<Longrightarrow> covered (fst (snd y)) t"
  "grows i x y \<Longrightarrow> length (fst y) = length (fst x)"
  by (simp_all add: grows_def covered_mono)

lemma landed_grows: "landed x found \<Longrightarrow> grows i x y \<Longrightarrow> landed y found"
  unfolding landed_def using grows_covered[of i x y] by (auto split: option.splits)

lemma add_pending_grows:
  assumes "add_pending pending j t = Inr pending'" "i < j" "j < length pending"
  shows "grows i (pending, completed, k) (pending', completed, k')" "covered (pending' ! j) t"
proof -
  obtain states where add: "addUnique (pending ! j) t = Inr states" "pending' = pending[j := states]"
    using assms(1) by (auto simp: add_pending_def and_then_def split: sum.splits)
  show "grows i (pending, completed, k) (pending', completed, k')"
    using addUnique_result(1)[OF add(1)] add(2) assms(2,3) by (auto simp: grows_def nth_list_update)
  show "covered (pending' ! j) t" using addUnique_result(2)[OF add(1)] add(2) assms(3) by simp
qed

lemma take_result_lands:
  assumes m: "pamProviderModuleName (fl_provider fl) = Inr m" and i: "i < n" "length (fst x) = n + 1"
    and run: "take_result fl initial i n rule parsed s result x = Inr y"
  shows "grows i x y \<and> landed y (successor fl m initial i n rule (action_for parsed result) result s)"
proof -
  obtain pending completed k where x: "x = (pending, completed, k)" by (rule prod_cases3)
  let ?next = "successor fl m initial i n rule (action_for parsed result) result s"
  show ?thesis
  proof (cases ?next)
    case None
    then show ?thesis
      using run by (auto simp: x take_result_successor[OF m] grows_def landed_def split: if_splits)
  next
    case (Some found)
    obtain t p where found: "found = (t, p)" by (rule prod.exhaust)
    show ?thesis
    proof (cases p)
      case None
      then obtain completed' where "addUnique completed t = Inr completed'" "y = (pending, completed', k + 1)"
        using run Some found by (auto simp: x take_result_successor[OF m] and_then_def split: if_splits sum.splits)
      then show ?thesis
        using addUnique_result[of completed t completed'] Some found None by (simp add: x grows_def landed_def)
    next
      fix j assume j: "p = Some j"
      then obtain pending' where add: "add_pending pending j t = Inr pending'" "y = (pending', completed, k + 1)"
        using run Some found by (auto simp: x take_result_successor[OF m] and_then_def split: if_splits sum.splits)
      have "?next = Some (t, Some j)" using Some found j by simp
      then have "i < j" "j < length pending" using successor_next[OF _ i(1)] i(2) by (auto simp: x less_Suc_eq_le)
      then show ?thesis
        using add_pending_grows[OF add(1)] add(2) Some found j by (auto simp: x landed_def grows_def)
    qed
  qed
qed

text \<open>What is known of a state once its entry has been visited.\<close>

definition visited ::
    "(PamStackEntry list \<Rightarrow> ExecutionState \<Rightarrow> nat \<Rightarrow> flow_failure + ExecutionState list \<times> nat) \<Rightarrow> flow_setting \<Rightarrow>
     string \<Rightarrow> ExecutionState \<Rightarrow> nat \<Rightarrow> nat \<Rightarrow> PamStackEntry \<Rightarrow> ExecutionState \<Rightarrow> exploration \<Rightarrow> bool" where
  "visited nested fl m initial i n entry s x \<longleftrightarrow>
     (if isSubstack entry then
        \<exists>k inner k'. nested (substack entry) (enter_substack (entry_rule entry) s) k = Inr (inner, k') \<and>
          i + 1 < length (fst x) \<and> (\<forall>u \<in> set inner. covered (fst x ! (i + 1)) u)
      else
        \<exists>parsed. parseControl (entry_rule entry) = Inr parsed \<and>
          (\<forall>result \<in> set (moduleOutcomes (entry_rule entry) (fl_service fl) (fl_platform fl)).
             landed x (successor fl m initial i n (entry_rule entry) (action_for parsed result) result s)))"

lemma visited_grows:
  assumes "visited nested fl m initial i n entry s x" "grows j x y"
  shows "visited nested fl m initial i n entry s y"
  using assms(1) landed_grows[OF _ assms(2)] grows_covered[OF assms(2)]
  unfolding visited_def by (cases "isSubstack entry") (simp_all, metis, metis)

lemma visit_from_substack:
  "isSubstack entry \<Longrightarrow> visit_from nested fl initial i n entry s (pending, completed, k) =
     and_then (nested (substack entry) (enter_substack (entry_rule entry) s) k) (\<lambda>(inner, k).
       and_then (each (\<lambda>state pending. add_pending pending (i + 1) state) inner pending)
         (\<lambda>pending. Inr (pending, completed, k)))"
  by (simp add: visit_from_def)

lemma visit_from_module:
  "\<not> isSubstack entry \<Longrightarrow> visit_from nested fl initial i n entry s x =
     and_then (lift_error (parseControl (entry_rule entry))) (\<lambda>parsed.
       each (take_result fl initial i n (entry_rule entry) parsed s)
         (moduleOutcomes (entry_rule entry) (fl_service fl) (fl_platform fl)) x)"
  by (cases x) (simp add: visit_from_def)

lemma visit_from_visited:
  assumes m: "pamProviderModuleName (fl_provider fl) = Inr m" and i: "i < n" "length (fst x) = n + 1"
    and run: "visit_from nested fl initial i n entry s x = Inr y"
  shows "grows i x y \<and> visited nested fl m initial i n entry s y"
proof -
  obtain pending completed k where x: "x = (pending, completed, k)" by (rule prod_cases3)
  show ?thesis
  proof (cases "isSubstack entry")
    case True
    let ?add = "\<lambda>state pending. add_pending pending (i + 1) state"
    obtain inner k' pending' where sub: "nested (substack entry) (enter_substack (entry_rule entry) s) k = Inr (inner, k')"
        "each ?add inner pending = Inr pending'" "y = (pending', completed, k')"
      using run unfolding x visit_from_substack[OF True] and_then_Inr by (elim exE conjE) (auto simp: and_then_Inr)
    let ?R = "\<lambda>p q. grows i (p, completed, k) (q, completed, k)"
    have step: "?R p q \<and> covered (q ! (i + 1)) u" if "length p = n + 1" "add_pending p (i + 1) u = Inr q" for p q u
      using add_pending_grows[where i = i, OF that(2)] that(1) i(1) by simp
    have all: "?R pending pending' \<and> (\<forall>u \<in> set inner. \<exists>p q. ?R pending p \<and> ?add u p = Inr q \<and> ?R q pending')"
    proof (rule each_steps[OF sub(2), where R = ?R])
      fix u p q assume "?R pending p" "?add u p = Inr q"
      then show "?R p q" using step[of p u q] i(2) grows_covered(3)[of i "(pending, completed, k)" "(p, completed, k)"]
        by (simp add: x)
    qed (simp, rule grows_trans)
    have "covered (pending' ! (i + 1)) u" if u: "u \<in> set inner" for u
    proof -
      obtain p q where pq: "?R pending p" "?add u p = Inr q" "?R q pending'"
        using bspec[OF conjunct2[OF all] u] by (elim exE conjE)
      have "length p = n + 1" using grows_covered(3)[OF pq(1)] i(2) by (simp add: x)
      then have "covered (q ! (i + 1)) u" "length q = n + 1"
        using step[OF _ pq(2)] grows_covered(3)[of i "(p, completed, k)" "(q, completed, k)"] by simp_all
      then show ?thesis using grows_covered(1)[OF pq(3), of "i + 1" u] i(1) by simp
    qed
    moreover have "length pending' = n + 1" "grows i x y"
      using all sub(3) i(2) grows_covered(3)[of i "(pending, completed, k)"] by (simp_all add: x grows_def)
    ultimately show ?thesis
      using sub(1,3) True i(1) by (auto simp: visited_def)
  next
    case False
    let ?rule = "entry_rule entry"
    obtain parsed where parsed: "parseControl ?rule = Inr parsed"
        "each (take_result fl initial i n ?rule parsed s) (moduleOutcomes ?rule (fl_service fl) (fl_platform fl)) x = Inr y"
      using run unfolding x visit_from_module[OF False] and_then_Inr lift_error_def by (elim exE conjE) (auto split: sum.splits)
    let ?to = "\<lambda>result. successor fl m initial i n ?rule (action_for parsed result) result s"
    have step: "grows i c d \<and> landed d (?to result)"
      if "length (fst c) = n + 1" "take_result fl initial i n ?rule parsed s result c = Inr d" for c d result
      by (rule take_result_lands[OF m i(1) that])
    have "grows i x y \<and> (\<forall>result \<in> set (moduleOutcomes ?rule (fl_service fl) (fl_platform fl)).
        \<exists>c d. grows i x c \<and> take_result fl initial i n ?rule parsed s result c = Inr d \<and> grows i d y)"
    proof (rule each_steps[OF parsed(2), where R = "grows i"])
      fix result c d assume "grows i x c" "take_result fl initial i n ?rule parsed s result c = Inr d"
      then show "grows i c d" using step[of c result d] i(2) grows_covered(3)[of i x c] by simp
    qed (simp, rule grows_trans)
    moreover have "landed y (?to result)"
      if "grows i x c" "take_result fl initial i n ?rule parsed s result c = Inr d" "grows i d y" for c d result
      using step[of c result d] that(2) i(2) grows_covered(3)[OF that(1)] landed_grows[OF _ that(3)] by simp
    ultimately show ?thesis using parsed(1) False by (auto simp: visited_def)
  qed
qed

lemma grows_weaken: "grows (Suc i) x y \<Longrightarrow> grows i x y"
  by (simp add: grows_def)

lemma visit_entries_visited:
  assumes m: "pamProviderModuleName (fl_provider fl) = Inr m"
    and run: "visit_entries nested fl initial n i rest x = Inr y" and n: "i + length rest = n" "length (fst x) = n + 1"
  shows "grows i x y \<and>
     (\<forall>j < length rest. \<forall>s \<in> set (fst y ! (i + j)). visited nested fl m initial (i + j) n (rest ! j) s y)"
  using run n
proof (induction rest arbitrary: i x)
  case (Cons entry rest)
  let ?visit = "visit_from nested fl initial i n entry"
  obtain z where z: "each ?visit (fst x ! i) x = Inr z" "visit_entries nested fl initial n (i + 1) rest z = Inr y"
    using Cons.prems(1) by (auto simp: and_then_def split: sum.splits)
  have i: "i < n" using Cons.prems(2) by simp
  have step: "grows i c d \<and> visited nested fl m initial i n entry s d"
    if "length (fst c) = n + 1" "?visit s c = Inr d" for s c d
    by (rule visit_from_visited[OF m i that])
  have xz: "grows i x z \<and> (\<forall>s \<in> set (fst x ! i). \<exists>c d. grows i x c \<and> ?visit s c = Inr d \<and> grows i d z)"
  proof (rule each_steps[OF z(1), where R = "grows i"])
    fix s c d assume "grows i x c" "?visit s c = Inr d"
    then show "grows i c d" using step[of c s d] Cons.prems(3) grows_covered(3)[of i x c] by simp
  qed (simp, rule grows_trans)
  have "length (fst z) = n + 1" using xz Cons.prems(3) by (simp add: grows_def)
  then have IH: "grows (i + 1) z y"
      "\<forall>j < length rest. \<forall>s \<in> set (fst y ! (i + 1 + j)). visited nested fl m initial (i + 1 + j) n (rest ! j) s y"
    using Cons.IH[OF z(2)] Cons.prems(2) by simp_all
  then have zy: "grows i z y" by (simp add: grows_weaken)
  have "visited nested fl m initial i n entry s y" if "s \<in> set (fst y ! i)" for s
  proof -
    have "s \<in> set (fst x ! i)" using that zy xz i Cons.prems(3) by (simp add: grows_def)
    then obtain c d where cd: "grows i x c" "?visit s c = Inr d" "grows i d z" using xz by blast
    have "visited nested fl m initial i n entry s d"
      using step[OF _ cd(2)] grows_covered(3)[OF cd(1)] Cons.prems(3) by simp
    then show ?thesis by (rule visited_grows) (rule grows_trans[OF cd(3) zy])
  qed
  moreover have "grows i x y" using xz zy grows_trans by blast
  ultimately show ?case
    using IH(2) by (auto simp: less_Suc_eq_0_disj)
qed simp

text \<open>The end of an exploration: it contains the initial state and everything that follows from it.\<close>

definition closed ::
    "nat \<Rightarrow> flow_setting \<Rightarrow> string \<Rightarrow> PamStackEntry list \<Rightarrow> ExecutionState \<Rightarrow> exploration \<Rightarrow> bool" where
  "closed left fl m stack initial x \<longleftrightarrow>
     length (fst x) = length stack + 1 \<and> initial \<in> set (fst x ! 0) \<and>
     (\<forall>j < length stack. \<forall>s \<in> set (fst x ! j).
        visited (executeStack left fl) fl m initial j (length stack) (stack ! j) s x)"

lemma executeStack_closed:
  assumes m: "pamProviderModuleName (fl_provider fl) = Inr m"
    and run: "executeStack left fl stack initial k = Inr (completed, k')"
  shows "\<exists>below x. left = Suc below \<and> closed below fl m stack initial x \<and>
     (\<forall>s. covered (fst (snd x)) s \<or> covered (fst x ! length stack) s \<longrightarrow> covered completed s)"
proof (cases left)
  case (Suc below)
  let ?x = "([initial] # replicate (length stack) [], [], k)"
  obtain pending ended k2 where x: "visit_entries (executeStack below fl) fl initial (length stack) 0 stack ?x =
        Inr (pending, ended, k2)"
      "each (\<lambda>state completed. addUnique completed state) (last pending) ended = Inr completed"
    using run Suc by (auto simp: and_then_Inr)
  let ?y = "(pending, ended, k2)"
  have "grows 0 ?x ?y" and seen: "\<forall>j < length stack. \<forall>s \<in> set (pending ! j).
      visited (executeStack below fl) fl m initial j (length stack) (stack ! j) s ?y"
    using visit_entries_visited[OF m x(1)] by simp_all
  then have len: "length pending = length stack + 1" "initial \<in> set (pending ! 0)" by (auto simp: grows_def)
  then have last: "last pending = pending ! length stack" by (simp add: last_conv_nth flip: length_greater_0_conv)
  have "set ended \<subseteq> set completed \<and> (\<forall>s \<in> set (last pending). \<exists>c d. set ended \<subseteq> set c \<and>
      addUnique c s = Inr d \<and> set d \<subseteq> set completed)"
    by (rule each_steps[OF x(2), where R = "\<lambda>a b. set a \<subseteq> set b"]) (auto dest: addUnique_result(1))
  then have "covered completed s" if "covered ended s \<or> covered (pending ! length stack) s" for s
    using that last addUnique_result(2) covered_mono covered_trans
    by (metis (no_types, lifting) covered_def)
  then show ?thesis using Suc len seen by (intro exI[of _ below] exI[of _ ?y]) (auto simp: closed_def)
qed (use run in simp)

section \<open>Every run is found\<close>

lemma same_bypass_sym: "sameTrustedAuthenticationBypass x y \<Longrightarrow> sameTrustedAuthenticationBypass y x"
  by (cases x; cases y) (simp_all add: sameTrustedAuthenticationBypass_def same_path_def)

lemma same_exclusion_sym: "sameTrustedAuthenticationExclusion x y \<Longrightarrow> sameTrustedAuthenticationExclusion y x"
  by (cases x; cases y) (simp_all add: sameTrustedAuthenticationExclusion_def same_path_def)

lemma sameState_sym: "sameState s t \<Longrightarrow> sameState t s"
  unfolding sameState_iff same_evidence_def by (simp add: same_bypass_sym same_exclusion_sym)

lemma sameState_verdict: "sameState s t \<Longrightarrow> verdict_of s = verdict_of t"
  by (simp add: sameState_iff verdict_of_def)

lemma enter_substack_same: "sameState (enter_substack rule s) s"
  by (simp add: enter_substack_def push_step_def sameState_iff)

lemma replay_snoc:
  assumes "replay fl m (log @ [c]) s = Some t"
  obtains u where "replay fl m log s = Some u" "note_call fl m c u = Some t"
  using assms by (auto simp: replay_append split: bind_splits)

lemma covered_step:
  assumes t: "t \<in> set states" "sameState t s" and noted: "note_call fl m c s = Some s'"
    and move: "dispatch (verdict_of initial) i n action result (verdict_of t) = (w, p)"
    and c: "c = \<lparr> call_rule = rule, call_result = result, call_action = action, call_verdict = w, call_ends = (p = None) \<rparr>"
    and landed: "landed x (successor fl m initial i n rule action result t)"
  shows "case p of None \<Rightarrow> covered (fst (snd x)) s' | Some j \<Rightarrow> covered (fst x ! j) s'"
proof -
  obtain t' where t': "note_call fl m c t = Some t'" "sameState s' t'"
    using same_note_call[OF sameState_sym[OF t(2)] noted] by blast
  obtain u where u: "successor fl m initial i n rule action result t = Some (u, p)" "sameState u t'"
    using successor_call[OF move c, of fl m] t'(1) by (auto simp: option_rel_Some2)
  have "sameState u s'" using sameState_trans[OF u(2) sameState_sym[OF t'(2)]] .
  then show ?thesis using landed u(1) covered_trans by (auto simp: landed_def split: option.splits)
qed

definition at_position :: "PamStackEntry list \<Rightarrow> exploration \<Rightarrow> nat option \<Rightarrow> ExecutionState \<Rightarrow> bool" where
  "at_position stack x p s =
     (case p of None \<Rightarrow> covered (fst (snd x)) s | Some i \<Rightarrow> i \<le> length stack \<and> covered (fst x ! i) s)"

lemma reaches_covered:
  assumes m: "pamProviderModuleName (fl_provider fl) = Inr m"
    and run: "reaches (by_contract (fl_service fl) (fl_platform fl)) stack v log w p"
  shows "closed left fl m stack initial x \<Longrightarrow> sameState initial s0 \<Longrightarrow> verdict_of initial = v \<Longrightarrow>
     replay fl m log s0 = Some s \<Longrightarrow> verdict_of s = w \<and> at_position stack x p s"
  using run
proof (induction arbitrary: left initial x s0 s)
  case (start stack v)
  then show ?case
    using sameState_verdict[OF start(2)] by (auto simp: at_position_def closed_def covered_def)
next
  case (module_call stack v log w i rule result action w' p)
  let ?c = "\<lparr> call_rule = rule, call_result = result, call_action = action, call_verdict = w', call_ends = (p = None) \<rparr>"
  obtain u where u: "replay fl m log s0 = Some u" "note_call fl m ?c u = Some s"
    using module_call.prems(4) by (rule replay_snoc)
  obtain t where t: "t \<in> set (fst x ! i)" "sameState t u" "verdict_of t = w"
    using module_call.IH[OF module_call.prems(1-3) u(1)] sameState_verdict by (auto simp: at_position_def covered_def)
  have "visited (executeStack left fl) fl m initial i (length stack) (stack ! i) t x"
    using module_call.prems(1) module_call.hyps(2) t(1) by (simp add: closed_def)
  then have land: "landed x (successor fl m initial i (length stack) rule action result t)"
    using module_call.hyps(3-5) by (auto simp: visited_def by_contract_def)
  have move: "dispatch (verdict_of initial) i (length stack) action result (verdict_of t) = (w', p)"
    using module_call.hyps(6) module_call.prems(3) t(3) by simp
  have "p \<noteq> None \<Longrightarrow> the p \<le> length stack"
    using dispatch_next[OF _ module_call.hyps(2)] module_call.hyps(6) by (cases p) auto
  then show ?case
    using covered_step[OF t(1,2) u(2) move refl land] u(2)
    by (auto simp: at_position_def note_call_def verdict_of_def split: option.splits)
next
  case (nested_stack stack v log w i log' w' p)
  let ?sub = "substack (stack ! i)"
  obtain u where u: "replay fl m log s0 = Some u" "replay fl m log' u = Some s"
    using nested_stack.prems(4) by (auto simp: replay_append split: bind_splits)
  obtain t where t: "t \<in> set (fst x ! i)" "sameState t u" "verdict_of t = w"
    using nested_stack.IH(1)[OF nested_stack.prems(1-3) u(1)] sameState_verdict
    by (auto simp: at_position_def covered_def)
  let ?t = "enter_substack (entry_rule (stack ! i)) t"
  have same: "sameState ?t u" using sameState_trans[OF enter_substack_same t(2)] .
  have "visited (executeStack left fl) fl m initial i (length stack) (stack ! i) t x"
    using nested_stack.prems(1) nested_stack.hyps(2) t(1) by (simp add: closed_def)
  then obtain k inner k' where inner: "executeStack left fl ?sub ?t k = Inr (inner, k')"
      "\<forall>e \<in> set inner. covered (fst x ! (i + 1)) e"
    using nested_stack.hyps(3) by (auto simp: visited_def)
  obtain below y where y: "closed below fl m ?sub ?t y"
      "\<forall>e. covered (fst (snd y)) e \<or> covered (fst y ! length ?sub) e \<longrightarrow> covered inner e"
    using executeStack_closed[OF m inner(1)] by blast
  have "verdict_of ?t = w" using sameState_verdict[OF enter_substack_same] t(3) by simp
  from nested_stack.IH(2)[OF y(1) same this u(2)]
  have ends: "verdict_of s = w'" "at_position ?sub y p s" by simp_all
  then have "covered inner s" using y(2) nested_stack.hyps(5) by (auto simp: at_position_def)
  then obtain e where "e \<in> set inner" "sameState e s" by (auto simp: covered_def)
  then have "covered (fst x ! (i + 1)) s" using inner(2) covered_trans by blast
  then show ?case using ends(1) nested_stack.hyps(2) by (simp add: at_position_def)
qed

lemma run_covered:
  assumes m: "pamProviderModuleName (fl_provider fl) = Inr m"
    and found: "explore fl stack = Inr states"
    and run: "finishes (by_contract (fl_service fl) (fl_platform fl)) stack undecided log w"
    and s: "replay fl m log initialState = Some s"
  shows "covered states s \<and> verdict_of s = w"
proof -
  obtain k where "executeStack 33 fl stack initialState 0 = Inr (states, k)"
    using found by (auto simp: explore_def and_then_Inr)
  then obtain below x where x: "closed below fl m stack initialState x"
      "\<forall>s. covered (fst (snd x)) s \<or> covered (fst x ! length stack) s \<longrightarrow> covered states s"
    using executeStack_closed[OF m] by blast
  obtain p where p: "reaches (by_contract (fl_service fl) (fl_platform fl)) stack undecided log w p"
      "p = None \<or> p = Some (length stack)"
    using run unfolding finishes_def by blast
  from reaches_covered[OF m p(1) x(1) sameState_refl verdict_initial s]
  show ?thesis using p(2) x(2) by (auto simp: at_position_def)
qed

section \<open>Everything found is a run\<close>

text \<open>A state at a position of a stack that some run of the stack reaches there.\<close>

definition genuine ::
    "flow_setting \<Rightarrow> string \<Rightarrow> PamStackEntry list \<Rightarrow> ExecutionState \<Rightarrow> nat option \<Rightarrow> ExecutionState \<Rightarrow> bool" where
  "genuine fl m stack initial p t \<longleftrightarrow>
     (\<exists>log s. reaches (by_contract (fl_service fl) (fl_platform fl)) stack (verdict_of initial) log (verdict_of s) p \<and>
        replay fl m log initial = Some s \<and> sameState t s)"

lemma genuine_successor:
  assumes t: "genuine fl m stack initial (Some i) t" and i: "i < length stack" "\<not> isSubstack (stack ! i)"
    and rule: "rule = entry_rule (stack ! i)" "parseControl rule = Inr parsed"
      "result \<in> set (moduleOutcomes rule (fl_service fl) (fl_platform fl))"
    and moved: "successor fl m initial i (length stack) rule (action_for parsed result) result t = Some (t', p)"
  shows "genuine fl m stack initial p t'"
proof -
  let ?A = "by_contract (fl_service fl) (fl_platform fl)" and ?action = "action_for parsed result"
  obtain log s where s: "reaches ?A stack (verdict_of initial) log (verdict_of s) (Some i)"
      "replay fl m log initial = Some s" "sameState t s"
    using t unfolding genuine_def by blast
  obtain w q where move: "dispatch (verdict_of initial) i (length stack) ?action result (verdict_of t) = (w, q)"
    by (rule prod.exhaust)
  let ?c = "\<lparr> call_rule = rule, call_result = result, call_action = ?action, call_verdict = w, call_ends = (q = None) \<rparr>"
  obtain u where u: "note_call fl m ?c t = Some u" "q = p" "sameState t' u" "verdict_of u = w"
    using successor_call[OF move refl, of fl m rule] moved by (auto simp: option_rel_Some1)
  obtain s' where s': "note_call fl m ?c s = Some s'" "sameState u s'" using same_note_call[OF s(3) u(1)] by blast
  have "?A rule result ?action" using rule(2,3) by (auto simp: by_contract_def)
  moreover have "dispatch (verdict_of initial) i (length stack) ?action result (verdict_of s) = (w, q)"
    using move sameState_verdict[OF s(3)] by simp
  ultimately have "reaches ?A stack (verdict_of initial) (log @ [?c]) w q"
    by (rule reaches.module_call[OF s(1) i rule(1)])
  moreover have "verdict_of s' = w" using sameState_verdict[OF s'(2)] u(4) by simp
  ultimately show ?thesis
    using s(2) s'(1) u(2) sameState_trans[OF u(3) s'(2)] unfolding genuine_def
    by (intro exI[of _ "log @ [?c]"] exI[of _ s']) (simp add: replay_append)
qed

lemma genuine_nested:
  assumes t: "genuine fl m stack initial (Some i) t" and i: "i < length stack" "isSubstack (stack ! i)"
    and u: "genuine fl m (substack (stack ! i)) (enter_substack rule t) p u" "p = None \<or> p = Some (length (substack (stack ! i)))"
  shows "genuine fl m stack initial (Some (i + 1)) u"
proof -
  let ?A = "by_contract (fl_service fl) (fl_platform fl)" and ?t = "enter_substack rule t"
  obtain log s where s: "reaches ?A stack (verdict_of initial) log (verdict_of s) (Some i)"
      "replay fl m log initial = Some s" "sameState t s"
    using t unfolding genuine_def by blast
  obtain log' e where e: "reaches ?A (substack (stack ! i)) (verdict_of ?t) log' (verdict_of e) p"
      "replay fl m log' ?t = Some e" "sameState u e"
    using u(1) unfolding genuine_def by blast
  have same: "sameState ?t s" using sameState_trans[OF enter_substack_same s(3)] .
  obtain e' where e': "replay fl m log' s = Some e'" "sameState e e'" using same_replay[OF same e(2)] by blast
  have "reaches ?A (substack (stack ! i)) (verdict_of s) log' (verdict_of e') p"
    using e(1) sameState_verdict[OF same] sameState_verdict[OF e'(2)] by simp
  then have "reaches ?A stack (verdict_of initial) (log @ log') (verdict_of e') (Some (i + 1))"
    using u(2) by (intro reaches.nested_stack[OF s(1) i]) auto
  then show ?thesis
    using s(2) e'(1) sameState_trans[OF e(3) e'(2)] unfolding genuine_def
    by (intro exI[of _ "log @ log'"] exI[of _ e']) (simp add: replay_append)
qed

definition all_genuine ::
    "flow_setting \<Rightarrow> string \<Rightarrow> PamStackEntry list \<Rightarrow> ExecutionState \<Rightarrow> exploration \<Rightarrow> bool" where
  "all_genuine fl m stack initial x \<longleftrightarrow>
     length (fst x) = length stack + 1 \<and>
     (\<forall>j \<le> length stack. \<forall>t \<in> set (fst x ! j). genuine fl m stack initial (Some j) t) \<and>
     (\<forall>t \<in> set (fst (snd x)). genuine fl m stack initial None t)"

lemma each_invariant:
  assumes "each f xs b = Inr b'" "I b" "\<And>x c d. x \<in> set xs \<Longrightarrow> I c \<Longrightarrow> f x c = Inr d \<Longrightarrow> I d"
  shows "I b'"
  using assms by (induction xs arbitrary: b) (auto simp: and_then_Inr)

lemma add_pending_genuine:
  assumes "all_genuine fl m stack initial (pending, completed, k)" "add_pending pending j t = Inr pending'"
    "genuine fl m stack initial (Some j) t" "j \<le> length stack"
  shows "all_genuine fl m stack initial (pending', completed, k')"
proof -
  obtain states where "addUnique (pending ! j) t = Inr states" "pending' = pending[j := states]"
    using assms(2) by (auto simp: add_pending_def and_then_Inr)
  then show ?thesis
    using assms(1,3,4) addUnique_result(3)[of "pending ! j" t states]
    by (auto simp: all_genuine_def nth_list_update)
qed

lemma take_result_genuine:
  assumes m: "pamProviderModuleName (fl_provider fl) = Inr m" and x: "all_genuine fl m stack initial x"
    and s: "genuine fl m stack initial (Some i) s" and i: "i < length stack" "\<not> isSubstack (stack ! i)"
    and rule: "rule = entry_rule (stack ! i)" "parseControl rule = Inr parsed"
      "result \<in> set (moduleOutcomes rule (fl_service fl) (fl_platform fl))"
    and run: "take_result fl initial i (length stack) rule parsed s result x = Inr y"
  shows "all_genuine fl m stack initial y"
proof -
  obtain pending completed k where xx: "x = (pending, completed, k)" by (rule prod_cases3)
  let ?next = "successor fl m initial i (length stack) rule (action_for parsed result) result s"
  note run = run[unfolded xx take_result_successor[OF m]]
  show ?thesis
  proof (cases ?next)
    case None
    then show ?thesis using run x by (auto simp: xx all_genuine_def split: if_splits)
  next
    case (Some found)
    obtain t p where found: "found = (t, p)" by (rule prod.exhaust)
    have t: "genuine fl m stack initial p t" using genuine_successor[OF s i rule] Some found by simp
    show ?thesis
    proof (cases p)
      case None
      then obtain completed' where "addUnique completed t = Inr completed'" "y = (pending, completed', k + 1)"
        using run Some found by (auto simp: and_then_Inr split: if_splits)
      then show ?thesis
        using addUnique_result(3)[of completed t completed'] x t None by (auto simp: xx all_genuine_def)
    next
      fix j assume j: "p = Some j"
      then obtain pending' where add: "add_pending pending j t = Inr pending'" "y = (pending', completed, k + 1)"
        using run Some found by (auto simp: and_then_Inr split: if_splits)
      have "j \<le> length stack" using successor_next[OF _ i(1)] Some found j by auto
      then show ?thesis using add_pending_genuine[OF x[unfolded xx] add(1)] t j add(2) by simp
    qed
  qed
qed

lemma visit_from_genuine:
  assumes m: "pamProviderModuleName (fl_provider fl) = Inr m" and x: "all_genuine fl m stack initial x"
    and s: "genuine fl m stack initial (Some i) s" and i: "i < length stack" "entry = stack ! i"
    and nested: "\<And>t k inner k' u. nested (substack entry) t k = Inr (inner, k') \<Longrightarrow> u \<in> set inner \<Longrightarrow>
      genuine fl m (substack entry) t None u \<or> genuine fl m (substack entry) t (Some (length (substack entry))) u"
    and run: "visit_from nested fl initial i (length stack) entry s x = Inr y"
  shows "all_genuine fl m stack initial y"
proof (cases "isSubstack entry")
  case True
  obtain pending completed k where xx: "x = (pending, completed, k)" by (rule prod_cases3)
  let ?add = "\<lambda>state pending. add_pending pending (i + 1) state"
  obtain inner k' pending' where sub: "nested (substack entry) (enter_substack (entry_rule entry) s) k = Inr (inner, k')"
      "each ?add inner pending = Inr pending'" "y = (pending', completed, k')"
    using run unfolding xx visit_from_substack[OF True] and_then_Inr by (elim exE conjE) (auto simp: and_then_Inr)
  have "genuine fl m stack initial (Some (i + 1)) u" if "u \<in> set inner" for u
    using nested[OF sub(1) that] genuine_nested[OF s i(1)] True i(2) by blast
  then have "all_genuine fl m stack initial (pending', completed, k)"
    by (intro each_invariant[where I = "\<lambda>p. all_genuine fl m stack initial (p, completed, k)", OF sub(2)])
       (use x xx i(1) add_pending_genuine in auto)
  then show ?thesis using sub(3) by (simp add: all_genuine_def)
next
  case False
  let ?rule = "entry_rule entry"
  obtain parsed where parsed: "parseControl ?rule = Inr parsed"
      "each (take_result fl initial i (length stack) ?rule parsed s)
        (moduleOutcomes ?rule (fl_service fl) (fl_platform fl)) x = Inr y"
    using run unfolding visit_from_module[OF False] and_then_Inr lift_error_def by (elim exE conjE) (auto split: sum.splits)
  show ?thesis
    by (rule each_invariant[where I = "all_genuine fl m stack initial", OF parsed(2) x])
       (use take_result_genuine[OF m _ s i(1)] False i(2) parsed(1) in auto)
qed

lemma visit_entries_genuine:
  assumes m: "pamProviderModuleName (fl_provider fl) = Inr m"
    and nested: "\<And>sub t k inner k' u. nested sub t k = Inr (inner, k') \<Longrightarrow> u \<in> set inner \<Longrightarrow>
      genuine fl m sub t None u \<or> genuine fl m sub t (Some (length sub)) u"
    and run: "visit_entries nested fl initial (length stack) i rest x = Inr y"
    and rest: "rest = drop i stack" and x: "all_genuine fl m stack initial x"
  shows "all_genuine fl m stack initial y"
  using run rest x
proof (induction rest arbitrary: i x)
  case (Cons entry rest)
  let ?visit = "visit_from nested fl initial i (length stack) entry"
  obtain z where z: "each ?visit (fst x ! i) x = Inr z"
      "visit_entries nested fl initial (length stack) (i + 1) rest z = Inr y"
    using Cons.prems(1) by (auto simp: and_then_Inr)
  have i: "i < length stack" "entry = stack ! i" "rest = drop (i + 1) stack"
    using Cons.prems(2) by (metis drop_eq_Nil list.discI not_le, metis Cons_nth_drop_Suc drop_eq_Nil list.inject
      list.discI not_le, metis Cons_nth_drop_Suc Suc_eq_plus1 drop_eq_Nil list.inject list.discI not_le)
  have "genuine fl m stack initial (Some i) s" if "s \<in> set (fst x ! i)" for s
    using Cons.prems(3) that i(1) by (simp add: all_genuine_def)
  then have "all_genuine fl m stack initial z"
    by (intro each_invariant[where I = "all_genuine fl m stack initial", OF z(1) Cons.prems(3)])
       (rule visit_from_genuine[OF m _ _ i(1,2) nested], auto)
  then show ?case using Cons.IH[OF z(2) i(3)] by blast
qed simp

lemma executeStack_genuine:
  assumes m: "pamProviderModuleName (fl_provider fl) = Inr m"
  shows "executeStack left fl stack initial k = Inr (completed, k') \<Longrightarrow> u \<in> set completed \<Longrightarrow>
     genuine fl m stack initial None u \<or> genuine fl m stack initial (Some (length stack)) u"
proof (induction left arbitrary: stack initial k completed k' u)
  case (Suc left)
  let ?x = "([initial] # replicate (length stack) [], [], k)"
  obtain pending ended k2 where x: "visit_entries (executeStack left fl) fl initial (length stack) 0 stack ?x =
        Inr (pending, ended, k2)"
      "each (\<lambda>state completed. addUnique completed state) (last pending) ended = Inr completed"
    using Suc.prems(1) by (auto simp: and_then_Inr)
  have "genuine fl m stack initial (Some 0) initial"
    unfolding genuine_def by (intro exI[of _ "[]"] exI[of _ initial]) (simp add: reaches.start)
  then have "all_genuine fl m stack initial ?x"
    by (auto simp: all_genuine_def nth_Cons split: nat.splits)
  from visit_entries_genuine[OF m Suc.IH x(1) _ this]
  have y: "all_genuine fl m stack initial (pending, ended, k2)" by simp
  then have "last pending = pending ! length stack"
    by (simp add: all_genuine_def last_conv_nth flip: length_greater_0_conv)
  then have "\<forall>u \<in> set completed. genuine fl m stack initial None u \<or> genuine fl m stack initial (Some (length stack)) u"
    by (intro each_invariant[where I = "\<lambda>states. \<forall>u \<in> set states. genuine fl m stack initial None u \<or>
        genuine fl m stack initial (Some (length stack)) u", OF x(2)])
       (use y in \<open>auto simp: all_genuine_def dest!: addUnique_result(3)\<close>)
  then show ?case using Suc.prems(2) by blast
qed simp

section \<open>The exploration is exact\<close>

lemma refine_subject:
  "refineIdentitySubject rule result s =
     (if observed_subject rule result = UnknownSubject then Some s
      else if s = UnknownSubject \<or> s = observed_subject rule result then Some (observed_subject rule result) else None)"
  by (auto simp: refineIdentitySubject_def Let_def)

definition observed_by :: "pam_call \<Rightarrow> IdentitySubject" where
  "observed_by c = observed_subject (call_rule c) (call_result c)"

lemma replay_defined:
  "replay fl m log s \<noteq> None \<longleftrightarrow>
     (\<exists>u. (subject s = UnknownSubject \<or> subject s = u) \<and>
        (\<forall>c \<in> set log. observed_by c = UnknownSubject \<or> observed_by c = u))"
proof (induction log arbitrary: s)
  case (Cons c log)
  show ?case
  proof (cases "refineIdentitySubject (call_rule c) (call_result c) (subject s)")
    case None
    then have "observed_by c \<noteq> UnknownSubject" "subject s \<noteq> UnknownSubject" "subject s \<noteq> observed_by c"
      by (auto simp: refine_subject observed_by_def split: if_splits)
    then show ?thesis using None by (auto simp: note_call_def)
  next
    case (Some refined)
    then have "replay fl m (c # log) s \<noteq> None \<longleftrightarrow>
        (\<exists>u. (refined = UnknownSubject \<or> refined = u) \<and>
          (\<forall>c \<in> set log. observed_by c = UnknownSubject \<or> observed_by c = u))"
      using Cons.IH by (simp add: note_call_def)
    moreover have "observed_by c = UnknownSubject \<and> refined = subject s \<or>
        observed_by c \<noteq> UnknownSubject \<and> refined = observed_by c \<and> (subject s = UnknownSubject \<or> subject s = observed_by c)"
      using Some by (auto simp: refine_subject observed_by_def split: if_splits)
    ultimately show ?thesis by (elim disjE conjE) auto
  qed
qed simp

lemma one_subject_iff:
  "one_subject log \<longleftrightarrow> (\<exists>u. \<forall>c \<in> set log. observed_by c = UnknownSubject \<or> observed_by c = u)"
  unfolding one_subject_def observed_by_def by metis

lemma one_subject_replay: "one_subject log \<longleftrightarrow> (\<exists>s. replay fl m log initialState = Some s)"
  using replay_defined[of fl m log initialState] by (simp add: one_subject_iff initialState_def)

text \<open>The states found are the states of the runs, up to traces.\<close>

lemma explore_exact:
  assumes m: "pamProviderModuleName (fl_provider fl) = Inr m" and found: "explore fl stack = Inr states"
  shows "pam_run (fl_service fl) (fl_platform fl) stack log w \<Longrightarrow>
      \<exists>s t. replay fl m log initialState = Some s \<and> verdict_of s = w \<and> t \<in> set states \<and> sameState t s"
    and "t \<in> set states \<Longrightarrow>
      \<exists>log s. pam_run (fl_service fl) (fl_platform fl) stack log (verdict_of s) \<and>
        replay fl m log initialState = Some s \<and> sameState t s"
proof -
  assume run: "pam_run (fl_service fl) (fl_platform fl) stack log w"
  then obtain s where s: "replay fl m log initialState = Some s"
    unfolding pam_run_def using one_subject_replay by blast
  show "\<exists>s t. replay fl m log initialState = Some s \<and> verdict_of s = w \<and> t \<in> set states \<and> sameState t s"
    using run_covered[OF m found conjunct1[OF run[unfolded pam_run_def]] s] s by (auto simp: covered_def)
next
  assume t: "t \<in> set states"
  obtain k where "executeStack 33 fl stack initialState 0 = Inr (states, k)"
    using found by (auto simp: explore_def and_then_Inr)
  then have "genuine fl m stack initialState None t \<or> genuine fl m stack initialState (Some (length stack)) t"
    using executeStack_genuine[OF m] t by blast
  then obtain log s where s: "finishes (by_contract (fl_service fl) (fl_platform fl)) stack undecided log (verdict_of s)"
      "replay fl m log initialState = Some s" "sameState t s"
    by (auto simp: genuine_def finishes_def)
  then show "\<exists>log s. pam_run (fl_service fl) (fl_platform fl) stack log (verdict_of s) \<and>
      replay fl m log initialState = Some s \<and> sameState t s"
    using one_subject_replay[of log fl m] unfolding pam_run_def by blast
qed

section \<open>Password stacks\<close>

text \<open>The calls that a password change is about.\<close>

definition quality_call :: "pam_call \<Rightarrow> bool" where
  "quality_call c \<longleftrightarrow> rule_group (call_rule c) = Password \<and> moduleBaseName (call_rule c) = ''pam_pwquality.so'' \<and>
     call_result c = ''success''"

definition history_call :: "pam_call \<Rightarrow> bool" where
  "history_call c \<longleftrightarrow> rule_group (call_rule c) = Password \<and> moduleBaseName (call_rule c) = ''pam_pwhistory.so'' \<and>
     hasArgument (call_rule c) ''use_authtok''"

definition history_success :: "pam_call \<Rightarrow> bool" where
  "history_success c \<longleftrightarrow> history_call c \<and> call_result c = ''success''"

text \<open>The first call of the history module finds a token that the quality module produced.\<close>

definition token_before_history :: "pam_call list \<Rightarrow> bool" where
  "token_before_history log \<longleftrightarrow> list_ex quality_call (takeWhile (\<lambda>c. \<not> history_call c) log)"

text \<open>Which flags a recorder leaves alone.\<close>

lemma reach_keeps [simp]:
  "passwordQualitySucceeded (reach_provider b result e) = passwordQualitySucceeded e"
  "passwordTokenProduced (reach_provider b result e) = passwordTokenProduced e"
  "passwordHistoryReached (reach_provider b result e) = passwordHistoryReached e"
  "passwordHistorySucceeded (reach_provider b result e) = passwordHistorySucceeded e"
  "passwordHistoryTokenAvailable (reach_provider b result e) = passwordHistoryTokenAvailable e"
  "preauthSucceeded (reach_provider b result e) = preauthSucceeded e"
  "preauthDenied (reach_provider b result e) = preauthDenied e"
  "preauthFailedClosed (reach_provider b result e) = preauthFailedClosed e"
  "authfailReached (reach_provider b result e) = authfailReached e"
  "authsuccSucceeded (reach_provider b result e) = authsuccSucceeded e"
  "authsuccDenied (reach_provider b result e) = authsuccDenied e"
  "accountSucceeded (reach_provider b result e) = accountSucceeded e"
  "authenticationSuccessObserved (reach_provider b result e) = authenticationSuccessObserved e"
  "authenticationFailureObserved (reach_provider b result e) = authenticationFailureObserved e"
  by (simp_all add: reach_provider_def)

lemma password_keeps [simp]:
  "providerReached (record_password rule result e) = providerReached e"
  "providerSucceeded (record_password rule result e) = providerSucceeded e"
  "preauthSucceeded (record_password rule result e) = preauthSucceeded e"
  "preauthDenied (record_password rule result e) = preauthDenied e"
  "preauthFailedClosed (record_password rule result e) = preauthFailedClosed e"
  "authfailReached (record_password rule result e) = authfailReached e"
  "authsuccSucceeded (record_password rule result e) = authsuccSucceeded e"
  "authsuccDenied (record_password rule result e) = authsuccDenied e"
  "accountSucceeded (record_password rule result e) = accountSucceeded e"
  "authenticationSuccessObserved (record_password rule result e) = authenticationSuccessObserved e"
  "authenticationFailureObserved (record_password rule result e) = authenticationFailureObserved e"
  by (simp_all add: record_password_def record_quality_def record_history_def)

lemma faillock_keeps [simp]:
  "passwordQualitySucceeded (record_faillock rule result e) = passwordQualitySucceeded e"
  "passwordTokenProduced (record_faillock rule result e) = passwordTokenProduced e"
  "passwordHistoryReached (record_faillock rule result e) = passwordHistoryReached e"
  "passwordHistorySucceeded (record_faillock rule result e) = passwordHistorySucceeded e"
  "passwordHistoryTokenAvailable (record_faillock rule result e) = passwordHistoryTokenAvailable e"
  "providerReached (record_faillock rule result e) = providerReached e"
  "providerSucceeded (record_faillock rule result e) = providerSucceeded e"
  "preauthFailedClosed (record_faillock rule result e) = preauthFailedClosed e"
  "authenticationSuccessObserved (record_faillock rule result e) = authenticationSuccessObserved e"
  "authenticationFailureObserved (record_faillock rule result e) = authenticationFailureObserved e"
  by (simp_all add: record_faillock_def)

lemma authentication_keeps [simp]:
  "passwordQualitySucceeded (record_authentication rule result b e) = passwordQualitySucceeded e"
  "passwordTokenProduced (record_authentication rule result b e) = passwordTokenProduced e"
  "passwordHistoryReached (record_authentication rule result b e) = passwordHistoryReached e"
  "passwordHistorySucceeded (record_authentication rule result b e) = passwordHistorySucceeded e"
  "passwordHistoryTokenAvailable (record_authentication rule result b e) = passwordHistoryTokenAvailable e"
  "providerReached (record_authentication rule result b e) = providerReached e"
  "providerSucceeded (record_authentication rule result b e) = providerSucceeded e"
  "preauthSucceeded (record_authentication rule result b e) = preauthSucceeded e"
  "preauthDenied (record_authentication rule result b e) = preauthDenied e"
  "preauthFailedClosed (record_authentication rule result b e) = preauthFailedClosed e"
  "authfailReached (record_authentication rule result b e) = authfailReached e"
  "authsuccSucceeded (record_authentication rule result b e) = authsuccSucceeded e"
  "authsuccDenied (record_authentication rule result b e) = authsuccDenied e"
  "accountSucceeded (record_authentication rule result b e) = accountSucceeded e"
  by (simp_all add: record_authentication_def Let_def)

lemma failClosed_keeps [simp]:
  "passwordQualitySucceeded (recordProviderFailClosedEvidence rule result action provider e) = passwordQualitySucceeded e"
  "passwordTokenProduced (recordProviderFailClosedEvidence rule result action provider e) = passwordTokenProduced e"
  "passwordHistoryReached (recordProviderFailClosedEvidence rule result action provider e) = passwordHistoryReached e"
  "passwordHistorySucceeded (recordProviderFailClosedEvidence rule result action provider e) = passwordHistorySucceeded e"
  "passwordHistoryTokenAvailable (recordProviderFailClosedEvidence rule result action provider e) = passwordHistoryTokenAvailable e"
  "providerReached (recordProviderFailClosedEvidence rule result action provider e) = providerReached e"
  "providerSucceeded (recordProviderFailClosedEvidence rule result action provider e) = providerSucceeded e"
  "preauthSucceeded (recordProviderFailClosedEvidence rule result action provider e) = preauthSucceeded e"
  "preauthDenied (recordProviderFailClosedEvidence rule result action provider e) = preauthDenied e"
  "authfailReached (recordProviderFailClosedEvidence rule result action provider e) = authfailReached e"
  "authsuccSucceeded (recordProviderFailClosedEvidence rule result action provider e) = authsuccSucceeded e"
  "authsuccDenied (recordProviderFailClosedEvidence rule result action provider e) = authsuccDenied e"
  "accountSucceeded (recordProviderFailClosedEvidence rule result action provider e) = accountSucceeded e"
  "authenticationSuccessObserved (recordProviderFailClosedEvidence rule result action provider e) = authenticationSuccessObserved e"
  "authenticationFailureObserved (recordProviderFailClosedEvidence rule result action provider e) = authenticationFailureObserved e"
  by (simp_all add: recordProviderFailClosedEvidence_def)

lemma exclusion_keeps [simp]:
  "passwordQualitySucceeded (recordTrustedAuthenticationExclusion rule result action service cfg e) = passwordQualitySucceeded e"
  "passwordTokenProduced (recordTrustedAuthenticationExclusion rule result action service cfg e) = passwordTokenProduced e"
  "passwordHistoryReached (recordTrustedAuthenticationExclusion rule result action service cfg e) = passwordHistoryReached e"
  "passwordHistorySucceeded (recordTrustedAuthenticationExclusion rule result action service cfg e) = passwordHistorySucceeded e"
  "passwordHistoryTokenAvailable (recordTrustedAuthenticationExclusion rule result action service cfg e) = passwordHistoryTokenAvailable e"
  "providerReached (recordTrustedAuthenticationExclusion rule result action service cfg e) = providerReached e"
  "providerSucceeded (recordTrustedAuthenticationExclusion rule result action service cfg e) = providerSucceeded e"
  "preauthSucceeded (recordTrustedAuthenticationExclusion rule result action service cfg e) = preauthSucceeded e"
  "preauthDenied (recordTrustedAuthenticationExclusion rule result action service cfg e) = preauthDenied e"
  "preauthFailedClosed (recordTrustedAuthenticationExclusion rule result action service cfg e) = preauthFailedClosed e"
  "authfailReached (recordTrustedAuthenticationExclusion rule result action service cfg e) = authfailReached e"
  "authsuccSucceeded (recordTrustedAuthenticationExclusion rule result action service cfg e) = authsuccSucceeded e"
  "authsuccDenied (recordTrustedAuthenticationExclusion rule result action service cfg e) = authsuccDenied e"
  "accountSucceeded (recordTrustedAuthenticationExclusion rule result action service cfg e) = accountSucceeded e"
  "authenticationSuccessObserved (recordTrustedAuthenticationExclusion rule result action service cfg e) = authenticationSuccessObserved e"
  "authenticationFailureObserved (recordTrustedAuthenticationExclusion rule result action service cfg e) = authenticationFailureObserved e"
  by (simp_all add: recordTrustedAuthenticationExclusion_def split: option.split)

lemma bypass_keeps [simp]:
  "passwordQualitySucceeded (recordTrustedAuthenticationBypass rule result action service cfg e) = passwordQualitySucceeded e"
  "passwordTokenProduced (recordTrustedAuthenticationBypass rule result action service cfg e) = passwordTokenProduced e"
  "passwordHistoryReached (recordTrustedAuthenticationBypass rule result action service cfg e) = passwordHistoryReached e"
  "passwordHistorySucceeded (recordTrustedAuthenticationBypass rule result action service cfg e) = passwordHistorySucceeded e"
  "passwordHistoryTokenAvailable (recordTrustedAuthenticationBypass rule result action service cfg e) = passwordHistoryTokenAvailable e"
  "providerReached (recordTrustedAuthenticationBypass rule result action service cfg e) = providerReached e"
  "providerSucceeded (recordTrustedAuthenticationBypass rule result action service cfg e) = providerSucceeded e"
  "preauthSucceeded (recordTrustedAuthenticationBypass rule result action service cfg e) = preauthSucceeded e"
  "preauthDenied (recordTrustedAuthenticationBypass rule result action service cfg e) = preauthDenied e"
  "preauthFailedClosed (recordTrustedAuthenticationBypass rule result action service cfg e) = preauthFailedClosed e"
  "authfailReached (recordTrustedAuthenticationBypass rule result action service cfg e) = authfailReached e"
  "authsuccSucceeded (recordTrustedAuthenticationBypass rule result action service cfg e) = authsuccSucceeded e"
  "authsuccDenied (recordTrustedAuthenticationBypass rule result action service cfg e) = authsuccDenied e"
  "accountSucceeded (recordTrustedAuthenticationBypass rule result action service cfg e) = accountSucceeded e"
  "authenticationSuccessObserved (recordTrustedAuthenticationBypass rule result action service cfg e) = authenticationSuccessObserved e"
  "authenticationFailureObserved (recordTrustedAuthenticationBypass rule result action service cfg e) = authenticationFailureObserved e"
  by (simp_all add: recordTrustedAuthenticationBypass_def split: option.split)

lemma record_password_evidence:
  fixes c :: pam_call and e :: Evidence
  defines "e' \<equiv> record_password (call_rule c) (call_result c) e"
  shows "passwordQualitySucceeded e' \<longleftrightarrow> passwordQualitySucceeded e \<or> quality_call c"
    and "passwordTokenProduced e' \<longleftrightarrow> passwordTokenProduced e \<or> quality_call c"
    and "passwordHistoryReached e' \<longleftrightarrow> passwordHistoryReached e \<or> history_call c"
    and "passwordHistorySucceeded e' \<longleftrightarrow> passwordHistorySucceeded e \<or> history_success c"
    and "passwordHistoryTokenAvailable e' \<longleftrightarrow>
      (if history_call c \<and> \<not> passwordHistoryReached e then passwordTokenProduced e else passwordHistoryTokenAvailable e)"
  by (auto simp: e'_def record_password_def record_quality_def record_history_def quality_call_def history_call_def
      history_success_def)

lemma password_evidence:
  "passwordQualitySucceeded (call_evidence fl m c e) \<longleftrightarrow> passwordQualitySucceeded e \<or> quality_call c"
  "passwordTokenProduced (call_evidence fl m c e) \<longleftrightarrow> passwordTokenProduced e \<or> quality_call c"
  "passwordHistoryReached (call_evidence fl m c e) \<longleftrightarrow> passwordHistoryReached e \<or> history_call c"
  "passwordHistorySucceeded (call_evidence fl m c e) \<longleftrightarrow> passwordHistorySucceeded e \<or> history_success c"
  "passwordHistoryTokenAvailable (call_evidence fl m c e) \<longleftrightarrow>
     (if history_call c \<and> \<not> passwordHistoryReached e then passwordTokenProduced e else passwordHistoryTokenAvailable e)"
  by (simp_all add: call_evidence_def recordEvidence_def Let_def record_password_evidence)

lemma replay_step:
  assumes "replay fl m (c # log) s = Some t"
  obtains u where "replay fl m log u = Some t" "evidence u = call_evidence fl m c (evidence s)"
  using assms by (auto simp: note_call_def split: bind_splits)

lemma password_replay:
  assumes "replay fl m log s = Some t"
  shows "(passwordQualitySucceeded (evidence t) \<longleftrightarrow> passwordQualitySucceeded (evidence s) \<or> list_ex quality_call log) \<and>
     (passwordHistoryReached (evidence t) \<longleftrightarrow> passwordHistoryReached (evidence s) \<or> list_ex history_call log) \<and>
     (passwordHistorySucceeded (evidence t) \<longleftrightarrow> passwordHistorySucceeded (evidence s) \<or> list_ex history_success log) \<and>
     (\<not> passwordHistoryReached (evidence s) \<longrightarrow> list_ex history_call log \<longrightarrow>
       (passwordHistoryTokenAvailable (evidence t) \<longleftrightarrow>
          passwordTokenProduced (evidence s) \<or> token_before_history log)) \<and>
     (passwordHistoryReached (evidence s) \<longrightarrow>
       passwordHistoryTokenAvailable (evidence t) = passwordHistoryTokenAvailable (evidence s))"
  using assms
proof (induction log arbitrary: s)
  case (Cons c log)
  obtain u where u: "replay fl m log u = Some t" "evidence u = call_evidence fl m c (evidence s)"
    using Cons.prems by (rule replay_step)
  have "\<not> (history_call c \<and> quality_call c)" by (auto simp: history_call_def quality_call_def)
  then show ?case
    using Cons.IH[OF u(1)] by (auto simp: u(2) password_evidence token_before_history_def)
qed (simp add: token_before_history_def)

lemma password_state:
  assumes "replay fl m log initialState = Some s" "sameState t s"
  shows "qualityOnPath t \<longleftrightarrow> list_ex quality_call log"
    and "historyOnPath t \<longleftrightarrow> list_ex history_success log"
    and "passwordHistoryReached (evidence t) \<longleftrightarrow> list_ex history_call log"
    and "producerBeforeHistory t \<longleftrightarrow>
      (if list_ex history_call log then token_before_history log else list_ex quality_call log)"
proof -
  have same: "passwordQualitySucceeded (evidence t) = passwordQualitySucceeded (evidence s)"
      "passwordHistoryReached (evidence t) = passwordHistoryReached (evidence s)"
      "passwordHistorySucceeded (evidence t) = passwordHistorySucceeded (evidence s)"
      "passwordHistoryTokenAvailable (evidence t) = passwordHistoryTokenAvailable (evidence s)"
    using assms(2) by (simp_all add: sameState_iff same_evidence_def evidence_flags_eq)
  have "list_ex history_success log \<Longrightarrow> list_ex history_call log"
    by (auto simp: list_ex_iff history_success_def)
  then show "qualityOnPath t \<longleftrightarrow> list_ex quality_call log"
      "historyOnPath t \<longleftrightarrow> list_ex history_success log"
      "passwordHistoryReached (evidence t) \<longleftrightarrow> list_ex history_call log"
      "producerBeforeHistory t \<longleftrightarrow>
        (if list_ex history_call log then token_before_history log else list_ex quality_call log)"
    using password_replay[OF assms(1)] same
    by (auto simp: qualityOnPath_def historyOnPath_def producerBeforeHistory_def initialState_def noEvidence_def)
qed

lemma states_runs:
  assumes m: "pamProviderModuleName (fl_provider fl) = Inr m" and found: "explore fl stack = Inr states"
    and same: "\<And>log s t. replay fl m log initialState = Some s \<Longrightarrow> sameState t s \<Longrightarrow> Q t = R log (verdict_of s)"
  shows "(\<forall>t \<in> set states. Q t) \<longleftrightarrow>
     (\<forall>log w. pam_run (fl_service fl) (fl_platform fl) stack log w \<longrightarrow> R log w)"
proof (intro iffI allI ballI impI)
  fix log w assume all: "\<forall>t \<in> set states. Q t" and "pam_run (fl_service fl) (fl_platform fl) stack log w"
  from explore_exact(1)[OF m found this(2)] show "R log w" using all same by blast
next
  fix t assume all: "\<forall>log w. pam_run (fl_service fl) (fl_platform fl) stack log w \<longrightarrow> R log w" and "t \<in> set states"
  from explore_exact(2)[OF m found this(2)] show "Q t" using all same by blast
qed

lemma stackSucceeded_verdict: "sameState t s \<Longrightarrow> stackSucceeded t \<longleftrightarrow> verdict_of s = (Positive, ''success'')"
  by (simp add: stackSucceeded_def sameState_iff verdict_of_def)

definition misses_requirement :: "PamPasswordFlowRequirements \<Rightarrow> ExecutionState \<Rightarrow> bool" where
  "misses_requirement requirements s \<longleftrightarrow>
     requireQuality requirements \<and> \<not> qualityOnPath s \<or>
     requireHistory requirements \<and> (\<not> historyOnPath s \<or> \<not> producerBeforeHistory s)"

lemma classify_password_fold:
  fixes stack requirements states a
  defines "b \<equiv> fold (classify_password stack requirements) states a"
  shows "(qualityNonBypassable b \<longleftrightarrow>
        qualityNonBypassable a \<and> (\<forall>s \<in> set states. stackSucceeded s \<longrightarrow> qualityOnPath s)) \<and>
     (historyNonBypassable b \<longleftrightarrow>
        historyNonBypassable a \<and> (\<forall>s \<in> set states. stackSucceeded s \<longrightarrow> historyOnPath s)) \<and>
     (historyAlwaysHasTokenProducer b \<longleftrightarrow> historyAlwaysHasTokenProducer a \<and>
        (\<forall>s \<in> set states. stackSucceeded s \<longrightarrow> passwordHistoryReached (evidence s) \<longrightarrow> producerBeforeHistory s)) \<and>
     (flow_violations b = [] \<longleftrightarrow>
        flow_violations a = [] \<and> (\<forall>s \<in> set states. stackSucceeded s \<longrightarrow> \<not> misses_requirement requirements s))"
  unfolding b_def
  by (induction states arbitrary: a) (auto simp: classify_password_def misses_requirement_def)



section \<open>Controls and ignored modules\<close>

text \<open>
  The manual (\<open>pam.conf(5)\<close>) spells \<open>required\<close> and \<open>requisite\<close> out with \<open>ignore=ignore\<close>: a module that
  returns \<open>PAM_IGNORE\<close> does not take part in the verdict. Otherwise its actions are those of \<open>by_contract\<close>.
\<close>

definition by_manual :: "string \<Rightarrow> PamPlatformConfig \<Rightarrow> PamRule \<Rightarrow> string \<Rightarrow> ControlAction \<Rightarrow> bool" where
  "by_manual service platformConfig rule result action \<longleftrightarrow>
     (if lowerCopy (control rule) \<in> {''required'', ''requisite''} \<and> result = ''ignore''
      then ''ignore'' \<in> set (moduleOutcomes rule service platformConfig) \<and> action = simple_action Ignore
      else by_contract service platformConfig rule result action)"

lemma simple_control:
  "control rule = ''required'' \<Longrightarrow> parseControl rule = Inr (setSimple Ok Bad)"
  "control rule = ''requisite'' \<Longrightarrow> parseControl rule = Inr (setSimple Ok Die)"
  by (simp_all add: parseControl_def lowerCopy_def lower_char_def)

lemma success_action: "action_for (setSimple a b) ''success'' = simple_action a"
  by (simp add: action_for_def setSimple_def omap_find_def less_char_def)

lemma accepted_call:
  assumes "reaches allowed stack v log w (Some i)" "i < length stack" "\<not> isSubstack (stack ! i)"
    and "allowed (entry_rule (stack ! i)) result (simple_action a)" "a = Ok \<and> result = ''success'' \<or> a = Ignore"
  shows "\<exists>c. call_rule c = entry_rule (stack ! i) \<and> call_result c = result \<and>
     reaches allowed stack v (log @ [c])
       (if a = Ok \<and> fst w = Undefined then (Positive, ''success'') else w) (Some (i + 1))"
proof -
  obtain w' p where d: "dispatch v i (length stack) (simple_action a) result w = (w', p)" by fastforce
  then have "w' = (if a = Ok \<and> fst w = Undefined then (Positive, ''success'') else w)" "p = Some (i + 1)"
    using assms(5) by (cases w; force simp: simple_action_def split: if_splits)+
  with reaches.module_call[OF assms(1-3) refl assms(4) d] show ?thesis
    by (intro exI[of _ "\<lparr> call_rule = entry_rule (stack ! i), call_result = result, call_action = simple_action a,
      call_verdict = w', call_ends = (p = None) \<rparr>"]) simp
qed

text \<open>
  C37. The analyzer takes a required history module for enforced where the manual lets it be ignored.
  For the \<open>passwd\<close> service of the sample host it finds history non-bypassable and reports no violation,
  yet with the actions of the manual there is a run that ends in success without a successful call
  of \<open>pam_pwhistory\<close>, which its contract allows to return \<open>PAM_IGNORE\<close>.
\<close>

theorem required_ignore_not_explored:
  "case buildEffectiveStack host_files ''passwd'' Password of Inl _ \<Rightarrow> False | Inr stack \<Rightarrow>
     (case analyzePasswordFlow stack host_platform both_required of
        Inl _ \<Rightarrow> False
      | Inr analysis \<Rightarrow> historyNonBypassable analysis \<and> flow_violations analysis = []) \<and>
     (\<exists>log. finishes (by_manual ''passwd'' host_platform) (stack_entries stack) undecided log (Positive, ''success'') \<and>
        \<not> list_ex history_success log)"
proof -
  let ?allowed = "by_manual ''passwd'' host_platform"
  obtain stack where stack: "buildEffectiveStack host_files ''passwd'' Password = Inr stack"
    using passwd_clean by (auto split: sum.splits)
  obtain a b c where three: "stack_entries stack = [a, b, c]"
      and modules: "moduleBaseName (entry_rule a) = ''pam_pwquality.so''" "moduleBaseName (entry_rule b) = ''pam_pwhistory.so''"
        "moduleBaseName (entry_rule c) = ''pam_permit.so''" "\<not> isSubstack a" "\<not> isSubstack b" "\<not> isSubstack c"
      and controls: "control (entry_rule a) = ''requisite''" "control (entry_rule b) = ''required''"
        "control (entry_rule c) = ''required''"
    using passwd_shape by (auto simp: stack map_eq_Cons_conv)
  have allowed: "?allowed (entry_rule a) ''success'' (simple_action Ok)" "?allowed (entry_rule b) ''ignore'' (simple_action Ignore)"
      "?allowed (entry_rule c) ''success'' (simple_action Ok)"
    by (simp_all add: by_manual_def by_contract_def moduleOutcomes_def modules controls simple_control success_action
        lowerCopy_def lower_char_def)
  let ?reaches = "reaches ?allowed [a, b, c] undecided" and ?done = "(Positive, ''success'')"
  obtain x where x: "call_rule x = entry_rule a" "?reaches [x] ?done (Some 1)"
    using accepted_call[OF reaches.start, of "[a, b, c]" ?allowed "''success''" Ok undecided] allowed modules
    by (auto simp: undecided_def)
  obtain y where y: "call_result y = ''ignore''" "?reaches [x, y] ?done (Some 2)"
    using accepted_call[OF x(2), of "''ignore''" Ignore] allowed modules by (auto simp: numeral_2_eq_2)
  obtain z where z: "call_rule z = entry_rule c" "?reaches [x, y, z] ?done (Some 3)"
    using accepted_call[OF y(2), of "''success''" Ok] allowed modules by (auto simp: eval_nat_numeral)
  have "\<not> list_ex history_success [x, y, z]"
    using x(1) y(1) z(1) modules by (simp add: history_success_def history_call_def)
  moreover have "finishes ?allowed [a, b, c] undecided [x, y, z] ?done"
    using z(2) by (simp add: finishes_def eval_nat_numeral)
  ultimately show ?thesis using passwd_clean by (auto simp: stack three split: sum.splits)
qed

end
