(* ===== verification/PamLockout.thy ===== *)
theory PamLockout
  imports PamFlowProps
begin

text \<open>
  What an effective answer of the control-flow analyzer about \<open>pam_faillock\<close> means for the runs of the
  authentication and account stacks.
\<close>

section \<open>Calls that matter for the lockout\<close>

definition faillock_call :: "pam_call \<Rightarrow> bool" where
  "faillock_call c \<longleftrightarrow> moduleBaseName (call_rule c) = ''pam_faillock.so''"

definition account_success :: "pam_call \<Rightarrow> bool" where
  "account_success c \<longleftrightarrow> faillock_call c \<and> rule_group (call_rule c) = Account \<and> call_result c = ''success''"

text \<open>The role of a call is its first argument among \<open>preauth\<close>, \<open>authfail\<close>, \<open>authsucc\<close>.\<close>

definition preauth_call :: "pam_call \<Rightarrow> bool" where
  "preauth_call c \<longleftrightarrow> faillock_call c \<and> \<not> account_success c \<and> hasArgument (call_rule c) ''preauth''"

definition authfail_call :: "pam_call \<Rightarrow> bool" where
  "authfail_call c \<longleftrightarrow> faillock_call c \<and> \<not> account_success c \<and> \<not> hasArgument (call_rule c) ''preauth'' \<and>
     hasArgument (call_rule c) ''authfail''"

definition authsucc_call :: "pam_call \<Rightarrow> bool" where
  "authsucc_call c \<longleftrightarrow> faillock_call c \<and> \<not> account_success c \<and> \<not> hasArgument (call_rule c) ''preauth'' \<and>
     \<not> hasArgument (call_rule c) ''authfail'' \<and> hasArgument (call_rule c) ''authsucc''"

definition credential_success :: "pam_call \<Rightarrow> bool" where
  "credential_success c \<longleftrightarrow> \<not> faillock_call c \<and> rule_group (call_rule c) = Auth \<and>
     moduleRole (moduleBaseName (call_rule c)) \<in> {CredentialAuthenticator, UnknownRole, TrustedAuthenticator} \<and>
     call_result c = ''success''"

definition credential_failure :: "pam_call \<Rightarrow> bool" where
  "credential_failure c \<longleftrightarrow> \<not> faillock_call c \<and> rule_group (call_rule c) = Auth \<and>
     moduleRole (moduleBaseName (call_rule c)) \<in> {CredentialAuthenticator, UnknownRole} \<and>
     authenticationFailureResult (call_result c)"

definition preauth_closed :: "pam_call \<Rightarrow> bool" where
  "preauth_closed c \<longleftrightarrow> faillock_call c \<and> hasArgument (call_rule c) ''preauth'' \<and>
     call_result c \<notin> {''success'', ''new_authtok_reqd'', ''auth_err''} \<and>
     action_kind (call_action c) \<in> {Bad, Die}"

text \<open>A call that ends a stack positively and that the platform declares as a trusted bypass.\<close>

definition trusted_end :: "string \<Rightarrow> PamPlatformConfig \<Rightarrow> pam_call \<Rightarrow> bool" where
  "trusted_end service platformConfig c \<longleftrightarrow>
     positive_end c \<and> rule_group (call_rule c) = Auth \<and> call_result c = ''success'' \<and>
     action_kind (call_action c) = Done \<and>
     matchingTrustedAuthenticationBypass (call_rule c) service platformConfig \<noteq> None"

text \<open>A rejection that the platform declares as the exclusion of root.\<close>

definition root_exclusion :: "string \<Rightarrow> PamPlatformConfig \<Rightarrow> pam_call \<Rightarrow> bool" where
  "root_exclusion service platformConfig c \<longleftrightarrow>
     rule_group (call_rule c) = Auth \<and> call_result c = ''auth_err'' \<and> action_kind (call_action c) \<in> {Bad, Die} \<and>
     (\<exists>matched. matchingTrustedAuthenticationExclusion (call_rule c) service platformConfig = Some matched \<and>
        excludedUser matched = ''root'')"

definition lockout_subject :: "PamPlatformConfig \<Rightarrow> pam_call list \<Rightarrow> bool" where
  "lockout_subject platformConfig log \<longleftrightarrow>
     (\<forall>configured. capabilityConfig platformConfig AuthenticationLockout = Some configured \<longrightarrow>
        cap_subjectScope configured \<noteq> LocalUsersOnly \<or> \<not> list_ex (\<lambda>c. observed_by c = NonLocalSubject) log)"

section \<open>The evidence of a lockout run\<close>

lemma faillock_evidence:
  assumes "fl_provider fl = PamFaillock" "m = ''pam_faillock.so''"
  shows "providerReached (call_evidence fl m c e) \<longleftrightarrow> providerReached e \<or> faillock_call c"
    and "accountSucceeded (call_evidence fl m c e) \<longleftrightarrow> accountSucceeded e \<or> account_success c"
    and "preauthSucceeded (call_evidence fl m c e) \<longleftrightarrow>
      preauthSucceeded e \<or> preauth_call c \<and> call_result c = ''success''"
    and "preauthDenied (call_evidence fl m c e) \<longleftrightarrow> preauthDenied e \<or> preauth_call c \<and> call_result c = ''auth_err''"
    and "authfailReached (call_evidence fl m c e) \<longleftrightarrow> authfailReached e \<or> authfail_call c"
    and "authsuccSucceeded (call_evidence fl m c e) \<longleftrightarrow>
      authsuccSucceeded e \<or> authsucc_call c \<and> call_result c = ''success''"
    and "authsuccDenied (call_evidence fl m c e) \<longleftrightarrow>
      authsuccDenied e \<or> authsucc_call c \<and> call_result c \<notin> {''success'', ''ignore''}"
  using assms
  by (auto simp: call_evidence_def recordEvidence_def Let_def reach_provider_def record_faillock_def faillock_call_def
      account_success_def preauth_call_def authfail_call_def authsucc_call_def)

lemma credential_evidence:
  assumes "fl_provider fl = PamFaillock" "m = ''pam_faillock.so''"
  shows "authenticationSuccessObserved (call_evidence fl m c e) \<longleftrightarrow>
      authenticationSuccessObserved e \<or> credential_success c"
    and "authenticationFailureObserved (call_evidence fl m c e) \<longleftrightarrow>
      authenticationFailureObserved e \<or> credential_failure c"
    and "preauthFailedClosed (call_evidence fl m c e) \<longleftrightarrow> preauthFailedClosed e \<or> preauth_closed c"
  using assms
  by (auto simp: call_evidence_def recordEvidence_def Let_def record_authentication_def faillock_call_def
      credential_success_def credential_failure_def recordProviderFailClosedEvidence_def preauth_closed_def)

lemma plain_trusted:
  "plain f \<Longrightarrow> trustedAuthenticationBypass (f e) = trustedAuthenticationBypass e"
  "plain f \<Longrightarrow> trustedAuthenticationExclusion (f e) = trustedAuthenticationExclusion e"
  by (simp_all add: plain_def)

lemmas trusted_keeps [simp] = plain_trusted[OF plain_evidence] plain_trusted[OF plain_failClosed]

lemma trusted_evidence:
  "trustedAuthenticationBypass (call_evidence fl m c e) \<noteq> None \<longleftrightarrow>
     trustedAuthenticationBypass e \<noteq> None \<or> trusted_end (fl_service fl) (fl_platform fl) c"
proof -
  have "trustedAuthenticationBypass (recordTrustedAuthenticationExclusion rule result action service cfg d) =
      trustedAuthenticationBypass d" for rule result action service cfg d
    by (simp add: recordTrustedAuthenticationExclusion_def split: option.split)
  then show ?thesis
    by (auto simp: call_evidence_def Let_def recordTrustedAuthenticationBypass_def trusted_end_def
        split: option.splits)
qed

lemma exclusion_evidence:
  assumes "trustedAuthenticationExclusion (call_evidence fl m c e) = Some x" "te_excludedUser x = ''root''"
  shows "trustedAuthenticationExclusion e = Some x \<or> root_exclusion (fl_service fl) (fl_platform fl) c"
proof -
  have same: "trustedAuthenticationExclusion (recordTrustedAuthenticationBypass rule result action service cfg d) =
      trustedAuthenticationExclusion d" for rule result action service cfg d
    by (simp add: recordTrustedAuthenticationBypass_def split: option.split)
  show ?thesis
    using assms
    by (auto simp: call_evidence_def Let_def same recordTrustedAuthenticationExclusion_def root_exclusion_def
        split: option.splits if_splits)
qed

lemma replay_flag:
  assumes "replay fl m log s = Some t" "\<And>c e. flag (call_evidence fl m c e) \<longleftrightarrow> flag e \<or> P c"
  shows "flag (evidence t) \<longleftrightarrow> flag (evidence s) \<or> list_ex P log"
  using assms(1)
proof (induction log arbitrary: s)
  case (Cons c log)
  obtain u where u: "replay fl m log u = Some t" "evidence u = call_evidence fl m c (evidence s)"
    using Cons.prems by (rule replay_step)
  show ?case using Cons.IH[OF u(1)] u(2) assms(2) by simp
qed simp

lemma replay_exclusion:
  assumes "replay fl m log s = Some t" "trustedAuthenticationExclusion (evidence t) = Some x" "te_excludedUser x = ''root''"
  shows "trustedAuthenticationExclusion (evidence s) = Some x \<or>
     list_ex (root_exclusion (fl_service fl) (fl_platform fl)) log"
  using assms(1)
proof (induction log arbitrary: s)
  case (Cons c log)
  obtain u where u: "replay fl m log u = Some t" "evidence u = call_evidence fl m c (evidence s)"
    using Cons.prems by (rule replay_step)
  show ?case using Cons.IH[OF u(1)] u(2) exclusion_evidence[OF _ assms(3)] by auto
qed (use assms(2) in simp)

lemma replay_subject:
  assumes "replay fl m log s = Some t"
  shows "subject t = NonLocalSubject \<longleftrightarrow>
     subject s = NonLocalSubject \<or> list_ex (\<lambda>c. observed_by c = NonLocalSubject) log"
  using assms
proof (induction log arbitrary: s)
  case (Cons c log)
  then obtain u where u: "note_call fl m c s = Some u" "replay fl m log u = Some t" by (auto split: bind_splits)
  then have "subject u = NonLocalSubject \<longleftrightarrow> subject s = NonLocalSubject \<or> observed_by c = NonLocalSubject"
    by (auto simp: note_call_def refine_subject observed_by_def split: if_splits)
  then show ?case using Cons.IH[OF u(2)] by auto
qed simp

definition lockout_flow :: "string \<Rightarrow> PamPlatformConfig \<Rightarrow> flow_setting" where
  "lockout_flow service platformConfig =
     \<lparr> fl_provider = PamFaillock, fl_service = service, fl_platform = platformConfig \<rparr>"

lemma faillock_module: "pamProviderModuleName PamFaillock = Inr ''pam_faillock.so''"
  by (simp add: pamProviderModuleName_def pamProviderDescriptor_def pamProviderDescriptors_def)

lemma lockout_state:
  fixes service platformConfig log s t
  defines "fl \<equiv> lockout_flow service platformConfig" and "e \<equiv> evidence t"
  assumes run: "replay fl ''pam_faillock.so'' log initialState = Some s" and same: "sameState t s"
  shows "providerReached e \<longleftrightarrow> list_ex faillock_call log"
    "accountSucceeded e \<longleftrightarrow> list_ex account_success log"
    "preauthSucceeded e \<longleftrightarrow> list_ex (\<lambda>c. preauth_call c \<and> call_result c = ''success'') log"
    "preauthDenied e \<longleftrightarrow> list_ex (\<lambda>c. preauth_call c \<and> call_result c = ''auth_err'') log"
    "authfailReached e \<longleftrightarrow> list_ex authfail_call log"
    "authsuccSucceeded e \<longleftrightarrow> list_ex (\<lambda>c. authsucc_call c \<and> call_result c = ''success'') log"
    "authsuccDenied e \<longleftrightarrow> list_ex (\<lambda>c. authsucc_call c \<and> call_result c \<notin> {''success'', ''ignore''}) log"
    "authenticationSuccessObserved e \<longleftrightarrow> list_ex credential_success log"
    "authenticationFailureObserved e \<longleftrightarrow> list_ex credential_failure log"
    "preauthFailedClosed e \<longleftrightarrow> list_ex preauth_closed log"
    "trustedAuthenticationBypass e \<noteq> None \<longleftrightarrow> list_ex (trusted_end service platformConfig) log"
    "excludes_root t \<Longrightarrow> list_ex (root_exclusion service platformConfig) log"
    "subjectIsRelevant t platformConfig AuthenticationLockout \<longleftrightarrow> lockout_subject platformConfig log"
proof -
  have fl: "fl_provider fl = PamFaillock" "''pam_faillock.so'' = ''pam_faillock.so''"
    by (simp_all add: fl_def lockout_flow_def)
  have fls: "fl_service fl = service" "fl_platform fl = platformConfig" by (simp_all add: fl_def lockout_flow_def)
  note flags = replay_flag[OF run faillock_evidence(1)[OF fl]] replay_flag[OF run faillock_evidence(2)[OF fl]]
    replay_flag[OF run faillock_evidence(3)[OF fl]] replay_flag[OF run faillock_evidence(4)[OF fl]]
    replay_flag[OF run faillock_evidence(5)[OF fl]] replay_flag[OF run faillock_evidence(6)[OF fl]]
    replay_flag[OF run faillock_evidence(7)[OF fl]] replay_flag[OF run credential_evidence(1)[OF fl]]
    replay_flag[OF run credential_evidence(2)[OF fl]] replay_flag[OF run credential_evidence(3)[OF fl]]
    replay_flag[where flag = "\<lambda>e. trustedAuthenticationBypass e \<noteq> None", OF run trusted_evidence, unfolded fls]
  have eq: "same_evidence e (evidence s)" "subject t = subject s" using same by (simp_all add: sameState_iff e_def)
  show "providerReached e \<longleftrightarrow> list_ex faillock_call log"
    "accountSucceeded e \<longleftrightarrow> list_ex account_success log"
    "preauthSucceeded e \<longleftrightarrow> list_ex (\<lambda>c. preauth_call c \<and> call_result c = ''success'') log"
    "preauthDenied e \<longleftrightarrow> list_ex (\<lambda>c. preauth_call c \<and> call_result c = ''auth_err'') log"
    "authfailReached e \<longleftrightarrow> list_ex authfail_call log"
    "authsuccSucceeded e \<longleftrightarrow> list_ex (\<lambda>c. authsucc_call c \<and> call_result c = ''success'') log"
    "authsuccDenied e \<longleftrightarrow> list_ex (\<lambda>c. authsucc_call c \<and> call_result c \<notin> {''success'', ''ignore''}) log"
    "authenticationSuccessObserved e \<longleftrightarrow> list_ex credential_success log"
    "authenticationFailureObserved e \<longleftrightarrow> list_ex credential_failure log"
    "preauthFailedClosed e \<longleftrightarrow> list_ex preauth_closed log"
    using eq(1) flags by (simp_all add: same_evidence_def evidence_flags_eq initialState_def noEvidence_def)
  have "sameTrustedAuthenticationBypass (trustedAuthenticationBypass e) (trustedAuthenticationBypass (evidence s))"
      "sameTrustedAuthenticationExclusion (trustedAuthenticationExclusion e) (trustedAuthenticationExclusion (evidence s))"
    using eq(1) by (simp_all add: same_evidence_def)
  then show "trustedAuthenticationBypass e \<noteq> None \<longleftrightarrow> list_ex (trusted_end service platformConfig) log"
      "excludes_root t \<Longrightarrow> list_ex (root_exclusion service platformConfig) log"
    using flags(11) replay_exclusion[OF run, unfolded fls]
    by (auto simp: e_def excludes_root_def sameTrustedAuthenticationBypass_def sameTrustedAuthenticationExclusion_def
        initialState_def noEvidence_def split: option.splits)
  show "subjectIsRelevant t platformConfig AuthenticationLockout \<longleftrightarrow> lockout_subject platformConfig log"
    using replay_subject[OF run] eq(2)
    by (auto simp: subjectIsRelevant_def lockout_subject_def capabilityConfig_def initialState_def split: option.splits)
qed

section \<open>Effective analyses\<close>

lemma added_violation: "violations (addFirstViolation v a) \<noteq> []"
  by (auto simp: addFirstViolation_def list_ex_iff)

lemma kept_violations [simp]:
  "violations (addAcceptedTrustedAuthenticationBypass s a) = violations a"
  "violations (addAcceptedTrustedAuthenticationExclusion s a) = violations a"
  by (simp_all add: addAcceptedTrustedAuthenticationBypass_def addAcceptedTrustedAuthenticationExclusion_def
      split: option.split)

text \<open>What the classification of a state leaves without a violation.\<close>

definition positive_state :: "bool \<Rightarrow> Evidence \<Rightarrow> bool" where
  "positive_state authsuccTopology e \<longleftrightarrow>
     trustedAuthenticationBypass e \<noteq> None \<or>
     providerReached e \<and> (authenticationFailureObserved e \<longrightarrow> authenticationSuccessObserved e) \<and>
     (if authsuccTopology
      then authsuccSucceeded e \<and> \<not> authsuccDenied e \<and> \<not> (authenticationFailureObserved e \<and> authfailReached e)
      else preauthSucceeded e \<or> preauthDenied e)"

definition lockout_ok :: "bool \<Rightarrow> ExecutionState \<Rightarrow> bool" where
  "lockout_ok authsuccTopology s \<longleftrightarrow>
     (if terminatedPositively s then positive_state authsuccTopology (evidence s)
      else if authsuccTopology \<and> authsuccSucceeded (evidence s) \<and> impression s = Negative then excludes_root s
      else \<not> failure_unaccounted (evidence s))"

lemma classify_positive_clean:
  assumes "violations (classify_positive stack topology s a) = []"
  shows "violations a = [] \<and> positive_state topology (evidence s)"
  using assms added_violation by (auto simp: classify_positive_def positive_state_def Let_def split: if_splits)

lemma classify_auth_clean:
  assumes "classify_auth files cfg stack topology s (a, env) = (None, a', env')" "violations a' = []"
  shows "violations a = [] \<and> (subjectIsRelevant s cfg AuthenticationLockout \<longrightarrow> lockout_ok topology s)"
proof -
  have "violations a = [] \<and> excludes_root s" if "classify_premature files cfg stack s a env = (None, a', env')"
    using that assms(2) added_violation
    by (auto simp: classify_premature_def split: if_splits prod.splits sum.splits)
  then show ?thesis
    using assms classify_positive_clean[of stack topology s a] added_violation
    by (auto simp: classify_auth_def lockout_ok_def split: if_splits)
qed

lemma classify_states_clean:
  assumes "classify_states (classify_auth files cfg stack topology) states (a, env) = (None, a', env')" "violations a' = []"
  shows "violations a = [] \<and>
     (\<forall>s \<in> set states. subjectIsRelevant s cfg AuthenticationLockout \<longrightarrow> lockout_ok topology s)"
  using assms(1)
proof (induction states arbitrary: a env)
  case (Cons s states)
  obtain x b env2 where first: "classify_auth files cfg stack topology s (a, env) = (x, b, env2)" by (rule prod_cases3)
  then have x: "x = None" and rest: "classify_states (classify_auth files cfg stack topology) states (b, env2) = (None, a', env')"
    using Cons.prems by (auto split: option.splits)
  show ?case using classify_auth_clean[OF first[unfolded x]] Cons.IH[OF rest] by auto
qed (use assms(2) in simp)

lemma classify_account_clean:
  assumes "violations (fold (classify_account cfg stack) states a) = []"
  shows "violations a = [] \<and> (\<forall>s \<in> set states. subjectIsRelevant s cfg AuthenticationLockout \<longrightarrow>
     stackSucceeded s \<longrightarrow> accountSucceeded (evidence s))"
  using assms
proof (induction states arbitrary: a)
  case (Cons s states)
  then have rest: "violations (classify_account cfg stack s a) = []"
      "\<forall>s \<in> set states. subjectIsRelevant s cfg AuthenticationLockout \<longrightarrow> stackSucceeded s \<longrightarrow>
        accountSucceeded (evidence s)"
    using Cons.IH[of "classify_account cfg stack s a"] by simp_all
  from rest(1) have "violations a = [] \<and> (subjectIsRelevant s cfg AuthenticationLockout \<longrightarrow> stackSucceeded s \<longrightarrow>
      accountSucceeded (evidence s))"
    using added_violation by (auto simp: classify_account_def split: if_splits)
  then show ?case using rest(2) by simp
qed simp

lemma effective_lockout:
  assumes "analyze configuration files cfg service AuthenticationLockout provider env = (Inr analysis, env')"
    and "effective analysis"
  obtains auth states where "buildEffectiveStack configuration service Auth = Inr auth"
    "explore (lockout_flow service cfg) (stack_entries auth) = Inr states"
    "\<exists>s \<in> set states. subjectIsRelevant s cfg AuthenticationLockout \<and> terminatedPositively s"
    "\<forall>s \<in> set states. subjectIsRelevant s cfg AuthenticationLockout \<longrightarrow>
       lockout_ok (stackHasFaillockRole (stack_entries auth) ''authsucc'' Auth) s"
    "\<not> stackHasFaillockRole (stack_entries auth) ''authsucc'' Auth \<Longrightarrow>
       \<exists>account inner. buildEffectiveStack configuration service Account = Inr account \<and>
         explore (lockout_flow service cfg) (stack_entries account) = Inr inner \<and>
         (\<forall>s \<in> set inner. subjectIsRelevant s cfg AuthenticationLockout \<longrightarrow> stackSucceeded s \<longrightarrow>
            accountSucceeded (evidence s))"
proof -
  obtain final where run: "analyzeFaillockStack configuration files cfg service emptyAnalysis env = (None, final, env')"
      and clean: "violations final = []"
    using assms by (auto simp: analyze_def conclude_def split: prod.splits option.splits flow_failure.splits)
  obtain auth states where found: "buildEffectiveStack configuration service Auth = Inr auth"
      "explore (lockout_flow service cfg) (stack_entries auth) = Inr states"
    using run by (auto simp: analyzeFaillockStack_def and_then_def lift_error_def lockout_flow_def split: sum.splits)
  let ?topology = "stackHasFaillockRole (stack_entries auth) ''authsucc'' Auth"
  let ?start = "auth_preliminary cfg service auth states emptyAnalysis"
  obtain x a env1 where classified: "classify_states (classify_auth files cfg auth ?topology) states (?start, env) = (x, a, env1)"
    by (rule prod_cases3)
  have x: "x = None" and rest: "if ?topology then final = a else analyze_account configuration cfg service a = Inr final"
    using run found classified
    by (auto simp: analyzeFaillockStack_def lift_error_def lockout_flow_def Let_def split: option.splits sum.splits if_splits)
  have "violations a = [] \<and> (\<not> ?topology \<longrightarrow> (\<exists>account inner. buildEffectiveStack configuration service Account = Inr account \<and>
       explore (lockout_flow service cfg) (stack_entries account) = Inr inner \<and>
       (\<forall>s \<in> set inner. subjectIsRelevant s cfg AuthenticationLockout \<longrightarrow> stackSucceeded s \<longrightarrow> accountSucceeded (evidence s))))"
  proof (cases ?topology)
    case False
    then show ?thesis
      using rest clean added_violation classify_account_clean[of cfg]
      by (auto simp: analyze_account_def and_then_Inr lift_error_def lockout_flow_def split: sum.splits if_splits)
  qed (use rest clean in simp)
  then have a: "violations a = []" and account: "\<not> ?topology \<Longrightarrow> \<exists>account inner.
       buildEffectiveStack configuration service Account = Inr account \<and>
       explore (lockout_flow service cfg) (stack_entries account) = Inr inner \<and>
       (\<forall>s \<in> set inner. subjectIsRelevant s cfg AuthenticationLockout \<longrightarrow> stackSucceeded s \<longrightarrow> accountSucceeded (evidence s))"
    by blast+
  note ok = classify_states_clean[OF classified[unfolded x] a]
  then have "\<exists>s \<in> set states. subjectIsRelevant s cfg AuthenticationLockout \<and> terminatedPositively s"
    using added_violation by (auto simp: auth_preliminary_def Let_def list_ex_iff split: if_splits)
  then show ?thesis using that[OF found _ _ account] ok by blast
qed

section \<open>The lockout holds on every run\<close>

text \<open>What the lockout asks of one run of an authentication stack.\<close>

definition lockout_run :: "string \<Rightarrow> PamPlatformConfig \<Rightarrow> bool \<Rightarrow> pam_call list \<Rightarrow> verdict \<Rightarrow> bool" where
  "lockout_run service platformConfig authsuccTopology log w \<longleftrightarrow>
     (if w \<in> {(Positive, ''success''), (Positive, ''new_authtok_reqd'')} then
        list_ex (trusted_end service platformConfig) log \<or>
        list_ex faillock_call log \<and> (list_ex credential_failure log \<longrightarrow> list_ex credential_success log) \<and>
        (if authsuccTopology then
           list_ex (\<lambda>c. authsucc_call c \<and> call_result c = ''success'') log \<and>
           \<not> list_ex (\<lambda>c. authsucc_call c \<and> call_result c \<notin> {''success'', ''ignore''}) log \<and>
           \<not> (list_ex credential_failure log \<and> list_ex authfail_call log)
         else list_ex (\<lambda>c. preauth_call c \<and> call_result c \<in> {''success'', ''auth_err''}) log)
      else if authsuccTopology \<and> fst w = Negative \<and> list_ex (\<lambda>c. authsucc_call c \<and> call_result c = ''success'') log
      then list_ex (root_exclusion service platformConfig) log
      else list_ex credential_failure log \<and> \<not> list_ex credential_success log \<longrightarrow>
        list_ex (\<lambda>c. authfail_call c \<or> preauth_call c \<and> call_result c = ''auth_err'' \<or> preauth_closed c) log)"

lemma lockout_ok_run:
  assumes run: "replay (lockout_flow service platformConfig) ''pam_faillock.so'' log initialState = Some s"
    and same: "sameState t s" and ok: "lockout_ok topology t"
  shows "lockout_run service platformConfig topology log (verdict_of s)"
proof -
  note facts = lockout_state[OF run same]
  have v: "verdict_of s = (impression t, es_status t)" using same by (simp add: sameState_iff verdict_of_def)
  have split: "list_ex (\<lambda>c. preauth_call c \<and> call_result c \<in> {''success'', ''auth_err''}) log \<longleftrightarrow>
        preauthSucceeded (evidence t) \<or> preauthDenied (evidence t)"
      "list_ex (\<lambda>c. authfail_call c \<or> preauth_call c \<and> call_result c = ''auth_err'' \<or> preauth_closed c) log \<longleftrightarrow>
        authfailReached (evidence t) \<or> preauthDenied (evidence t) \<or> preauthFailedClosed (evidence t)"
    unfolding facts(3-5,10) by (auto simp: list_ex_iff)
  have positive: "verdict_of s \<in> {(Positive, ''success''), (Positive, ''new_authtok_reqd'')} \<longleftrightarrow> terminatedPositively t"
    by (auto simp: terminatedPositively_def v)
  show ?thesis
    using ok facts(12)
    unfolding lockout_ok_def lockout_run_def split positive facts(1,5-9,11)[symmetric]
    by (auto simp: positive_state_def failure_unaccounted_def v split: if_splits)
qed

text \<open>
  C10. An effective lockout analysis holds on every run. When the analyzer calls the \<open>pam_faillock\<close>
  lockout of a service effective, then for every user it applies to and whatever the modules return
  within their contracts: a run of the authentication stack that ends positively either ends in a
  bypass that the platform declares as trusted, or has consulted \<open>pam_faillock\<close> with the accounting its
  topology asks for, and with no credential failure that no credential success followed up; a failed
  run accounts the failure or was denied before; the tally is reset on a failed run only for the
  declared exclusion of root; and when the tally is reset in the account stack, every successful run
  of that stack resets it. A positive run exists.
\<close>

theorem lockout_effective:
  assumes "analyze configuration files platformConfig service AuthenticationLockout provider env = (Inr analysis, env')"
    and "effective analysis"
  shows "\<exists>auth. buildEffectiveStack configuration service Auth = Inr auth \<and>
     (let topology = stackHasFaillockRole (stack_entries auth) ''authsucc'' Auth;
          run = pam_run service platformConfig (stack_entries auth)
      in (\<exists>log st. run log (Positive, st) \<and> lockout_subject platformConfig log) \<and>
         (\<forall>log w. run log w \<longrightarrow> lockout_subject platformConfig log \<longrightarrow>
            lockout_run service platformConfig topology log w) \<and>
         (\<not> topology \<longrightarrow> (\<exists>account. buildEffectiveStack configuration service Account = Inr account \<and>
            (\<forall>log. pam_run service platformConfig (stack_entries account) log (Positive, ''success'') \<longrightarrow>
               lockout_subject platformConfig log \<longrightarrow> list_ex account_success log))))"
proof -
  let ?fl = "lockout_flow service platformConfig" and ?m = "''pam_faillock.so''"
  let ?relevant = "\<lambda>s. subjectIsRelevant s platformConfig AuthenticationLockout"
  obtain auth states where auth: "buildEffectiveStack configuration service Auth = Inr auth"
      "explore ?fl (stack_entries auth) = Inr states" "\<exists>s \<in> set states. ?relevant s \<and> terminatedPositively s"
      "\<forall>s \<in> set states. ?relevant s \<longrightarrow>
         lockout_ok (stackHasFaillockRole (stack_entries auth) ''authsucc'' Auth) s"
    and account: "\<not> stackHasFaillockRole (stack_entries auth) ''authsucc'' Auth \<Longrightarrow>
      \<exists>account inner. buildEffectiveStack configuration service Account = Inr account \<and>
        explore ?fl (stack_entries account) = Inr inner \<and>
        (\<forall>s \<in> set inner. ?relevant s \<longrightarrow> stackSucceeded s \<longrightarrow> accountSucceeded (evidence s))"
    using effective_lockout[OF assms] by blast
  have m: "pamProviderModuleName (fl_provider ?fl) = Inr ?m" by (simp add: lockout_flow_def faillock_module)
  have fl: "fl_service ?fl = service" "fl_platform ?fl = platformConfig" by (simp_all add: lockout_flow_def)
  note found = explore_exact(1)[OF m, unfolded fl]
  have "lockout_run service platformConfig (stackHasFaillockRole (stack_entries auth) ''authsucc'' Auth) log w"
    if run: "pam_run service platformConfig (stack_entries auth) log w" and subj: "lockout_subject platformConfig log" for log w
  proof -
    obtain s t where st: "replay ?fl ?m log initialState = Some s" "verdict_of s = w" "t \<in> set states" "sameState t s"
      using found[OF auth(2) run] by blast
    have "?relevant t" using lockout_state(13)[OF st(1,4)] subj by simp
    then show ?thesis using lockout_ok_run[OF st(1,4)] auth(4) st(2,3) by simp
  qed
  moreover have "\<exists>log st. pam_run service platformConfig (stack_entries auth) log (Positive, st) \<and> lockout_subject platformConfig log"
  proof -
    obtain t where t: "t \<in> set states" "?relevant t" "impression t = Positive"
      using auth(3) by (auto simp: terminatedPositively_def)
    obtain log s where st: "pam_run service platformConfig (stack_entries auth) log (verdict_of s)"
        "replay ?fl ?m log initialState = Some s" "sameState t s"
      using explore_exact(2)[OF m auth(2) t(1)] fl by auto
    have "verdict_of s = (Positive, es_status t)" using sameState_verdict[OF st(3)] t(3) by (simp add: verdict_of_def)
    then show ?thesis using lockout_state(13)[OF st(2,3)] t(2) st(1) by auto
  qed
  moreover have "list_ex account_success log"
    if inner: "explore ?fl (stack_entries acc) = Inr inner" and run: "pam_run service platformConfig (stack_entries acc) log (Positive, ''success'')"
      and subj: "lockout_subject platformConfig log" and ok: "\<forall>s \<in> set inner. ?relevant s \<longrightarrow> stackSucceeded s \<longrightarrow> accountSucceeded (evidence s)"
    for acc inner log
  proof -
    obtain s t where st: "replay ?fl ?m log initialState = Some s" "verdict_of s = (Positive, ''success'')" "t \<in> set inner" "sameState t s"
      using found[OF inner run] by blast
    have "?relevant t" "stackSucceeded t"
      using lockout_state(13)[OF st(1,4)] subj stackSucceeded_verdict[OF st(4)] st(2) by simp_all
    then show ?thesis using lockout_state(2)[OF st(1,4)] ok st(3) by simp
  qed
  ultimately show ?thesis
    using auth(1) account unfolding Let_def by (intro exI[of _ auth]) blast
qed

theorem lockout_effective_witness:
  "case buildEffectiveStack host_files ''login'' Auth of Inl _ \<Rightarrow> False | Inr auth \<Rightarrow>
     {(log, w). pam_run ''login'' host_platform (stack_entries auth) log w \<and> lockout_subject host_platform log} \<noteq> {} \<and>
     {(log, w). pam_run ''login'' host_platform (stack_entries auth) log w \<and> lockout_subject host_platform log} \<subseteq>
       {(log, w). lockout_run ''login'' host_platform
          (stackHasFaillockRole (stack_entries auth) ''authsucc'' Auth) log w}"
proof -
  obtain analysis where "analyze host_files no_option_files host_platform ''login'' AuthenticationLockout PamFaillock () =
      (Inr analysis, ())" "effective analysis"
    using login_effective by (auto split: prod.splits sum.splits)
  from lockout_effective[OF this] show ?thesis unfolding Let_def by (elim exE conjE) auto
qed

end
