(* ===== verification/PamStackProps.thy ===== *)
theory PamStackProps
  imports PamExamples
begin

text \<open>
  The shape of effective stacks: what \<open>buildEffectiveStack\<close> returns holds rules of its management group
  only, nested and counted within the limits of the parser, so that the depth limit of the symbolic
  execution is never what decides about such a stack.
\<close>

text \<open>
  Entries with at most the given number of levels, of one group, with every inclusion resolved;
  \<open>nested\<close> tests the entries of a substack.
\<close>

definition resolved :: "(PamStackEntry list \<Rightarrow> bool) \<Rightarrow> PamManagementGroup \<Rightarrow> PamStackEntry \<Rightarrow> bool" where
  "resolved nested g entry \<longleftrightarrow> rule_group (entry_rule entry) = g \<and>
     (if isSubstack entry then nested (substack entry)
      else includeKind (entry_rule entry) = NoInclude \<and> substack entry = [])"

primrec well_formed :: "nat \<Rightarrow> PamManagementGroup \<Rightarrow> PamStackEntry list \<Rightarrow> bool" where
  "well_formed 0 g stack \<longleftrightarrow> False"
| "well_formed (Suc levels) g stack \<longleftrightarrow> list_all (resolved (well_formed levels g) g) stack"

fun entry_count :: "PamStackEntry list \<Rightarrow> nat" where
  "entry_count [] = 0"
| "entry_count (PamStackEntry rule inner # rest) = Suc (entry_count inner + entry_count rest)"

lemma entry_count_append [simp]: "entry_count (a @ b) = entry_count a + entry_count b"
  by (induction a rule: entry_count.induct) simp_all

lemma well_formed_append [simp]: "well_formed n g (a @ b) \<longleftrightarrow> well_formed n g a \<and> well_formed n g b"
  by (cases n) auto

section \<open>Building\<close>

definition extends :: "nat \<Rightarrow> PamManagementGroup \<Rightarrow> stack_build \<Rightarrow> stack_build \<Rightarrow> bool" where
  "extends levels g b b' \<longleftrightarrow> (\<exists>extra. fst b' = fst b @ extra \<and> well_formed levels g extra \<and>
     fst (snd b') = fst (snd b) + entry_count extra \<and>
     (fst (snd b) \<le> kMaximumCollectedRules \<longrightarrow> fst (snd b') \<le> kMaximumCollectedRules))"

lemma extends_refl: "extends (Suc n) g (c, k, f) (c, k, f')"
  by (simp add: extends_def)

lemma extends_trans: "extends n g a b \<Longrightarrow> extends n g b c \<Longrightarrow> extends n g a c"
  unfolding extends_def
proof (elim exE conjE, goal_cases)
  case (1 x y)
  then show ?case by (intro exI[of _ "x @ y"]) simp
qed

lemma well_formed_Suc: "well_formed n g stack \<Longrightarrow> well_formed (Suc n) g stack"
proof (induction n arbitrary: stack)
  case (Suc n)
  have "resolved (well_formed (Suc n) g) g entry" if "resolved (well_formed n g) g entry" for entry
    using that Suc.IH by (simp del: well_formed.simps add: resolved_def split: if_splits)
  with Suc.prems show ?case by (simp only: well_formed.simps(2) list_all_iff) blast
qed simp

lemma extends_Suc: "extends n g b b' \<Longrightarrow> extends (Suc n) g b b'"
  unfolding extends_def using well_formed_Suc by blast

lemma expand_rule_extends:
  assumes nested: "\<And>service b b'. nested service b = Inr b' \<Longrightarrow> extends n g b b'"
    and "expand_rule nested g service rule b = Inr b'"
  shows "extends (Suc n) g b b'"
proof (cases b)
  case (fields collected count files)
  show ?thesis
  proof (cases "includeKind rule")
    case Substack
    show ?thesis
    proof (cases "rule_group rule = g")
      case True
      then obtain inner count' files' where step: "nested (includeTarget rule) ([], count + 1, files) = Inr (inner, count', files')"
          "b' = (collected @ [PamStackEntry rule inner], count', files')" "count + 1 \<le> kMaximumCollectedRules"
        using assms(2) Substack fields by (auto simp: expand_rule_def split: if_splits sum.splits)
      then show ?thesis
        using nested[OF step(1)] True Substack fields by (auto simp: extends_def resolved_def isSubstack_def intro!: exI[of _ "[PamStackEntry rule inner]"])
    qed (use assms(2) Substack fields extends_refl in \<open>auto simp: expand_rule_def\<close>)
  next
    case NoInclude
    show ?thesis
    proof (cases "rule_group rule = g")
      case True
      then show ?thesis
        using assms(2) fields NoInclude
        by (auto simp: expand_rule_def extends_def resolved_def isSubstack_def split: if_splits
            intro!: exI[of _ "[PamStackEntry rule []]"])
    qed (use assms(2) NoInclude fields extends_refl in \<open>auto simp: expand_rule_def\<close>)
  qed (use assms(2) fields nested extends_Suc extends_refl in \<open>auto simp: expand_rule_def split: if_splits\<close>)
qed

lemma expand_rules_extends:
  assumes nested: "\<And>service b b'. nested service b = Inr b' \<Longrightarrow> extends n g b b'"
  shows "expand_rules nested g service rules b = Inr b' \<Longrightarrow> extends (Suc n) g b b'"
proof (induction rules arbitrary: b)
  case (Cons rule rules)
  then obtain c where c: "expand_rule nested g service rule b = Inr c" "expand_rules nested g service rules c = Inr b'"
    by (auto simp: and_then_Inr)
  have "extends (Suc n) g b c" by (rule expand_rule_extends[OF _ c(1)]) (rule nested)
  then show ?case by (rule extends_trans) (rule Cons.IH[OF c(2)])
next
  case Nil
  then show ?case by (cases b) (auto intro: extends_refl)
qed

lemma built_extends:
  "buildEffectiveStackRecursive n files g active service b = Inr b' \<Longrightarrow> extends n g b b'"
proof (induction n arbitrary: active service b b')
  case (Suc n)
  obtain collected count sources where b: "b = (collected, count, sources)" by (rule prod_cases3)
  obtain path rules active' where "expand_rules (buildEffectiveStackRecursive n files g active') g service rules
      (collected, count, insert path sources) = Inr b'"
    using Suc.prems b by (auto simp: Let_def and_then_Inr split: if_splits)
  from expand_rules_extends[OF Suc.IH this] show ?case by (simp add: b extends_def)
qed simp

section \<open>Executing\<close>

lemma visit_from_cong:
  assumes "isSubstack entry \<Longrightarrow> nested (substack entry) = nested' (substack entry)"
  shows "visit_from nested fl initial index count entry = visit_from nested' fl initial index count entry"
  using assms by (intro ext) (auto simp: visit_from_def)

lemma visit_entries_cong:
  assumes "\<And>entry. entry \<in> set stack \<Longrightarrow> isSubstack entry \<Longrightarrow> nested (substack entry) = nested' (substack entry)"
  shows "visit_entries nested fl initial count index stack x = visit_entries nested' fl initial count index stack x"
  using assms
proof (induction stack arbitrary: index x)
  case (Cons entry rest)
  have "visit_from nested fl initial index count entry = visit_from nested' fl initial index count entry"
    by (rule visit_from_cong) (use Cons.prems in simp)
  moreover have "visit_entries nested fl initial count (index + 1) rest = visit_entries nested' fl initial count (index + 1) rest"
    using Cons by (intro ext) simp
  ultimately show ?case by simp
qed simp

lemma executeStack_levels:
  "well_formed n g stack \<Longrightarrow> executeStack (n + k) fl stack = executeStack n fl stack"
proof (induction n arbitrary: stack)
  case (Suc n)
  have "visit_entries (executeStack (n + k) fl) fl initial count index stack x =
      visit_entries (executeStack n fl) fl initial count index stack x" for initial count index x
    by (rule visit_entries_cong) (use Suc in \<open>auto simp: list_all_iff resolved_def\<close>)
  then show ?case by (intro ext) simp
qed simp

lemma well_formed_flatten:
  "well_formed n g stack \<Longrightarrow> rule \<in> set (flattenStack stack) \<Longrightarrow> rule_group rule = g \<and> includeKind rule = NoInclude"
proof (induction stack arbitrary: n rule rule: flattenStack.induct)
  case (2 r inner rest)
  obtain m where n: "n = Suc m" using 2(3) by (cases n) auto
  have head: "resolved (well_formed m g) g (PamStackEntry r inner)" and rest: "well_formed n g rest"
    using 2(3) by (auto simp: n)
  show ?case
  proof (cases "rule \<in> set (flattenStack rest)")
    case True
    then show ?thesis using 2(2)[OF rest] by blast
  next
    case False
    then show ?thesis using 2(1)[of m rule] 2(4) head by (auto simp: resolved_def split: if_splits)
  qed
qed simp

text \<open>
  C26. Effective stacks are well-formed. A stack that \<open>buildEffectiveStack\<close> returns belongs to the service
  and group asked for, holds only rules of that group with every inclusion resolved, at most 33 levels
  and at most 4096 entries over all levels; its flattened rules are module rules of the group, and the
  depth limit of the symbolic execution does not matter for it.
\<close>

theorem built_stack_well_formed:
  assumes "buildEffectiveStack files service g = Inr stack"
  shows "stack_service stack = service \<and> stack_group stack = g \<and>
     well_formed (kMaximumIncludeDepth + 1) g (stack_entries stack) \<and>
     entry_count (stack_entries stack) \<le> kMaximumCollectedRules \<and>
     (\<forall>rule \<in> set (flattenStack (stack_entries stack)). rule_group rule = g \<and> includeKind rule = NoInclude) \<and>
     (\<forall>k fl. executeStack (33 + k) fl (stack_entries stack) = executeStack 33 fl (stack_entries stack))"
proof -
  obtain b where b: "buildEffectiveStackRecursive (kMaximumIncludeDepth + 1) files g {} service ([], 0, {}) = Inr b"
      "stack = \<lparr> stack_service = service, stack_group = g, stack_entries = fst b, sourceFiles = snd (snd b) \<rparr>"
    using assms by (auto simp: buildEffectiveStack_def and_then_Inr)
  have shape: "well_formed (kMaximumIncludeDepth + 1) g (fst b)" "entry_count (fst b) \<le> kMaximumCollectedRules"
    using built_extends[OF b(1)] by (auto simp: extends_def)
  have "executeStack (33 + k) fl (fst b) = executeStack 33 fl (fst b)" for k fl
    by (rule executeStack_levels) (use shape(1) in \<open>simp add: kMaximumIncludeDepth_def\<close>)
  then show ?thesis using shape well_formed_flatten[OF shape(1)] b(2) by auto
qed

theorem built_stack_well_formed_witness:
  "case buildEffectiveStack host_files ''login'' Auth of Inl _ \<Rightarrow> False | Inr stack \<Rightarrow>
     well_formed 33 Auth (stack_entries stack) \<and> entry_count (stack_entries stack) \<le> 4096"
proof -
  obtain stack where "buildEffectiveStack host_files ''login'' Auth = Inr stack"
    using login_effective by (auto simp: analyze_def analyzeFaillockStack_def conclude_def and_then_def lift_error_def
        flow_error_violation_def split: sum.splits)
  from this built_stack_well_formed[OF this] show ?thesis
    by (simp add: kMaximumIncludeDepth_def kMaximumCollectedRules_def)
qed

end
