(* ===== verification/PamOptionProps.thy ===== *)
theory PamOptionProps
  imports PamOptionFile ModuleConfig
begin

text \<open>
  Writing an option file and reading it back. The laws of the parameters are that reading a file
  changes nothing and that what was written is read afterwards.
\<close>

section \<open>Lines that carry a flag\<close>

text \<open>The part of a line that a provider reads.\<close>

definition active_part :: "string \<Rightarrow> string" where
  "active_part line = trimCopy (before_char (CHR ''#'') line)"

lemma flag_active: "fst (parseFlagLine line key matchMode syntax) \<Longrightarrow> active_part line \<noteq> ''''"
  by (auto simp: parseFlagLine_def active_part_def split: if_splits)

lemma inactive_flag: "active_part line = '''' \<Longrightarrow> parseFlagLine line key matchMode syntax = (False, False)"
  by (simp add: parseFlagLine_def active_part_def)

lemma validKey_char:
  assumes "validKey key" "c \<in> set key"
  shows "c \<noteq> CHR ''#''" "c \<noteq> CHR ''=''" "c \<noteq> CHR 0x0A" "\<not> is_space c"
  using assms by (auto simp: validKey_def list_all_iff is_alnum_def is_space_def Let_def)

lemma keysEqual_refl [simp]: "keysEqual key key matchMode"
  by (simp add: keysEqual_def list_all2_refl)

lemma strip_around:
  assumes "list_all p a" "list_all p b" "s \<noteq> []" "\<not> list_ex p s"
  shows "strip p (a @ s @ b) = s"
proof -
  have "dropWhile p (rev s) = rev s" using assms(4) by (cases s rule: rev_cases) (auto simp: list_ex_iff)
  with assms show ?thesis by (auto simp: strip_def list_all_iff list_ex_iff dropWhile_append)
qed

lemma strip_blank: "list_all p s \<Longrightarrow> strip p s = []"
  by (simp add: strip_def list_all_iff set_dropWhileD)

lemma indentation_blank: "list_all is_space (indentation line)" "CHR ''#'' \<notin> set (indentation line)"
  by (auto simp: indentation_def list_all_iff is_tab_or_space_def is_space_def dest: set_takeWhileD)

lemma before_hash: "CHR ''#'' \<notin> set a \<Longrightarrow> before_char (CHR ''#'') (a @ b) = a @ before_char (CHR ''#'') b"
  by (induction a) (auto simp: before_char_def)

text \<open>A line that is written for a flag carries it, and a line that it was removed from carries nothing.\<close>

lemma comment_starts: "comment_of line = Some c \<Longrightarrow> before_char (CHR ''#'') c = ''''"
  using hd_dropWhile[of "\<lambda>c. c \<noteq> CHR ''#''" line]
  by (auto simp: comment_of_def before_char_def takeWhile_eq_Nil_iff split: if_splits)

lemma active_enabled:
  assumes "validKey key"
  shows "active_part (flag_line key True line) = key"
proof -
  have "before_char (CHR ''#'') (comment_suffix line) \<in> {'''', '' ''}"
    using comment_starts[of line] by (auto simp: comment_suffix_def before_char_def split: option.split)
  then have blank: "list_all is_space (before_char (CHR ''#'') (comment_suffix line))" by (auto simp: is_space_def)
  have "\<not> list_ex is_space key" "key \<noteq> ''''" "CHR ''#'' \<notin> set key"
    using assms validKey_char[OF assms] by (auto simp: list_ex_iff validKey_def)
  then show ?thesis
    using strip_around[OF indentation_blank(1) blank] indentation_blank(2)[of line]
    by (simp add: active_part_def flag_line_def before_hash trimCopy_def)
qed

lemma active_disabled: "active_part (flag_line key False line) = ''''"
  using comment_starts[of line] indentation_blank[of line]
  by (cases "comment_of line") (simp_all add: active_part_def flag_line_def before_hash trimCopy_def strip_blank before_char_def[of _ "[]"])

lemma enabled_flag:
  assumes "validKey key" "active_part line = key"
  shows "parseFlagLine line key matchMode syntax = (True, False)"
proof -
  have "takeWhile (\<lambda>c. c \<noteq> CHR ''='' \<and> \<not> is_space c) key = key" "key \<noteq> ''''"
    using assms(1) validKey_char[OF assms(1)] by (auto simp: takeWhile_eq_all_conv validKey_def)
  then show ?thesis using assms(2) by (simp del: takeWhile_eq_all_conv add: parseFlagLine_def active_part_def)
qed

lemma written_flag:
  assumes "validKey key"
  shows "parseFlagLine (flag_line key enabled line) key matchMode syntax = (enabled, False)"
  using assms active_enabled[OF assms] active_disabled enabled_flag inactive_flag by (cases enabled) simp_all

section \<open>Files that carry a flag\<close>

definition other_lines ::
    "string \<Rightarrow> PamOptionKeyMatchMode \<Rightarrow> PamOptionFlagSyntax \<Rightarrow> string list \<Rightarrow> string list" where
  "other_lines key matchMode syntax lines =
     filter (\<lambda>l. active_part l \<noteq> '''' \<and> \<not> fst (parseFlagLine l key matchMode syntax)) lines"

definition stored_lines :: "'e option_files \<Rightarrow> string \<Rightarrow> 'e \<Rightarrow> string list" where
  "stored_lines files path e = getlines (case fst (readFile files path e) of Inr (Some c) \<Rightarrow> c | _ \<Rightarrow> '''')"

lemma other_lines_append [simp]:
  "other_lines key matchMode syntax (a @ b) = other_lines key matchMode syntax a @ other_lines key matchMode syntax b"
  by (simp add: other_lines_def)

lemma flag_line_newline:
  assumes "validKey key" "CHR 0x0A \<notin> set line"
  shows "CHR 0x0A \<notin> set (flag_line key enabled line)"
  using assms validKey_char(3)[OF assms(1)]
  by (auto simp: flag_line_def indentation_def comment_suffix_def comment_of_def
      split: option.splits if_splits dest: set_takeWhileD set_dropWhileD)

lemma rewritten_others:
  assumes "validKey key"
  shows "other_lines key matchMode syntax
      (map (\<lambda>l. if fst (parseFlagLine l key matchMode syntax) then flag_line key enabled l else l) lines) =
    other_lines key matchMode syntax lines"
proof (induction lines)
  case (Cons l lines)
  have "active_part (flag_line key enabled l) = '''' \<or> fst (parseFlagLine (flag_line key enabled l) key matchMode syntax)"
    using active_disabled written_flag[OF assms] by (cases enabled) auto
  with Cons show ?case by (auto simp: other_lines_def)
qed (simp add: other_lines_def)

lemma set_flag_lines_result:
  assumes "validKey key" "set_flag_lines key enabled matchMode syntax lines = Some new"
    and "\<forall>l \<in> set lines. CHR 0x0A \<notin> set l"
  shows "flag_state path key enabled matchMode syntax new = Inr ()"
    and "other_lines key matchMode syntax new = other_lines key matchMode syntax lines"
    and "\<forall>l \<in> set new. CHR 0x0A \<notin> set l"
proof -
  let ?flag = "\<lambda>l. fst (parseFlagLine l key matchMode syntax)" and ?bad = "\<lambda>l. snd (parseFlagLine l key matchMode syntax)"
  define rest where "rest = (if enabled \<and> \<not> list_ex ?flag lines then [key] else [])"
  have new: "new = map (\<lambda>l. if ?flag l then flag_line key enabled l else l) lines @ rest" and good: "\<not> list_ex ?bad lines"
    using assms(2) by (auto simp: set_flag_lines_def Let_def rest_def split: if_splits)
  have key: "active_part key = key" "CHR 0x0A \<notin> set key"
    using active_enabled[OF assms(1), of "''''"] validKey_char(3)[OF assms(1)]
    by (auto simp: flag_line_def indentation_def comment_suffix_def comment_of_def)
  note flags = written_flag[OF assms(1)] enabled_flag[OF assms(1) key(1)]
  have step: "parseFlagLine (if ?flag l then flag_line key enabled l else l) key matchMode syntax =
      (enabled \<and> ?flag l, \<not> ?flag l \<and> ?bad l)" for l
    using flags(1) by (cases "parseFlagLine l key matchMode syntax") simp
  have "list_ex ?flag new \<longleftrightarrow> enabled \<and> list_ex ?flag lines \<or> list_ex ?flag rest"
    unfolding new list_ex_append by (induction lines) (auto simp: step)
  moreover have "\<not> list_ex ?bad (map (\<lambda>l. if ?flag l then flag_line key enabled l else l) lines)"
    using good by (induction lines) (simp_all add: step)
  ultimately have "\<not> list_ex ?bad new" "list_ex ?flag new = enabled"
    using flags(2) by (auto simp: new rest_def)
  then show "flag_state path key enabled matchMode syntax new = Inr ()"
    by (simp add: flag_state_def list_ex_iff Let_def)
  show "other_lines key matchMode syntax new = other_lines key matchMode syntax lines"
    using rewritten_others[OF assms(1)] flags by (simp add: new rest_def other_lines_def)
  show "\<forall>l \<in> set new. CHR 0x0A \<notin> set l"
    using assms(3) key(2) flag_line_newline[OF assms(1)] by (auto simp: new rest_def)
qed

text \<open>
  C25. Setting a flag holds what it promises. A success of \<open>setFlag\<close> leaves a file in which \<open>hasFlag\<close> finds
  the flag as requested, with every other active line kept; a failure is an unreadable or malformed
  file that is left alone, or a write that failed. The check after a successful write never fails.
\<close>

theorem set_flag_read_back:
  assumes reading: "\<And>e. snd (readFile files path e) = e"
    and writing: "\<And>content e u e'. writer files path content e = (Inr u, e') \<Longrightarrow> fst (readFile files path e') = Inr (Some content)"
  shows "case setFlag files path key enabled matchMode syntax e of
     (Inr u, e') \<Rightarrow> hasFlag files path key enabled matchMode syntax e' = (Inr (), e') \<and>
       other_lines key matchMode syntax (stored_lines files path e') = other_lines key matchMode syntax (stored_lines files path e)
   | (Inl error, e') \<Rightarrow> e' = e \<or> (\<exists>content. writer files path content e = (Inl error, e'))"
proof -
  have read: "readFile files path x = (fst (readFile files path x), x)" for x using reading[of x] by (metis prod.collapse)
  consider (invalid) "\<not> validKey key" | (unreadable) error where "validKey key" "readFile files path e = (Inl error, e)"
    | (missing) "validKey key" "readFile files path e = (Inr None, e)" "\<not> enabled"
    | (change) original where "validKey key" "readFile files path e = (Inr original, e)" "original \<noteq> None \<or> enabled"
    using read[of e] by (cases "fst (readFile files path e)") auto
  then show ?thesis
  proof cases
    case change
    let ?lines = "getlines (case original of None \<Rightarrow> '''' | Some content \<Rightarrow> content)"
    have lines: "\<forall>l \<in> set ?lines. CHR 0x0A \<notin> set l" using getlines_parts by blast
    have old: "stored_lines files path e = ?lines" by (simp add: stored_lines_def change(2) split: option.split)
    show ?thesis
    proof (cases "set_flag_lines key enabled matchMode syntax ?lines")
      case None
      then show ?thesis using change by (auto simp: setFlag_def)
    next
      case (Some new)
      note result = set_flag_lines_result[OF change(1) Some lines]
      obtain r e' where w: "writer files path (unlines new) e = (r, e')" by fastforce
      show ?thesis
      proof (cases r)
        case Inl
        then show ?thesis using change Some w by (auto simp: setFlag_def)
      next
        case Inr
        then have after: "readFile files path e' = (Inr (Some (unlines new)), e')" using writing w read[of e'] by simp
        have ok: "hasFlag files path key enabled matchMode syntax e' = (Inr (), e')"
          using after change(1) result(1,3) by (simp add: hasFlag_def getlines_unlines)
        then have "setFlag files path key enabled matchMode syntax e = (Inr (), e')"
          using change Some w Inr by (auto simp: setFlag_def)
        then show ?thesis using ok after old result(2,3) by (simp add: stored_lines_def getlines_unlines)
      qed
    qed
  qed (simp_all add: setFlag_def hasFlag_def)
qed

text \<open>A store that keeps every file that is written.\<close>

definition memory_files :: "(string \<Rightarrow> string option) option_files" where
  "memory_files = \<lparr> readFile = (\<lambda>path m. (Inr (m path), m)), writer = (\<lambda>path content m. (Inr (), m(path := Some content))) \<rparr>"

theorem set_flag_read_back_witness:
  "case setFlag memory_files ''f'' ''even_deny_root'' True CaseSensitive BareOnly (\<lambda>_. Some ''deny = 3'') of
     (Inr u, e') \<Rightarrow> hasFlag memory_files ''f'' ''even_deny_root'' True CaseSensitive BareOnly e' = (Inr (), e') \<and>
       other_lines ''even_deny_root'' CaseSensitive BareOnly (stored_lines memory_files ''f'' e') = [''deny = 3'']
   | (Inl error, e') \<Rightarrow> False"
proof -
  let ?m = "(\<lambda>_. Some ''deny = 3'') :: string \<Rightarrow> string option"
  have one: "other_lines ''even_deny_root'' CaseSensitive BareOnly (stored_lines memory_files ''f'' ?m) = [''deny = 3'']"
    by (simp add: memory_files_def stored_lines_def) code_simp
  have two: "isl (fst (setFlag memory_files ''f'' ''even_deny_root'' True CaseSensitive BareOnly ?m)) = False"
    by code_simp
  show ?thesis
    using set_flag_read_back[of memory_files "''f''" ?m "''even_deny_root''" True CaseSensitive BareOnly] one two
    by (auto simp: memory_files_def split: prod.splits sum.splits)
qed


end
