(* ===== verification/Spec2Isabelle.thy ===== *)
theory Spec2Isabelle
  imports IncidentReporter IncidentRefinement LoginGate PreLogin PamLockout PamStackProps PamOptionProps
begin

text \<open>
  A verification library for FIC, an integrity control daemon for Linux workstations. The daemon
  (\<open>fic\<close>) applies security policies in the order of their dependencies, watches that they stay
  applied, and keeps a persistent incident: a severity from \<open>UNLOCKED\<close> to \<open>ISOLATE\<close> that only an
  administrator lowers. While an incident stands, sessions are terminated, the network is cut and the
  PAM module \<open>pam_fic_incident_access\<close> refuses ordinary logins. The policies of the PAM part rely on an
  analyzer that decides whether a PAM stack really enforces what it is configured for.

  \<^bold>\<open>Parts and theories.\<close>

  \<^item> Language and system. \<open>Prelude\<close> has exceptions as values, the ordered containers and the string and
    number functions that the sources use. \<open>FileSystem\<close> is the interface of the kernel: inodes, directory
    entries with the values they may have after a power loss, and system calls that take their outcome
    from a schedule. \<open>IoLogic\<close> is the calculus of weakest preconditions for code that makes such calls.
    \<open>Json\<close> is the value type of the JSON library.
  \<^item> Files (\<open>fic-common/fic-core/src/fs\<close>). \<open>AtomicFile\<close> models \<open>AtomicFileWriter.cpp\<close>, \<open>SecureState\<close> models
    \<open>SecureStateFile.cpp\<close>; \<open>AtomicFileProps\<close>, \<open>AtomicRemoval\<close> and \<open>SecureStateProps\<close> have their guarantees
    under faults, deaths of the process and power losses, \<open>FaultFree\<close> their success without faults.
  \<^item> Incident state (\<open>fic/src/incident\<close>). \<open>IncidentSeverity\<close> is the scale. \<open>IncidentStateStore\<close> models
    \<open>IncidentStateStore.cpp\<close>; \<open>IncidentStateProps\<close> says what each operation leaves, \<open>IncidentLatch\<close> that no
    sequence of operations and crashes lowers the incident, \<open>IncidentRefinement\<close> that the confirmed
    operations are those of a variable with one severity. \<open>TargetStore\<close> and \<open>TargetStoreProps\<close> treat
    \<open>IncidentSessionTargetStore.cpp\<close> the same way.
  \<^item> Incident response. \<open>IncidentModes\<close> (\<open>ConfigAuthority.cpp\<close>, \<open>IncidentResponseMode.cpp\<close>,
    \<open>IncidentRecoveryConfigReader.cpp\<close>), \<open>SecurityAudit\<close> (\<open>SecurityAudit.cpp\<close>) and \<open>IncidentController\<close>
    (\<open>IncidentController.cpp\<close>: raise, clear, status, reconcile with containment); \<open>ControllerProps\<close>
    carries one invariant through the phases of an operation and \<open>ControllerContract\<close> states what callers
    get. \<open>IncidentReporter\<close> (\<open>PolicyIncidentReporter.cpp\<close>) turns the summary of a pass into a raise.
  \<^item> Login. \<open>ReadinessStatus\<close> (\<open>DaemonReadiness.h\<close>, \<open>FicReadinessStatus.cpp\<close>, \<open>IncidentAccessClient.cpp\<close>),
    \<open>AccessGate\<close> (\<open>IncidentAccessGateCore.cpp\<close>) and \<open>LoginGate\<close>, which joins them with the controller from
    the state file to the answer of PAM; \<open>PreLogin\<close> (\<open>fic-prelogin\<close>) is the screen before the login
    manager.
  \<^item> Policies (\<open>fic-common/fic-policy\<close>, \<open>fic/src/policy\<close>). \<open>PolicyValue\<close>, \<open>ModuleConfig\<close>, \<open>PolicyDomain\<close>,
    \<open>PolicyRegistry\<close>, \<open>DependencyGraph\<close>, \<open>RegistryOps\<close>, \<open>Logging\<close> and \<open>Planner\<close> follow the files of the
    same names: values and their stored form, the registry, validation of dependencies, the planner.
  \<^item> PAM stacks (\<open>fic/src/modules/identity_access/pam\<close>). \<open>PamCatalog\<close> has the platform profile and the
    providers, \<open>PamConfiguration\<close> the parser and the effective stack, \<open>PamOptionFile\<close> the option files,
    \<open>PamFlow\<close> the control-flow analyzer. \<open>PamFlowProps\<close> defines the runs of a stack and shows that the
    symbolic execution finds exactly these; \<open>PamLockout\<close> draws the conclusion for lockout stacks,
    \<open>PamStackProps\<close> for the shape of stacks, \<open>PamOptionProps\<close> for option files. \<open>PamExamples\<close> is a sample
    host, parsed and analysed from its text.

  \<^bold>\<open>Correspondence.\<close> Structs are records, enums are datatypes, and every operation is one definition
  that keeps the name of the source where it is free. Operations on files run in the state monad over a
  \<open>world\<close>, that is a file system with its schedule; the controller runs in a monad of exceptions over
  world and collaborators. Exceptions and error strings are values of a sum type, so that every early
  return is a branch. Code that is not in the repository is a parameter: collaborators of the
  controller, \<open>dump\<close> and \<open>parse\<close> of the JSON library, account databases, the effect of \<open>Policy::apply\<close>.
  Of the PAM part, locating and reading service files (\<open>pam_files\<close>) and reading and writing option files
  (\<open>option_files\<close>) are parameters as well.

  \<^bold>\<open>What the theorems show.\<close>

  \<^item> Durability and honesty of files: after any fault or crash the target of a write is the old or the
    complete new content; result flags are true; a removal removes only what was proven.
  \<^item> The latch: the incident never falls except by a clear, a reported severity stands on disk, an
    unprovable state counts as \<open>ISOLATE\<close>, and only users that are recorded durably lose their sessions.
  \<^item> From state to login: an incident denies every login that is not exempt; the pre-login screen hands
    over only after an uninterrupted proven window.
  \<^item> Policies: validation accepts exactly the acyclic registries, a pass always returns, runs a policy
    only after what it requires, and raises the highest severity of what failed; stored values are read
    back.
  \<^item> PAM: an effective lockout analysis and the flags of the password analysis are statements about all
    runs of the stack; effective stacks respect the limits; a flag that was set is read back.
  \<^item> Some theorems record where the code departs from its documentation: the raise that skips the
    barrier, the exclusive installation that publishes and fails, integers with a tail, values with a
    comment sign, and \<open>PAM_IGNORE\<close> under \<open>required\<close>.

  \<^bold>\<open>Bounds.\<close> Recursion that the code bounds is bounded the same way: \<open>buildEffectiveStackRecursive\<close> and
  \<open>executeStack\<close> count the levels left, 33 at the start, which is the limit of 32 inclusions of the
  code; \<open>PamStackProps\<close> shows that more levels would not change the execution of a stack that was built.
  The retries of the state store and the read and write loops have the bounds of the code. The depth-first
  searches over policies terminate on the number of policies not yet visited.

  \<^bold>\<open>Interfaces.\<close> \<open>std_map\<close> (ordered containers), \<open>policy_directory\<close> (what graph and planner need of the
  registry) and \<open>crash_latch\<close> (what one step of a store owes), each interpreted on the model.

  \<^bold>\<open>Not modelled.\<close> The policies themselves (SSSD, Kerberos, sudo, SSH, sysctl, GRUB, desktop, file modes and
  so on) act through external programs and files; for the planner they are a parameter. The PAM writers and
  topology managers are transactions around \<open>pam-auth-update\<close> and package scripts. The mutation journal and the
  device database are SQL over SQLite. Sockets, D-Bus, logind, udev, sysfs, process execution and the Qt
  clients are I/O. Threads are not modelled: the controller and the stores hold a lock for the whole of an
  operation, so that operations are modelled as sequential steps; other processes appear as interference
  in the schedule. Hooks and overrides that only tests set are left out.
\<close>

end
